(* ===== verification/Prelude.thy ===== *)
theory Prelude
  imports Main "HOL-Library.Product_Lexorder"
begin

text \<open>
  Shared vocabulary of the development.

  \<^item> \<open>exn\<close>: the exceptions the service layer lets escape.  \<open>AppErr code status\<close> is
    \<^verbatim>\<open>AppError\<close> of \<^verbatim>\<open>core/errors.py\<close> (its title, detail, errors and headers are display
    data and are left out), \<open>IntegrityErr c\<close> is SQLAlchemy's \<^verbatim>\<open>IntegrityError\<close> on the constraint
    named \<open>c\<close> (\<open>[]\<close> when the driver reports none), \<open>RuntimeErr\<close> any other exception.
  \<^item> \<open>patch\<close>: a field of a PATCH payload, unset or assigned (\<^verbatim>\<open>model_fields_set\<close> and
    \<^verbatim>\<open>exclude_unset=True\<close>).
  \<^item> \<open>table\<close>: a database table, its rows in insertion order and the next auto-increment key; the
    queries of the repositories are written with \<open>get_row\<close>, \<open>insert_row\<close>, \<open>update_where\<close>,
    \<open>delete_where\<close> and list filters.
  \<^item> \<open>in_tx\<close>: one transaction (\<^verbatim>\<open>db/session.py\<close>): commit on return, rollback when an
    exception escapes.
\<close>

section \<open>Collections of facts\<close>

named_theorems table_simps \<open>reading a table after a write\<close>
named_theorems inv_intros \<open>preservation of the state invariants, one fact per operation\<close>

section \<open>Exceptions and results\<close>

datatype exn =
    AppErr (exn_code: string) (exn_status: int)
  | IntegrityErr (exn_constraint: string)
  | RuntimeErr string

definition guard :: "bool \<Rightarrow> exn \<Rightarrow> exn + unit" where
  "guard b e = (if b then Inr () else Inl e)"

fun bind_res :: "exn + 'a \<Rightarrow> ('a \<Rightarrow> exn + 'b) \<Rightarrow> exn + 'b" where
  "bind_res (Inl e) f = Inl e"
| "bind_res (Inr x) f = f x"

lemma guard_simps [simp]:
  "guard True e = Inr ()" "guard False e = Inl e"
  by (simp_all add: guard_def)

lemma guard_Inr_iff [simp]: "guard b e = Inr u \<longleftrightarrow> b"
  by (simp add: guard_def)

lemma guard_Inl_iff [simp]: "guard b e = Inl e' \<longleftrightarrow> \<not> b \<and> e' = e"
  by (auto simp: guard_def)

lemma bind_res_Inr_iff: "bind_res r f = Inr y \<longleftrightarrow> (\<exists>x. r = Inr x \<and> f x = Inr y)"
  by (cases r) auto

lemma bind_res_Inl_iff:
  "bind_res r f = Inl e \<longleftrightarrow> r = Inl e \<or> (\<exists>x. r = Inr x \<and> f x = Inl e)"
  by (cases r) auto

definition in_tx :: "('s \<Rightarrow> exn + 'a \<times> 's) \<Rightarrow> 's \<Rightarrow> (exn + 'a) \<times> 's" where
  "in_tx f s = (case f s of Inl e \<Rightarrow> (Inl e, s) | Inr (x, s') \<Rightarrow> (Inr x, s'))"

lemma in_tx_error_keeps_state: "in_tx f s = (Inl e, s') \<Longrightarrow> s' = s"
  by (auto simp: in_tx_def split: sum.splits)

text \<open>Instants are integers, UTC microseconds; \<open>secs n\<close> is \<open>n\<close> seconds.\<close>

definition secs :: "int \<Rightarrow> int" where
  "secs n = n * 1000000"

section \<open>PATCH fields\<close>

datatype 'a patch = Unset | Assign 'a

fun patched :: "'a patch \<Rightarrow> 'a \<Rightarrow> 'a" where
  "patched Unset old = old"
| "patched (Assign v) old = v"

fun is_set :: "'a patch \<Rightarrow> bool" where
  "is_set Unset = False"
| "is_set (Assign v) = True"

text \<open>
  A column declared NOT NULL, patched from a payload field of type \<open>'a option\<close>: an explicit
  null reaches the UPDATE and the database refuses it.
\<close>

fun null_patch :: "'a option patch \<Rightarrow> bool" where
  "null_patch (Assign None) = True"
| "null_patch _ = False"

fun patched_nn :: "'a option patch \<Rightarrow> 'a \<Rightarrow> 'a" where
  "patched_nn (Assign (Some v)) old = v"
| "patched_nn _ old = old"

section \<open>Tables\<close>

record 'r table =
  rows :: "'r list"
  seq :: int

definition empty_table :: "'r table" where
  "empty_table = \<lparr>rows = [], seq = 1\<rparr>"

definition get_row :: "('r \<Rightarrow> int) \<Rightarrow> 'r table \<Rightarrow> int \<Rightarrow> 'r option" where
  "get_row key t i = find (\<lambda>r. key r = i) (rows t)"

definition insert_row :: "(int \<Rightarrow> 'r) \<Rightarrow> 'r table \<Rightarrow> 'r \<times> 'r table" where
  "insert_row mk t =
     (mk (seq t), t\<lparr>rows := rows t @ [mk (seq t)], seq := seq t + 1\<rparr>)"

definition update_where :: "('r \<Rightarrow> bool) \<Rightarrow> ('r \<Rightarrow> 'r) \<Rightarrow> 'r table \<Rightarrow> 'r table" where
  "update_where p f t = t\<lparr>rows := map (\<lambda>r. if p r then f r else r) (rows t)\<rparr>"

definition delete_where :: "('r \<Rightarrow> bool) \<Rightarrow> 'r table \<Rightarrow> 'r table" where
  "delete_where p t = t\<lparr>rows := filter (\<lambda>r. \<not> p r) (rows t)\<rparr>"

definition table_ok :: "('r \<Rightarrow> int) \<Rightarrow> 'r table \<Rightarrow> bool" where
  "table_ok key t \<longleftrightarrow> distinct (map key (rows t)) \<and> (\<forall>r \<in> set (rows t). key r < seq t)"

lemma rows_insert_row [table_simps]:
  "insert_row mk t = (r, t') \<Longrightarrow> rows t' = rows t @ [r] \<and> r = mk (seq t) \<and> seq t' = seq t + 1"
  by (auto simp: insert_row_def)

lemma rows_update_where [table_simps]:
  "rows (update_where p f t) = map (\<lambda>r. if p r then f r else r) (rows t)"
  "seq (update_where p f t) = seq t"
  by (simp_all add: update_where_def)

lemma ball_update_where:
  "(\<forall>r \<in> set (rows (update_where p f t)). Q r) \<longleftrightarrow>
     (\<forall>r \<in> set (rows t). (p r \<longrightarrow> Q (f r)) \<and> (\<not> p r \<longrightarrow> Q r))"
  unfolding update_where_def by auto

lemma mem_update_where:
  "x \<in> set (rows (update_where p f t)) \<longleftrightarrow>
     (\<exists>r \<in> set (rows t). x = (if p r then f r else r))"
  unfolding update_where_def by (simp add: image_iff del: if_image_distrib)

lemma rows_delete_where [table_simps]:
  "rows (delete_where p t) = filter (\<lambda>r. \<not> p r) (rows t)"
  "seq (delete_where p t) = seq t"
  by (simp_all add: delete_where_def)

lemma table_ok_empty [inv_intros]: "table_ok key empty_table"
  by (simp add: table_ok_def empty_table_def)

lemma table_ok_insert:
  assumes "table_ok key t" and "insert_row mk t = (r, t')" and "\<And>i. key (mk i) = i"
  shows "table_ok key t'"
  using assms by (fastforce simp: table_ok_def insert_row_def)

lemma table_ok_update:
  assumes "table_ok key t" and keep: "\<And>r. key (f r) = key r"
  shows "table_ok key (update_where p f t)"
proof -
  have "map key (map (\<lambda>r. if p r then f r else r) (rows t)) = map key (rows t)"
    using keep by simp
  then show ?thesis
    using assms(1) keep unfolding table_ok_def rows_update_where
    by (simp only: set_map) auto
qed

lemma table_ok_delete: "table_ok key t \<Longrightarrow> table_ok key (delete_where p t)"
  by (auto simp: table_ok_def delete_where_def distinct_map_filter)

lemma get_row_SomeD: "get_row key t i = Some r \<Longrightarrow> r \<in> set (rows t) \<and> key r = i"
  by (auto simp: get_row_def find_Some_iff)

lemma get_row_None_iff: "get_row key t i = None \<longleftrightarrow> (\<forall>r \<in> set (rows t). key r \<noteq> i)"
  by (auto simp: get_row_def find_None_iff)

lemma get_row_Some_iff:
  assumes "table_ok key t"
  shows "get_row key t i = Some r \<longleftrightarrow> r \<in> set (rows t) \<and> key r = i"
proof
  assume r: "r \<in> set (rows t) \<and> key r = i"
  then obtain q where q: "get_row key t i = Some q"
    using get_row_None_iff [of key t i] by (cases "get_row key t i") auto
  then have "q \<in> set (rows t)" "key q = i" by (auto dest: get_row_SomeD)
  with r assms have "q = r" by (auto simp: table_ok_def distinct_map inj_on_def)
  with q show "get_row key t i = Some r" by simp
qed (rule get_row_SomeD)

lemma get_row_inj:
  "table_ok key t \<Longrightarrow> r \<in> set (rows t) \<Longrightarrow> q \<in> set (rows t) \<Longrightarrow> key r = key q \<Longrightarrow> r = q"
  by (auto simp: table_ok_def distinct_map inj_on_def)

lemma get_row_exists_iff: "get_row key t i \<noteq> None \<longleftrightarrow> i \<in> key ` set (rows t)"
  by (auto simp: get_row_None_iff)

lemma keys_update_where:
  "(\<And>r. key (f r) = key r) \<Longrightarrow> map key (rows (update_where p f t)) = map key (rows t)"
  by (simp add: rows_update_where)

lemma table_ok_append:
  "table_ok key t \<Longrightarrow> key x = seq t \<Longrightarrow> table_ok key (t\<lparr>rows := rows t @ [x], seq := seq t + 1\<rparr>)"
  by (auto simp: table_ok_def)

text \<open>A unique column after one row is changed to an unused value.\<close>

lemma distinct_codes_update:
  assumes "distinct (map key xs)" "distinct (map code xs)" "\<And>y. key (f y) = key y"
    and "\<forall>y \<in> set xs. key y \<noteq> i \<longrightarrow> code y \<noteq> c" "\<forall>y \<in> set xs. key y = i \<longrightarrow> code (f y) = c"
  shows "distinct (map code (map (\<lambda>y. if key y = i then f y else y) xs))"
  using assms
proof (induction xs)
  case (Cons x xs)
  show ?case
  proof (cases "key x = i")
    case True
    then have n: "key y \<noteq> i" if "y \<in> set xs" for y using Cons.prems(1) that
      by (simp add: True [symmetric] image_iff) metis
    then have "map (\<lambda>y. if key y = i then f y else y) xs = xs" by (auto intro: map_idI)
    moreover have "code (f x) \<notin> code ` set xs" using Cons.prems(4,5) n True by force
    ultimately show ?thesis using True Cons.prems(2) by simp
  next
    case False
    have "code x \<notin> code ` (\<lambda>y. if key y = i then f y else y) ` set xs"
    proof
      assume "code x \<in> code ` (\<lambda>y. if key y = i then f y else y) ` set xs"
      then obtain y where y: "y \<in> set xs" "code x = code (if key y = i then f y else y)" by blast
      show False using y Cons.prems(2,4,5) False by (cases "key y = i") auto
    qed
    moreover have "distinct (map code (map (\<lambda>y. if key y = i then f y else y) xs))"
      using Cons by simp
    ultimately show ?thesis using False by (simp del: if_image_distrib add: image_image)
  qed
qed simp

section \<open>Lists\<close>

text \<open>\<^verbatim>\<open>list(dict.fromkeys(xs))\<close>: first occurrences, in order.\<close>

fun dedupe :: "'a list \<Rightarrow> 'a list" where
  "dedupe [] = []"
| "dedupe (x # xs) = x # dedupe (filter (\<lambda>y. y \<noteq> x) xs)"

lemma set_dedupe [simp]: "set (dedupe xs) = set xs"
  by (induction xs rule: dedupe.induct) auto

lemma distinct_dedupe [simp]: "distinct (dedupe xs)"
  by (induction xs rule: dedupe.induct) auto

lemma dedupe_distinct: "distinct xs \<Longrightarrow> dedupe xs = xs"
proof (induction xs rule: dedupe.induct)
  case (2 x xs)
  then have "filter (\<lambda>y. y \<noteq> x) xs = xs" by (auto intro: filter_True)
  with 2 show ?case by simp
qed simp

lemma dedupe_dedupe [simp]: "dedupe (dedupe xs) = dedupe xs"
  by (rule dedupe_distinct) simp

lemma filter_map_comm: "(\<And>x. P (f x) = P x) \<Longrightarrow> filter P (map f xs) = map f (filter P xs)"
  by (induction xs) auto

lemma filter_unique:
  "distinct xs \<Longrightarrow> r \<in> set xs \<Longrightarrow> P r \<Longrightarrow>
     (\<And>q. q \<in> set xs \<Longrightarrow> P q \<Longrightarrow> q = r) \<Longrightarrow> filter P xs = [r]"
proof (induction xs)
  case (Cons x xs)
  show ?case
  proof (cases "x = r")
    case True
    then have "\<forall>q \<in> set xs. \<not> P q" using Cons.prems(1,4) by (metis distinct.simps(2) list.set_intros(2))
    then have "filter P xs = []" by (simp add: filter_empty_conv)
    with True Cons.prems(3) show ?thesis by simp
  next
    case False
    then have x: "\<not> P x" using Cons.prems(4) [of x] by (metis list.set_intros(1))
    have "filter P xs = [r]"
    proof (rule Cons.IH)
      show "r \<in> set xs" using False Cons.prems(2) by simp
      show "q = r" if "q \<in> set xs" "P q" for q
        using that by (intro Cons.prems(4)) simp_all
    qed (use Cons.prems(1,3) in simp_all)
    with x show ?thesis by simp
  qed
qed simp

lemma set_drop_take_disjoint: "distinct xs \<Longrightarrow> set (take n xs) \<inter> set (drop n xs) = {}"
  by (metis append_take_drop_id distinct_append)

lemma set_take_drop_minus: "distinct xs \<Longrightarrow> set xs - set (drop n xs) = set (take n xs)"
proof -
  assume d: "distinct xs"
  have "set xs = set (take n xs) \<union> set (drop n xs)"
    by (metis append_take_drop_id set_append)
  with set_drop_take_disjoint [OF d, of n] show ?thesis by blast
qed

end
