(* ===== verification/Schema.thy ===== *)
theory Schema
  imports Prelude
begin

text \<open>
  The database: one record per ORM model of \<^verbatim>\<open>domains/*/models.py\<close> and the record \<open>db\<close> of
  all tables.  Enumerated columns (CHECK constraints and \<^verbatim>\<open>Literal\<close> payload types) are datatypes,
  datetimes are integers (UTC microseconds), UUIDs their 128-bit integers.  The association tables
  \<^verbatim>\<open>user_roles\<close>, \<^verbatim>\<open>role_depts\<close>, \<^verbatim>\<open>role_menus\<close>, \<^verbatim>\<open>user_posts\<close> are lists of key pairs: their
  surrogate id and timestamps are never read.  \<^verbatim>\<open>updated_at\<close> is written by the database only and
  is left out.
\<close>

section \<open>Enumerated columns\<close>

datatype status = Active | Disabled

datatype scope_type = ScopeAll | ScopeCustomDept | ScopeSelfDept | ScopeSelfDeptAndBelow | ScopeSelf

datatype menu_type = MenuM | MenuC | MenuF

datatype file_status = FileActive | FileDeleted

datatype notice_type = Notification | Announcement

datatype task_status = TaskEnabled | TaskDisabled

datatype log_status = LogWaiting | LogRunning | LogSuccess | LogFailure | LogMisfire | LogSkipped

datatype trigger_type = TrigSchedule | TrigManual

text \<open>JSON columns and audit metadata; an object is its list of items.\<close>

datatype json = JNull | JBool bool | JNum int | JStr string | JList "json list"
  | JObj "(string \<times> json) list"

section \<open>Rows\<close>

record user =
  u_id :: int
  u_username :: string
  u_password_hash :: string
  u_nickname :: string
  u_status :: status
  u_super :: bool
  u_dept :: "int option"
  u_created :: int

record dept =
  d_id :: int
  d_parent :: "int option"
  d_name :: string
  d_code :: string
  d_sort :: int
  d_status :: status
  d_leader :: "string option"
  d_phone :: "string option"
  d_email :: "string option"

record role =
  r_id :: int
  r_name :: string
  r_code :: string
  r_scope :: scope_type
  r_sort :: int
  r_status :: status
  r_created :: int

record menu =
  m_id :: int
  m_parent :: "int option"
  m_name :: string
  m_type :: menu_type
  m_path :: string
  m_component :: "string option"
  m_perms :: "string option"
  m_icon :: string
  m_sort :: int
  m_visible :: bool
  m_status :: status
  m_seed :: "string option"

record post =
  p_id :: int
  p_name :: string
  p_code :: string
  p_sort :: int
  p_status :: status
  p_created :: int

record refresh_token =
  rt_id :: int
  rt_jti :: int
  rt_family :: int
  rt_user :: int
  rt_hash :: string
  rt_rotated_to :: "int option"
  rt_revoked_at :: "int option"
  rt_revoked_reason :: "string option"
  rt_issued_at :: int
  rt_expires_at :: int
  rt_absolute_at :: int
  rt_last_used :: "int option"

record login_log =
  ll_id :: int
  ll_username :: string
  ll_user :: "int option"
  ll_status :: string
  ll_reason :: "string option"
  ll_at :: int

record file_row =
  f_id :: int
  f_key :: string
  f_backend :: string
  f_name :: string
  f_ctype :: string
  f_size :: int
  f_sha :: string
  f_uploader :: int
  f_status :: file_status
  f_deleted :: "int option"

record config =
  cf_id :: int
  cf_name :: string
  cf_key :: string
  cf_value :: string
  cf_builtin :: bool
  cf_remark :: "string option"

record dict_type =
  dt_id :: int
  dt_name :: string
  dt_type :: string
  dt_status :: status
  dt_builtin :: bool
  dt_remark :: "string option"

record dict_data =
  dd_id :: int
  dd_type :: int
  dd_label :: string
  dd_value :: string
  dd_sort :: int
  dd_status :: status
  dd_default :: bool
  dd_css :: "string option"
  dd_remark :: "string option"

record notice =
  n_id :: int
  n_title :: string
  n_type :: notice_type
  n_content :: string
  n_status :: status
  n_remark :: "string option"

record scheduled_task =
  st_id :: int
  st_name :: string
  st_handler :: string
  st_params :: "(string \<times> json) list"
  st_cron :: string
  st_tz :: string
  st_status :: task_status
  st_concurrent :: bool
  st_grace :: int
  st_timeout :: "int option"
  st_last_run :: "int option"
  st_last_status :: "log_status option"
  st_remark :: "string option"

record task_log =
  tl_id :: int
  tl_task :: "int option"
  tl_exec :: int
  tl_trigger :: trigger_type
  tl_scheduled :: "int option"
  tl_handler :: string
  tl_params :: "(string \<times> json) list"
  tl_status :: log_status
  tl_started :: "int option"
  tl_finished :: "int option"
  tl_duration :: "int option"
  tl_error :: "string option"
  tl_message :: "string option"
  tl_summary :: "string option"
  tl_worker :: "string option"
  tl_actor :: "int option"

section \<open>Audit events\<close>

text \<open>
  \<^verbatim>\<open>audit/events.py\<close>: the fields of the envelope that identify the event, its actor, its target
  and its outcome.
\<close>

record audit_event =
  ev_type :: string
  ev_action :: string
  ev_actor :: "int option"
  ev_target :: "int option"
  ev_display :: "string option"
  ev_status :: string
  ev_http :: "int option"
  ev_error :: "string option"
  ev_risk :: string
  ev_ttype :: "string option"

section \<open>The database\<close>

record db =
  users :: "user table"
  depts :: "dept table"
  roles :: "role table"
  menus :: "menu table"
  posts :: "post table"
  user_roles :: "(int \<times> int) list"
  role_depts :: "(int \<times> int) list"
  role_menus :: "(int \<times> int) list"
  user_posts :: "(int \<times> int) list"
  tokens :: "refresh_token table"
  files :: "file_row table"
  configs :: "config table"
  dict_types :: "dict_type table"
  dict_datas :: "dict_data table"
  notices :: "notice table"
  sched_tasks :: "scheduled_task table"
  task_logs :: "task_log table"
  audit_rows :: "audit_event list"

definition empty_db :: db where
  "empty_db = \<lparr>users = empty_table, depts = empty_table, roles = empty_table,
     menus = empty_table, posts = empty_table, user_roles = [], role_depts = [],
     role_menus = [], user_posts = [], tokens = empty_table, files = empty_table,
     configs = empty_table, dict_types = empty_table, dict_datas = empty_table,
     notices = empty_table, sched_tasks = empty_table, task_logs = empty_table, audit_rows = []\<rparr>"

section \<open>Keys\<close>

definition user_keys_ok :: "db \<Rightarrow> bool" where
  "user_keys_ok d \<longleftrightarrow>
     table_ok u_id (users d) \<and> distinct (map u_username (rows (users d)))"

text \<open>
  \<^verbatim>\<open>users.super_admin_unique_key\<close> is a generated column with a unique index: at most one row is a
  super administrator.
\<close>

definition one_super :: "db \<Rightarrow> bool" where
  "one_super d \<longleftrightarrow> length (filter u_super (rows (users d))) \<le> 1"

definition get_user :: "db \<Rightarrow> int \<Rightarrow> user option" where
  "get_user d i = get_row u_id (users d) i"

definition find_user_by_name :: "db \<Rightarrow> string \<Rightarrow> user option" where
  "find_user_by_name d n = find (\<lambda>u. u_username u = n) (rows (users d))"

lemma get_user_SomeD: "get_user d i = Some u \<Longrightarrow> u \<in> set (rows (users d)) \<and> u_id u = i"
  unfolding get_user_def by (rule get_row_SomeD)

lemma find_user_by_name_SomeD:
  "find_user_by_name d n = Some u \<Longrightarrow> u \<in> set (rows (users d)) \<and> u_username u = n"
  by (auto simp: find_user_by_name_def find_Some_iff)

end
