(* ===== verification/PyText.thy ===== *)
theory PyText
  imports Prelude
begin

text \<open>
  The string operations of Python's standard library that the modelled code calls
  (\<^verbatim>\<open>str.strip\<close>, \<^verbatim>\<open>split\<close>, \<^verbatim>\<open>partition\<close>, \<^verbatim>\<open>replace\<close>, \<^verbatim>\<open>startswith\<close>, \<^verbatim>\<open>lower\<close>, \<^verbatim>\<open>int(s, 16)\<close>,
  \<^verbatim>\<open>uuid.UUID(s)\<close> and \<^verbatim>\<open>str(uuid)\<close>).  A string is a list of characters with code points
  below 256; a UUID is its 128-bit integer.
\<close>

section \<open>Prefixes, stripping, splitting, replacing\<close>

definition starts_with :: "string \<Rightarrow> string \<Rightarrow> bool" where
  "starts_with p s \<longleftrightarrow> take (length p) s = p"

definition py_ws :: "char \<Rightarrow> bool" where
  "py_ws c \<longleftrightarrow> c \<in> {CHR 0x09, CHR 0x0A, CHR 0x0B, CHR 0x0C, CHR 0x0D, CHR 0x1C, CHR 0x1D,
     CHR 0x1E, CHR 0x1F, CHR '' '', CHR 0x85, CHR 0xA0}"

definition strip_by :: "(char \<Rightarrow> bool) \<Rightarrow> string \<Rightarrow> string" where
  "strip_by p s = rev (dropWhile p (rev (dropWhile p s)))"

definition py_strip :: "string \<Rightarrow> string" where
  "py_strip s = strip_by py_ws s"

text \<open>\<^verbatim>\<open>s.partition(c)\<close>: the text before the first \<open>c\<close>, whether \<open>c\<close> occurs, the text after it.\<close>

definition py_partition :: "char \<Rightarrow> string \<Rightarrow> string \<times> bool \<times> string" where
  "py_partition c s = (takeWhile (\<lambda>x. x \<noteq> c) s, c \<in> set s, drop 1 (dropWhile (\<lambda>x. x \<noteq> c) s))"

text \<open>\<^verbatim>\<open>s.split(c)\<close> for a one-character separator.\<close>

fun py_split_on :: "char \<Rightarrow> string \<Rightarrow> string list" where
  "py_split_on c [] = [[]]"
| "py_split_on c (x # xs) =
     (if x = c then [] # py_split_on c xs
      else case py_split_on c xs of [] \<Rightarrow> [[x]] | w # ws \<Rightarrow> (x # w) # ws)"

text \<open>\<^verbatim>\<open>s.split()\<close>: the maximal runs of non-whitespace.\<close>

definition py_split :: "string \<Rightarrow> string list" where
  "py_split s =
     filter (\<lambda>w. w \<noteq> []) (py_split_on CHR '' '' (map (\<lambda>c. if py_ws c then CHR '' '' else c) s))"

function py_replace :: "string \<Rightarrow> string \<Rightarrow> string \<Rightarrow> string" where
  "py_replace old new [] = []"
| "py_replace old new (x # xs) =
     (if old \<noteq> [] \<and> starts_with old (x # xs)
      then new @ py_replace old new (drop (length old) (x # xs))
      else x # py_replace old new xs)"
  by pat_completeness auto
termination
proof (relation "measure (\<lambda>(old, new, s). length s)", goal_cases)
  case (2 old new x xs)
  then show ?case by (cases old) auto
qed auto

definition lower_char :: "char \<Rightarrow> char" where
  "lower_char c =
     (let n = (of_char c :: nat) in
      if 65 \<le> n \<and> n \<le> 90 \<or> 192 \<le> n \<and> n \<le> 222 \<and> n \<noteq> 215 then char_of (n + 32) else c)"

definition py_lower :: "string \<Rightarrow> string" where
  "py_lower s = map lower_char s"

text \<open>
  Three characters have no upper case in this range (the sharp s, the micro sign and y with
  diaeresis); they stay as they are.
\<close>

definition upper_char :: "char \<Rightarrow> char" where
  "upper_char c =
     (let n = (of_char c :: nat) in
      if 97 \<le> n \<and> n \<le> 122 \<or> 224 \<le> n \<and> n \<le> 254 \<and> n \<noteq> 247 then char_of (n - 32) else c)"

section \<open>Hexadecimal numbers\<close>

definition hex_val :: "char \<Rightarrow> int option" where
  "hex_val c =
     (let n = (of_char c :: nat) in
      if 48 \<le> n \<and> n \<le> 57 then Some (int n - 48)
      else if 97 \<le> n \<and> n \<le> 102 then Some (int n - 87)
      else if 65 \<le> n \<and> n \<le> 70 then Some (int n - 55)
      else None)"

definition hex_digit :: "int \<Rightarrow> char" where
  "hex_digit d = char_of (nat (if d < 10 then d + 48 else d + 87))"

fun hex_fixed :: "nat \<Rightarrow> int \<Rightarrow> string" where
  "hex_fixed 0 u = []"
| "hex_fixed (Suc n) u = hex_fixed n (u div 16) @ [hex_digit (u mod 16)]"

text \<open>
  The digits of \<^verbatim>\<open>int(s, 16)\<close>: single underscores may stand between two digits; \<open>prev\<close> says
  that the previous character was a digit.
\<close>

fun hex_scan :: "bool \<Rightarrow> int \<Rightarrow> string \<Rightarrow> int option" where
  "hex_scan prev acc [] = (if prev then Some acc else None)"
| "hex_scan prev acc (c # cs) =
     (if c = CHR ''_'' then (if prev then hex_scan False acc cs else None)
      else case hex_val c of None \<Rightarrow> None | Some d \<Rightarrow> hex_scan True (16 * acc + d) cs)"

definition hex_body :: "string \<Rightarrow> int option" where
  "hex_body s =
     (if starts_with ''0x'' s \<or> starts_with ''0X'' s
      then (case drop 2 s of
              [] \<Rightarrow> None
            | c # cs \<Rightarrow> if c = CHR ''_'' then hex_scan False 0 cs else hex_scan False 0 (c # cs))
      else hex_scan False 0 s)"

definition py_int16 :: "string \<Rightarrow> int option" where
  "py_int16 s =
     (case py_strip s of
        [] \<Rightarrow> None
      | c # cs \<Rightarrow>
          if c = CHR ''-'' then map_option uminus (hex_body cs)
          else if c = CHR ''+'' then hex_body cs
          else hex_body (c # cs))"

section \<open>UUIDs\<close>

definition uuid_bound :: int where
  "uuid_bound = 2 ^ 128"

definition uuid_str :: "int \<Rightarrow> string" where
  "uuid_str u =
     (let h = hex_fixed 32 u in
      take 8 h @ ''-'' @ take 4 (drop 8 h) @ ''-'' @ take 4 (drop 12 h) @ ''-'' @
      take 4 (drop 16 h) @ ''-'' @ drop 20 h)"

definition uuid_parse :: "string \<Rightarrow> int option" where
  "uuid_parse s =
     (let h = py_replace ''uuid:'' [] (py_replace ''urn:'' [] s);
          b = filter (\<lambda>c. c \<noteq> CHR ''-'') (strip_by (\<lambda>c. c = CHR ''{'' \<or> c = CHR ''}'') h)
      in if length b \<noteq> 32 then None
         else case py_int16 b of
                None \<Rightarrow> None
              | Some n \<Rightarrow> if 0 \<le> n \<and> n < uuid_bound then Some n else None)"

section \<open>Facts\<close>

lemma length_hex_fixed [simp]: "length (hex_fixed n u) = n"
  by (induction n u rule: hex_fixed.induct) auto

definition hex_lower :: "char \<Rightarrow> bool" where
  "hex_lower c \<longleftrightarrow> (\<exists>d. 0 \<le> d \<and> d < 16 \<and> c = hex_digit d)"

lemma of_char_hex_digit:
  "0 \<le> d \<Longrightarrow> d < 16 \<Longrightarrow> (of_char (hex_digit d) :: nat) = nat (if d < 10 then d + 48 else d + 87)"
  by (simp add: hex_digit_def)

lemma hex_val_hex_digit [simp]: "0 \<le> d \<Longrightarrow> d < 16 \<Longrightarrow> hex_val (hex_digit d) = Some d"
proof (cases "d < 10")
  case True
  assume "0 \<le> d" "d < 16"
  with True have "48 \<le> nat (d + 48)" "nat (d + 48) \<le> 57" by auto
  with True \<open>0 \<le> d\<close> \<open>d < 16\<close> show ?thesis by (simp add: hex_val_def of_char_hex_digit)
next
  case False
  assume "0 \<le> d" "d < 16"
  with False have "\<not> nat (d + 87) \<le> 57" "97 \<le> nat (d + 87)" "nat (d + 87) \<le> 102" by auto
  with False \<open>0 \<le> d\<close> \<open>d < 16\<close> show ?thesis by (simp add: hex_val_def of_char_hex_digit)
qed

lemma hex_lower_digit: "0 \<le> d \<Longrightarrow> d < 16 \<Longrightarrow> hex_lower (hex_digit d)"
  by (auto simp: hex_lower_def)

lemma hex_fixed_lower: "c \<in> set (hex_fixed n u) \<Longrightarrow> hex_lower c"
proof (induction n u rule: hex_fixed.induct)
  case (2 n u)
  have "hex_lower (hex_digit (u mod 16))" by (rule hex_lower_digit) auto
  with 2 show ?case by auto
qed simp

lemma hex_lower_code:
  "hex_lower c \<Longrightarrow> (of_char c :: nat) \<in> {48..57} \<union> {97..102}"
  by (auto simp: hex_lower_def of_char_hex_digit split: if_splits)

lemma hex_lower_not: "hex_lower c \<Longrightarrow> c \<notin> set ''-_+xXur{}. ''"
  by (drule hex_lower_code) auto

lemma hex_lower_not_ws: "hex_lower c \<Longrightarrow> \<not> py_ws c"
  by (drule hex_lower_code) (auto simp: py_ws_def)

lemma hex_scan_fixed:
  assumes "0 \<le> u" "u < 16 ^ n"
  shows "hex_scan prev acc (hex_fixed n u @ s) =
           (if n = 0 then hex_scan prev acc s else hex_scan True (16 ^ n * acc + u) s)"
  using assms
proof (induction n u arbitrary: prev acc s rule: hex_fixed.induct)
  case (1 u)
  then show ?case by simp
next
  case (2 n u)
  have d: "0 \<le> u mod 16" "u mod 16 < 16" by auto
  have nu: "hex_digit (u mod 16) \<noteq> CHR ''_''"
    using hex_lower_not [OF hex_lower_digit [OF d]] by auto
  have "0 \<le> u div 16" "u div 16 < 16 ^ n" using 2(2,3) by auto
  note IH = 2(1) [OF this, of _ _ "hex_digit (u mod 16) # s"]
  have *: "16 * (16 ^ n * acc + u div 16) + u mod 16 = 16 ^ Suc n * acc + u"
    by (simp add: algebra_simps)
  show ?case
  proof (cases "n = 0")
    case True
    with 2(3) have "u < 16" by simp
    with True 2(2) d nu show ?thesis by simp
  next
    case False
    have "hex_scan prev acc (hex_fixed (Suc n) u @ s) =
        hex_scan True (16 ^ n * acc + u div 16) (hex_digit (u mod 16) # s)"
      using IH False by simp
    also have "\<dots> = hex_scan True (16 * (16 ^ n * acc + u div 16) + u mod 16) s"
      using d nu by simp
    also have "\<dots> = hex_scan True (16 ^ Suc n * acc + u) s"
      by (simp only: *)
    finally show ?thesis by simp
  qed
qed

lemma starts_withD: "starts_with (p # ps) s \<Longrightarrow> p \<in> set s"
  by (cases s) (auto simp: starts_with_def)

lemma starts_with_set: "starts_with p s \<Longrightarrow> set p \<subseteq> set s"
  unfolding starts_with_def by (metis set_take_subset)

lemma starts_with_append [simp]: "starts_with p (p @ s)"
  by (simp add: starts_with_def)

lemma py_replace_absent: "old \<noteq> [] \<Longrightarrow> hd old \<notin> set s \<Longrightarrow> py_replace old new s = s"
proof (induction s)
  case (Cons x xs)
  then have "\<not> starts_with old (x # xs)" by (cases old) (auto dest: starts_withD)
  with Cons show ?case by simp
qed simp

lemma strip_by_none: "(\<And>c. c \<in> set s \<Longrightarrow> \<not> p c) \<Longrightarrow> strip_by p s = s"
proof -
  assume a: "\<And>c. c \<in> set s \<Longrightarrow> \<not> p c"
  have "dropWhile p t = t" if "set t \<subseteq> set s" for t
    using a that by (cases t) auto
  then show ?thesis by (simp add: strip_by_def)
qed

lemma filter_uuid_str: "filter (\<lambda>c. c \<noteq> CHR ''-'') (uuid_str u) = hex_fixed 32 u"
proof -
  let ?h = "hex_fixed 32 u"
  have f: "filter (\<lambda>c. c \<noteq> CHR ''-'') t = t" if "set t \<subseteq> set ?h" for t
    using that by (auto simp: filter_id_conv dest!: subsetD hex_fixed_lower hex_lower_not)
  have "filter (\<lambda>c. c \<noteq> CHR ''-'') (uuid_str u) =
      take 8 ?h @ take 4 (drop 8 ?h) @ take 4 (drop 12 ?h) @ take 4 (drop 16 ?h) @ drop 20 ?h"
    by (simp add: uuid_str_def Let_def f set_take_subset set_drop_subset
        order_trans [OF set_take_subset set_drop_subset] del: hex_fixed.simps)
  also have "\<dots> = ?h"
    using append_take_drop_id [of 4 "drop 16 ?h"] append_take_drop_id [of 4 "drop 12 ?h"]
      append_take_drop_id [of 4 "drop 8 ?h"] append_take_drop_id [of 8 ?h]
    by (simp del: append_take_drop_id hex_fixed.simps)
  finally show ?thesis .
qed

lemma set_uuid_str: "c \<in> set (uuid_str u) \<Longrightarrow> c = CHR ''-'' \<or> hex_lower c"
proof (cases "c = CHR ''-''")
  case False
  assume "c \<in> set (uuid_str u)"
  with False have "c \<in> set (filter (\<lambda>c. c \<noteq> CHR ''-'') (uuid_str u))" by simp
  then show ?thesis unfolding filter_uuid_str by (blast intro: hex_fixed_lower)
qed simp

lemma uuid_str_chars: "c \<in> set (uuid_str u) \<Longrightarrow> c \<notin> set ''ur{}. ''"
  by (drule set_uuid_str) (auto dest: hex_lower_not)

lemma py_int16_fixed:
  assumes "0 \<le> u" "u < 16 ^ n" "n > 0"
  shows "py_int16 (hex_fixed n u) = Some u"
proof -
  let ?h = "hex_fixed n u"
  have ne: "?h \<noteq> []" using assms(3) by (metis length_hex_fixed length_0_conv less_irrefl)
  have st: "py_strip ?h = ?h"
    unfolding py_strip_def by (rule strip_by_none) (auto dest: hex_fixed_lower hex_lower_not_ws)
  have hx: "\<not> starts_with ''0x'' ?h" "\<not> starts_with ''0X'' ?h"
    using starts_with_set [of _ ?h] by (fastforce dest: hex_fixed_lower hex_lower_not)+
  have sc: "hex_scan False 0 ?h = Some u"
    using hex_scan_fixed [OF assms(1,2), of False 0 "[]"] assms(3) by simp
  from ne obtain c cs where h: "?h = c # cs" by (cases ?h) auto
  then have "hex_lower c" using hex_fixed_lower [of c n u] by simp
  then have "c \<noteq> CHR ''-''" "c \<noteq> CHR ''+''" using hex_lower_not by auto
  then show ?thesis
    using st h hx sc unfolding py_int16_def hex_body_def by simp
qed

lemma uuid_roundtrip:
  assumes "0 \<le> u" "u < uuid_bound"
  shows "uuid_parse (uuid_str u) = Some u"
proof -
  have r1: "py_replace ''urn:'' [] (uuid_str u) = uuid_str u"
    by (rule py_replace_absent) (auto dest: uuid_str_chars)
  have r2: "py_replace ''uuid:'' [] (uuid_str u) = uuid_str u"
    by (rule py_replace_absent) (auto dest: uuid_str_chars)
  have r3: "strip_by (\<lambda>c. c = CHR ''{'' \<or> c = CHR ''}'') (uuid_str u) = uuid_str u"
    by (rule strip_by_none) (auto dest: uuid_str_chars)
  have "(16::int) ^ 32 = 2 ^ 128" by simp
  with assms have "py_int16 (hex_fixed 32 u) = Some u"
    by (intro py_int16_fixed) (auto simp: uuid_bound_def)
  with assms show ?thesis
    unfolding uuid_parse_def Let_def r1 r2 r3 filter_uuid_str by simp
qed

lemma py_partition_first:
  "c \<notin> set a \<Longrightarrow> py_partition c (a @ c # b) = (a, True, b)"
proof -
  assume a: "c \<notin> set a"
  then have "takeWhile (\<lambda>x. x \<noteq> c) (a @ c # b) = a"
    and "dropWhile (\<lambda>x. x \<noteq> c) (a @ c # b) = c # b"
    by (induction a) auto
  then show ?thesis by (simp add: py_partition_def)
qed

end
