(* ===== verification/Security.thy ===== *)
theory Security
  imports PyText
begin

text \<open>
  \<^verbatim>\<open>core/security.py\<close>, the refresh-token primitives.  \<open>hm pepper secret\<close> stands for
  \<^verbatim>\<open>HMAC-SHA256(pepper, secret)\<close> in hex; every theorem holds for an arbitrary function.  An empty
  pepper raises \<^verbatim>\<open>TokenConfigError\<close>.
\<close>

type_synonym hmac = "string \<Rightarrow> string \<Rightarrow> string"

definition refresh_prefix :: string where
  "refresh_prefix = ''rt_''"

definition require_pepper :: "string \<Rightarrow> exn + string" where
  "require_pepper pepper =
     (if pepper = [] then Inl (RuntimeErr ''TokenConfigError'') else Inr pepper)"

definition hash_refresh_secret :: "hmac \<Rightarrow> string \<Rightarrow> string \<Rightarrow> exn + string" where
  "hash_refresh_secret hm pepper secret =
     bind_res (require_pepper pepper) (\<lambda>p. Inr (hm p secret))"

text \<open>
  \<open>generate_refresh_token\<close> draws a UUID and a URL-safe secret; both are arguments here.
\<close>

definition refresh_plain :: "int \<Rightarrow> string \<Rightarrow> string" where
  "refresh_plain jti secret = refresh_prefix @ uuid_str jti @ CHR ''.'' # secret"

definition generate_refresh_token ::
    "hmac \<Rightarrow> string \<Rightarrow> int \<Rightarrow> string \<Rightarrow> exn + string \<times> string \<times> string" where
  "generate_refresh_token hm pepper jti secret =
     bind_res (hash_refresh_secret hm pepper secret)
       (\<lambda>h. Inr (refresh_plain jti secret, uuid_str jti, h))"

definition parse_refresh_token :: "string \<Rightarrow> (string \<times> string) option" where
  "parse_refresh_token token =
     (if \<not> starts_with refresh_prefix token then None
      else (case py_partition CHR ''.'' (drop (length refresh_prefix) token) of
              (jti, sep, secret) \<Rightarrow>
                if \<not> sep \<or> jti = [] \<or> secret = [] then None else Some (jti, secret)))"

definition verify_refresh_secret :: "hmac \<Rightarrow> string \<Rightarrow> string \<Rightarrow> string \<Rightarrow> exn + bool" where
  "verify_refresh_secret hm pepper secret token_hash =
     bind_res (hash_refresh_secret hm pepper secret) (\<lambda>h. Inr (h = token_hash))"

lemma hash_refresh_secret_nonempty [simp]:
  "pepper \<noteq> [] \<Longrightarrow> hash_refresh_secret hm pepper secret = Inr (hm pepper secret)"
  by (simp add: hash_refresh_secret_def require_pepper_def)

lemma generate_nonempty [simp]:
  "pepper \<noteq> [] \<Longrightarrow> generate_refresh_token hm pepper jti secret =
     Inr (refresh_plain jti secret, uuid_str jti, hm pepper secret)"
  by (simp add: generate_refresh_token_def)

lemma verify_nonempty [simp]:
  "pepper \<noteq> [] \<Longrightarrow> verify_refresh_secret hm pepper secret h = Inr (hm pepper secret = h)"
  by (simp add: verify_refresh_secret_def)

lemma uuid_str_nonempty [simp]: "uuid_str u \<noteq> []"
  by (simp add: uuid_str_def Let_def)

lemma dot_notin_uuid_str [simp]: "CHR ''.'' \<notin> set (uuid_str u)"
  using uuid_str_chars by fastforce

lemma parse_refresh_plain:
  "secret \<noteq> [] \<Longrightarrow> parse_refresh_token (refresh_plain jti secret) = Some (uuid_str jti, secret)"
  by (simp add: parse_refresh_token_def refresh_plain_def py_partition_first)

end
