(* ===== verification/RefreshTokens.thy ===== *)
theory RefreshTokens
  imports Schema Security
begin

text \<open>
  Refresh tokens: \<^verbatim>\<open>domains/auth/repository.py\<close> (queries over \<^verbatim>\<open>auth_refresh_tokens\<close>) and
  \<^verbatim>\<open>domains/auth/refresh_service.py\<close> (issue, rotate with reuse detection, revoke, concurrency
  limit).  The random draws (\<^verbatim>\<open>uuid4\<close>, \<^verbatim>\<open>token_urlsafe\<close>) and the clock are arguments.  The
  per-user lock only serialises transactions; each operation here is one transaction.

  Invariant \<open>token_inv\<close>: keys are unique, a rotated token is revoked, a family has one user and one
  absolute expiry that bounds every expiry in it, and at most one of its tokens is unrevoked.
\<close>

section \<open>Settings and random draws\<close>

record auth_settings =
  jwt_secret :: string
  jwt_issuer :: string
  jwt_audience :: string
  access_ttl :: int
  refresh_pepper :: string
  idle_ttl :: int
  absolute_ttl :: int
  max_sessions :: int
  captcha_ttl :: int
  fail_window :: int
  captcha_threshold :: int
  lock_threshold :: int
  lock_seconds :: int
  ip_limit :: int

definition settings_ok :: "auth_settings \<Rightarrow> bool" where
  "settings_ok S \<longleftrightarrow> 60 \<le> access_ttl S \<and> 300 \<le> idle_ttl S \<and> 300 \<le> absolute_ttl S \<and>
     1 \<le> max_sessions S \<and> 30 \<le> captcha_ttl S \<and> 60 \<le> fail_window S \<and>
     1 \<le> captcha_threshold S \<and> 1 \<le> lock_threshold S \<and> 60 \<le> lock_seconds S \<and> 1 \<le> ip_limit S"

record draw =
  dr_jti :: int
  dr_family :: int
  dr_secret :: string

section \<open>Repository\<close>

definition token_create ::
    "int \<Rightarrow> int \<Rightarrow> int \<Rightarrow> string \<Rightarrow> int \<Rightarrow> int \<Rightarrow> int \<Rightarrow> db \<Rightarrow> exn + refresh_token \<times> db" where
  "token_create jti family uid h issued expires absolute d =
     (if \<exists>r \<in> set (rows (tokens d)). rt_jti r = jti
      then Inl (IntegrityErr ''auth_refresh_tokens.jti'')
      else if \<exists>r \<in> set (rows (tokens d)). rt_hash r = h
      then Inl (IntegrityErr ''auth_refresh_tokens.token_hash'')
      else if get_user d uid = None
      then Inl (IntegrityErr ''auth_refresh_tokens.user_id'')
      else (case insert_row (\<lambda>i. \<lparr>rt_id = i, rt_jti = jti, rt_family = family, rt_user = uid,
                rt_hash = h, rt_rotated_to = None, rt_revoked_at = None, rt_revoked_reason = None,
                rt_issued_at = issued, rt_expires_at = expires, rt_absolute_at = absolute,
                rt_last_used = None\<rparr>) (tokens d) of
              (row, t) \<Rightarrow> Inr (row, d\<lparr>tokens := t\<rparr>)))"

definition get_by_jti :: "db \<Rightarrow> int \<Rightarrow> refresh_token option" where
  "get_by_jti d jti = find (\<lambda>r. rt_jti r = jti) (rows (tokens d))"

definition get_user_id_by_jti :: "db \<Rightarrow> int \<Rightarrow> int option" where
  "get_user_id_by_jti d jti = map_option rt_user (get_by_jti d jti)"

definition mark_rotated :: "refresh_token \<Rightarrow> int \<Rightarrow> int \<Rightarrow> db \<Rightarrow> db" where
  "mark_rotated row new_jti now d =
     d\<lparr>tokens := update_where (\<lambda>r. rt_id r = rt_id row)
        (\<lambda>r. r\<lparr>rt_rotated_to := Some new_jti, rt_revoked_at := Some now,
               rt_revoked_reason := Some ''rotated'', rt_last_used := Some now\<rparr>) (tokens d)\<rparr>"

definition live :: "refresh_token \<Rightarrow> bool" where
  "live r \<longleftrightarrow> rt_revoked_at r = None"

definition revoke_family :: "int \<Rightarrow> string \<Rightarrow> int \<Rightarrow> db \<Rightarrow> nat \<times> db" where
  "revoke_family family reason now d =
     (length (filter (\<lambda>r. rt_family r = family \<and> live r) (rows (tokens d))),
      d\<lparr>tokens := update_where (\<lambda>r. rt_family r = family \<and> live r)
         (\<lambda>r. r\<lparr>rt_revoked_at := Some now, rt_revoked_reason := Some reason\<rparr>) (tokens d)\<rparr>)"

definition active_rows :: "db \<Rightarrow> int \<Rightarrow> int \<Rightarrow> refresh_token list" where
  "active_rows d uid now =
     filter (\<lambda>r. rt_user r = uid \<and> live r \<and> now < rt_expires_at r) (rows (tokens d))"

definition family_recency :: "refresh_token list \<Rightarrow> int \<Rightarrow> int \<times> int" where
  "family_recency rs f =
     (let g = filter (\<lambda>r. rt_family r = f) rs
      in (- Max (set (map rt_issued_at g)), - Max (set (map rt_id g))))"

definition list_active_families :: "db \<Rightarrow> int \<Rightarrow> int \<Rightarrow> int list" where
  "list_active_families d uid now =
     (let rs = active_rows d uid now
      in sort_key (family_recency rs) (dedupe (map rt_family rs)))"

definition delete_expired :: "int \<Rightarrow> db \<Rightarrow> nat \<times> db" where
  "delete_expired cutoff d =
     (length (filter (\<lambda>r. rt_expires_at r \<le> cutoff) (rows (tokens d))),
      d\<lparr>tokens := delete_where (\<lambda>r. rt_expires_at r \<le> cutoff) (tokens d)\<rparr>)"

section \<open>Service\<close>

definition refresh_invalid :: exn where
  "refresh_invalid = AppErr ''auth.REFRESH_TOKEN_INVALID'' 401"

definition refresh_reused :: exn where
  "refresh_reused = AppErr ''auth.REFRESH_TOKEN_REUSED'' 401"

record issued_refresh =
  is_token :: string
  is_jti :: int
  is_expires_in :: int
  is_family :: int

text \<open>\<^verbatim>\<open>int(delta.total_seconds())\<close> truncates towards zero.\<close>

definition whole_seconds :: "int \<Rightarrow> int" where
  "whole_seconds us = (if 0 \<le> us then us div 1000000 else - ((- us) div 1000000))"

definition issue_refresh_token ::
    "auth_settings \<Rightarrow> hmac \<Rightarrow> int \<Rightarrow> draw \<Rightarrow> int \<Rightarrow> int option \<Rightarrow> int option \<Rightarrow> db
      \<Rightarrow> exn + issued_refresh \<times> db" where
  "issue_refresh_token S hm now dr uid family_id family_absolute_at d =
     (let family = (case family_id of Some f \<Rightarrow> f | None \<Rightarrow> dr_family dr);
          absolute = (case family_absolute_at of
             Some a \<Rightarrow> a | None \<Rightarrow> now + secs (absolute_ttl S));
          expires = min (now + secs (idle_ttl S)) absolute
      in case generate_refresh_token hm (refresh_pepper S) (dr_jti dr) (dr_secret dr) of
           Inl e \<Rightarrow> Inl e
         | Inr (token, _, h) \<Rightarrow>
             (case token_create (dr_jti dr) family uid h now expires absolute d of
                Inl e \<Rightarrow> Inl e
              | Inr (_, d') \<Rightarrow>
                  Inr (\<lparr>is_token = token, is_jti = dr_jti dr,
                        is_expires_in = whole_seconds (expires - now), is_family = family\<rparr>, d')))"

definition revoke_families :: "string \<Rightarrow> int \<Rightarrow> int list \<Rightarrow> db \<Rightarrow> db" where
  "revoke_families reason now fs d = fold (\<lambda>f d'. snd (revoke_family f reason now d')) fs d"

definition enforce_concurrency_limit :: "auth_settings \<Rightarrow> int \<Rightarrow> int \<Rightarrow> db \<Rightarrow> db" where
  "enforce_concurrency_limit S now uid d =
     (let overflow = drop (nat (max_sessions S)) (list_active_families d uid now)
      in revoke_families ''concurrency_limit'' now overflow d)"

definition issue_login_refresh ::
    "auth_settings \<Rightarrow> hmac \<Rightarrow> int \<Rightarrow> draw \<Rightarrow> int \<Rightarrow> db \<Rightarrow> exn + issued_refresh \<times> db" where
  "issue_login_refresh S hm now dr uid d =
     (case issue_refresh_token S hm now dr uid None None d of
        Inl e \<Rightarrow> Inl e
      | Inr (issued, d') \<Rightarrow> Inr (issued, enforce_concurrency_limit S now uid d'))"

record rotation_result =
  rr_refresh :: issued_refresh
  rr_user :: int

text \<open>The database together with the request's audit buffer, which a rollback does not undo.\<close>

record auth_world =
  aw_db :: db
  aw_audit :: "audit_event list"

definition reuse_event :: "int \<Rightarrow> audit_event" where
  "reuse_event uid =
     \<lparr>ev_type = ''refresh_reused'', ev_action = ''auth.refresh'', ev_actor = Some uid,
      ev_target = None, ev_display = None, ev_status = ''denied'', ev_http = Some 401,
      ev_error = Some ''auth.REFRESH_TOKEN_REUSED'', ev_risk = ''high'', ev_ttype = None\<rparr>"

definition rotate_row ::
    "auth_settings \<Rightarrow> hmac \<Rightarrow> int \<Rightarrow> draw \<Rightarrow> refresh_token \<Rightarrow> auth_world
      \<Rightarrow> (exn + rotation_result) \<times> auth_world" where
  "rotate_row S hm now dr row w =
     (if rt_rotated_to row \<noteq> None \<or> rt_revoked_reason row = Some ''reuse_detected''
      then (Inl refresh_reused,
            w\<lparr>aw_db := snd (revoke_family (rt_family row) ''reuse_detected'' now (aw_db w)),
              aw_audit := aw_audit w @ [reuse_event (rt_user row)]\<rparr>)
      else if rt_revoked_at row \<noteq> None \<or> rt_expires_at row \<le> now then (Inl refresh_invalid, w)
      else if rt_absolute_at row \<le> now then (Inl refresh_invalid, w)
      else (case issue_refresh_token S hm now dr (rt_user row) (Some (rt_family row))
                   (Some (rt_absolute_at row)) (aw_db w) of
              Inl e \<Rightarrow> (Inl e, w)
            | Inr (new, d') \<Rightarrow>
                (Inr \<lparr>rr_refresh = new, rr_user = rt_user row\<rparr>,
                 w\<lparr>aw_db := mark_rotated row (is_jti new) now d'\<rparr>)))"

definition rotate_refresh_token ::
    "auth_settings \<Rightarrow> hmac \<Rightarrow> int \<Rightarrow> draw \<Rightarrow> string \<Rightarrow> auth_world
      \<Rightarrow> (exn + rotation_result) \<times> auth_world" where
  "rotate_refresh_token S hm now dr raw w =
     (case parse_refresh_token raw of
        None \<Rightarrow> (Inl refresh_invalid, w)
      | Some (jti_str, secret) \<Rightarrow>
          (case uuid_parse jti_str of
             None \<Rightarrow> (Inl refresh_invalid, w)
           | Some jti \<Rightarrow>
               (case get_user_id_by_jti (aw_db w) jti of
                  None \<Rightarrow> (Inl refresh_invalid, w)
                | Some _ \<Rightarrow>
                    (case get_by_jti (aw_db w) jti of
                       None \<Rightarrow> (Inl refresh_invalid, w)
                     | Some row \<Rightarrow>
                         (case verify_refresh_secret hm (refresh_pepper S) secret (rt_hash row) of
                            Inl e \<Rightarrow> (Inl e, w)
                          | Inr ok \<Rightarrow>
                              if \<not> ok then (Inl refresh_invalid, w)
                              else rotate_row S hm now dr row w)))))"

definition revoke_refresh_token ::
    "auth_settings \<Rightarrow> hmac \<Rightarrow> int \<Rightarrow> string \<Rightarrow> db \<Rightarrow> exn + bool \<times> db" where
  "revoke_refresh_token S hm now raw d =
     (case parse_refresh_token raw of
        None \<Rightarrow> Inr (False, d)
      | Some (jti_str, secret) \<Rightarrow>
          (case uuid_parse jti_str of
             None \<Rightarrow> Inr (False, d)
           | Some jti \<Rightarrow>
               (case get_user_id_by_jti d jti of
                  None \<Rightarrow> Inr (False, d)
                | Some _ \<Rightarrow>
                    (case get_by_jti d jti of
                       None \<Rightarrow> Inr (False, d)
                     | Some row \<Rightarrow>
                         (case verify_refresh_secret hm (refresh_pepper S) secret (rt_hash row) of
                            Inl e \<Rightarrow> Inl e
                          | Inr ok \<Rightarrow>
                              if \<not> ok then Inr (False, d)
                              else Inr (True, snd (revoke_family (rt_family row) ''logout'' now d)))))))"

end
