(* ===== verification/RefreshTokenFacts.thy ===== *)
theory RefreshTokenFacts
  imports RefreshTokens
begin

text \<open>
  The invariant of the refresh-token table, its preservation by every operation, and the
  functional lemmas of rotation, revocation and the concurrency limit.
\<close>

section \<open>The invariant\<close>

definition same_family_agrees :: "refresh_token list \<Rightarrow> bool" where
  "same_family_agrees rs \<longleftrightarrow>
     (\<forall>r \<in> set rs. \<forall>q \<in> set rs. rt_family r = rt_family q \<longrightarrow>
        rt_absolute_at r = rt_absolute_at q \<and> rt_user r = rt_user q)"

definition one_live_per_family :: "refresh_token list \<Rightarrow> bool" where
  "one_live_per_family rs \<longleftrightarrow>
     (\<forall>r \<in> set rs. \<forall>q \<in> set rs. rt_family r = rt_family q \<and> live r \<and> live q \<longrightarrow> r = q)"

lemma same_familyD:
  "same_family_agrees rs \<Longrightarrow> r \<in> set rs \<Longrightarrow> q \<in> set rs \<Longrightarrow> rt_family r = rt_family q \<Longrightarrow>
     rt_absolute_at r = rt_absolute_at q \<and> rt_user r = rt_user q"
  unfolding same_family_agrees_def by blast

lemma one_liveD:
  "one_live_per_family rs \<Longrightarrow> r \<in> set rs \<Longrightarrow> q \<in> set rs \<Longrightarrow> rt_family r = rt_family q \<Longrightarrow>
     live r \<Longrightarrow> live q \<Longrightarrow> r = q"
  unfolding one_live_per_family_def by blast

definition tokens_ok :: "refresh_token table \<Rightarrow> bool" where
  "tokens_ok t \<longleftrightarrow>
     table_ok rt_id t \<and> distinct (map rt_jti (rows t)) \<and>
     (\<forall>r \<in> set (rows t). (rt_rotated_to r \<noteq> None \<longrightarrow> \<not> live r) \<and>
        rt_expires_at r \<le> rt_absolute_at r) \<and>
     same_family_agrees (rows t) \<and> one_live_per_family (rows t)"

definition token_inv :: "db \<Rightarrow> bool" where
  "token_inv d \<longleftrightarrow> tokens_ok (tokens d)"

lemma token_inv_empty [inv_intros]: "token_inv empty_db"
  by (simp add: token_inv_def tokens_ok_def empty_db_def empty_table_def table_ok_def
      same_family_agrees_def one_live_per_family_def)

text \<open>An update that only revokes rows.\<close>

lemma tokens_ok_revoke:
  assumes inv: "tokens_ok t"
    and keep: "\<And>r. rt_id (f r) = rt_id r" "\<And>r. rt_jti (f r) = rt_jti r"
      "\<And>r. rt_family (f r) = rt_family r" "\<And>r. rt_user (f r) = rt_user r"
      "\<And>r. rt_expires_at (f r) = rt_expires_at r" "\<And>r. rt_absolute_at (f r) = rt_absolute_at r"
    and dead: "\<And>r. \<not> live (f r)"
  shows "tokens_ok (update_where p f t)"
proof -
  let ?g = "\<lambda>r. if p r then f r else r"
  have g: "rt_id (?g r) = rt_id r" "rt_jti (?g r) = rt_jti r" "rt_family (?g r) = rt_family r"
    "rt_user (?g r) = rt_user r" "rt_expires_at (?g r) = rt_expires_at r"
    "rt_absolute_at (?g r) = rt_absolute_at r" for r using keep by auto
  have gl: "live (?g r) \<Longrightarrow> ?g r = r" for r using dead by auto
  have jti: "map rt_jti (map ?g (rows t)) = map rt_jti (rows t)"
    using keep(2) by simp
  have ok: "table_ok rt_id (update_where p f t)"
    using inv keep(1) by (intro table_ok_update) (simp_all add: tokens_ok_def)
  have fam: "same_family_agrees (map ?g (rows t))"
    unfolding same_family_agrees_def
  proof (intro ballI impI)
    fix a b
    assume "a \<in> set (map ?g (rows t))" "b \<in> set (map ?g (rows t))"
      and ab: "rt_family a = rt_family b"
    then obtain r q where rq: "r \<in> set (rows t)" "q \<in> set (rows t)" "a = ?g r" "b = ?g q"
      by auto
    with ab have "rt_family r = rt_family q" using g(3) by metis
    with rq inv have "rt_absolute_at r = rt_absolute_at q \<and> rt_user r = rt_user q"
      by (intro same_familyD [of "rows t"]) (auto simp: tokens_ok_def)
    then show "rt_absolute_at a = rt_absolute_at b \<and> rt_user a = rt_user b"
      using rq(3,4) g(4,6) by metis
  qed
  have one: "one_live_per_family (map ?g (rows t))"
    unfolding one_live_per_family_def
  proof (intro ballI impI)
    fix a b
    assume "a \<in> set (map ?g (rows t))" "b \<in> set (map ?g (rows t))"
      and ab: "rt_family a = rt_family b \<and> live a \<and> live b"
    then obtain r q where rq: "r \<in> set (rows t)" "q \<in> set (rows t)" "a = ?g r" "b = ?g q"
      by auto
    then have "a = r" "b = q" using ab gl by metis+
    with rq(1,2) ab inv show "a = b" using one_liveD [of "rows t" r q]
      by (auto simp: tokens_ok_def)
  qed
  have each: "\<forall>r \<in> set (map ?g (rows t)). (rt_rotated_to r \<noteq> None \<longrightarrow> \<not> live r) \<and>
      rt_expires_at r \<le> rt_absolute_at r"
    using inv keep(5,6) dead unfolding tokens_ok_def by (intro ballI) (auto split: if_splits)
  show ?thesis
    unfolding tokens_ok_def rows_update_where jti using ok fam one each inv
    by (simp add: tokens_ok_def)
qed

text \<open>An inserted live row.\<close>

lemma tokens_ok_insert:
  assumes inv: "tokens_ok t"
    and new: "\<forall>r \<in> set (rows t). rt_jti r \<noteq> rt_jti row"
      "\<forall>r \<in> set (rows t). rt_family r = rt_family row \<longrightarrow>
         \<not> live r \<and> rt_absolute_at r = rt_absolute_at row \<and> rt_user r = rt_user row"
      "rt_rotated_to row = None" "rt_expires_at row \<le> rt_absolute_at row" "rt_id row = seq t"
  shows "tokens_ok (t\<lparr>rows := rows t @ [row], seq := seq t + 1\<rparr>)"
proof -
  have "table_ok rt_id (t\<lparr>rows := rows t @ [row], seq := seq t + 1\<rparr>)"
    using inv new(5) by (fastforce simp: tokens_ok_def table_ok_def)
  moreover have "same_family_agrees (rows t @ [row])"
    unfolding same_family_agrees_def
  proof (intro ballI impI)
    fix a b
    assume "a \<in> set (rows t @ [row])" "b \<in> set (rows t @ [row])" "rt_family a = rt_family b"
    then show "rt_absolute_at a = rt_absolute_at b \<and> rt_user a = rt_user b"
      using inv new(2) same_familyD [of "rows t" a b] by (fastforce simp: tokens_ok_def)
  qed
  moreover have "one_live_per_family (rows t @ [row])"
    unfolding one_live_per_family_def
  proof (intro ballI impI)
    fix a b
    assume "a \<in> set (rows t @ [row])" "b \<in> set (rows t @ [row])"
      "rt_family a = rt_family b \<and> live a \<and> live b"
    then show "a = b"
      using inv new(2) one_liveD [of "rows t" a b] by (fastforce simp: tokens_ok_def)
  qed
  ultimately show ?thesis
    using inv new(1,3,4) unfolding tokens_ok_def by auto
qed

lemma tokens_ok_delete:
  assumes "tokens_ok t"
  shows "tokens_ok (delete_where p t)"
proof -
  have sub: "set (rows (delete_where p t)) \<subseteq> set (rows t)" by (auto simp: rows_delete_where)
  have "table_ok rt_id (delete_where p t)"
    using assms by (auto simp: tokens_ok_def intro: table_ok_delete)
  moreover have "distinct (map rt_jti (rows (delete_where p t)))"
    using assms by (auto simp: tokens_ok_def rows_delete_where distinct_map_filter)
  moreover have "same_family_agrees (rows (delete_where p t))"
    using assms sub unfolding tokens_ok_def same_family_agrees_def by blast
  moreover have "one_live_per_family (rows (delete_where p t))"
    using assms sub unfolding tokens_ok_def one_live_per_family_def by blast
  ultimately show ?thesis using assms sub unfolding tokens_ok_def by blast
qed

section \<open>Preservation, operation by operation\<close>

lemma revoke_family_inv [inv_intros]:
  "token_inv d \<Longrightarrow> token_inv (snd (revoke_family f reason now d))"
  unfolding token_inv_def revoke_family_def
  by (simp, rule tokens_ok_revoke) (auto simp: live_def)

lemma revoke_families_inv [inv_intros]:
  "token_inv d \<Longrightarrow> token_inv (revoke_families reason now fs d)"
  unfolding revoke_families_def
  by (induction fs arbitrary: d) (auto intro: revoke_family_inv)

lemma enforce_inv [inv_intros]:
  "token_inv d \<Longrightarrow> token_inv (enforce_concurrency_limit S now uid d)"
  by (simp add: enforce_concurrency_limit_def Let_def revoke_families_inv)

lemma delete_expired_inv [inv_intros]: "token_inv d \<Longrightarrow> token_inv (snd (delete_expired c d))"
  by (simp add: token_inv_def delete_expired_def tokens_ok_delete)

lemma mark_rotated_inv: "token_inv d \<Longrightarrow> token_inv (mark_rotated row j now d)"
  unfolding token_inv_def mark_rotated_def
  by (simp, rule tokens_ok_revoke) (auto simp: live_def)

lemma token_create_InrD:
  assumes "token_create jti f uid h iss e a d = Inr (row, d')"
  shows "row = \<lparr>rt_id = seq (tokens d), rt_jti = jti, rt_family = f, rt_user = uid, rt_hash = h,
      rt_rotated_to = None, rt_revoked_at = None, rt_revoked_reason = None, rt_issued_at = iss,
      rt_expires_at = e, rt_absolute_at = a, rt_last_used = None\<rparr>"
    and "d' = d\<lparr>tokens := (tokens d)\<lparr>rows := rows (tokens d) @ [row], seq := seq (tokens d) + 1\<rparr>\<rparr>"
    and "\<forall>r \<in> set (rows (tokens d)). rt_jti r \<noteq> jti \<and> rt_hash r \<noteq> h"
    and "get_user d uid \<noteq> None"
  using assms by (auto simp: token_create_def insert_row_def split: if_splits)

lemma token_create_users [simp]:
  "token_create jti f uid h iss e a d = Inr (row, d') \<Longrightarrow> users d' = users d"
  by (drule token_create_InrD(2)) simp

definition new_expiry :: "auth_settings \<Rightarrow> int \<Rightarrow> int option \<Rightarrow> int" where
  "new_expiry S now a =
     min (now + secs (idle_ttl S)) (case a of Some x \<Rightarrow> x | None \<Rightarrow> now + secs (absolute_ttl S))"

lemma issue_InrD:
  assumes "issue_refresh_token S hm now dr uid f a d = Inr (new, d')"
  shows "refresh_pepper S \<noteq> []"
    and "is_jti new = dr_jti dr"
    and "is_token new = refresh_plain (dr_jti dr) (dr_secret dr)"
    and "is_family new = (case f of Some x \<Rightarrow> x | None \<Rightarrow> dr_family dr)"
    and "is_expires_in new = whole_seconds (new_expiry S now a - now)"
    and "\<exists>row. token_create (dr_jti dr) (is_family new) uid
            (hm (refresh_pepper S) (dr_secret dr)) now (new_expiry S now a)
            (case a of Some x \<Rightarrow> x | None \<Rightarrow> now + secs (absolute_ttl S)) d = Inr (row, d')"
proof -
  show p: "refresh_pepper S \<noteq> []"
    using assms by (auto simp: issue_refresh_token_def generate_refresh_token_def
        hash_refresh_secret_def require_pepper_def Let_def split: if_splits)
  note u = assms [unfolded issue_refresh_token_def Let_def generate_nonempty [OF p], simplified]
  show "is_jti new = dr_jti dr" "is_token new = refresh_plain (dr_jti dr) (dr_secret dr)"
    "is_family new = (case f of Some x \<Rightarrow> x | None \<Rightarrow> dr_family dr)"
    "is_expires_in new = whole_seconds (new_expiry S now a - now)"
    using u by (auto simp: new_expiry_def split: sum.splits prod.splits)
  show "\<exists>row. token_create (dr_jti dr) (is_family new) uid
            (hm (refresh_pepper S) (dr_secret dr)) now (new_expiry S now a)
            (case a of Some x \<Rightarrow> x | None \<Rightarrow> now + secs (absolute_ttl S)) d = Inr (row, d')"
    using u by (auto simp: new_expiry_def split: sum.splits prod.splits)
qed

lemma issue_new_family_inv:
  assumes "issue_refresh_token S hm now dr uid None None d = Inr (new, d')"
    and inv: "token_inv d"
    and fresh: "\<forall>r \<in> set (rows (tokens d)). rt_family r \<noteq> dr_family dr"
  shows "token_inv d'"
proof -
  from issue_InrD(6) [OF assms(1)] obtain row where
    c: "token_create (dr_jti dr) (is_family new) uid (hm (refresh_pepper S) (dr_secret dr)) now
      (new_expiry S now None) (now + secs (absolute_ttl S)) d = Inr (row, d')"
    by auto
  have f: "is_family new = dr_family dr" using issue_InrD(4) [OF assms(1)] by simp
  note r = token_create_InrD [OF c]
  have "tokens_ok ((tokens d)\<lparr>rows := rows (tokens d) @ [row], seq := seq (tokens d) + 1\<rparr>)"
    using inv fresh r(1,3) f
    by (intro tokens_ok_insert) (auto simp: token_inv_def new_expiry_def)
  then show ?thesis by (simp add: token_inv_def r(2))
qed

text \<open>A rotation inserts the successor and kills the presented row.\<close>

lemma rotate_success_rows:
  assumes i: "issue_refresh_token S hm now dr (rt_user row) (Some (rt_family row))
      (Some (rt_absolute_at row)) d = Inr (new, d')"
    and inv: "token_inv d" and row: "row \<in> set (rows (tokens d))" "live row"
  obtains n where
    "tokens (mark_rotated row j now d') =
       (tokens (mark_rotated row j now d))\<lparr>
          rows := rows (tokens (mark_rotated row j now d)) @ [n],
          seq := seq (tokens d) + 1\<rparr>"
    "rt_id n = seq (tokens d)" "rt_jti n = dr_jti dr" "rt_family n = rt_family row"
    "rt_user n = rt_user row" "rt_rotated_to n = None" "live n"
    "rt_expires_at n = min (now + secs (idle_ttl S)) (rt_absolute_at row)"
    "rt_absolute_at n = rt_absolute_at row" "rt_issued_at n = now"
    "\<forall>r \<in> set (rows (tokens d)). rt_jti r \<noteq> rt_jti n"
proof -
  from issue_InrD(6) [OF i] issue_InrD(4) [OF i] obtain n where
    c: "token_create (dr_jti dr) (rt_family row) (rt_user row)
      (hm (refresh_pepper S) (dr_secret dr)) now
      (new_expiry S now (Some (rt_absolute_at row))) (rt_absolute_at row) d = Inr (n, d')"
    by auto
  note r = token_create_InrD [OF c]
  have lt: "rt_id row < seq (tokens d)"
    using inv row by (auto simp: token_inv_def tokens_ok_def table_ok_def)
  have t: "tokens (mark_rotated row j now d') =
       (tokens (mark_rotated row j now d))\<lparr>
          rows := rows (tokens (mark_rotated row j now d)) @ [n], seq := seq (tokens d) + 1\<rparr>"
    using lt r(1) by (simp add: mark_rotated_def r(2) update_where_def)
  show ?thesis
    by (rule that [OF t]) (use r(1,3) in \<open>auto simp: live_def new_expiry_def\<close>)
qed

lemma rotate_success_inv:
  assumes i: "issue_refresh_token S hm now dr (rt_user row) (Some (rt_family row))
      (Some (rt_absolute_at row)) d = Inr (new, d')"
    and inv: "token_inv d" and row: "row \<in> set (rows (tokens d))" "live row"
  shows "token_inv (mark_rotated row j now d')"
proof -
  from i inv row obtain n where n:
    "tokens (mark_rotated row j now d') =
       (tokens (mark_rotated row j now d))\<lparr>
          rows := rows (tokens (mark_rotated row j now d)) @ [n],
          seq := seq (tokens d) + 1\<rparr>"
    "rt_id n = seq (tokens d)" "rt_jti n = dr_jti dr" "rt_family n = rt_family row"
    "rt_user n = rt_user row" "rt_rotated_to n = None"
    "rt_expires_at n = min (now + secs (idle_ttl S)) (rt_absolute_at row)"
    "rt_absolute_at n = rt_absolute_at row"
    "\<forall>r \<in> set (rows (tokens d)). rt_jti r \<noteq> rt_jti n"
    by (rule rotate_success_rows [where j = j])
  let ?m = "mark_rotated row j now d"
  have m: "tokens_ok (tokens ?m)" using mark_rotated_inv [OF inv] by (simp add: token_inv_def)
  have seq: "seq (tokens ?m) = seq (tokens d)" by (simp add: mark_rotated_def rows_update_where)
  have dead: "\<not> live q \<and> rt_absolute_at q = rt_absolute_at n \<and> rt_user q = rt_user n"
    if q: "q \<in> set (rows (tokens ?m))" "rt_family q = rt_family n" for q
  proof -
    from q(1) obtain r where r: "r \<in> set (rows (tokens d))" and qr: "q = (if rt_id r = rt_id row
        then r\<lparr>rt_rotated_to := Some j, rt_revoked_at := Some now,
               rt_revoked_reason := Some ''rotated'', rt_last_used := Some now\<rparr> else r)"
      by (auto simp: mark_rotated_def rows_update_where)
    have fr: "rt_family r = rt_family row" using q(2) qr n(4) by (auto split: if_splits)
    have "rt_absolute_at r = rt_absolute_at row" "rt_user r = rt_user row"
      using inv r row(1) fr same_familyD [of "rows (tokens d)" r row]
      by (simp_all add: token_inv_def tokens_ok_def)
    moreover have "rt_id r \<noteq> rt_id row \<Longrightarrow> \<not> live r"
      using inv r row fr one_liveD [of "rows (tokens d)" r row]
      by (auto simp: token_inv_def tokens_ok_def)
    ultimately show ?thesis using qr n(5,8) by (auto simp: live_def)
  qed
  have "tokens_ok ((tokens ?m)\<lparr>rows := rows (tokens ?m) @ [n], seq := seq (tokens ?m) + 1\<rparr>)"
  proof (rule tokens_ok_insert [OF m])
    show "\<forall>r \<in> set (rows (tokens ?m)). rt_jti r \<noteq> rt_jti n"
      using n(9) by (auto simp: mark_rotated_def rows_update_where)
    show "\<forall>r \<in> set (rows (tokens ?m)). rt_family r = rt_family n \<longrightarrow>
        \<not> live r \<and> rt_absolute_at r = rt_absolute_at n \<and> rt_user r = rt_user n"
      using dead by blast
    show "rt_rotated_to n = None" "rt_expires_at n \<le> rt_absolute_at n"
      "rt_id n = seq (tokens ?m)" using n(2,6,7,8) seq by simp_all
  qed
  then show ?thesis by (simp add: token_inv_def n(1) seq)
qed

lemma get_by_jti_SomeD: "get_by_jti d j = Some r \<Longrightarrow> r \<in> set (rows (tokens d)) \<and> rt_jti r = j"
  by (auto simp: get_by_jti_def find_Some_iff)

lemma jti_unique:
  "token_inv d \<Longrightarrow> r \<in> set (rows (tokens d)) \<Longrightarrow> q \<in> set (rows (tokens d)) \<Longrightarrow>
     rt_jti r = rt_jti q \<Longrightarrow> r = q"
  unfolding token_inv_def tokens_ok_def distinct_map inj_on_def by blast

lemma get_by_jti_Some_iff:
  assumes "token_inv d"
  shows "get_by_jti d j = Some r \<longleftrightarrow> r \<in> set (rows (tokens d)) \<and> rt_jti r = j"
proof
  assume r: "r \<in> set (rows (tokens d)) \<and> rt_jti r = j"
  then obtain q where q: "get_by_jti d j = Some q"
    by (cases "get_by_jti d j") (auto simp: get_by_jti_def find_None_iff)
  with get_by_jti_SomeD [OF q] r have "q = r" using jti_unique [OF assms, of q r] by simp
  with q show "get_by_jti d j = Some r" by simp
qed (rule get_by_jti_SomeD)

lemma rotate_row_inv [inv_intros]:
  assumes inv: "token_inv (aw_db w)" and row: "row \<in> set (rows (tokens (aw_db w)))"
  shows "token_inv (aw_db (snd (rotate_row S hm now dr row w)))"
  using assms
  by (auto simp: rotate_row_def live_def revoke_family_inv intro!: rotate_success_inv
      split: sum.splits prod.splits)

lemma rotate_inv [inv_intros]:
  "token_inv (aw_db w) \<Longrightarrow> token_inv (aw_db (snd (rotate_refresh_token S hm now dr raw w)))"
  by (auto simp: rotate_refresh_token_def intro!: rotate_row_inv dest: get_by_jti_SomeD
      split: option.splits prod.splits sum.splits)

lemma revoke_token_inv [inv_intros]:
  "token_inv d \<Longrightarrow> revoke_refresh_token S hm now raw d = Inr (b, d') \<Longrightarrow> token_inv d'"
  by (auto simp: revoke_refresh_token_def revoke_family_inv
      split: option.splits prod.splits sum.splits if_splits)

lemma issue_login_inv [inv_intros]:
  assumes "issue_login_refresh S hm now dr uid d = Inr (new, d')" and "token_inv d"
    and "\<forall>r \<in> set (rows (tokens d)). rt_family r \<noteq> dr_family dr"
  shows "token_inv d'"
  using assms
  by (auto simp: issue_login_refresh_def enforce_inv dest: issue_new_family_inv
      split: sum.splits prod.splits)

end
