(* ===== verification/RefreshTokenProps.thy ===== *)
theory RefreshTokenProps
  imports RefreshTokenFacts
begin

text \<open>
  What refresh tokens promise: the invariant holds in every reachable state, a rotation replaces the
  single live token of a session, a token is good for one rotation and its reuse kills the session,
  logout ends a session, and a login keeps at most \<open>max_sessions\<close> sessions, its own included.
\<close>

section \<open>Inversion of a successful rotation\<close>

lemma rotate_InrD:
  assumes "rotate_refresh_token S hm now dr raw w = (Inr res, w')"
  obtains jti_str secret jti row d' where
    "parse_refresh_token raw = Some (jti_str, secret)" "uuid_parse jti_str = Some jti"
    "get_by_jti (aw_db w) jti = Some row" "refresh_pepper S \<noteq> []"
    "hm (refresh_pepper S) secret = rt_hash row"
    "rt_rotated_to row = None" "live row" "now < rt_expires_at row" "now < rt_absolute_at row"
    "issue_refresh_token S hm now dr (rt_user row) (Some (rt_family row))
       (Some (rt_absolute_at row)) (aw_db w) = Inr (rr_refresh res, d')"
    "w' = w\<lparr>aw_db := mark_rotated row (is_jti (rr_refresh res)) now d'\<rparr>"
    "rr_user res = rt_user row"
proof -
  from assms obtain jti_str secret jti row where
    p: "parse_refresh_token raw = Some (jti_str, secret)" "uuid_parse jti_str = Some jti"
      "get_by_jti (aw_db w) jti = Some row"
    and v: "verify_refresh_secret hm (refresh_pepper S) secret (rt_hash row) = Inr True"
    and r: "rotate_row S hm now dr row w = (Inr res, w')"
    by (auto simp: rotate_refresh_token_def
        split: option.splits prod.splits sum.splits if_splits)
  have ne: "refresh_pepper S \<noteq> []"
    using v by (auto simp: verify_refresh_secret_def hash_refresh_secret_def require_pepper_def
        split: if_splits)
  from r obtain d' where d': "issue_refresh_token S hm now dr (rt_user row)
      (Some (rt_family row)) (Some (rt_absolute_at row)) (aw_db w) = Inr (rr_refresh res, d')"
    "w' = w\<lparr>aw_db := mark_rotated row (is_jti (rr_refresh res)) now d'\<rparr>"
    "rr_user res = rt_user row"
    by (auto simp: rotate_row_def split: if_splits sum.splits prod.splits)
  show thesis
    by (rule that [OF p ne _ _ _ _ _ d'])
      (use r v ne in \<open>auto simp: rotate_row_def live_def split: if_splits\<close>)
qed

section \<open>Reachable token tables\<close>

text \<open>
  The transactions that write the table.  The second component of a state is the set of UUIDs drawn
  so far: \<^verbatim>\<open>uuid4\<close> never repeats a value, which the database checks for stored keys only.
  \<open>revoke\<close> is the revocation by a password change, \<open>cascade\<close> the deletion of a user, \<open>other\<close> any
  transaction that leaves the table alone.
\<close>

inductive token_step :: "auth_settings \<Rightarrow> hmac \<Rightarrow> db \<times> int set \<Rightarrow> db \<times> int set \<Rightarrow> bool" for S hm where
  login: "issue_login_refresh S hm now dr uid d = Inr (new, d') \<Longrightarrow> dr_jti dr \<notin> U \<Longrightarrow>
     dr_family dr \<notin> U \<Longrightarrow> token_step S hm (d, U) (d', U \<union> {dr_jti dr, dr_family dr})"
| rotate: "rotate_refresh_token S hm now dr raw \<lparr>aw_db = d, aw_audit = au\<rparr> = (r, w') \<Longrightarrow>
     dr_jti dr \<notin> U \<Longrightarrow> token_step S hm (d, U) (aw_db w', insert (dr_jti dr) U)"
| logout: "revoke_refresh_token S hm now raw d = Inr (b, d') \<Longrightarrow> token_step S hm (d, U) (d', U)"
| revoke: "token_step S hm (d, U) (revoke_families reason now fs d, U)"
| cleanup: "delete_expired now d = (n, d') \<Longrightarrow> token_step S hm (d, U) (d', U)"
| cascade: "tokens d' = delete_where (\<lambda>r. rt_user r = uid) (tokens d) \<Longrightarrow>
     token_step S hm (d, U) (d', U)"
| other: "tokens d' = tokens d \<Longrightarrow> token_step S hm (d, U) (d', U)"

inductive token_run :: "auth_settings \<Rightarrow> hmac \<Rightarrow> db \<times> int set \<Rightarrow> db \<times> int set \<Rightarrow> bool" for S hm where
  here: "token_run S hm s s"
| more: "token_run S hm s s' \<Longrightarrow> token_step S hm s' s'' \<Longrightarrow> token_run S hm s s''"

definition token_reachable :: "auth_settings \<Rightarrow> hmac \<Rightarrow> db \<times> int set \<Rightarrow> bool" where
  "token_reachable S hm s \<longleftrightarrow> (\<exists>d U. rows (tokens d) = [] \<and> token_run S hm (d, U) s)"

definition drawn_ok :: "db \<times> int set \<Rightarrow> bool" where
  "drawn_ok s \<longleftrightarrow> (\<forall>r \<in> set (rows (tokens (fst s))). rt_jti r \<in> snd s \<and> rt_family r \<in> snd s)"

section \<open>How rows evolve\<close>

text \<open>
  A stored row keeps its identity and only moves towards death; a new row has a fresh jti, and a
  fresh family or that of a live row.
\<close>

definition row_le :: "refresh_token \<Rightarrow> refresh_token \<Rightarrow> bool" where
  "row_le r q \<longleftrightarrow> rt_jti q = rt_jti r \<and> rt_hash q = rt_hash r \<and> rt_family q = rt_family r \<and>
     rt_user q = rt_user r \<and> rt_absolute_at q = rt_absolute_at r \<and>
     (rt_rotated_to r \<noteq> None \<longrightarrow> rt_rotated_to q \<noteq> None) \<and> (live q \<longrightarrow> live r)"

definition evolves :: "int set \<Rightarrow> int set \<Rightarrow> db \<Rightarrow> db \<Rightarrow> bool" where
  "evolves U V d d' \<longleftrightarrow> (\<forall>q \<in> set (rows (tokens d')). (\<exists>r \<in> set (rows (tokens d)). row_le r q) \<or>
     rt_jti q \<in> V - U \<and> (rt_family q \<in> V - U \<or>
       (\<exists>r \<in> set (rows (tokens d)). live r \<and> rt_family r = rt_family q)))"

lemma row_le_refl [simp]: "row_le r r"
  by (simp add: row_le_def)

lemma row_le_trans: "row_le r q \<Longrightarrow> row_le q p \<Longrightarrow> row_le r p"
  by (simp add: row_le_def)

lemma evolves_sub: "set (rows (tokens d')) \<subseteq> set (rows (tokens d)) \<Longrightarrow> evolves U V d d'"
  unfolding evolves_def by (meson row_le_refl subsetD)

lemma evolves_refl [simp, intro!]: "evolves U V d d"
  by (rule evolves_sub) simp

lemma evolves_insert:
  assumes "token_create jti f uid h iss e a d = Inr (row, d')" "jti \<in> V - U"
    "f \<in> V - U \<or> (\<exists>r \<in> set (rows (tokens d)). live r \<and> rt_family r = f)"
  shows "evolves U V d d'"
proof -
  note r = token_create_InrD [OF assms(1)]
  have "set (rows (tokens d')) = insert row (set (rows (tokens d)))" by (simp add: r(2))
  moreover have "rt_jti row = jti" "rt_family row = f" using r(1) by simp_all
  ultimately show ?thesis using assms(2,3) unfolding evolves_def
    by (metis insert_iff row_le_refl)
qed

lemma evolves_update:
  assumes e: "evolves U V d d'" and t: "tokens d'' = update_where p f (tokens d')"
    and le: "\<And>r. row_le r (f r)"
  shows "evolves U V d d''"
  unfolding evolves_def
proof
  fix q assume "q \<in> set (rows (tokens d''))"
  then obtain r where r: "r \<in> set (rows (tokens d'))" and "q = (if p r then f r else r)"
    unfolding t mem_update_where by blast
  then have le_q: "row_le r q" using le by simp
  have same: "rt_jti q = rt_jti r" "rt_family q = rt_family r"
    using le_q by (simp_all add: row_le_def)
  from e r have "(\<exists>r' \<in> set (rows (tokens d)). row_le r' r) \<or>
     rt_jti r \<in> V - U \<and> (rt_family r \<in> V - U \<or>
       (\<exists>r' \<in> set (rows (tokens d)). live r' \<and> rt_family r' = rt_family r))"
    unfolding evolves_def by (rule bspec)
  then show "(\<exists>r \<in> set (rows (tokens d)). row_le r q) \<or>
     rt_jti q \<in> V - U \<and> (rt_family q \<in> V - U \<or>
       (\<exists>r \<in> set (rows (tokens d)). live r \<and> rt_family r = rt_family q))"
    unfolding same using row_le_trans [OF _ le_q] by blast
qed

lemma evolves_revoke_family:
  "evolves U V d d' \<Longrightarrow> evolves U V d (snd (revoke_family f reason now d'))"
  unfolding revoke_family_def snd_conv
  by (erule evolves_update) (auto simp: row_le_def live_def)

lemma evolves_revoke_families:
  "evolves U V d d' \<Longrightarrow> evolves U V d (revoke_families reason now fs d')"
  unfolding revoke_families_def
  by (induction fs arbitrary: d') (auto intro: evolves_revoke_family)

lemma evolves_mark: "evolves U V d d' \<Longrightarrow> evolves U V d (mark_rotated row j now d')"
  unfolding mark_rotated_def by (erule evolves_update) (auto simp: row_le_def live_def)

lemma evolves_login:
  assumes "issue_login_refresh S hm now dr uid d = Inr (new, d')" "dr_jti dr \<in> V - U" "dr_family dr \<in> V - U"
  shows "evolves U V d d'"
proof -
  from assms(1) obtain d1 where i: "issue_refresh_token S hm now dr uid None None d = Inr (new, d1)"
    and d': "d' = enforce_concurrency_limit S now uid d1"
    by (auto simp: issue_login_refresh_def split: sum.splits)
  have "evolves U V d d1"
    using issue_InrD(6) [OF i] issue_InrD(4) [OF i] assms(2,3) by (auto intro: evolves_insert)
  then show ?thesis
    unfolding d' enforce_concurrency_limit_def Let_def by (rule evolves_revoke_families)
qed

lemma evolves_rotate:
  assumes "rotate_refresh_token S hm now dr raw w = (r, w')" "dr_jti dr \<in> V - U"
  shows "evolves U V (aw_db w) (aw_db w')"
proof (cases r)
  case (Inl e)
  with assms(1) show ?thesis
    by (auto simp: rotate_refresh_token_def rotate_row_def intro!: evolves_revoke_family
        split: option.splits prod.splits sum.splits if_splits)
next
  case (Inr res)
  from assms(1) [unfolded Inr] show ?thesis
  proof (rule rotate_InrD)
    fix jti row d'
    assume row: "get_by_jti (aw_db w) jti = Some row" "live row"
      and i: "issue_refresh_token S hm now dr (rt_user row) (Some (rt_family row))
        (Some (rt_absolute_at row)) (aw_db w) = Inr (rr_refresh res, d')"
      and w': "w' = w\<lparr>aw_db := mark_rotated row (is_jti (rr_refresh res)) now d'\<rparr>"
    have "evolves U V (aw_db w) d'"
      using issue_InrD(6) [OF i] issue_InrD(4) [OF i] get_by_jti_SomeD [OF row(1)] row(2) assms(2)
      by (auto intro: evolves_insert)
    then show ?thesis by (simp add: w' evolves_mark)
  qed
qed

lemma evolves_logout:
  "revoke_refresh_token S hm now raw d = Inr (b, d') \<Longrightarrow> evolves U V d d'"
  by (auto simp: revoke_refresh_token_def intro!: evolves_revoke_family
      split: option.splits prod.splits sum.splits if_splits)

lemma token_step_evolves:
  "token_step S hm s s' \<Longrightarrow> evolves (snd s) (snd s') (fst s) (fst s')"
proof (induction rule: token_step.induct)
  case (rotate now dr raw d au r w' U)
  then show ?case using evolves_rotate [OF rotate(1), of "insert (dr_jti dr) U" U] by simp
next
  case (cleanup now d n d' U)
  then have "tokens d' = delete_where (\<lambda>r. rt_expires_at r \<le> now) (tokens d)"
    by (auto simp: delete_expired_def)
  then show ?case by (auto intro!: evolves_sub simp: rows_delete_where)
next
  case (cascade d' uid d U)
  then show ?case by (auto intro!: evolves_sub simp: rows_delete_where)
next
  case (other d' d U)
  then show ?case by (auto intro!: evolves_sub)
qed (auto intro: evolves_login evolves_logout evolves_revoke_families)

lemma token_step_drawn: "token_step S hm s s' \<Longrightarrow> snd s \<subseteq> snd s'"
  by (induction rule: token_step.induct) auto

text \<open>The invariant of the reachable states.\<close>

definition token_sys_inv :: "db \<times> int set \<Rightarrow> bool" where
  "token_sys_inv s \<longleftrightarrow> token_inv (fst s) \<and> drawn_ok s"

lemma evolvesE:
  assumes "evolves U V d d'" "q \<in> set (rows (tokens d'))"
  obtains r where "r \<in> set (rows (tokens d))" "row_le r q"
  | "rt_jti q \<in> V - U" "rt_family q \<in> V - U"
  | r where "rt_jti q \<in> V - U" "r \<in> set (rows (tokens d))" "live r" "rt_family r = rt_family q"
  using assms unfolding evolves_def by blast

lemma drawn_ok_step:
  assumes step: "token_step S hm s s'" and ok: "drawn_ok s"
  shows "drawn_ok s'"
  unfolding drawn_ok_def
proof
  fix q assume q: "q \<in> set (rows (tokens (fst s')))"
  note old = ok [unfolded drawn_ok_def, THEN bspec] and sub = token_step_drawn [OF step]
  from token_step_evolves [OF step] q show "rt_jti q \<in> snd s' \<and> rt_family q \<in> snd s'"
  proof (rule evolvesE)
    fix r assume "r \<in> set (rows (tokens (fst s)))" "row_le r q"
    then show ?thesis using old [of r] sub by (auto simp: row_le_def)
  next
    assume "rt_jti q \<in> snd s' - snd s" "rt_family q \<in> snd s' - snd s"
    then show ?thesis by simp
  next
    fix r assume r: "rt_jti q \<in> snd s' - snd s" "r \<in> set (rows (tokens (fst s)))"
      "rt_family r = rt_family q"
    then have "rt_family q \<in> snd s" using old [of r] by simp
    with r(1) sub show ?thesis by auto
  qed
qed

lemma tokens_ok_sub:
  "token_inv d \<Longrightarrow> tokens d' = delete_where p (tokens d) \<Longrightarrow> token_inv d'"
  by (simp add: token_inv_def tokens_ok_delete)

lemma token_inv_step: "token_step S hm s s' \<Longrightarrow> token_sys_inv s \<Longrightarrow> token_inv (fst s')"
  unfolding token_sys_inv_def
proof (induction rule: token_step.induct)
  case (login now dr uid d new d' U)
  then have "\<forall>r \<in> set (rows (tokens d)). rt_family r \<noteq> dr_family dr"
    by (force simp: drawn_ok_def)
  with login show ?case by (simp add: issue_login_inv)
next
  case (rotate now dr raw d au r w' U)
  then show ?case
    using rotate_inv [of "\<lparr>aw_db = d, aw_audit = au\<rparr>" S hm now dr raw] by simp
next
  case (cleanup now d n d' U)
  then show ?case using delete_expired_inv [of d now] by simp
next
  case (other d' d U)
  then show ?case by (simp add: token_inv_def)
next
  case (cascade d' uid d U)
  then show ?case by (auto intro: tokens_ok_sub)
qed (auto intro: revoke_token_inv revoke_families_inv)

lemma token_sys_step: "token_step S hm s s' \<Longrightarrow> token_sys_inv s \<Longrightarrow> token_sys_inv s'"
  using token_inv_step drawn_ok_step unfolding token_sys_inv_def by blast

lemma token_sys_run: "token_run S hm s s' \<Longrightarrow> token_sys_inv s \<Longrightarrow> token_sys_inv s'"
  by (induction rule: token_run.induct) (auto intro: token_sys_step)

lemma token_inv_no_rows: "rows (tokens d) = [] \<Longrightarrow> token_inv d"
  by (simp add: token_inv_def tokens_ok_def table_ok_def same_family_agrees_def
      one_live_per_family_def)

lemma reachable_sys_inv: "token_reachable S hm s \<Longrightarrow> token_sys_inv s"
  unfolding token_reachable_def
  by (elim exE conjE, erule token_sys_run)
    (simp add: token_sys_inv_def drawn_ok_def token_inv_no_rows)

lemma token_run_trans: "token_run S hm s' s'' \<Longrightarrow> token_run S hm s s' \<Longrightarrow> token_run S hm s s''"
  by (induction rule: token_run.induct) (auto intro: token_run.more)

lemma reachable_run: "token_reachable S hm s \<Longrightarrow> token_run S hm s s' \<Longrightarrow> token_reachable S hm s'"
  unfolding token_reachable_def using token_run_trans by blast

section \<open>Families\<close>

definition family_dead :: "int \<Rightarrow> db \<Rightarrow> bool" where
  "family_dead f d \<longleftrightarrow> (\<forall>r \<in> set (rows (tokens d)). rt_family r = f \<longrightarrow> \<not> live r)"

definition live_rows :: "int \<Rightarrow> db \<Rightarrow> refresh_token list" where
  "live_rows f d = filter (\<lambda>r. rt_family r = f \<and> live r) (rows (tokens d))"

lemma revoke_family_dead: "family_dead f (snd (revoke_family f reason now d))"
  by (simp add: family_dead_def revoke_family_def ball_update_where live_def)

lemma rotate_needs_live:
  assumes "rotate_refresh_token S hm now dr raw w = (Inr res, w')" "token_inv (aw_db w)"
  shows "\<not> family_dead (is_family (rr_refresh res)) (aw_db w)"
  using assms(1)
proof (rule rotate_InrD)
  fix jti row d'
  assume "get_by_jti (aw_db w) jti = Some row" "live row"
    and i: "issue_refresh_token S hm now dr (rt_user row) (Some (rt_family row))
      (Some (rt_absolute_at row)) (aw_db w) = Inr (rr_refresh res, d')"
  then show ?thesis
    using issue_InrD(4) [OF i] get_by_jti_SomeD by (auto simp: family_dead_def)
qed

text \<open>The row presented in a successful rotation, as the rotation leaves it.\<close>

lemma rotate_marks:
  assumes i: "issue_refresh_token S hm now dr (rt_user row) (Some (rt_family row))
      (Some (rt_absolute_at row)) d = Inr (new, d')"
    and "row \<in> set (rows (tokens d))"
  shows "row\<lparr>rt_rotated_to := Some j, rt_revoked_at := Some now,
      rt_revoked_reason := Some ''rotated'', rt_last_used := Some now\<rparr>
      \<in> set (rows (tokens (mark_rotated row j now d')))"
proof -
  from issue_InrD(6) [OF i] obtain n where "row \<in> set (rows (tokens d'))"
    using assms(2) by (auto dest: token_create_InrD(2))
  then show ?thesis by (force simp: mark_rotated_def rows_update_where)
qed

section \<open>Active families under revocation\<close>

lemma filter_map_if:
  "(\<And>r. p r \<Longrightarrow> \<not> a (f r)) \<Longrightarrow>
     filter a (map (\<lambda>r. if p r then f r else r) xs) = filter (\<lambda>r. a r \<and> \<not> p r) xs"
  by (induction xs) auto

lemma active_rows_revoke_family:
  "active_rows (snd (revoke_family f reason t d)) uid now =
     filter (\<lambda>r. rt_family r \<noteq> f) (active_rows d uid now)"
  unfolding active_rows_def revoke_family_def
  by (simp add: rows_update_where filter_map_if live_def conj_ac cong: conj_cong)

lemma active_rows_revoke_families:
  "active_rows (revoke_families reason t fs d) uid now =
     filter (\<lambda>r. rt_family r \<notin> set fs) (active_rows d uid now)"
  unfolding revoke_families_def
proof (induction fs arbitrary: d)
  case (Cons f fs)
  show ?case by (simp add: Cons.IH active_rows_revoke_family conj_commute)
qed simp

lemma set_list_active_families:
  "set (list_active_families d uid now) = rt_family ` set (active_rows d uid now)"
  by (simp add: list_active_families_def Let_def)

lemma distinct_list_active_families: "distinct (list_active_families d uid now)"
  by (simp add: list_active_families_def Let_def)

lemma families_after_enforce:
  "set (list_active_families (enforce_concurrency_limit S now uid d) uid now) =
     set (take (nat (max_sessions S)) (list_active_families d uid now))"
proof -
  let ?fs = "list_active_families d uid now" and ?n = "nat (max_sessions S)"
  have "set (list_active_families (enforce_concurrency_limit S now uid d) uid now) =
      set ?fs - set (drop ?n ?fs)"
    unfolding set_list_active_families enforce_concurrency_limit_def Let_def
      active_rows_revoke_families by auto
  then show ?thesis using set_take_drop_minus [OF distinct_list_active_families] by metis
qed

lemma active_rows_other_user:
  assumes "uid' \<noteq> uid" "same_family_agrees (rows (tokens d))"
  shows "active_rows (enforce_concurrency_limit S now uid d) uid' t = active_rows d uid' t"
proof -
  have "rt_family r \<notin> set (drop n (list_active_families d uid now))"
    if r: "r \<in> set (active_rows d uid' t)" for r n
  proof
    assume "rt_family r \<in> set (drop n (list_active_families d uid now))"
    then have "rt_family r \<in> set (list_active_families d uid now)" by (rule in_set_dropD)
    then obtain q where "q \<in> set (active_rows d uid now)" "rt_family q = rt_family r"
      by (auto simp: set_list_active_families)
    with r assms same_familyD [of "rows (tokens d)" r q] show False
      by (auto simp: active_rows_def)
  qed
  then show ?thesis
    by (simp add: enforce_concurrency_limit_def Let_def active_rows_revoke_families filter_id_conv)
qed

text \<open>The family of a login is the most recent one.\<close>

lemma recency_new_first:
  assumes i: "issue_refresh_token S hm now dr uid None None d = Inr (new, d')"
    and ok: "token_inv d" and S: "settings_ok S"
    and past: "\<forall>r \<in> set (rows (tokens d)). rt_issued_at r \<le> now"
    and fresh: "\<forall>r \<in> set (rows (tokens d)). rt_family r \<noteq> dr_family dr"
  shows "\<exists>fs. list_active_families d' uid now = dr_family dr # fs"
proof -
  from issue_InrD(6) [OF i] issue_InrD(4) [OF i] obtain n where
    c: "token_create (dr_jti dr) (dr_family dr) uid (hm (refresh_pepper S) (dr_secret dr)) now
      (new_expiry S now None) (now + secs (absolute_ttl S)) d = Inr (n, d')" by auto
  note r = token_create_InrD [OF c]
  let ?rs = "active_rows d' uid now" and ?f = "dr_family dr"
  have rows': "rows (tokens d') = rows (tokens d) @ [n]" using r(2) by simp
  have nf: "live n" "rt_user n = uid" "now < rt_expires_at n" "rt_family n = ?f"
    "rt_issued_at n = now" "rt_id n = seq (tokens d)"
    using S r(1) by (auto simp: new_expiry_def live_def settings_ok_def secs_def)
  then have n_act: "n \<in> set ?rs" using rows' by (simp add: active_rows_def)
  have "filter (\<lambda>q. rt_family q = ?f) (filter (\<lambda>r. rt_user r = uid \<and> live r \<and>
      now < rt_expires_at r) (rows (tokens d))) = []"
    using fresh by (auto simp: filter_empty_conv)
  then have only: "filter (\<lambda>q. rt_family q = ?f) ?rs = [n]"
    using nf unfolding active_rows_def rows' by simp
  then have key_n: "family_recency ?rs ?f = (- now, - seq (tokens d))"
    using nf by (simp add: family_recency_def)
  have less: "family_recency ?rs ?f < family_recency ?rs g" if g: "g \<in> rt_family ` set ?rs" "g \<noteq> ?f" for g
  proof -
    let ?g = "filter (\<lambda>q. rt_family q = g) ?rs"
    have sub: "x \<in> set (rows (tokens d))" if "x \<in> set ?g" for x
    proof -
      from that have "x \<in> set (rows (tokens d'))" "rt_family x = g" by (auto simp: active_rows_def)
      with rows' nf(4) g(2) show ?thesis by auto
    qed
    have ne: "?g \<noteq> []" using g(1) by (auto simp: filter_empty_conv)
    have "Max (set (map rt_issued_at ?g)) \<in> set (map rt_issued_at ?g)"
      using ne by (intro Max_in) (simp_all del: set_map)
    then obtain x where "x \<in> set ?g" "Max (set (map rt_issued_at ?g)) = rt_issued_at x"
      unfolding set_map by (rule imageE)
    then have "Max (set (map rt_issued_at ?g)) \<le> now" using sub past by simp
    moreover have "Max (set (map rt_id ?g)) \<in> set (map rt_id ?g)"
      using ne by (intro Max_in) (simp_all del: set_map)
    then obtain y where "y \<in> set ?g" "Max (set (map rt_id ?g)) = rt_id y"
      unfolding set_map by (rule imageE)
    then have "Max (set (map rt_id ?g)) < seq (tokens d)"
      using sub ok by (simp add: token_inv_def tokens_ok_def table_ok_def)
    moreover have "family_recency ?rs g =
        (- Max (set (map rt_issued_at ?g)), - Max (set (map rt_id ?g)))"
      by (simp only: family_recency_def Let_def)
    ultimately show ?thesis unfolding key_n by auto
  qed
  let ?fs = "list_active_families d' uid now"
  have f_in: "?f \<in> set ?fs" using n_act r(1) by (force simp: set_list_active_families)
  then obtain h t where ht: "?fs = h # t" by (cases ?fs) auto
  have "sorted (map (family_recency ?rs) ?fs)" by (simp add: list_active_families_def Let_def)
  then have "family_recency ?rs h \<le> family_recency ?rs ?f" using f_in ht by auto
  moreover have "h \<in> rt_family ` set ?rs"
    using ht set_list_active_families [of d' uid now] by (metis list.set_intros(1))
  ultimately have "h = ?f" using less [of h] by (metis not_le)
  with ht show ?thesis by blast
qed


lemma live_rows_single:
  assumes "token_inv d" "r \<in> set (rows (tokens d))" "live r"
  shows "live_rows (rt_family r) d = [r]"
  unfolding live_rows_def
proof (rule filter_unique)
  show "distinct (rows (tokens d))"
    using assms(1) by (auto simp: token_inv_def tokens_ok_def distinct_map)
  show "q = r" if "q \<in> set (rows (tokens d))" "rt_family q = rt_family r \<and> live q" for q
    using that assms one_liveD [of "rows (tokens d)" q r] by (auto simp: token_inv_def tokens_ok_def)
qed (use assms in auto)

lemma revoke_family_none: "family_dead f d \<Longrightarrow> snd (revoke_family f reason now d) = d"
proof -
  assume "family_dead f d"
  then have "map (\<lambda>r. if rt_family r = f \<and> live r
      then r\<lparr>rt_revoked_at := Some now, rt_revoked_reason := Some reason\<rparr> else r)
      (rows (tokens d)) = rows (tokens d)"
    by (intro map_idI) (auto simp: family_dead_def)
  then show ?thesis by (simp add: revoke_family_def update_where_def)
qed

section \<open>Death is permanent\<close>

text \<open>
  \<open>kept row d\<close>: the token with the identifier of \<open>row\<close>, if still stored, is \<open>row\<close> or further
  towards death.  Both facts below persist in every later state, even when the clean-up has removed
  the rows.
\<close>

definition kept :: "refresh_token \<Rightarrow> db \<Rightarrow> bool" where
  "kept row d \<longleftrightarrow> (\<forall>r \<in> set (rows (tokens d)). rt_jti r = rt_jti row \<longrightarrow> row_le row r)"

lemma kept_step:
  assumes step: "token_step S hm s s'" and j: "rt_jti row \<in> snd s" "kept row (fst s)"
  shows "rt_jti row \<in> snd s' \<and> kept row (fst s')"
proof
  show "rt_jti row \<in> snd s'" using token_step_drawn [OF step] j(1) by blast
  show "kept row (fst s')"
    unfolding kept_def
  proof (intro ballI impI)
    fix q assume q: "q \<in> set (rows (tokens (fst s')))" "rt_jti q = rt_jti row"
    from token_step_evolves [OF step] q(1) show "row_le row q"
    proof (rule evolvesE)
      fix r assume r: "r \<in> set (rows (tokens (fst s)))" "row_le r q"
      then have "rt_jti r = rt_jti row" using q(2) by (simp add: row_le_def)
      with j(2) r(1) have "row_le row r" by (simp add: kept_def)
      then show ?thesis using r(2) by (rule row_le_trans)
    qed (use j(1) q(2) in simp_all)
  qed
qed

lemma kept_run:
  "token_run S hm s s' \<Longrightarrow> rt_jti row \<in> snd s \<Longrightarrow> kept row (fst s) \<Longrightarrow>
     rt_jti row \<in> snd s' \<and> kept row (fst s')"
  by (induction rule: token_run.induct) (auto dest: kept_step)

lemma kept_stored:
  "token_inv d \<Longrightarrow> row \<in> set (rows (tokens d)) \<Longrightarrow> kept row d"
  unfolding kept_def using jti_unique [of d] by (metis row_le_refl)

lemma dead_step:
  assumes step: "token_step S hm s s'" and f: "f \<in> snd s" "family_dead f (fst s)"
  shows "f \<in> snd s' \<and> family_dead f (fst s')"
proof
  show "f \<in> snd s'" using token_step_drawn [OF step] f(1) by blast
  show "family_dead f (fst s')"
    unfolding family_dead_def
  proof (intro ballI impI)
    fix q assume q: "q \<in> set (rows (tokens (fst s')))" "rt_family q = f"
    from token_step_evolves [OF step] q(1) show "\<not> live q"
      by (rule evolvesE) (use f q in \<open>auto simp: family_dead_def row_le_def\<close>)
  qed
qed

lemma dead_run:
  "token_run S hm s s' \<Longrightarrow> f \<in> snd s \<Longrightarrow> family_dead f (fst s) \<Longrightarrow>
     f \<in> snd s' \<and> family_dead f (fst s')"
  by (induction rule: token_run.induct) (auto dest: dead_step)

text \<open>The row a presented token names, and rotation in terms of it.\<close>

definition presented :: "db \<Rightarrow> string \<Rightarrow> (refresh_token \<times> string) option" where
  "presented d raw =
     (case parse_refresh_token raw of
        None \<Rightarrow> None
      | Some (j, secret) \<Rightarrow>
          (case uuid_parse j of
             None \<Rightarrow> None
           | Some jti \<Rightarrow> map_option (\<lambda>r. (r, secret)) (get_by_jti d jti)))"

lemma presentedD:
  "presented d raw = Some (r, secret) \<Longrightarrow> r \<in> set (rows (tokens d)) \<and>
     (\<exists>j. parse_refresh_token raw = Some (j, secret) \<and> uuid_parse j = Some (rt_jti r))"
  by (auto simp: presented_def dest: get_by_jti_SomeD split: option.splits)

lemma presented_same_jti:
  assumes "presented d raw = Some (r, secret)" "presented d' raw = Some (q, secret')"
  shows "rt_jti q = rt_jti r \<and> secret' = secret"
  using presentedD [OF assms(1)] presentedD [OF assms(2)] by auto

lemma rotate_presented:
  "refresh_pepper S \<noteq> [] \<Longrightarrow> rotate_refresh_token S hm now dr raw w =
     (case presented (aw_db w) raw of
        None \<Rightarrow> (Inl refresh_invalid, w)
      | Some (row, secret) \<Rightarrow>
          if hm (refresh_pepper S) secret \<noteq> rt_hash row then (Inl refresh_invalid, w)
          else rotate_row S hm now dr row w)"
  by (simp add: rotate_refresh_token_def presented_def get_user_id_by_jti_def
      split: option.splits prod.splits)

lemma revoke_presented:
  "refresh_pepper S \<noteq> [] \<Longrightarrow> revoke_refresh_token S hm now raw d =
     (case presented d raw of
        None \<Rightarrow> Inr (False, d)
      | Some (row, secret) \<Rightarrow>
          if hm (refresh_pepper S) secret \<noteq> rt_hash row then Inr (False, d)
          else Inr (True, snd (revoke_family (rt_family row) ''logout'' now d)))"
  by (simp add: revoke_refresh_token_def presented_def get_user_id_by_jti_def
      split: option.splits prod.splits)

lemma rotate_presentedD:
  assumes "rotate_refresh_token S hm now dr raw w = (Inr res, w')"
  obtains row secret d' where
    "presented (aw_db w) raw = Some (row, secret)" "row \<in> set (rows (tokens (aw_db w)))"
    "refresh_pepper S \<noteq> []" "hm (refresh_pepper S) secret = rt_hash row"
    "rt_rotated_to row = None" "live row" "now < rt_expires_at row" "now < rt_absolute_at row"
    "issue_refresh_token S hm now dr (rt_user row) (Some (rt_family row))
       (Some (rt_absolute_at row)) (aw_db w) = Inr (rr_refresh res, d')"
    "w' = w\<lparr>aw_db := mark_rotated row (is_jti (rr_refresh res)) now d'\<rparr>"
    "rr_user res = rt_user row"
  using assms
proof (rule rotate_InrD)
  fix jti_str secret jti row d'
  assume p: "parse_refresh_token raw = Some (jti_str, secret)" "uuid_parse jti_str = Some jti"
      "get_by_jti (aw_db w) jti = Some row"
    and rest: "refresh_pepper S \<noteq> []" "hm (refresh_pepper S) secret = rt_hash row"
    "rt_rotated_to row = None" "live row" "now < rt_expires_at row" "now < rt_absolute_at row"
    "issue_refresh_token S hm now dr (rt_user row) (Some (rt_family row))
       (Some (rt_absolute_at row)) (aw_db w) = Inr (rr_refresh res, d')"
    "w' = w\<lparr>aw_db := mark_rotated row (is_jti (rr_refresh res)) now d'\<rparr>"
    "rr_user res = rt_user row"
  have "presented (aw_db w) raw = Some (row, secret)" using p by (simp add: presented_def)
  then show thesis using get_by_jti_SomeD [OF p(3)] rest by (intro that) simp_all
qed

lemma revoke_family_keeps:
  assumes "row \<in> set (rows (tokens d))"
  shows "\<exists>q \<in> set (rows (tokens (snd (revoke_family f reason now d)))). row_le row q"
proof -
  let ?q = "if rt_family row = f \<and> live row
    then row\<lparr>rt_revoked_at := Some now, rt_revoked_reason := Some reason\<rparr> else row"
  have t: "tokens (snd (revoke_family f reason now d)) =
      update_where (\<lambda>r. rt_family r = f \<and> live r)
        (\<lambda>r. r\<lparr>rt_revoked_at := Some now, rt_revoked_reason := Some reason\<rparr>) (tokens d)"
    by (simp add: revoke_family_def)
  have "?q \<in> set (rows (tokens (snd (revoke_family f reason now d))))"
    unfolding t mem_update_where using assms by blast
  moreover have "row_le row ?q" by (simp add: row_le_def live_def)
  ultimately show ?thesis by blast
qed

section \<open>A concrete session\<close>

definition demo_settings :: auth_settings where
  "demo_settings = \<lparr>jwt_secret = ''k'', jwt_issuer = [], jwt_audience = [], access_ttl = 1800,
     refresh_pepper = ''p'', idle_ttl = 604800, absolute_ttl = 2592000, max_sessions = 5,
     captcha_ttl = 120, fail_window = 600, captcha_threshold = 3, lock_threshold = 5,
     lock_seconds = 600, ip_limit = 30\<rparr>"

definition demo_hmac :: hmac where
  "demo_hmac p s = p @ s"

definition demo_user :: user where
  "demo_user = \<lparr>u_id = 1, u_username = ''ann'', u_password_hash = ''h'', u_nickname = [],
     u_status = Active, u_super = False, u_dept = None, u_created = 0\<rparr>"

definition demo_db :: db where
  "demo_db = empty_db\<lparr>users := \<lparr>rows = [demo_user], seq = 2\<rparr>\<rparr>"

definition demo_draw :: "int \<Rightarrow> draw" where
  "demo_draw i = \<lparr>dr_jti = 100 + i, dr_family = 200 + i, dr_secret = replicate (nat i) CHR ''s''\<rparr>"

definition demo_session :: db where
  "demo_session =
     (case issue_login_refresh demo_settings demo_hmac 0 (demo_draw 1) 1 demo_db of
        Inr (new, d) \<Rightarrow> d | Inl e \<Rightarrow> demo_db)"

definition demo_world :: auth_world where
  "demo_world = \<lparr>aw_db = demo_session, aw_audit = []\<rparr>"

definition demo_raw :: string where
  "demo_raw = refresh_plain 101 ''s''"

definition demo_rotated :: "(exn + rotation_result) \<times> auth_world" where
  "demo_rotated =
     rotate_refresh_token demo_settings demo_hmac 5 (demo_draw 2) demo_raw demo_world"

lemma demo_login:
  "\<exists>new. issue_login_refresh demo_settings demo_hmac 0 (demo_draw 1) 1 demo_db =
     Inr (new, demo_session)"
proof -
  have "\<not> isl (issue_login_refresh demo_settings demo_hmac 0 (demo_draw 1) 1 demo_db)"
    by code_simp
  then obtain x where "issue_login_refresh demo_settings demo_hmac 0 (demo_draw 1) 1 demo_db = Inr x"
    by (cases "issue_login_refresh demo_settings demo_hmac 0 (demo_draw 1) 1 demo_db")
      (simp_all only: sum.disc, blast)
  then show ?thesis unfolding demo_session_def by (auto split: prod.splits)
qed

lemma demo_rotate_ok: "\<not> isl (fst demo_rotated)"
  by code_simp

end
