(* ===== verification/TokenTheorems.thy ===== *)
theory TokenTheorems
  imports RefreshTokenProps
begin

text \<open>
  The properties of refresh tokens and sessions, each with a witness on the concrete session of
  \<open>RefreshTokenProps\<close>.
\<close>

section \<open>Witness states\<close>

lemma demo_reachable: "token_reachable demo_settings demo_hmac (demo_session, {101, 201})"
proof -
  obtain new where "issue_login_refresh demo_settings demo_hmac 0 (demo_draw 1) 1 demo_db =
      Inr (new, demo_session)" using demo_login by blast
  then have "token_step demo_settings demo_hmac (demo_db, {})
      (demo_session, {} \<union> {dr_jti (demo_draw 1), dr_family (demo_draw 1)})"
    by (rule token_step.login) simp_all
  then have "token_step demo_settings demo_hmac (demo_db, {}) (demo_session, {101, 201})"
    by (simp add: demo_draw_def)
  then have "token_run demo_settings demo_hmac (demo_db, {}) (demo_session, {101, 201})"
    by (rule token_run.more [OF token_run.here])
  moreover have "rows (tokens demo_db) = []"
    by (simp add: demo_db_def empty_db_def empty_table_def)
  ultimately show ?thesis unfolding token_reachable_def by blast
qed

lemma demo_rotation:
  obtains res w' where
    "rotate_refresh_token demo_settings demo_hmac 5 (demo_draw 2) demo_raw demo_world = (Inr res, w')"
proof (cases demo_rotated)
  case (Pair r w')
  have "\<not> isl r" using demo_rotate_ok unfolding Pair fst_conv .
  then obtain res where "r = Inr res" by (cases r) simp_all
  with Pair that show thesis by (simp add: demo_rotated_def)
qed

section \<open>Reachable states\<close>

text \<open>
  C8 In every reachable state of the refresh-token table, the keys and token identifiers are
  unique, a rotated token is revoked, no token outlives the absolute expiry of its session, the
  tokens of a session agree on its user and its absolute expiry, and at most one of them is live.
\<close>

theorem reachable_token_inv:
  "token_reachable S hm s \<Longrightarrow> token_inv (fst s)"
  using reachable_sys_inv unfolding token_sys_inv_def by blast

theorem reachable_token_inv_witness: "token_inv demo_session"
  using reachable_token_inv [OF demo_reachable] by simp

section \<open>Rotation\<close>

text \<open>
  C4 A successful rotation replaces the single live token of the session by exactly one new one:
  same user, same absolute expiry, an expiry that is the idle limit cut at the absolute expiry,
  which has not passed; the returned string is the new token and the audit buffer is unchanged.
\<close>

theorem rotation_replaces_live_token:
  assumes "token_reachable S hm (aw_db w, U)"
    and "rotate_refresh_token S hm now dr raw w = (Inr res, w')"
  shows "\<exists>old new secret. presented (aw_db w) raw = Some (old, secret) \<and>
      live_rows (rt_family old) (aw_db w) = [old] \<and> live_rows (rt_family old) (aw_db w') = [new] \<and>
      rt_jti new = dr_jti dr \<and> rt_user new = rt_user old \<and> rr_user res = rt_user old \<and>
      now < rt_absolute_at old \<and> rt_absolute_at new = rt_absolute_at old \<and>
      rt_expires_at new = min (now + secs (idle_ttl S)) (rt_absolute_at old) \<and>
      is_token (rr_refresh res) = refresh_plain (dr_jti dr) (dr_secret dr) \<and>
      aw_audit w' = aw_audit w"
  using assms(2)
proof (rule rotate_presentedD)
  fix row secret d'
  assume p: "presented (aw_db w) raw = Some (row, secret)" "row \<in> set (rows (tokens (aw_db w)))"
    and l: "live row" "now < rt_absolute_at row"
    and i: "issue_refresh_token S hm now dr (rt_user row) (Some (rt_family row))
       (Some (rt_absolute_at row)) (aw_db w) = Inr (rr_refresh res, d')"
    and w': "w' = w\<lparr>aw_db := mark_rotated row (is_jti (rr_refresh res)) now d'\<rparr>"
    and u: "rr_user res = rt_user row"
  have inv: "token_inv (aw_db w)"
    using reachable_sys_inv [OF assms(1)] by (simp add: token_sys_inv_def)
  from i inv p(2) l(1) obtain n where n:
    "tokens (aw_db w') = (tokens (mark_rotated row (is_jti (rr_refresh res)) now (aw_db w)))\<lparr>
        rows := rows (tokens (mark_rotated row (is_jti (rr_refresh res)) now (aw_db w))) @ [n],
        seq := seq (tokens (aw_db w)) + 1\<rparr>"
    "rt_jti n = dr_jti dr" "rt_family n = rt_family row" "rt_user n = rt_user row" "live n"
    "rt_expires_at n = min (now + secs (idle_ttl S)) (rt_absolute_at row)"
    "rt_absolute_at n = rt_absolute_at row"
    unfolding w' by (auto elim: rotate_success_rows [where j = "is_jti (rr_refresh res)"])
  have "n \<in> set (rows (tokens (aw_db w')))" by (simp add: n(1))
  moreover have "token_inv (aw_db w')"
    using rotate_inv [OF inv, of S hm now dr raw] assms(2) by simp
  ultimately have "live_rows (rt_family row) (aw_db w') = [n]"
    using live_rows_single n(3,5) by metis
  then show ?thesis
    using p l u n(2,4,6,7) live_rows_single [OF inv p(2) l(1)] issue_InrD(3) [OF i] w' by auto
qed

theorem rotation_replaces_live_token_witness:
  "\<exists>old new secret res w'. rotate_refresh_token demo_settings demo_hmac 5 (demo_draw 2) demo_raw
       demo_world = (Inr res, w') \<and>
     presented demo_session demo_raw = Some (old, secret) \<and>
     live_rows (rt_family old) (aw_db w') = [new] \<and> rt_jti new = 102"
proof -
  obtain res w' where r: "rotate_refresh_token demo_settings demo_hmac 5 (demo_draw 2) demo_raw
      demo_world = (Inr res, w')" by (rule demo_rotation)
  have "token_reachable demo_settings demo_hmac (aw_db demo_world, {101, 201})"
    using demo_reachable by (simp add: demo_world_def)
  from rotation_replaces_live_token [OF this r] r show ?thesis
    by (fastforce simp: demo_world_def demo_draw_def)
qed


text \<open>
  C5 A refresh token is good for one rotation, forever: after a successful rotation, in every later
  state of the table, presenting the same string again fails.  As long as its row is stored the
  failure is \<open>REFRESH_TOKEN_REUSED\<close>, revokes every live token of the session and records a
  high-risk audit event for the user; once the clean-up has deleted the row it is
  \<open>REFRESH_TOKEN_INVALID\<close> with no effect.
\<close>

theorem rotated_token_is_spent:
  assumes "token_reachable S hm (aw_db w, U)" and "dr_jti dr \<notin> U"
    and "rotate_refresh_token S hm now dr raw w = (Inr res, w')"
    and "token_run S hm (aw_db w', insert (dr_jti dr) U) (d, V)"
  shows "rotate_refresh_token S hm now' dr' raw \<lparr>aw_db = d, aw_audit = au\<rparr> =
      (if presented d raw = None then (Inl refresh_invalid, \<lparr>aw_db = d, aw_audit = au\<rparr>)
       else (Inl refresh_reused,
             \<lparr>aw_db = snd (revoke_family (is_family (rr_refresh res)) ''reuse_detected'' now' d),
              aw_audit = au @ [reuse_event (rr_user res)]\<rparr>)) \<and>
    family_dead (is_family (rr_refresh res))
      (snd (revoke_family (is_family (rr_refresh res)) ''reuse_detected'' now' d))"
  using assms(3)
proof (rule rotate_presentedD)
  fix row secret d'
  assume p: "presented (aw_db w) raw = Some (row, secret)" "row \<in> set (rows (tokens (aw_db w)))"
    and ne: "refresh_pepper S \<noteq> []" and h: "hm (refresh_pepper S) secret = rt_hash row"
    and i: "issue_refresh_token S hm now dr (rt_user row) (Some (rt_family row))
       (Some (rt_absolute_at row)) (aw_db w) = Inr (rr_refresh res, d')"
    and w': "w' = w\<lparr>aw_db := mark_rotated row (is_jti (rr_refresh res)) now d'\<rparr>"
    and u: "rr_user res = rt_user row"
  let ?m = "row\<lparr>rt_rotated_to := Some (is_jti (rr_refresh res)), rt_revoked_at := Some now,
      rt_revoked_reason := Some ''rotated'', rt_last_used := Some now\<rparr>"
  have sys: "token_sys_inv (aw_db w, U)" by (rule reachable_sys_inv [OF assms(1)])
  then have inv: "token_inv (aw_db w)" by (simp add: token_sys_inv_def)
  have jU: "rt_jti ?m \<in> insert (dr_jti dr) U"
    using sys p(2) by (auto simp: token_sys_inv_def drawn_ok_def)
  have "?m \<in> set (rows (tokens (aw_db w')))" unfolding w' using rotate_marks [OF i p(2)] by simp
  moreover have "token_inv (aw_db w')"
    using rotate_inv [OF inv, of S hm now dr raw] assms(3) by simp
  ultimately have "kept ?m (aw_db w')" by (intro kept_stored)
  with kept_run [OF assms(4), of ?m] jU have k: "kept ?m d" by simp
  have fam: "is_family (rr_refresh res) = rt_family row" using issue_InrD(4) [OF i] by simp
  show ?thesis
  proof (cases "presented d raw")
    case None
    then show ?thesis by (simp add: rotate_presented [OF ne] revoke_family_dead)
  next
    case (Some q)
    then obtain r s where q: "presented d raw = Some (r, s)" by (cases q) auto
    then have "rt_jti r = rt_jti row" "s = secret" "r \<in> set (rows (tokens d))"
      using presented_same_jti [OF p(1)] presentedD [OF q] by auto
    then have "row_le ?m r" using k by (simp add: kept_def)
    then have "rt_rotated_to r \<noteq> None" "rt_hash r = rt_hash row" "rt_family r = rt_family row"
      "rt_user r = rt_user row" by (auto simp: row_le_def)
    then show ?thesis using q \<open>s = secret\<close> h
      by (simp add: rotate_presented [OF ne] rotate_row_def fam u revoke_family_dead)
  qed
qed

theorem rotated_token_is_spent_witness:
  "\<exists>res w'. rotate_refresh_token demo_settings demo_hmac 5 (demo_draw 2) demo_raw demo_world =
     (Inr res, w') \<and>
     (\<exists>e w''. rotate_refresh_token demo_settings demo_hmac 9 (demo_draw 3) demo_raw
        \<lparr>aw_db = aw_db w', aw_audit = []\<rparr> = (Inl e, w''))"
proof -
  obtain res w' where r: "rotate_refresh_token demo_settings demo_hmac 5 (demo_draw 2) demo_raw
      demo_world = (Inr res, w')" by (rule demo_rotation)
  have reach: "token_reachable demo_settings demo_hmac (aw_db demo_world, {101, 201})"
    using demo_reachable by (simp add: demo_world_def)
  have "dr_jti (demo_draw 2) \<notin> {101, 201}" by (simp add: demo_draw_def)
  from rotated_token_is_spent [OF reach this r token_run.here, of 9 "demo_draw 3" "[]"] r
  show ?thesis by (auto split: if_splits)
qed

section \<open>Logout\<close>

text \<open>
  C6 Logging out with a valid refresh token ends its session for good: in every later state no
  token of the session is live and no rotation yields a token of it; logging out again is a no-op.
\<close>

theorem logout_ends_session:
  assumes "token_reachable S hm (d, U)"
    and "revoke_refresh_token S hm now raw d = Inr (True, d')"
    and "token_run S hm (d', U) (d'', V)"
  shows "revoke_refresh_token S hm now' raw d' = Inr (True, d') \<and>
    (\<exists>row secret. presented d raw = Some (row, secret) \<and> family_dead (rt_family row) d'' \<and>
      (\<forall>dr t raw' au res w. rotate_refresh_token S hm t dr raw' \<lparr>aw_db = d'', aw_audit = au\<rparr> =
         (Inr res, w) \<longrightarrow> is_family (rr_refresh res) \<noteq> rt_family row))"
proof -
  have ne: "refresh_pepper S \<noteq> []"
    using assms(2) by (auto simp: revoke_refresh_token_def verify_refresh_secret_def
        hash_refresh_secret_def require_pepper_def split: option.splits prod.splits sum.splits if_splits)
  from assms(2) obtain row secret where p: "presented d raw = Some (row, secret)"
    and h: "hm (refresh_pepper S) secret = rt_hash row"
    and d': "d' = snd (revoke_family (rt_family row) ''logout'' now d)"
    by (auto simp: revoke_presented [OF ne] split: option.splits prod.splits if_splits)
  have sys: "token_sys_inv (d, U)" by (rule reachable_sys_inv [OF assms(1)])
  have dead: "family_dead (rt_family row) d'" unfolding d' by (rule revoke_family_dead)
  have row: "row \<in> set (rows (tokens d))" using presentedD [OF p] by simp
  have "rt_family row \<in> U" using sys row by (auto simp: token_sys_inv_def drawn_ok_def)
  with dead_run [OF assms(3)] dead have dead': "family_dead (rt_family row) d''" by simp
  have step: "token_step S hm (d, U) (d', U)" by (rule token_step.logout [OF assms(2)])
  have sys': "token_sys_inv (d', U)" by (rule token_sys_step [OF step sys])
  then have inv'': "token_inv d''"
    using token_sys_run [OF assms(3)] by (simp add: token_sys_inv_def)
  have again: "revoke_refresh_token S hm now' raw d' = Inr (True, d')"
  proof -
    have "\<exists>q \<in> set (rows (tokens d')). row_le row q"
      unfolding d' by (rule revoke_family_keeps [OF row])
    then obtain q where q: "q \<in> set (rows (tokens d'))" "row_le row q" by blast
    then have "presented d' raw = Some (q, secret)"
      using presentedD [OF p] get_by_jti_Some_iff [of d' "rt_jti row" q] sys'
      by (auto simp: presented_def token_sys_inv_def row_le_def)
    then show ?thesis
      using q(2) h dead revoke_family_none [of "rt_family row" d' "''logout''" now']
      by (simp add: revoke_presented [OF ne] row_le_def)
  qed
  then show ?thesis using p dead' rotate_needs_live inv'' by fastforce
qed

theorem logout_ends_session_witness:
  "\<exists>d'. revoke_refresh_token demo_settings demo_hmac 3 demo_raw demo_session = Inr (True, d') \<and>
     revoke_refresh_token demo_settings demo_hmac 4 demo_raw d' = Inr (True, d') \<and>
     family_dead 201 d'"
proof -
  have "case revoke_refresh_token demo_settings demo_hmac 3 demo_raw demo_session of
      Inr (True, _) \<Rightarrow> True | _ \<Rightarrow> False" by code_simp
  then obtain d' where r: "revoke_refresh_token demo_settings demo_hmac 3 demo_raw demo_session =
      Inr (True, d')" by (auto split: sum.splits bool.splits)
  have "case presented demo_session demo_raw of Some (r, _) \<Rightarrow> rt_family r = 201 | None \<Rightarrow> True"
    by code_simp
  with logout_ends_session [OF demo_reachable r token_run.here, of 4] r show ?thesis by auto
qed

section \<open>The concurrency limit\<close>

text \<open>
  C7 A login leaves the user at most \<open>max_sessions\<close> active sessions, its own among them, and does
  not touch the active tokens of any other user.
\<close>

theorem login_session_limit:
  assumes "token_inv d" and "settings_ok S"
    and "\<forall>r \<in> set (rows (tokens d)). rt_issued_at r \<le> now \<and> rt_family r \<noteq> dr_family dr"
    and "issue_login_refresh S hm now dr uid d = Inr (new, d')"
  shows "length (list_active_families d' uid now) \<le> nat (max_sessions S) \<and>
    is_family new \<in> set (list_active_families d' uid now) \<and>
    (uid' \<noteq> uid \<longrightarrow> active_rows d' uid' t = active_rows d uid' t)"
proof -
  from assms(4) obtain d1 where i: "issue_refresh_token S hm now dr uid None None d = Inr (new, d1)"
    and d': "d' = enforce_concurrency_limit S now uid d1"
    by (auto simp: issue_login_refresh_def split: sum.splits)
  have inv1: "token_inv d1" using issue_new_family_inv [OF i assms(1)] assms(3) by blast
  obtain fs where fs: "list_active_families d1 uid now = dr_family dr # fs"
    using recency_new_first [OF i assms(1,2)] assms(3) by blast
  have eq: "set (list_active_families d' uid now) =
      set (take (nat (max_sessions S)) (list_active_families d1 uid now))"
    unfolding d' by (rule families_after_enforce)
  have "length (list_active_families d' uid now) = card (set (list_active_families d' uid now))"
    by (metis distinct_card distinct_list_active_families)
  also have "\<dots> \<le> nat (max_sessions S)"
    unfolding eq by (rule order_trans [OF card_length]) simp
  finally have "length (list_active_families d' uid now) \<le> nat (max_sessions S)" .
  moreover have "is_family new \<in> set (list_active_families d' uid now)"
  proof -
    have "0 < nat (max_sessions S)" using assms(2) by (simp add: settings_ok_def)
    then obtain k where "nat (max_sessions S) = Suc k" by (cases "nat (max_sessions S)") auto
    then show ?thesis using issue_InrD(4) [OF i] unfolding eq fs by simp
  qed
  moreover have "active_rows d' uid' t = active_rows d uid' t" if "uid' \<noteq> uid"
  proof -
    from issue_InrD(6) [OF i] obtain row where
      c: "token_create (dr_jti dr) (is_family new) uid (hm (refresh_pepper S) (dr_secret dr)) now
        (new_expiry S now None) (now + secs (absolute_ttl S)) d = Inr (row, d1)" by auto
    note r = token_create_InrD [OF c]
    have "active_rows d1 uid' t = active_rows d uid' t"
      using that r(1) by (simp add: active_rows_def r(2))
    then show ?thesis
      using active_rows_other_user [OF that] inv1 by (simp add: d' token_inv_def tokens_ok_def)
  qed
  ultimately show ?thesis by blast
qed

theorem login_session_limit_witness:
  "length (list_active_families demo_session 1 0) \<le> 5 \<and>
     201 \<in> set (list_active_families demo_session 1 0)"
proof -
  obtain new where r: "issue_login_refresh demo_settings demo_hmac 0 (demo_draw 1) 1 demo_db =
      Inr (new, demo_session)" using demo_login by blast
  have f: "is_family new = 201"
    using r by (auto simp: issue_login_refresh_def demo_draw_def dest: issue_InrD(4)
        split: sum.splits)
  have empty: "rows (tokens demo_db) = []" by (simp add: demo_db_def empty_db_def empty_table_def)
  have S: "settings_ok demo_settings" by (simp add: demo_settings_def settings_ok_def)
  from login_session_limit [OF token_inv_no_rows [OF empty] S _ r, of 2 0] empty f
  show ?thesis by (simp add: demo_settings_def)
qed

section \<open>Token strings\<close>

text \<open>
  A generated refresh token parses back to its identifier and secret, the identifier reads back
  as the UUID drawn, and the secret verifies against the stored hash.
\<close>

theorem refresh_token_roundtrip:
  assumes "0 \<le> jti" "jti < uuid_bound" "secret \<noteq> []"
    and "generate_refresh_token hm pepper jti secret = Inr (token, jti_str, h)"
  shows "parse_refresh_token token = Some (jti_str, secret) \<and> uuid_parse jti_str = Some jti \<and>
    verify_refresh_secret hm pepper secret h = Inr True"
proof -
  have "pepper \<noteq> []"
    using assms(4) by (auto simp: generate_refresh_token_def hash_refresh_secret_def
        require_pepper_def split: if_splits)
  then show ?thesis
    using assms by (auto simp: parse_refresh_plain uuid_roundtrip)
qed

theorem refresh_token_roundtrip_witness:
  "parse_refresh_token (refresh_plain 5 ''xy'') = Some (uuid_str 5, ''xy'') \<and>
     uuid_parse (uuid_str 5) = Some 5"
  using refresh_token_roundtrip [of 5 "''xy''" demo_hmac "''p''" "refresh_plain 5 ''xy''"
      "uuid_str 5" "demo_hmac ''p'' ''xy''"]
  by (simp add: uuid_bound_def)

end
