(* ===== verification/Decimal.thy ===== *)
theory Decimal
  imports PyText
begin

text \<open>
  Decimal text of integers: \<^verbatim>\<open>str(n)\<close>, and \<^verbatim>\<open>int(s)\<close> with its sign, surrounding white
  space and single underscores between digits (ASCII digits only).
\<close>

definition digit_char :: "nat \<Rightarrow> char" where
  "digit_char n = char_of (48 + n)"

definition digit_val :: "char \<Rightarrow> nat option" where
  "digit_val c = (let n = of_char c in if 48 \<le> n \<and> n \<le> (57 :: nat) then Some (n - 48) else None)"

definition is_digit :: "char \<Rightarrow> bool" where
  "is_digit c \<longleftrightarrow> digit_val c \<noteq> None"

fun nat_str :: "nat \<Rightarrow> string" where
  "nat_str n = (if n < 10 then [digit_char n] else nat_str (n div 10) @ [digit_char (n mod 10)])"

declare nat_str.simps [simp del]

definition int_str :: "int \<Rightarrow> string" where
  "int_str i = (if i < 0 then CHR ''-'' # nat_str (nat (- i)) else nat_str (nat i))"

text \<open>Digits with single underscores between them; \<open>prev\<close> says that the last character was one.\<close>

fun dec_scan :: "bool \<Rightarrow> nat \<Rightarrow> string \<Rightarrow> nat option" where
  "dec_scan prev acc [] = (if prev then Some acc else None)"
| "dec_scan prev acc (c # cs) =
     (if c = CHR ''_'' then (if prev then dec_scan False acc cs else None)
      else case digit_val c of None \<Rightarrow> None | Some d \<Rightarrow> dec_scan True (10 * acc + d) cs)"

definition dec_body :: "string \<Rightarrow> nat option" where
  "dec_body cs = dec_scan False 0 cs"

definition py_int :: "string \<Rightarrow> int option" where
  "py_int s =
     (case py_strip s of
        [] \<Rightarrow> None
      | c # cs \<Rightarrow>
          if c = CHR ''-'' then map_option (\<lambda>n. - int n) (dec_body cs)
          else if c = CHR ''+'' then map_option int (dec_body cs)
          else map_option int (dec_body (c # cs)))"

section \<open>Round trip\<close>

lemma digit_val_char [simp]: "n < 10 \<Longrightarrow> digit_val (digit_char n) = Some n"
  by (simp add: digit_val_def digit_char_def Let_def)

lemma digit_char_not_underscore [simp]: "n < 10 \<Longrightarrow> digit_char n \<noteq> CHR ''_''"
  using digit_val_char [of n] by (auto simp: digit_val_def)

lemma digit_char_not_sign [simp]:
  "n < 10 \<Longrightarrow> digit_char n \<noteq> CHR ''-''" "n < 10 \<Longrightarrow> digit_char n \<noteq> CHR ''+''"
  using digit_val_char [of n] by (auto simp: digit_val_def)

lemma dec_scan_append_digit:
  "dec_scan p acc s = Some v \<Longrightarrow> n < 10 \<Longrightarrow> dec_scan p acc (s @ [digit_char n]) = Some (10 * v + n)"
  by (induction p acc s rule: dec_scan.induct) (auto split: option.splits if_splits)

lemma dec_body_nat_str [simp]: "dec_body (nat_str n) = Some n"
proof (induction n rule: nat_str.induct)
  case (1 n)
  show ?case
  proof (cases "n < 10")
    case True
    then show ?thesis by (subst nat_str.simps) (simp add: dec_body_def)
  next
    case False
    then show ?thesis
      using dec_scan_append_digit [of False 0 "nat_str (n div 10)" "n div 10" "n mod 10"] 1
      by (subst nat_str.simps) (simp add: dec_body_def)
  qed
qed

lemma nat_str_digits: "c \<in> set (nat_str n) \<Longrightarrow> is_digit c"
proof (induction n rule: nat_str.induct)
  case (1 n)
  then show ?case
    by (subst (asm) (2) nat_str.simps) (auto simp: is_digit_def split: if_splits)
qed

lemma nat_str_inj [simp]: "nat_str m = nat_str n \<longleftrightarrow> m = n"
  by (metis dec_body_nat_str option.inject)

lemma digit_not_ws: "is_digit c \<Longrightarrow> \<not> py_ws c"
  by (auto simp: is_digit_def digit_val_def py_ws_def Let_def)

lemma py_strip_nat_str [simp]: "py_strip (nat_str n) = nat_str n"
  unfolding py_strip_def using nat_str_digits digit_not_ws by (intro strip_by_none) blast

lemma nat_str_head: "nat_str n = c # cs \<Longrightarrow> c \<noteq> CHR ''-'' \<and> c \<noteq> CHR ''+''"
  using nat_str_digits [of c n] by (auto simp: is_digit_def digit_val_def)

lemma nat_str_nonempty [simp]: "nat_str n \<noteq> []"
  by (subst nat_str.simps) simp

lemma py_int_nat_str [simp]: "py_int (nat_str n) = Some (int n)"
proof (cases "nat_str n")
  case (Cons c cs)
  have "py_strip (c # cs) = c # cs" using py_strip_nat_str [of n] unfolding Cons .
  moreover have "dec_body (c # cs) = Some n" using dec_body_nat_str [of n] unfolding Cons .
  ultimately show ?thesis using nat_str_head [OF Cons] by (simp add: py_int_def Cons)
qed simp

lemma py_strip_int_str [simp]: "py_strip (int_str i) = int_str i"
proof (cases "i < 0")
  case True
  then show ?thesis
    unfolding py_strip_def int_str_def
    by (intro strip_by_none) (use nat_str_digits digit_not_ws in \<open>force simp: py_ws_def\<close>)
qed (simp add: int_str_def)

lemma py_int_int_str [simp]: "py_int (int_str i) = Some i"
proof (cases "i < 0")
  case True
  then show ?thesis
    using py_strip_int_str [of i] by (simp add: py_int_def int_str_def)
qed (simp add: int_str_def)

lemma int_str_inj [simp]: "int_str i = int_str j \<longleftrightarrow> i = j"
  by (metis option.inject py_int_int_str)

lemma int_str_nonempty [simp]: "int_str i \<noteq> []"
  by (simp add: int_str_def)

end
