(* ===== verification/RedisStore.thy ===== *)
theory RedisStore
  imports Decimal
begin

text \<open>
  The Redis client as the code uses it: string keys with an optional expiry, the commands
  \<^verbatim>\<open>GET\<close>, \<^verbatim>\<open>SET NX EX\<close>, \<^verbatim>\<open>SETEX\<close>, \<^verbatim>\<open>INCR\<close>, \<^verbatim>\<open>EXPIRE\<close>, \<^verbatim>\<open>DEL\<close>, \<^verbatim>\<open>GETDEL\<close>.  A command takes the
  current time and returns \<open>None\<close> when it raises.  \<open>rd_budget\<close> is the number of commands
  that still succeed before the connection is lost (\<open>None\<close>: it is never lost), so a fault may fall
  between any two commands of an operation.
\<close>

record redis =
  rd_kv :: "string \<Rightarrow> (string \<times> int option) option"
  rd_budget :: "nat option"

type_synonym 'a rd = "redis \<Rightarrow> 'a option \<times> redis"

definition rd_pure :: "'a \<Rightarrow> 'a rd" where
  "rd_pure x r = (Some x, r)"

definition rd_bind :: "'a rd \<Rightarrow> ('a \<Rightarrow> 'b rd) \<Rightarrow> 'b rd" where
  "rd_bind m f r = (case m r of (None, r') \<Rightarrow> (None, r') | (Some x, r') \<Rightarrow> f x r')"

definition rd_up :: "redis \<Rightarrow> bool" where
  "rd_up r \<longleftrightarrow> rd_budget r = None"

definition rd_value :: "int \<Rightarrow> redis \<Rightarrow> string \<Rightarrow> string option" where
  "rd_value now r k =
     (case rd_kv r k of
        None \<Rightarrow> None
      | Some (v, None) \<Rightarrow> Some v
      | Some (v, Some e) \<Rightarrow> if now < e then Some v else None)"

definition rd_expiry :: "int \<Rightarrow> redis \<Rightarrow> string \<Rightarrow> int option" where
  "rd_expiry now r k = (if rd_value now r k = None then None else Option.bind (rd_kv r k) snd)"

definition rd_command :: "'a rd \<Rightarrow> 'a rd" where
  "rd_command c r =
     (case rd_budget r of
        None \<Rightarrow> c r
      | Some 0 \<Rightarrow> (None, r)
      | Some (Suc n) \<Rightarrow> c (r\<lparr>rd_budget := Some n\<rparr>))"

definition rd_put :: "string \<Rightarrow> (string \<times> int option) option \<Rightarrow> redis \<Rightarrow> redis" where
  "rd_put k v r = r\<lparr>rd_kv := (rd_kv r)(k := v)\<rparr>"

definition rd_get :: "int \<Rightarrow> string \<Rightarrow> string option rd" where
  "rd_get now k = rd_command (\<lambda>r. (Some (rd_value now r k), r))"

definition rd_setex :: "int \<Rightarrow> string \<Rightarrow> int \<Rightarrow> string \<Rightarrow> unit rd" where
  "rd_setex now k ttl v = rd_command (\<lambda>r. (Some (), rd_put k (Some (v, Some (now + secs ttl))) r))"

definition rd_set_nx :: "int \<Rightarrow> string \<Rightarrow> int \<Rightarrow> string \<Rightarrow> bool rd" where
  "rd_set_nx now k ttl v =
     rd_command (\<lambda>r. if rd_value now r k = None
                     then (Some True, rd_put k (Some (v, Some (now + secs ttl))) r) else (Some False, r))"

text \<open>\<^verbatim>\<open>INCR\<close> starts a missing key at 0, keeps the expiry, and raises on a value that is no integer.\<close>

definition rd_incr :: "int \<Rightarrow> string \<Rightarrow> int rd" where
  "rd_incr now k =
     rd_command (\<lambda>r. case (case rd_value now r k of None \<Rightarrow> Some 0 | Some v \<Rightarrow> py_int v) of
        None \<Rightarrow> (None, r)
      | Some n \<Rightarrow> (Some (n + 1), rd_put k (Some (int_str (n + 1), rd_expiry now r k)) r))"

definition rd_expire :: "int \<Rightarrow> string \<Rightarrow> int \<Rightarrow> unit rd" where
  "rd_expire now k ttl =
     rd_command (\<lambda>r. (Some (), case rd_value now r k of
        None \<Rightarrow> r | Some v \<Rightarrow> rd_put k (Some (v, Some (now + secs ttl))) r))"

definition rd_delete :: "string \<Rightarrow> unit rd" where
  "rd_delete k = rd_command (\<lambda>r. (Some (), rd_put k None r))"

definition rd_getdel :: "int \<Rightarrow> string \<Rightarrow> string option rd" where
  "rd_getdel now k = rd_command (\<lambda>r. (Some (rd_value now r k), rd_put k None r))"

section \<open>Reading after writing\<close>

lemma rd_command_up [simp]: "rd_up r \<Longrightarrow> rd_command c r = c r"
  by (simp add: rd_command_def rd_up_def)

lemma rd_up_put [simp]: "rd_up (rd_put k v r) = rd_up r"
  by (simp add: rd_put_def rd_up_def)

lemma rd_kv_put [simp]: "rd_kv (rd_put k v r) k' = (if k' = k then v else rd_kv r k')"
  by (simp add: rd_put_def)

lemma rd_value_put [simp]:
  "rd_value now (rd_put k v r) k' =
     (if k' = k then (case v of None \<Rightarrow> None | Some (x, None) \<Rightarrow> Some x
                      | Some (x, Some e) \<Rightarrow> if now < e then Some x else None)
      else rd_value now r k')"
  by (simp add: rd_value_def)

lemma rd_bind_simps [simp]:
  "m r = (Some x, r') \<Longrightarrow> rd_bind m f r = f x r'"
  "m r = (None, r') \<Longrightarrow> rd_bind m f r = (None, r')"
  by (simp_all add: rd_bind_def)

lemma rd_command_frame:
  assumes "\<And>r. rd_kv (snd (c r)) k = rd_kv r k"
  shows "rd_kv (snd (rd_command c r)) k = rd_kv r k"
  using assms by (auto simp: rd_command_def split: option.splits nat.splits)

lemma rd_bind_frame:
  assumes "\<And>r. rd_kv (snd (m r)) k = rd_kv r k" "\<And>x r. rd_kv (snd (f x r)) k = rd_kv r k"
  shows "rd_kv (snd (rd_bind m f r)) k = rd_kv r k"
  using assms by (auto simp: rd_bind_def split: prod.splits option.splits) (metis snd_conv)+

lemma rd_frames:
  "rd_kv (snd (rd_get now q r)) k = rd_kv r k"
  "k \<noteq> q \<Longrightarrow> rd_kv (snd (rd_incr now q r)) k = rd_kv r k"
  "k \<noteq> q \<Longrightarrow> rd_kv (snd (rd_expire now q ttl r)) k = rd_kv r k"
  "k \<noteq> q \<Longrightarrow> rd_kv (snd (rd_setex now q ttl v r)) k = rd_kv r k"
  "k \<noteq> q \<Longrightarrow> rd_kv (snd (rd_delete q r)) k = rd_kv r k"
  "k \<noteq> q \<Longrightarrow> rd_kv (snd (rd_getdel now q r)) k = rd_kv r k"
  by (auto simp: rd_get_def rd_incr_def rd_expire_def rd_setex_def rd_delete_def rd_getdel_def
      intro!: rd_command_frame split: option.splits)

end
