(* ===== verification/LoginGuard.thy ===== *)
theory LoginGuard
  imports RedisStore RefreshTokens
begin

text \<open>
  \<^verbatim>\<open>domains/auth/login_guard.py\<close> and \<^verbatim>\<open>domains/auth/captcha.py\<close> over the Redis store.
  A \<^verbatim>\<open>try\<close> block around several commands is one \<open>rd\<close> computation; the \<^verbatim>\<open>except\<close> branch is taken
  when it yields \<open>None\<close>, and keeps the writes made before the fault.
\<close>

section \<open>Keys\<close>

definition fail_user_key :: "string \<Rightarrow> string" where
  "fail_user_key u = ''auth:fail:user:'' @ u"

definition fail_ip_key :: "string \<Rightarrow> string" where
  "fail_ip_key ip = ''auth:fail:ip:'' @ ip"

definition lock_user_key :: "string \<Rightarrow> string" where
  "lock_user_key u = ''auth:lock:user:'' @ u"

definition captcha_key :: "string \<Rightarrow> string" where
  "captcha_key i = ''auth:captcha:'' @ i"

text \<open>\<^verbatim>\<open>if client_ip\<close>: neither \<^verbatim>\<open>None\<close> nor empty.\<close>

definition truthy :: "string option \<Rightarrow> bool" where
  "truthy s \<longleftrightarrow> s \<noteq> None \<and> s \<noteq> Some []"

section \<open>Login guard\<close>

record guard_decision =
  require_captcha :: bool
  account_locked :: bool
  ip_rate_limited :: bool

definition allow :: guard_decision where
  "allow = \<lparr>require_captcha = False, account_locked = False, ip_rate_limited = False\<rparr>"

definition safe_int :: "int \<Rightarrow> string \<Rightarrow> int rd" where
  "safe_int now k =
     rd_bind (rd_get now k)
       (\<lambda>v. rd_pure (case v of None \<Rightarrow> 0 | Some s \<Rightarrow> (case py_int s of None \<Rightarrow> 0 | Some n \<Rightarrow> n)))"

definition pre_check_body :: "auth_settings \<Rightarrow> int \<Rightarrow> string \<Rightarrow> string option \<Rightarrow> guard_decision rd" where
  "pre_check_body S now username client_ip =
     rd_bind (rd_get now (lock_user_key username)) (\<lambda>l.
       if l \<noteq> None then rd_pure (allow\<lparr>account_locked := True\<rparr>)
       else rd_bind (safe_int now (fail_user_key username)) (\<lambda>user_fails.
         rd_bind (if truthy client_ip then safe_int now (fail_ip_key (the client_ip)) else rd_pure 0)
           (\<lambda>ip_fails.
             if truthy client_ip \<and> ip_limit S \<le> ip_fails
             then rd_pure (allow\<lparr>ip_rate_limited := True\<rparr>)
             else rd_pure (allow\<lparr>require_captcha := captcha_threshold S \<le> user_fails\<rparr>))))"

definition pre_check ::
    "auth_settings \<Rightarrow> int \<Rightarrow> string \<Rightarrow> string option \<Rightarrow> redis \<Rightarrow> guard_decision \<times> redis" where
  "pre_check S now username client_ip r =
     (case pre_check_body S now username client_ip r of
        (Some d, r') \<Rightarrow> (d, r')
      | (None, r') \<Rightarrow> (allow\<lparr>require_captcha := True\<rparr>, r'))"

definition record_failure_body :: "auth_settings \<Rightarrow> int \<Rightarrow> string \<Rightarrow> string option \<Rightarrow> unit rd" where
  "record_failure_body S now username client_ip =
     rd_bind (rd_incr now (fail_user_key username)) (\<lambda>user_fails.
     rd_bind (rd_expire now (fail_user_key username) (fail_window S)) (\<lambda>_.
     rd_bind (if truthy client_ip
              then rd_bind (rd_incr now (fail_ip_key (the client_ip)))
                     (\<lambda>_. rd_expire now (fail_ip_key (the client_ip)) (fail_window S))
              else rd_pure ()) (\<lambda>_.
       if lock_threshold S \<le> user_fails
       then rd_setex now (lock_user_key username) (lock_seconds S) ''1''
       else rd_pure ())))"

definition record_failure ::
    "auth_settings \<Rightarrow> int \<Rightarrow> string \<Rightarrow> string option \<Rightarrow> redis \<Rightarrow> redis" where
  "record_failure S now username client_ip r = snd (record_failure_body S now username client_ip r)"

definition clear_on_success :: "string \<Rightarrow> redis \<Rightarrow> redis" where
  "clear_on_success username r =
     snd (rd_bind (rd_delete (fail_user_key username))
            (\<lambda>_. rd_delete (lock_user_key username)) r)"

section \<open>Captcha\<close>

text \<open>\<open>a\<close>, \<open>b\<close> are \<^verbatim>\<open>secrets.randbelow(9) + 1\<close> and \<open>i\<close> is \<^verbatim>\<open>token_urlsafe(16)\<close>; a Redis fault raises.\<close>

definition generate_captcha ::
    "auth_settings \<Rightarrow> int \<Rightarrow> string \<Rightarrow> int \<Rightarrow> int \<Rightarrow> redis \<Rightarrow> (exn + string \<times> string) \<times> redis" where
  "generate_captcha S now i a b r =
     (case rd_setex now (captcha_key i) (captcha_ttl S) (int_str (a + b)) r of
        (None, r') \<Rightarrow> (Inl (RuntimeErr ''redis''), r')
      | (Some _, r') \<Rightarrow> (Inr (i, int_str a @ '' + '' @ int_str b @ '' = ?''), r'))"

definition verify_captcha ::
    "int \<Rightarrow> string option \<Rightarrow> string option \<Rightarrow> redis \<Rightarrow> bool \<times> redis" where
  "verify_captcha now captcha_id answer r =
     (if \<not> truthy captcha_id \<or> \<not> truthy answer then (False, r)
      else (case rd_getdel now (captcha_key (the captcha_id)) r of
              (None, r') \<Rightarrow> (False, r')
            | (Some None, r') \<Rightarrow> (False, r')
            | (Some (Some expected), r') \<Rightarrow> (expected = py_strip (the answer), r')))"

section \<open>Facts\<close>

lemma keys_differ [simp]:
  "fail_user_key u \<noteq> fail_ip_key ip" "fail_ip_key ip \<noteq> fail_user_key u"
  "fail_user_key u \<noteq> lock_user_key v" "lock_user_key v \<noteq> fail_user_key u"
  "fail_ip_key ip \<noteq> lock_user_key v" "lock_user_key v \<noteq> fail_ip_key ip"
  by (simp_all add: fail_user_key_def fail_ip_key_def lock_user_key_def)

lemma keys_inj [simp]:
  "fail_user_key u = fail_user_key v \<longleftrightarrow> u = v" "fail_ip_key u = fail_ip_key v \<longleftrightarrow> u = v"
  "lock_user_key u = lock_user_key v \<longleftrightarrow> u = v"
  by (simp_all add: fail_user_key_def fail_ip_key_def lock_user_key_def)

text \<open>The counter a key holds.\<close>

definition counter :: "int \<Rightarrow> redis \<Rightarrow> string \<Rightarrow> int" where
  "counter now r k =
     (case rd_value now r k of None \<Rightarrow> 0 | Some s \<Rightarrow> (case py_int s of None \<Rightarrow> 0 | Some n \<Rightarrow> n))"

definition counters_ok :: "redis \<Rightarrow> bool" where
  "counters_ok r \<longleftrightarrow> (\<forall>u v e. rd_kv r (fail_user_key u) = Some (v, e) \<or>
     rd_kv r (fail_ip_key u) = Some (v, e) \<longrightarrow> (\<exists>n. v = int_str n))"

lemma rd_get_up: "rd_up r \<Longrightarrow> rd_get now k r = (Some (rd_value now r k), r)"
  by (simp add: rd_get_def)

lemma safe_int_up [simp]: "rd_up r \<Longrightarrow> safe_int now k r = (Some (counter now r k), r)"
  by (simp add: safe_int_def rd_bind_def rd_get_up rd_pure_def counter_def)

lemma rd_value_kvD: "rd_value now r k = Some v \<Longrightarrow> \<exists>e. rd_kv r k = Some (v, e)"
  by (auto simp: rd_value_def split: option.splits if_splits)

lemma rd_incr_up:
  assumes "rd_up r" "\<And>v e. rd_kv r k = Some (v, e) \<Longrightarrow> \<exists>n. v = int_str n"
  shows "rd_incr now k r = (Some (counter now r k + 1),
     rd_put k (Some (int_str (counter now r k + 1), rd_expiry now r k)) r)"
  using assms by (auto simp: rd_incr_def counter_def split: option.splits dest!: rd_value_kvD)

lemma rd_expire_put_up:
  "rd_up r \<Longrightarrow> (\<And>t. e = Some t \<Longrightarrow> now < t) \<Longrightarrow>
     rd_expire now k ttl (rd_put k (Some (v, e)) r) = (Some (), rd_put k (Some (v, Some (now + secs ttl))) r)"
  by (cases e) (simp_all add: rd_expire_def, simp_all add: rd_put_def)

lemma rd_expiry_future: "rd_expiry now r k = Some t \<Longrightarrow> now < t"
  by (auto simp: rd_expiry_def rd_value_def split: option.splits if_splits)

text \<open>\<open>record_failure\<close> on a reachable server, as a function of the store.\<close>

definition bumped :: "auth_settings \<Rightarrow> int \<Rightarrow> redis \<Rightarrow> string \<Rightarrow> string \<times> int option" where
  "bumped S now r k = (int_str (counter now r k + 1), Some (now + secs (fail_window S)))"

lemma rd_bump_up:
  assumes up: "rd_up r" and ok: "\<And>v e. rd_kv r k = Some (v, e) \<Longrightarrow> \<exists>n. v = int_str n"
  shows "rd_bind (rd_incr now k) (\<lambda>n. rd_bind (rd_expire now k (fail_window S)) (\<lambda>_. f n)) r =
    f (counter now r k + 1) (rd_put k (Some (bumped S now r k)) r)"
proof -
  let ?r1 = "rd_put k (Some (int_str (counter now r k + 1), rd_expiry now r k)) r"
  have "rd_expire now k (fail_window S) ?r1 =
      (Some (), rd_put k (Some (bumped S now r k)) r)"
    unfolding bumped_def by (rule rd_expire_put_up [OF up rd_expiry_future])
  moreover have "rd_incr now k r = (Some (counter now r k + 1), ?r1)"
    by (rule rd_incr_up [OF up]) (rule ok)
  ultimately show ?thesis by (simp add: rd_bind_def)
qed

lemma record_failure_up:
  assumes up: "rd_up r" and ok: "counters_ok r"
  shows "record_failure S now u ip r =
    (let r1 = rd_put (fail_user_key u) (Some (bumped S now r (fail_user_key u))) r;
         r2 = (if truthy ip
               then rd_put (fail_ip_key (the ip)) (Some (bumped S now r (fail_ip_key (the ip)))) r1
               else r1)
     in if lock_threshold S \<le> counter now r (fail_user_key u) + 1
        then rd_put (lock_user_key u) (Some (''1'', Some (now + secs (lock_seconds S)))) r2 else r2)"
proof -
  have user: "\<And>v e. rd_kv r (fail_user_key u) = Some (v, e) \<Longrightarrow> \<exists>n. v = int_str n"
    using ok unfolding counters_ok_def by blast
  define r1 where "r1 = rd_put (fail_user_key u) (Some (bumped S now r (fail_user_key u))) r"
  have up1: "rd_up r1" using up by (simp add: r1_def)
  have ipv: "\<And>v e. rd_kv r1 (fail_ip_key i) = Some (v, e) \<Longrightarrow> \<exists>n. v = int_str n" for i
    using ok unfolding r1_def counters_ok_def by auto
  have same: "bumped S now r1 (fail_ip_key i) = bumped S now r (fail_ip_key i)" for i
    by (simp add: bumped_def counter_def r1_def)
  have ip: "rd_bind (rd_incr now (fail_ip_key i)) (\<lambda>_. rd_expire now (fail_ip_key i) (fail_window S)) r1 =
      (Some (), rd_put (fail_ip_key i) (Some (bumped S now r (fail_ip_key i))) r1)" for i
  proof -
    have "rd_bind (rd_expire now (fail_ip_key i) (fail_window S)) (\<lambda>_. rd_pure ()) q =
        rd_expire now (fail_ip_key i) (fail_window S) q" for q
      by (simp add: rd_bind_def rd_pure_def split: prod.splits option.splits)
    then have "rd_bind (rd_expire now (fail_ip_key i) (fail_window S)) (\<lambda>_. rd_pure ()) =
        rd_expire now (fail_ip_key i) (fail_window S)" ..
    moreover have "rd_bind (rd_incr now (fail_ip_key i)) (\<lambda>n. rd_bind
        (rd_expire now (fail_ip_key i) (fail_window S)) (\<lambda>_. rd_pure ())) r1 =
        rd_pure () (rd_put (fail_ip_key i) (Some (bumped S now r1 (fail_ip_key i))) r1)"
      by (rule rd_bump_up [OF up1]) (rule ipv)
    ultimately show ?thesis by (simp add: rd_pure_def same)
  qed
  have "record_failure_body S now u ip r =
      (\<lambda>n. rd_bind (if truthy ip
          then rd_bind (rd_incr now (fail_ip_key (the ip)))
                 (\<lambda>_. rd_expire now (fail_ip_key (the ip)) (fail_window S))
          else rd_pure ())
        (\<lambda>_. if lock_threshold S \<le> n then rd_setex now (lock_user_key u) (lock_seconds S) ''1''
             else rd_pure ())) (counter now r (fail_user_key u) + 1) r1"
    unfolding record_failure_body_def r1_def by (rule rd_bump_up [OF up]) (rule user)
  then show ?thesis
    unfolding record_failure_def Let_def r1_def [symmetric]
    using up1
    by (auto simp: ip rd_pure_def rd_setex_def)
qed

lemma counters_ok_put:
  "counters_ok r \<Longrightarrow> (\<And>u. k = fail_user_key u \<or> k = fail_ip_key u \<Longrightarrow> \<exists>n. v = int_str n) \<Longrightarrow>
     counters_ok (rd_put k (Some (v, e)) r)"
  unfolding counters_ok_def by auto

lemma record_failure_keeps:
  assumes "rd_up r" "counters_ok r"
  shows "rd_up (record_failure S now u ip r)" "counters_ok (record_failure S now u ip r)"
  using assms by (auto simp: record_failure_up Let_def bumped_def intro!: counters_ok_put)

lemma counter_after_failure:
  assumes "rd_up r" "counters_ok r" "t < now + secs (fail_window S)"
  shows "counter t (record_failure S now u ip r) (fail_user_key u) =
    counter now r (fail_user_key u) + 1"
  using assms by (simp add: record_failure_up Let_def bumped_def counter_def)

section \<open>Lockout\<close>

text \<open>Failures of one user at the given times.\<close>

fun failures :: "auth_settings \<Rightarrow> string \<Rightarrow> string option \<Rightarrow> int list \<Rightarrow> redis \<Rightarrow> redis" where
  "failures S u ip [] r = r"
| "failures S u ip (t # ts) r = failures S u ip ts (record_failure S t u ip r)"

fun within_window :: "auth_settings \<Rightarrow> int list \<Rightarrow> bool" where
  "within_window S (t # t' # ts) \<longleftrightarrow> t \<le> t' \<and> t' < t + secs (fail_window S) \<and> within_window S (t' # ts)"
| "within_window S _ \<longleftrightarrow> True"

lemma failures_append:
  "failures S u ip (ts @ [t]) r = record_failure S t u ip (failures S u ip ts r)"
  by (induction ts arbitrary: r) simp_all

lemma failures_keep:
  "rd_up r \<Longrightarrow> counters_ok r \<Longrightarrow> rd_up (failures S u ip ts r) \<and> counters_ok (failures S u ip ts r)"
  by (induction ts arbitrary: r) (simp_all add: record_failure_keeps)

lemma failures_count:
  assumes "rd_up r" "counters_ok r" "within_window S (t # ts)"
    "t' < last (t # ts) + secs (fail_window S)"
  shows "counter t' (failures S u ip (t # ts) r) (fail_user_key u) =
    counter t r (fail_user_key u) + int (length (t # ts))"
  using assms
proof (induction ts arbitrary: t r)
  case Nil
  then show ?case by (simp add: counter_after_failure)
next
  case (Cons t1 ts)
  let ?r = "record_failure S t u ip r"
  have "counter t1 ?r (fail_user_key u) = counter t r (fail_user_key u) + 1"
    using Cons.prems by (intro counter_after_failure) auto
  moreover have "counter t' (failures S u ip (t1 # ts) ?r) (fail_user_key u) =
      counter t1 ?r (fail_user_key u) + int (length (t1 # ts))"
    using Cons.prems by (intro Cons.IH) (auto simp: record_failure_keeps)
  ultimately show ?case by simp
qed

lemma failures_lock:
  assumes up: "rd_up r" and ok: "counters_ok r" and w: "within_window S (ts @ [t])"
    and n: "lock_threshold S \<le> int (length (ts @ [t]))" and c: "0 \<le> counter (hd (ts @ [t])) r (fail_user_key u)"
  shows "rd_kv (failures S u ip (ts @ [t]) r) (lock_user_key u) =
    Some (''1'', Some (t + secs (lock_seconds S)))"
proof -
  let ?q = "failures S u ip ts r"
  have q: "rd_up ?q" "counters_ok ?q" using failures_keep [OF up ok] by simp_all
  have "lock_threshold S \<le> counter t ?q (fail_user_key u) + 1"
  proof (cases ts)
    case Nil
    with n c show ?thesis by simp
  next
    case (Cons t0 ts0)
    have last: "t < last (t0 # ts0) + secs (fail_window S) \<and> within_window S (t0 # ts0)"
      using w unfolding Cons by (induction ts0 arbitrary: t0) auto
    show ?thesis
      using failures_count [OF up ok, of S t0 ts0 t u ip] last n c
      by (simp add: Cons)
  qed
  then show ?thesis
    unfolding failures_append by (simp add: record_failure_up [OF q] Let_def)
qed

end
