(* ===== verification/AuthService.thy ===== *)
theory AuthService
  imports LoginGuard RefreshTokenProps
begin

text \<open>
  \<^verbatim>\<open>domains/auth/service.py\<close> (login, refresh, logout, change of password), \<^verbatim>\<open>domains/auth/login_log.py\<close>
  and the password and access-token functions of \<^verbatim>\<open>core/security.py\<close>.  Argon2, HMAC and JWT are
  third-party code: the record \<open>crypto\<close> holds them as arbitrary functions.
\<close>

section \<open>Cryptographic libraries\<close>

record claims =
  cl_sub :: string
  cl_username :: string
  cl_iat :: int
  cl_exp :: int
  cl_iss :: "string option"
  cl_aud :: "string option"

text \<open>The outcomes of \<^verbatim>\<open>PasswordHasher.verify\<close> that \<^verbatim>\<open>verify_password\<close> handles.\<close>

datatype argon_outcome = ArgonMatch | ArgonMismatch | ArgonInvalid

record crypto =
  hmac_hex :: hmac
  argon_verify :: "string \<Rightarrow> string \<Rightarrow> argon_outcome"
  argon_hash :: "string \<Rightarrow> string \<Rightarrow> string"
  jwt_encode :: "claims \<Rightarrow> string \<Rightarrow> string"

definition verify_password :: "crypto \<Rightarrow> string \<Rightarrow> string \<Rightarrow> bool" where
  "verify_password C password password_hash =
     (case argon_verify C password_hash password of
        ArgonMatch \<Rightarrow> True
      | ArgonMismatch \<Rightarrow> False
      | ArgonInvalid \<Rightarrow> False)"

definition hash_password :: "crypto \<Rightarrow> string \<Rightarrow> string \<Rightarrow> string" where
  "hash_password C salt password = argon_hash C salt password"

definition require_secret :: "string \<Rightarrow> exn + string" where
  "require_secret secret =
     (if secret = [] then Inl (RuntimeErr ''TokenConfigError'') else Inr secret)"

definition optional_claim :: "string \<Rightarrow> string option" where
  "optional_claim s = (if s = [] then None else Some s)"

definition issue_access_token ::
    "crypto \<Rightarrow> auth_settings \<Rightarrow> int \<Rightarrow> int \<Rightarrow> string \<Rightarrow> exn + string" where
  "issue_access_token C S now uid username =
     bind_res (require_secret (jwt_secret S)) (\<lambda>secret.
       Inr (jwt_encode C \<lparr>cl_sub = int_str uid, cl_username = username, cl_iat = now,
              cl_exp = now + secs (access_ttl S), cl_iss = optional_claim (jwt_issuer S),
              cl_aud = optional_claim (jwt_audience S)\<rparr> secret))"

section \<open>World and login log\<close>

record login_world =
  lw_auth :: auth_world
  lw_redis :: "redis option"
  lw_logs :: "login_log table"

record login_response =
  lr_access :: string
  lr_expires_in :: int
  lr_refresh :: "string option"
  lr_refresh_expires_in :: "int option"

definition record_login_attempt ::
    "int \<Rightarrow> string \<Rightarrow> string \<Rightarrow> int option \<Rightarrow> string option \<Rightarrow> login_world \<Rightarrow> login_world" where
  "record_login_attempt now username st uid reason w =
     w\<lparr>lw_logs := snd (insert_row (\<lambda>i. \<lparr>ll_id = i, ll_username = take 64 username, ll_user = uid,
          ll_status = st, ll_reason = (if truthy reason then map_option (take 64) reason else None),
          ll_at = now\<rparr>) (lw_logs w))\<rparr>"

definition emit_audit :: "audit_event \<Rightarrow> login_world \<Rightarrow> login_world" where
  "emit_audit e w = w\<lparr>lw_auth := (lw_auth w)\<lparr>aw_audit := aw_audit (lw_auth w) @ [e]\<rparr>\<rparr>"

definition set_db :: "db \<Rightarrow> login_world \<Rightarrow> login_world" where
  "set_db d w = w\<lparr>lw_auth := (lw_auth w)\<lparr>aw_db := d\<rparr>\<rparr>"

definition lw_db :: "login_world \<Rightarrow> db" where
  "lw_db w = aw_db (lw_auth w)"

definition with_redis :: "(redis \<Rightarrow> redis) \<Rightarrow> login_world \<Rightarrow> login_world" where
  "with_redis f w = w\<lparr>lw_redis := map_option f (lw_redis w)\<rparr>"

section \<open>Errors and audit events\<close>

definition login_failed :: exn where
  "login_failed = AppErr ''auth.LOGIN_FAILED'' 401"

definition login_rate_limited :: exn where
  "login_rate_limited = AppErr ''auth.LOGIN_RATE_LIMITED'' 429"

definition captcha_required :: exn where
  "captcha_required = AppErr ''auth.CAPTCHA_REQUIRED'' 403"

definition password_incorrect :: exn where
  "password_incorrect = AppErr ''auth.PASSWORD_INCORRECT'' 400"

definition password_too_weak :: exn where
  "password_too_weak = AppErr ''auth.PASSWORD_TOO_WEAK'' 422"

definition login_failed_event :: "string \<Rightarrow> string \<Rightarrow> audit_event" where
  "login_failed_event username risk =
     \<lparr>ev_type = ''login_failed'', ev_action = ''auth.login'', ev_actor = None, ev_target = None,
      ev_display = Some username, ev_status = ''failure'', ev_http = Some 401,
      ev_error = Some ''auth.LOGIN_FAILED'', ev_risk = risk,
      ev_ttype = Some ''user''\<rparr>"

definition login_success_event :: "int \<Rightarrow> string \<Rightarrow> audit_event" where
  "login_success_event uid username =
     \<lparr>ev_type = ''login_success'', ev_action = ''auth.login'', ev_actor = Some uid,
      ev_target = Some uid, ev_display = Some username, ev_status = ''success'',
      ev_http = Some 200, ev_error = None, ev_risk = ''low'', ev_ttype = Some ''user''\<rparr>"

definition refresh_denied_event :: "int \<Rightarrow> audit_event" where
  "refresh_denied_event uid =
     \<lparr>ev_type = ''login_failed'', ev_action = ''auth.refresh'', ev_actor = Some uid,
      ev_target = Some uid, ev_display = None, ev_status = ''failure'', ev_http = Some 401,
      ev_error = Some ''auth.LOGIN_FAILED'', ev_risk = ''medium'', ev_ttype = Some ''user''\<rparr>"

definition password_change_event :: "int \<Rightarrow> string \<Rightarrow> bool \<Rightarrow> audit_event" where
  "password_change_event uid username ok =
     \<lparr>ev_type = ''password_change'', ev_action = ''auth.change_password'', ev_actor = Some uid,
      ev_target = Some uid, ev_display = Some username,
      ev_status = (if ok then ''success'' else ''failure''),
      ev_http = Some (if ok then 200 else 400),
      ev_error = (if ok then None else Some ''auth.PASSWORD_INCORRECT''), ev_risk = ''high'',
      ev_ttype = Some ''user''\<rparr>"

section \<open>Login\<close>

record login_request =
  lq_username :: string
  lq_password :: string
  lq_captcha_id :: "string option"
  lq_captcha_answer :: "string option"
  lq_client_ip :: "string option"

text \<open>The checks before the password is looked at; \<open>None\<close> lets the request through.\<close>

definition login_gate ::
    "auth_settings \<Rightarrow> int \<Rightarrow> login_request \<Rightarrow> login_world \<Rightarrow> exn option \<times> login_world" where
  "login_gate S now q w =
     (case lw_redis w of
        None \<Rightarrow> (None, w)
      | Some r \<Rightarrow>
          (let u = lq_username q; ip = lq_client_ip q;
               (decision, r1) = pre_check S now u ip r;
               w1 = w\<lparr>lw_redis := Some r1\<rparr>
           in if ip_rate_limited decision
              then (Some login_rate_limited,
                    record_login_attempt now u ''rate_limited'' None (Some ''auth.LOGIN_RATE_LIMITED'') w1)
              else if account_locked decision
              then (Some login_failed,
                    record_login_attempt now u ''locked'' None (Some ''auth.LOGIN_FAILED'')
                      (emit_audit (login_failed_event u ''high'')
                        (with_redis (record_failure S now u ip) w1)))
              else if require_captcha decision
              then (case verify_captcha now (lq_captcha_id q) (lq_captcha_answer q) r1 of
                      (True, r2) \<Rightarrow> (None, w1\<lparr>lw_redis := Some r2\<rparr>)
                    | (False, r2) \<Rightarrow>
                        (Some captcha_required,
                         record_login_attempt now u ''captcha_required'' None
                           (Some ''auth.CAPTCHA_REQUIRED'') (w1\<lparr>lw_redis := Some r2\<rparr>)))
              else (None, w1)))"

definition dummy_password_hash :: string where
  "dummy_password_hash = ''$argon2id$v=19$m=65536,t=3,p=4$iDw2tHYbLK1W2ePHxneZrQ$75ZMyLvreUpo6erTEm/U5TnvtnlU2/srTZYqcAJoaMY''"

definition active_user :: "db \<Rightarrow> string \<Rightarrow> user option" where
  "active_user d username =
     (case find_user_by_name d username of
        Some u \<Rightarrow> if u_status u = Active then Some u else None
      | None \<Rightarrow> None)"

text \<open>
  The transaction of a login: \<open>Inl uid\<close> for wrong credentials (with the id of the active user, if
  there is one), \<open>Inr\<close> for the tokens issued.
\<close>

definition login_tx ::
    "crypto \<Rightarrow> auth_settings \<Rightarrow> int \<Rightarrow> draw \<Rightarrow> login_request \<Rightarrow> db
      \<Rightarrow> exn + (int option + user \<times> string \<times> issued_refresh option) \<times> db" where
  "login_tx C S now dr q d =
     (let candidate = active_user d (lq_username q);
          password_hash = (case candidate of Some u \<Rightarrow> u_password_hash u | None \<Rightarrow> dummy_password_hash);
          password_ok = verify_password C (lq_password q) password_hash
      in case candidate of
           None \<Rightarrow> Inr (Inl None, d)
         | Some u \<Rightarrow>
             if \<not> password_ok then Inr (Inl (Some (u_id u)), d)
             else bind_res (issue_access_token C S now (u_id u) (u_username u)) (\<lambda>token.
               if refresh_pepper S \<noteq> []
               then bind_res (issue_login_refresh S (hmac_hex C) now dr (u_id u) d)
                      (\<lambda>(issued, d'). Inr (Inr (u, token, Some issued), d'))
               else Inr (Inr (u, token, None), d)))"

definition make_response :: "auth_settings \<Rightarrow> string \<Rightarrow> issued_refresh option \<Rightarrow> login_response" where
  "make_response S token issued =
     \<lparr>lr_access = token, lr_expires_in = access_ttl S, lr_refresh = map_option is_token issued,
      lr_refresh_expires_in = map_option is_expires_in issued\<rparr>"

definition login ::
    "crypto \<Rightarrow> auth_settings \<Rightarrow> int \<Rightarrow> draw \<Rightarrow> login_request \<Rightarrow> login_world
      \<Rightarrow> (exn + login_response) \<times> login_world" where
  "login C S now dr q w =
     (case login_gate S now q w of
        (Some e, w1) \<Rightarrow> (Inl e, w1)
      | (None, w1) \<Rightarrow>
          (case login_tx C S now dr q (lw_db w1) of
             Inl e \<Rightarrow> (Inl e, w1)
           | Inr (Inl failed_uid, d) \<Rightarrow>
               (Inl login_failed,
                record_login_attempt now (lq_username q) ''failure'' failed_uid
                  (Some ''auth.LOGIN_FAILED'')
                  (with_redis (record_failure S now (lq_username q) (lq_client_ip q))
                    (emit_audit (login_failed_event (lq_username q) ''medium'') (set_db d w1))))
           | Inr (Inr (u, token, issued), d) \<Rightarrow>
               (Inr (make_response S token issued),
                record_login_attempt now (u_username u) ''success'' (Some (u_id u)) None
                  (emit_audit (login_success_event (u_id u) (u_username u))
                    (with_redis (clear_on_success (lq_username q)) (set_db d w1))))))"

section \<open>Refresh and logout\<close>

definition is_app_err :: "exn \<Rightarrow> bool" where
  "is_app_err e = (case e of AppErr _ _ \<Rightarrow> True | _ \<Rightarrow> False)"

text \<open>
  The body of the \<^verbatim>\<open>try\<close> block: writes made before an \<^verbatim>\<open>AppError\<close> are kept, any other exception
  escapes and rolls back.
\<close>

definition refresh_body ::
    "crypto \<Rightarrow> auth_settings \<Rightarrow> int \<Rightarrow> draw \<Rightarrow> string \<Rightarrow> auth_world
      \<Rightarrow> (exn + login_response) \<times> auth_world" where
  "refresh_body C S now dr raw w =
     (case rotate_refresh_token S (hmac_hex C) now dr raw w of
        (Inl e, w1) \<Rightarrow> (Inl e, w1)
      | (Inr res, w1) \<Rightarrow>
          (case get_user (aw_db w1) (rr_user res) of
             Some u \<Rightarrow>
               if u_status u = Active
               then (case issue_access_token C S now (u_id u) (u_username u) of
                       Inl e \<Rightarrow> (Inl e, w1)
                     | Inr access \<Rightarrow> (Inr (make_response S access (Some (rr_refresh res))), w1))
               else (case revoke_refresh_token S (hmac_hex C) now raw (aw_db w1) of
                       Inl e \<Rightarrow> (Inl e, w1)
                     | Inr (_, d2) \<Rightarrow>
                         (Inl login_failed,
                          w1\<lparr>aw_db := d2, aw_audit := aw_audit w1 @ [refresh_denied_event (rr_user res)]\<rparr>))
           | None \<Rightarrow>
               (case revoke_refresh_token S (hmac_hex C) now raw (aw_db w1) of
                  Inl e \<Rightarrow> (Inl e, w1)
                | Inr (_, d2) \<Rightarrow>
                    (Inl login_failed,
                     w1\<lparr>aw_db := d2, aw_audit := aw_audit w1 @ [refresh_denied_event (rr_user res)]\<rparr>))))"

definition commit_app_errors :: "db \<Rightarrow> (exn + 'a) \<times> auth_world \<Rightarrow> (exn + 'a) \<times> auth_world" where
  "commit_app_errors d0 out =
     (case out of
        (Inl e, w) \<Rightarrow> if is_app_err e then (Inl e, w) else (Inl e, w\<lparr>aw_db := d0\<rparr>)
      | (Inr x, w) \<Rightarrow> (Inr x, w))"

definition refresh ::
    "crypto \<Rightarrow> auth_settings \<Rightarrow> int \<Rightarrow> draw \<Rightarrow> string \<Rightarrow> auth_world
      \<Rightarrow> (exn + login_response) \<times> auth_world" where
  "refresh C S now dr raw w = commit_app_errors (aw_db w) (refresh_body C S now dr raw w)"

definition logout :: "crypto \<Rightarrow> auth_settings \<Rightarrow> int \<Rightarrow> string \<Rightarrow> auth_world \<Rightarrow> (exn + unit) \<times> auth_world" where
  "logout C S now raw w =
     (case revoke_refresh_token S (hmac_hex C) now raw (aw_db w) of
        Inl e \<Rightarrow> (Inl e, w)
      | Inr (_, d) \<Rightarrow> (Inr (), w\<lparr>aw_db := d\<rparr>))"

section \<open>Change of password\<close>

definition new_password_schema_ok :: "string \<Rightarrow> bool" where
  "new_password_schema_ok p \<longleftrightarrow> 12 \<le> length p \<and> length p \<le> 256 \<and> p = py_strip p"

definition validate_new_password :: "string \<Rightarrow> string \<Rightarrow> string \<Rightarrow> exn + unit" where
  "validate_new_password new_password username old_password =
     bind_res (guard (new_password \<noteq> username) password_too_weak)
       (\<lambda>_. guard (new_password \<noteq> old_password) password_too_weak)"

definition set_password_hash :: "int \<Rightarrow> string \<Rightarrow> db \<Rightarrow> db" where
  "set_password_hash uid h d =
     d\<lparr>users := update_where (\<lambda>u. u_id u = uid) (\<lambda>u. u\<lparr>u_password_hash := h\<rparr>) (users d)\<rparr>"

definition revoke_all_families :: "int \<Rightarrow> int \<Rightarrow> db \<Rightarrow> db" where
  "revoke_all_families uid now d =
     revoke_families ''password_changed'' now (list_active_families d uid now) d"

definition reissue ::
    "crypto \<Rightarrow> auth_settings \<Rightarrow> int \<Rightarrow> draw \<Rightarrow> int \<Rightarrow> db \<Rightarrow> exn + issued_refresh option \<times> db" where
  "reissue C S now dr uid d =
     (if refresh_pepper S \<noteq> []
      then bind_res (issue_refresh_token S (hmac_hex C) now dr uid None None
                      (revoke_all_families uid now d))
             (\<lambda>(issued, d'). Inr (Some issued, d'))
      else Inr (None, d))"

definition change_password_body ::
    "crypto \<Rightarrow> auth_settings \<Rightarrow> int \<Rightarrow> draw \<Rightarrow> string \<Rightarrow> int \<Rightarrow> string \<Rightarrow> string \<Rightarrow> auth_world
      \<Rightarrow> (exn + string \<times> login_response) \<times> auth_world" where
  "change_password_body C S now dr salt uid old_password new_password w =
     (case get_user (aw_db w) uid of
        None \<Rightarrow> (Inl login_failed, w)
      | Some u \<Rightarrow>
          if u_status u \<noteq> Active then (Inl login_failed, w)
          else if \<not> verify_password C old_password (u_password_hash u)
          then (Inl password_incorrect,
                w\<lparr>aw_audit := aw_audit w @ [password_change_event uid (u_username u) False]\<rparr>)
          else (case validate_new_password new_password (u_username u) old_password of
                  Inl e \<Rightarrow> (Inl e, w)
                | Inr _ \<Rightarrow>
                    (let d1 = set_password_hash (u_id u) (hash_password C salt new_password) (aw_db w)
                     in case issue_access_token C S now (u_id u) (u_username u) of
                          Inl e \<Rightarrow> (Inl e, w\<lparr>aw_db := d1\<rparr>)
                        | Inr access \<Rightarrow>
                            (case reissue C S now dr uid d1 of
                               Inl e \<Rightarrow> (Inl e, w\<lparr>aw_db := d1\<rparr>)
                             | Inr (issued, d2) \<Rightarrow>
                                 (Inr (u_username u, make_response S access issued),
                                  w\<lparr>aw_db := d2\<rparr>)))))"

definition change_password ::
    "crypto \<Rightarrow> auth_settings \<Rightarrow> int \<Rightarrow> draw \<Rightarrow> string \<Rightarrow> int \<Rightarrow> string \<Rightarrow> string \<Rightarrow> auth_world
      \<Rightarrow> (exn + login_response) \<times> auth_world" where
  "change_password C S now dr salt uid old_password new_password w =
     (case commit_app_errors (aw_db w)
             (change_password_body C S now dr salt uid old_password new_password w) of
        (Inl e, w1) \<Rightarrow> (Inl e, w1)
      | (Inr (username, response), w1) \<Rightarrow>
          (Inr response, w1\<lparr>aw_audit := aw_audit w1 @ [password_change_event uid username True]\<rparr>))"

end
