(* ===== verification/AuthTheorems.thy ===== *)
theory AuthTheorems
  imports AuthService
begin

text \<open>
  Properties of login, its guard and captcha, of refresh for inactive users and of the change of
  password.
\<close>

section \<open>The guard's decision as a function of the store\<close>

text \<open>What \<open>pre_check\<close> promises, without Redis faults.\<close>

definition decision_of :: "auth_settings \<Rightarrow> int \<Rightarrow> string \<Rightarrow> string option \<Rightarrow> redis \<Rightarrow> guard_decision" where
  "decision_of S now u ip r =
     (if rd_value now r (lock_user_key u) \<noteq> None then allow\<lparr>account_locked := True\<rparr>
      else if truthy ip \<and> ip_limit S \<le> counter now r (fail_ip_key (the ip))
      then allow\<lparr>ip_rate_limited := True\<rparr>
      else allow\<lparr>require_captcha := captcha_threshold S \<le> counter now r (fail_user_key u)\<rparr>)"

text \<open>A computation of reads only: faulted with the budget spent, or the value on the store.\<close>

definition reads :: "'a rd \<Rightarrow> (redis \<Rightarrow> 'a) \<Rightarrow> bool" where
  "reads m f \<longleftrightarrow> (\<forall>r. rd_kv (snd (m r)) = rd_kv r \<and>
     (fst (m r) = None \<and> rd_budget (snd (m r)) = Some 0 \<or> fst (m r) = Some (f r)))"

lemma rd_value_kv: "rd_kv r = rd_kv q \<Longrightarrow> rd_value now r k = rd_value now q k"
  by (simp add: rd_value_def)

lemma counter_kv: "rd_kv r = rd_kv q \<Longrightarrow> counter now r k = counter now q k"
  by (simp add: counter_def rd_value_kv [of r q])

lemma reads_get: "reads (rd_get now k) (\<lambda>r. rd_value now r k)"
  by (auto simp: reads_def rd_get_def rd_command_def rd_value_def split: option.splits nat.splits)

lemma reads_pure: "reads (rd_pure x) (\<lambda>r. x)"
  by (simp add: reads_def rd_pure_def)

lemma reads_bind:
  assumes m: "reads m f" and g: "\<And>x. reads (n x) (g x)"
    and kv: "\<And>x r q. rd_kv r = rd_kv q \<Longrightarrow> g x r = g x q"
  shows "reads (rd_bind m n) (\<lambda>r. g (f r) r)"
  unfolding reads_def
proof
  fix r
  obtain o1 r1 where 1: "m r = (o1, r1)" by (cases "m r")
  have m': "rd_kv r1 = rd_kv r" "o1 = None \<and> rd_budget r1 = Some 0 \<or> o1 = Some (f r)"
    using m 1 unfolding reads_def by (metis fst_conv snd_conv)+
  show "rd_kv (snd (rd_bind m n r)) = rd_kv r \<and>
     (fst (rd_bind m n r) = None \<and> rd_budget (snd (rd_bind m n r)) = Some 0 \<or>
      fst (rd_bind m n r) = Some (g (f r) r))"
  proof (cases o1)
    case None
    with m' 1 show ?thesis by (simp add: rd_bind_def)
  next
    case (Some x)
    with m'(2) have x: "x = f r" by auto
    have "rd_kv (snd (n x r1)) = rd_kv r1 \<and> (fst (n x r1) = None \<and>
        rd_budget (snd (n x r1)) = Some 0 \<or> fst (n x r1) = Some (g x r1))"
      using g [of x] unfolding reads_def by blast
    with 1 Some x m'(1) kv [of r1 r "f r"] show ?thesis by (simp add: rd_bind_def)
  qed
qed

lemma reads_safe_int: "reads (safe_int now k) (\<lambda>r. counter now r k)"
  unfolding safe_int_def counter_def by (rule reads_bind [OF reads_get reads_pure]) simp

lemma reads_pre_check: "reads (pre_check_body S now u ip) (decision_of S now u ip)"
proof -
  define ipf where "ipf r = (if truthy ip then counter now r (fail_ip_key (the ip)) else 0)" for r
  define out where "out n i = (if truthy ip \<and> ip_limit S \<le> i then allow\<lparr>ip_rate_limited := True\<rparr>
      else allow\<lparr>require_captcha := captcha_threshold S \<le> n\<rparr>)" for n i :: int
  have kv: "rd_kv r = rd_kv q \<Longrightarrow> ipf r = ipf q" for r q by (simp add: ipf_def counter_kv [of r q])
  have ip: "reads (if truthy ip then safe_int now (fail_ip_key (the ip)) else rd_pure 0) ipf"
    unfolding ipf_def by (cases "truthy ip") (simp_all add: reads_safe_int reads_pure)
  have "reads (rd_pure (out n i)) (\<lambda>r. out n i)" for n i by (rule reads_pure)
  from reads_bind [OF ip this, simplified]
  have 1: "reads (rd_bind (if truthy ip then safe_int now (fail_ip_key (the ip)) else rd_pure 0)
      (\<lambda>i. rd_pure (out n i))) (\<lambda>r. out n (ipf r))" for n .
  have 2: "reads (rd_bind (safe_int now (fail_user_key u)) (\<lambda>n. rd_bind
      (if truthy ip then safe_int now (fail_ip_key (the ip)) else rd_pure 0)
      (\<lambda>i. rd_pure (out n i)))) (\<lambda>r. out (counter now r (fail_user_key u)) (ipf r))"
    by (rule reads_bind [OF reads_safe_int 1]) (drule kv, simp)
  have 3: "reads (if l \<noteq> None then rd_pure (allow\<lparr>account_locked := True\<rparr>)
      else rd_bind (safe_int now (fail_user_key u)) (\<lambda>n. rd_bind
      (if truthy ip then safe_int now (fail_ip_key (the ip)) else rd_pure 0)
      (\<lambda>i. rd_pure (out n i)))) (\<lambda>r. if l \<noteq> None then allow\<lparr>account_locked := True\<rparr>
         else out (counter now r (fail_user_key u)) (ipf r))" for l :: "string option"
    using 2 by (cases l) (simp_all add: reads_pure)
  have "reads (rd_bind (rd_get now (lock_user_key u)) (\<lambda>l. if l \<noteq> None
      then rd_pure (allow\<lparr>account_locked := True\<rparr>)
      else rd_bind (safe_int now (fail_user_key u)) (\<lambda>n. rd_bind
      (if truthy ip then safe_int now (fail_ip_key (the ip)) else rd_pure 0)
      (\<lambda>i. rd_pure (out n i))))) (\<lambda>r. if rd_value now r (lock_user_key u) \<noteq> None
         then allow\<lparr>account_locked := True\<rparr> else out (counter now r (fail_user_key u)) (ipf r))"
    by (rule reads_bind [OF reads_get 3])
      (frule kv, drule counter_kv [where now = now and k = "fail_user_key u"], simp)
  moreover have "pre_check_body S now u ip = rd_bind (rd_get now (lock_user_key u)) (\<lambda>l. if l \<noteq> None
      then rd_pure (allow\<lparr>account_locked := True\<rparr>)
      else rd_bind (safe_int now (fail_user_key u)) (\<lambda>n. rd_bind
      (if truthy ip then safe_int now (fail_ip_key (the ip)) else rd_pure 0)
      (\<lambda>i. rd_pure (out n i))))"
    unfolding pre_check_body_def out_def
    by (intro arg_cong [where f = "rd_bind _"] ext if_cong refl) simp
  moreover have "decision_of S now u ip = (\<lambda>r. if rd_value now r (lock_user_key u) \<noteq> None
      then allow\<lparr>account_locked := True\<rparr> else out (counter now r (fail_user_key u)) (ipf r))"
    by (rule ext) (simp add: decision_of_def out_def ipf_def)
  ultimately show ?thesis by simp
qed

lemma pre_check_cases:
  assumes "pre_check S now u ip r = (d, r')"
  shows "rd_kv r' = rd_kv r" and "d = decision_of S now u ip r \<or>
     d = allow\<lparr>require_captcha := True\<rparr> \<and> rd_budget r' = Some 0"
  using assms reads_pre_check [of S now u ip] unfolding reads_def pre_check_def
  by (auto split: prod.splits option.splits) (metis fst_conv snd_conv option.distinct(1) option.inject)+


section \<open>The gate\<close>

lemma verify_captcha_TrueD:
  assumes "verify_captcha now i a r = (True, r')"
  shows "rd_budget r \<noteq> Some 0" and
    "truthy i \<and> truthy a \<and> rd_value now r (captcha_key (the i)) = Some (py_strip (the a))"
    and "rd_kv r' = (rd_kv r)(captcha_key (the i) := None)"
  using assms
  by (auto simp: verify_captcha_def rd_getdel_def rd_command_def rd_put_def rd_value_def
      split: if_splits option.splits prod.splits nat.splits)

lemma gate_passes:
  assumes g: "login_gate S now q w = (None, w')" and r: "lw_redis w = Some r"
  shows "rd_value now r (lock_user_key (lq_username q)) = None"
    and "truthy (lq_client_ip q) \<longrightarrow>
      counter now r (fail_ip_key (the (lq_client_ip q))) < ip_limit S"
    and "counter now r (fail_user_key (lq_username q)) < captcha_threshold S \<or>
      truthy (lq_captcha_id q) \<and> truthy (lq_captcha_answer q) \<and>
      rd_value now r (captcha_key (the (lq_captcha_id q))) = Some (py_strip (the (lq_captcha_answer q)))"
proof -
  let ?u = "lq_username q" and ?ip = "lq_client_ip q"
  obtain d r1 where p: "pre_check S now ?u ?ip r = (d, r1)" by (cases "pre_check S now ?u ?ip r")
  note c = pre_check_cases [OF p]
  have d: "\<not> ip_rate_limited d" "\<not> account_locked d"
    "require_captcha d \<Longrightarrow>
       \<exists>r2. verify_captcha now (lq_captcha_id q) (lq_captcha_answer q) r1 = (True, r2)"
    using g r p by (auto simp: login_gate_def Let_def split: if_splits prod.splits bool.splits)
  have dd: "d = decision_of S now ?u ?ip r"
    using c(2) d(3) verify_captcha_TrueD(1) by (fastforce simp: allow_def)
  show "rd_value now r (lock_user_key ?u) = None"
    using d(2) by (auto simp: dd decision_of_def allow_def split: if_splits)
  show "truthy ?ip \<longrightarrow> counter now r (fail_ip_key (the ?ip)) < ip_limit S"
    using d(1,2) by (auto simp: dd decision_of_def allow_def split: if_splits)
  show "counter now r (fail_user_key ?u) < captcha_threshold S \<or>
      truthy (lq_captcha_id q) \<and> truthy (lq_captcha_answer q) \<and>
      rd_value now r (captcha_key (the (lq_captcha_id q))) = Some (py_strip (the (lq_captcha_answer q)))"
  proof (cases "require_captcha d")
    case True
    then show ?thesis
      using d(3) verify_captcha_TrueD(2) rd_value_kv [OF c(1)] by metis
  next
    case False
    then show ?thesis using d(1,2) by (auto simp: dd decision_of_def allow_def split: if_splits)
  qed
qed

lemma record_login_attempt_auth [simp]:
  "lw_auth (record_login_attempt now u st uid reason w) = lw_auth w"
  "lw_redis (record_login_attempt now u st uid reason w) = lw_redis w"
  by (simp_all add: record_login_attempt_def)

lemma with_redis_simps [simp]:
  "lw_auth (with_redis f w) = lw_auth w" "lw_redis (with_redis f w) = map_option f (lw_redis w)"
  by (simp_all add: with_redis_def)

lemma emit_audit_simps [simp]:
  "aw_db (lw_auth (emit_audit e w)) = aw_db (lw_auth w)"
  "aw_audit (lw_auth (emit_audit e w)) = aw_audit (lw_auth w) @ [e]"
  "lw_redis (emit_audit e w) = lw_redis w"
  by (simp_all add: emit_audit_def)

lemma set_db_simps [simp]:
  "aw_db (lw_auth (set_db d w)) = d" "aw_audit (lw_auth (set_db d w)) = aw_audit (lw_auth w)"
  "lw_redis (set_db d w) = lw_redis w"
  by (simp_all add: set_db_def)

lemma lw_db_simps [simp]:
  "lw_db (record_login_attempt now u st uid reason w) = lw_db w"
  "lw_db (with_redis f w) = lw_db w" "lw_db (emit_audit e w) = lw_db w" "lw_db (set_db d w) = d"
  by (simp_all add: lw_db_def)

lemma gate_effect:
  "aw_db (lw_auth (snd (login_gate S now q w))) = aw_db (lw_auth w) \<and>
   (\<forall>e. fst (login_gate S now q w) = Some e \<longrightarrow>
      e \<in> {login_rate_limited, login_failed, captcha_required})"
proof (cases "lw_redis w")
  case (Some r)
  obtain d r1 where p: "pre_check S now (lq_username q) (lq_client_ip q) r = (d, r1)"
    by (cases "pre_check S now (lq_username q) (lq_client_ip q) r")
  obtain b r2 where v: "verify_captcha now (lq_captcha_id q) (lq_captcha_answer q) r1 = (b, r2)"
    by (cases "verify_captcha now (lq_captcha_id q) (lq_captcha_answer q) r1")
  show ?thesis using Some p v by (cases b) (simp_all add: login_gate_def Let_def)
qed (simp add: login_gate_def)

lemma gate_db: "login_gate S now q w = (o1, w') \<Longrightarrow> lw_db w' = lw_db w"
  using gate_effect [of S now q w] by (simp add: lw_db_def)

lemma gate_error:
  "login_gate S now q w = (Some e, w') \<Longrightarrow> e \<in> {login_rate_limited, login_failed, captcha_required}"
  using gate_effect [of S now q w] by simp

lemma gate_pass_audit:
  assumes "login_gate S now q w = (None, w')"
  shows "aw_audit (lw_auth w') = aw_audit (lw_auth w)"
proof (cases "lw_redis w")
  case (Some r)
  obtain d r1 where p: "pre_check S now (lq_username q) (lq_client_ip q) r = (d, r1)"
    by (cases "pre_check S now (lq_username q) (lq_client_ip q) r")
  obtain b r2 where v: "verify_captcha now (lq_captcha_id q) (lq_captcha_answer q) r1 = (b, r2)"
    by (cases "verify_captcha now (lq_captcha_id q) (lq_captcha_answer q) r1")
  show ?thesis
    using Some p v assms by (cases b) (auto simp: login_gate_def Let_def split: if_splits)
qed (use assms in \<open>simp add: login_gate_def\<close>)

lemma bind_token_errors:
  "bind_res (issue_access_token C S now i n) f = Inl e \<Longrightarrow>
     (\<And>t. f t = Inl e \<Longrightarrow> \<not> is_app_err e) \<Longrightarrow> \<not> is_app_err e"
  by (auto simp: bind_res_Inl_iff issue_access_token_def require_secret_def is_app_err_def
      split: if_splits)

lemma issue_login_errors:
  "issue_login_refresh S hm now dr uid d = Inl e \<Longrightarrow> \<not> is_app_err e"
  by (cases "refresh_pepper S = []")
    (auto simp: is_app_err_def issue_login_refresh_def issue_refresh_token_def
      generate_refresh_token_def hash_refresh_secret_def require_pepper_def token_create_def Let_def
      insert_row_def split: if_splits sum.splits prod.splits)

lemma login_tx_errors:
  assumes "login_tx C S now dr q d = Inl e" shows "\<not> is_app_err e"
proof (cases "active_user d (lq_username q)")
  case None
  with assms show ?thesis by (simp add: login_tx_def Let_def)
next
  case (Some u)
  with assms have "bind_res (issue_access_token C S now (u_id u) (u_username u))
     (\<lambda>token. if refresh_pepper S \<noteq> []
        then bind_res (issue_login_refresh S (hmac_hex C) now dr (u_id u) d)
               (\<lambda>(issued, d'). Inr (Inr (u, token, Some issued), d'))
        else Inr (Inr (u, token, None), d))
     = (Inl e :: exn + (int option + user \<times> string \<times> issued_refresh option) \<times> db)"
    by (auto simp: login_tx_def Let_def split: if_splits)
  then show ?thesis
    by (rule bind_token_errors)
      (auto simp: bind_res_Inl_iff split: if_splits prod.splits dest: issue_login_errors)
qed

lemma login_tx_wrong: "login_tx C S now dr q d = Inr (Inl uid, d') \<Longrightarrow> d' = d"
  by (auto simp: login_tx_def Let_def bind_res_Inr_iff split: option.splits if_splits)

lemma login_tx_right:
  assumes "login_tx C S now dr q d = Inr (Inr (u, token, issued), d')"
  shows "active_user d (lq_username q) = Some u"
    and "argon_verify C (u_password_hash u) (lq_password q) = ArgonMatch"
    and "issue_access_token C S now (u_id u) (u_username u) = Inr token"
    and "case issued of None \<Rightarrow> refresh_pepper S = [] \<and> d' = d
         | Some new \<Rightarrow> issue_login_refresh S (hmac_hex C) now dr (u_id u) d = Inr (new, d')"
  using assms
  by (auto simp: login_tx_def Let_def bind_res_Inr_iff verify_password_def
      split: option.splits if_splits argon_outcome.splits prod.splits)

lemma active_user_SomeD:
  "active_user d n = Some u \<Longrightarrow> u \<in> set (rows (users d)) \<and> u_username u = n \<and> u_status u = Active"
  by (auto simp: active_user_def dest: find_user_by_name_SomeD split: option.splits if_splits)

section \<open>Login\<close>


definition demo_crypto :: crypto where
  "demo_crypto = \<lparr>hmac_hex = demo_hmac,
     argon_verify = (\<lambda>h p. if h = p then ArgonMatch else ArgonMismatch),
     argon_hash = (\<lambda>salt p. p), jwt_encode = (\<lambda>c key. cl_sub c)\<rparr>"

definition empty_redis :: redis where
  "empty_redis = \<lparr>rd_kv = (\<lambda>_. None), rd_budget = None\<rparr>"

definition demo_login_world :: "db \<Rightarrow> redis \<Rightarrow> login_world" where
  "demo_login_world d r =
     \<lparr>lw_auth = \<lparr>aw_db = d, aw_audit = []\<rparr>, lw_redis = Some r, lw_logs = empty_table\<rparr>"

definition demo_request :: "string \<Rightarrow> string \<Rightarrow> login_request" where
  "demo_request u p = \<lparr>lq_username = u, lq_password = p, lq_captcha_id = None,
     lq_captcha_answer = None, lq_client_ip = Some ''1.2.3.4''\<rparr>"


text \<open>
  Wrong credentials are not told apart: once the gate lets the request through, an unknown user,
  a disabled user and a wrong password all give the same 401, leave the database alone, add the same
  audit event and count one failure for the account and the address.  Whatever the failure, a
  refused login changes no table, and its error is one of the three the API documents or no
  \<open>AppError\<close>.
\<close>

theorem login_failure_uniform:
  "(login_gate S now q w = (None, w1) \<and>
    (case active_user (lw_db w) (lq_username q) of
       None \<Rightarrow> True | Some u \<Rightarrow> \<not> verify_password C (lq_password q) (u_password_hash u)) \<longrightarrow>
      fst (login C S now dr q w) = Inl login_failed \<and>
      lw_db (snd (login C S now dr q w)) = lw_db w \<and>
      aw_audit (lw_auth (snd (login C S now dr q w))) =
        aw_audit (lw_auth w) @ [login_failed_event (lq_username q) ''medium''] \<and>
      lw_redis (snd (login C S now dr q w)) =
        map_option (record_failure S now (lq_username q) (lq_client_ip q)) (lw_redis w1)) \<and>
   (fst (login C S now dr q w) = Inl e \<longrightarrow>
      lw_db (snd (login C S now dr q w)) = lw_db w \<and>
      (e \<in> {login_failed, captcha_required, login_rate_limited} \<or> \<not> is_app_err e))"
proof (intro conjI impI; (elim conjE)?)
  assume g: "login_gate S now q w = (None, w1)"
    and c: "case active_user (lw_db w) (lq_username q) of
       None \<Rightarrow> True | Some u \<Rightarrow> \<not> verify_password C (lq_password q) (u_password_hash u)"
  have "\<exists>uid. login_tx C S now dr q (lw_db w1) = Inr (Inl uid, lw_db w1)"
    using c by (auto simp: login_tx_def Let_def gate_db [OF g] split: option.splits)
  then obtain uid where t: "login_tx C S now dr q (lw_db w1) = Inr (Inl uid, lw_db w1)" ..
  note facts = login_def g t gate_pass_audit [OF g]
  show "fst (login C S now dr q w) = Inl login_failed" by (simp add: facts)
  show "lw_db (snd (login C S now dr q w)) = lw_db w"
    by (simp add: facts t [unfolded gate_db [OF g]] gate_db [OF g])
  show "aw_audit (lw_auth (snd (login C S now dr q w))) =
      aw_audit (lw_auth w) @ [login_failed_event (lq_username q) ''medium'']"
    by (simp add: facts)
  show "lw_redis (snd (login C S now dr q w)) =
      map_option (record_failure S now (lq_username q) (lq_client_ip q)) (lw_redis w1)"
    by (simp add: facts)
next
  assume e: "fst (login C S now dr q w) = Inl e"
  obtain g w1 where g: "login_gate S now q w = (g, w1)" by (cases "login_gate S now q w")
  have db: "lw_db w1 = lw_db w" by (rule gate_db [OF g])
  have "lw_db (snd (login C S now dr q w)) = lw_db w \<and>
      (e \<in> {login_failed, captcha_required, login_rate_limited} \<or> \<not> is_app_err e)"
  proof (cases g)
    case (Some x)
    with e g db gate_error [of S now q w x w1] show ?thesis by (auto simp: login_def)
  next
    case None
    show ?thesis
    proof (cases "login_tx C S now dr q (lw_db w1)")
      case (Inl x)
      with e g None db login_tx_errors [OF Inl] show ?thesis by (auto simp: login_def)
    next
      case (Inr y)
      then obtain z d where y: "login_tx C S now dr q (lw_db w1) = Inr (z, d)" by (cases y) auto
      with e g None obtain uid where z: "z = Inl uid"
        by (cases z) (auto simp: login_def)
      with y login_tx_wrong have "d = lw_db w1" by metis
      with e g None y z db show ?thesis by (auto simp: login_def lw_db_def)
    qed
  qed
  then show "lw_db (snd (login C S now dr q w)) = lw_db w"
    "e \<in> {login_failed, captcha_required, login_rate_limited} \<or> \<not> is_app_err e" by blast+
qed

theorem login_failure_uniform_witness:
  "fst (login demo_crypto demo_settings 0 (demo_draw 1) (demo_request ''bob'' ''x'')
      (demo_login_world demo_db empty_redis)) =
   fst (login demo_crypto demo_settings 0 (demo_draw 1) (demo_request ''ann'' ''x'')
      (demo_login_world demo_db empty_redis))"
proof -
  have g: "fst (login_gate demo_settings 0 (demo_request u ''x'') (demo_login_world demo_db empty_redis))
      = None" if "u = ''ann'' \<or> u = ''bob''" for u
    using that by (elim disjE) (simp_all only:, code_simp+)
  have gate: "\<exists>w1. login_gate demo_settings 0 (demo_request u ''x'')
      (demo_login_world demo_db empty_redis) = (None, w1)" if "u = ''ann'' \<or> u = ''bob''" for u
    using g [OF that] by (metis prod.collapse)
  have a: "active_user demo_db ''bob'' = None" by code_simp
  have b: "active_user demo_db ''ann'' = Some demo_user" by code_simp
  from gate [of "''bob''"] gate [of "''ann''"] obtain w1 w2
    where "login_gate demo_settings 0 (demo_request ''bob'' ''x'')
      (demo_login_world demo_db empty_redis) = (None, w1)"
    "login_gate demo_settings 0 (demo_request ''ann'' ''x'')
      (demo_login_world demo_db empty_redis) = (None, w2)" by auto
  then show ?thesis
    using login_failure_uniform [of demo_settings 0 "demo_request ''bob'' ''x''"
        "demo_login_world demo_db empty_redis" w1 demo_crypto "demo_draw 1"]
      login_failure_uniform [of demo_settings 0 "demo_request ''ann'' ''x''"
        "demo_login_world demo_db empty_redis" w2 demo_crypto "demo_draw 1"] a b
    by (simp add: demo_request_def demo_login_world_def lw_db_def verify_password_def
        demo_crypto_def demo_user_def)
qed

end
