(* ===== verification/GuardTheorems.thy ===== *)
theory GuardTheorems
  imports AuthTheorems
begin

text \<open>
  Properties of the brute-force protection: the lock, the address limit and the one-time captcha.
\<close>

section \<open>Lockout\<close>

text \<open>
  C10 After \<open>lock_threshold\<close> failures of an account, each within the failure window of the one
  before, every login to that account during the next \<open>lock_seconds\<close> is refused with the uniform
  401, whatever its password, captcha or address, and records a high-risk event.
\<close>

theorem repeated_failures_lock_out:
  assumes up: "rd_up r" and ok: "counters_ok r" and w: "within_window S (ts @ [t])"
    and n: "lock_threshold S \<le> int (length (ts @ [t]))"
    and c: "0 \<le> counter (hd (ts @ [t])) r (fail_user_key u)"
    and st: "lw_redis w = Some (failures S u ip (ts @ [t]) r)" "lq_username q = u"
    and now: "now < t + secs (lock_seconds S)"
  shows "fst (login C S now dr q w) = Inl login_failed \<and>
    lw_db (snd (login C S now dr q w)) = lw_db w \<and>
    aw_audit (lw_auth (snd (login C S now dr q w))) =
      aw_audit (lw_auth w) @ [login_failed_event u ''high'']"
proof -
  let ?q = "failures S u ip (ts @ [t]) r"
  have "rd_kv ?q (lock_user_key u) = Some (''1'', Some (t + secs (lock_seconds S)))"
    by (rule failures_lock [OF up ok w n c])
  then have locked: "rd_value now ?q (lock_user_key u) \<noteq> None"
    using now by (simp add: rd_value_def)
  have up': "rd_up ?q" using failures_keep [OF up ok] by simp
  obtain d r1 where p: "pre_check S now u (lq_client_ip q) ?q = (d, r1)"
    by (cases "pre_check S now u (lq_client_ip q) ?q")
  have "pre_check S now u (lq_client_ip q) ?q = (allow\<lparr>account_locked := True\<rparr>, ?q)"
    using locked up' by (simp add: pre_check_def pre_check_body_def rd_bind_def rd_get_up rd_pure_def)
  then show ?thesis
    using st by (simp add: login_def login_gate_def Let_def allow_def lw_db_def)
qed

theorem repeated_failures_lock_out_witness:
  "fst (login demo_crypto demo_settings 100 (demo_draw 1) (demo_request ''ann'' ''h'')
     (demo_login_world demo_db (failures demo_settings ''ann'' None [0, 1, 2, 3, 4] empty_redis))) =
   Inl login_failed"
proof -
  have "rd_up empty_redis" "counters_ok empty_redis"
    by (simp_all add: rd_up_def empty_redis_def counters_ok_def)
  moreover have "within_window demo_settings ([0, 1, 2, 3] @ [4])"
    by (simp add: demo_settings_def secs_def)
  moreover have "lock_threshold demo_settings \<le> int (length ([0, 1, 2, 3] @ [4 :: int]))"
    by (simp add: demo_settings_def)
  moreover have "0 \<le> counter (hd ([0, 1, 2, 3] @ [4])) empty_redis (fail_user_key ''ann'')"
    by (simp add: counter_def rd_value_def empty_redis_def)
  ultimately show ?thesis
    using repeated_failures_lock_out [of empty_redis demo_settings "[0, 1, 2, 3]" 4 "''ann''"
        "demo_login_world demo_db (failures demo_settings ''ann'' None ([0, 1, 2, 3] @ [4]) empty_redis)"
        None "demo_request ''ann'' ''h''" 100 demo_crypto "demo_draw 1"]
    by (simp add: demo_login_world_def demo_request_def) (simp add: demo_settings_def secs_def)
qed

section \<open>The address counter\<close>

text \<open>
  A successful login clears the failure count and the lock of its own account only: the counters
  of every address and of every other account keep their value, so an attacker with one valid
  account cannot reset the address limit.
\<close>

theorem success_keeps_ip_counter:
  "rd_kv (clear_on_success u r) (fail_ip_key ip) = rd_kv r (fail_ip_key ip) \<and>
   (v \<noteq> u \<longrightarrow> rd_kv (clear_on_success u r) (fail_user_key v) = rd_kv r (fail_user_key v) \<and>
      rd_kv (clear_on_success u r) (lock_user_key v) = rd_kv r (lock_user_key v)) \<and>
   (rd_up r \<longrightarrow> rd_kv (clear_on_success u r) (fail_user_key u) = None \<and>
      rd_kv (clear_on_success u r) (lock_user_key u) = None)"
  by (auto simp: clear_on_success_def rd_frames intro!: rd_bind_frame)
    (auto simp: rd_bind_def rd_delete_def)

theorem success_keeps_ip_counter_witness:
  "let r = failures demo_settings ''ann'' (Some ''1.2.3.4'') [0, 1] empty_redis
   in counter 5 (clear_on_success ''ann'' r) (fail_ip_key ''1.2.3.4'') = 2 \<and>
      counter 5 (clear_on_success ''ann'' r) (fail_user_key ''ann'') = 0"
proof -
  let ?r = "failures demo_settings ''ann'' (Some ''1.2.3.4'') [0, 1] empty_redis"
  have up: "rd_up ?r" by code_simp
  have "counter 5 ?r (fail_ip_key ''1.2.3.4'') = 2" by code_simp
  with success_keeps_ip_counter [of "''ann''" ?r "''1.2.3.4''" "''bob''"] up show ?thesis
    by (simp add: counter_def rd_value_def)
qed

section \<open>Captcha\<close>

text \<open>
  A captcha is accepted once: the right answer (white space around it ignored) before the
  expiry is accepted, any other text is not, and after any check that reached Redis, right or wrong,
  no later check of the same captcha succeeds.  A Redis fault never accepts.
\<close>

theorem captcha_single_use:
  assumes "generate_captcha S t i a b r = (Inr (i', question), r1)" and "i \<noteq> []"
    and "ans \<noteq> []" and "verify_captcha now (Some i) (Some ans) r1 = (accepted, r2)"
  shows "(rd_up r1 \<and> now < t + secs (captcha_ttl S) \<longrightarrow>
      (accepted \<longleftrightarrow> py_strip ans = int_str (a + b))) \<and>
    (accepted \<longrightarrow> rd_budget r1 \<noteq> Some 0 \<and> py_strip ans = int_str (a + b) \<and>
       now < t + secs (captcha_ttl S)) \<and>
    (rd_budget r1 \<noteq> Some 0 \<longrightarrow> \<not> fst (verify_captcha later (Some i) again r2))"
proof -
  have kv: "rd_kv r1 (captcha_key i) = Some (int_str (a + b), Some (t + secs (captcha_ttl S)))"
    using assms(1) by (auto simp: generate_captcha_def rd_setex_def rd_command_def rd_put_def
        split: option.splits prod.splits nat.splits)
  have i: "truthy (Some i)" "truthy (Some ans)" using assms(2,3) by (simp_all add: truthy_def)
  have gone: "rd_kv r2 (captcha_key i) = None" if "rd_budget r1 \<noteq> Some 0"
    using assms(4) i that by (auto simp: verify_captcha_def rd_getdel_def rd_command_def rd_put_def
        split: option.splits prod.splits nat.splits)
  have again: "\<not> fst (verify_captcha later (Some i) again r2)" if "rd_kv r2 (captcha_key i) = None"
  proof
    assume "fst (verify_captcha later (Some i) again r2)"
    then obtain r3 where "verify_captcha later (Some i) again r2 = (True, r3)"
      by (metis prod.collapse)
    from verify_captcha_TrueD(2) [OF this] that show False by (simp add: rd_value_def)
  qed
  have acc: "rd_budget r1 \<noteq> Some 0 \<and> py_strip ans = int_str (a + b) \<and>
      now < t + secs (captcha_ttl S)" if "accepted"
  proof -
    from that assms(4) have "verify_captcha now (Some i) (Some ans) r1 = (True, r2)" by simp
    from verify_captcha_TrueD(1,2) [OF this] kv show ?thesis
      by (auto simp: rd_value_def split: if_splits)
  qed
  have "accepted \<longleftrightarrow> py_strip ans = int_str (a + b)"
    if "rd_up r1" "now < t + secs (captcha_ttl S)"
    using assms(4) i kv that by (auto simp: verify_captcha_def rd_getdel_def rd_value_def)
  then show ?thesis using gone again acc by blast
qed

theorem captcha_single_use_witness:
  "\<exists>r1 r2. verify_captcha 5 (Some ''c'') (Some ''7 '') r1 = (True, r2) \<and>
     \<not> fst (verify_captcha 6 (Some ''c'') (Some ''7'') r2)"
proof -
  obtain r1 where g: "generate_captcha demo_settings 0 ''c'' 3 4 empty_redis =
      (Inr (''c'', ''3 + 4 = ?''), r1)"
    by (rule that [of "rd_put (captcha_key ''c'') (Some (int_str 7, Some 120000000)) empty_redis"])
      (simp add: generate_captcha_def rd_setex_def rd_command_def empty_redis_def demo_settings_def
        secs_def, code_simp)
  have up: "rd_up r1" using g by (auto simp: generate_captcha_def rd_setex_def rd_command_def
        empty_redis_def rd_up_def rd_put_def split: prod.splits option.splits)
  obtain acc r2 where v: "verify_captcha 5 (Some ''c'') (Some ''7 '') r1 = (acc, r2)"
    by (cases "verify_captcha 5 (Some ''c'') (Some ''7 '') r1")
  have "py_strip ''7 '' = int_str (3 + 4)" by code_simp
  with captcha_single_use [OF g _ _ v, of 6 "Some ''7''"] up v show ?thesis
    by (auto simp: rd_up_def demo_settings_def secs_def)
qed

end
