(* ===== verification/SessionTheorems.thy ===== *)
theory SessionTheorems
  imports AuthTheorems TokenTheorems
begin

text \<open>
  Refresh for users that were disabled meanwhile, and the change of password.
\<close>

section \<open>Refresh\<close>

lemma rotated_presented:
  assumes inv: "token_inv (aw_db w)"
    and r: "rotate_refresh_token S hm now dr raw w = (Inr res, w')"
  obtains row secret where "presented (aw_db w') raw = Some (row, secret)"
    "hm (refresh_pepper S) secret = rt_hash row" "rt_family row = is_family (rr_refresh res)"
    "refresh_pepper S \<noteq> []"
  using r
proof (rule rotate_presentedD)
  fix row secret d'
  assume p: "presented (aw_db w) raw = Some (row, secret)" "row \<in> set (rows (tokens (aw_db w)))"
    and ne: "refresh_pepper S \<noteq> []" and h: "hm (refresh_pepper S) secret = rt_hash row"
    and i: "issue_refresh_token S hm now dr (rt_user row) (Some (rt_family row))
       (Some (rt_absolute_at row)) (aw_db w) = Inr (rr_refresh res, d')"
    and w': "w' = w\<lparr>aw_db := mark_rotated row (is_jti (rr_refresh res)) now d'\<rparr>"
  let ?m = "row\<lparr>rt_rotated_to := Some (is_jti (rr_refresh res)), rt_revoked_at := Some now,
      rt_revoked_reason := Some ''rotated'', rt_last_used := Some now\<rparr>"
  have "?m \<in> set (rows (tokens (aw_db w')))" unfolding w' using rotate_marks [OF i p(2)] by simp
  moreover have "token_inv (aw_db w')"
    using rotate_inv [OF inv, of S hm now dr raw] r by simp
  ultimately have "get_by_jti (aw_db w') (rt_jti row) = Some ?m"
    using get_by_jti_Some_iff [of "aw_db w'" "rt_jti row" ?m] by simp
  then have "presented (aw_db w') raw = Some (?m, secret)"
    using presentedD [OF p(1)] by (auto simp: presented_def)
  then show thesis
    using issue_InrD(4) [OF i] h ne by (intro that [of ?m secret]) simp_all
qed

lemma rotate_keeps_users: "rotate_refresh_token S hm now dr raw w = (Inr res, w') \<Longrightarrow>
    users (aw_db w') = users (aw_db w)"
  by (erule rotate_presentedD, frule issue_InrD(6), elim exE, drule token_create_users)
    (simp add: mark_rotated_def)


definition disable_user :: "int \<Rightarrow> db \<Rightarrow> db" where
  "disable_user i d = d\<lparr>users := update_where (\<lambda>u. u_id u = i) (\<lambda>u. u\<lparr>u_status := Disabled\<rparr>) (users d)\<rparr>"


section \<open>Change of password\<close>

lemma users_revoke_family [simp]: "users (snd (revoke_family f reason now d)) = users d"
  by (simp add: revoke_family_def)

lemma users_revoke_families [simp]: "users (revoke_families reason now fs d) = users d"
  unfolding revoke_families_def by (induction fs arbitrary: d) simp_all

lemma active_rows_revoke_all: "active_rows (revoke_all_families uid now d) uid now = []"
  by (auto simp: revoke_all_families_def active_rows_revoke_families set_list_active_families
      filter_empty_conv)

lemma revoke_all_other_user:
  assumes "uid' \<noteq> uid" "same_family_agrees (rows (tokens d))"
  shows "active_rows (revoke_all_families uid now d) uid' t = active_rows d uid' t"
proof -
  have "rt_family r \<notin> set (list_active_families d uid now)"
    if r: "r \<in> set (active_rows d uid' t)" for r
  proof
    assume "rt_family r \<in> set (list_active_families d uid now)"
    then obtain q where "q \<in> set (active_rows d uid now)" "rt_family q = rt_family r"
      by (auto simp: set_list_active_families)
    with r assms same_familyD [of "rows (tokens d)" r q] show False
      by (auto simp: active_rows_def)
  qed
  then show ?thesis
    by (simp add: revoke_all_families_def active_rows_revoke_families filter_id_conv)
qed

lemma reissue_InrD:
  assumes r: "reissue C S now dr uid d = Inr (issued, d')" and ne: "refresh_pepper S \<noteq> []"
    and S: "settings_ok S"
  shows "list_active_families d' uid now = [dr_family dr]" and "users d' = users d"
    and "uid' \<noteq> uid \<Longrightarrow> same_family_agrees (rows (tokens d)) \<Longrightarrow>
      active_rows d' uid' t = active_rows d uid' t"
proof -
  let ?d = "revoke_all_families uid now d"
  from r ne obtain new where i: "issue_refresh_token S (hmac_hex C) now dr uid None None ?d = Inr (new, d')"
    by (auto simp: reissue_def bind_res_Inr_iff split: prod.splits)
  from issue_InrD(6) [OF i] issue_InrD(4) [OF i] obtain n where
    c: "token_create (dr_jti dr) (dr_family dr) uid (hmac_hex C (refresh_pepper S) (dr_secret dr))
      now (new_expiry S now None) (now + secs (absolute_ttl S)) ?d = Inr (n, d')" by auto
  note n = token_create_InrD [OF c]
  have "live n" "rt_user n = uid" "now < rt_expires_at n" "rt_family n = dr_family dr"
    using S n(1) by (auto simp: new_expiry_def live_def settings_ok_def secs_def)
  then have act: "active_rows d' uid now = [n]" "rt_family n = dr_family dr"
    using active_rows_revoke_all [of uid now d] by (simp_all add: active_rows_def n(2))
  then show "list_active_families d' uid now = [dr_family dr]"
    by (simp add: list_active_families_def Let_def)
  show "users d' = users d" by (simp add: n(2) revoke_all_families_def)
  show "active_rows d' uid' t = active_rows d uid' t"
    if "uid' \<noteq> uid" "same_family_agrees (rows (tokens d))"
    using revoke_all_other_user [OF that, of now t] that(1) \<open>rt_user n = uid\<close>
    by (simp add: active_rows_def n(2))
qed

lemma reissue_errors: "reissue C S now dr uid d = Inl e \<Longrightarrow> \<not> is_app_err e"
  by (cases "refresh_pepper S = []")
    (auto simp: reissue_def bind_res_Inl_iff is_app_err_def issue_refresh_token_def
      token_create_def Let_def insert_row_def split: if_splits sum.splits prod.splits)

lemma access_errors: "issue_access_token C S now i n = Inl e \<Longrightarrow> \<not> is_app_err e"
  by (auto simp: issue_access_token_def require_secret_def is_app_err_def split: if_splits)

text \<open>The branches of the body.\<close>

lemma change_password_body_InrD:
  assumes "change_password_body C S now dr salt uid old new w = (Inr (name, resp), w')"
  obtains u issued d' where "get_user (aw_db w) uid = Some u" "u_status u = Active"
    "name = u_username u" "argon_verify C (u_password_hash u) old = ArgonMatch"
    "new \<noteq> u_username u" "new \<noteq> old"
    "issue_access_token C S now (u_id u) (u_username u) = Inr (lr_access resp)"
    "reissue C S now dr uid (set_password_hash uid (argon_hash C salt new) (aw_db w)) = Inr (issued, d')"
    "lr_refresh resp = map_option is_token issued" "w' = w\<lparr>aw_db := d'\<rparr>"
  using assms
  by (auto simp: change_password_body_def validate_new_password_def verify_password_def
      hash_password_def make_response_def Let_def bind_res_Inr_iff guard_def
      split: option.splits if_splits sum.splits argon_outcome.splits prod.splits
      dest!: get_user_SomeD)

lemma change_password_body_Inl:
  assumes "change_password_body C S now dr salt uid old new w = (Inl e, w')" "is_app_err e"
  shows "aw_db w' = aw_db w"
  using assms
  by (auto simp: change_password_body_def Let_def dest: reissue_errors access_errors
      split: option.splits if_splits sum.splits prod.splits)

text \<open>
  C12 A change of password succeeds only for an active user who gave the current password and a new
  one that is neither the current one nor the username.  It stores the hash of the new password for
  that user and leaves every other user row alone; with a pepper configured, the user is left with
  exactly one active session, the one of the new refresh token, and the sessions of the others are
  untouched.  A refused change leaves the database as it was.
\<close>

theorem change_password_effect:
  assumes "token_inv (aw_db w)" and "settings_ok S"
  shows "case change_password C S now dr salt uid old new w of
      (Inl e, w') \<Rightarrow> aw_db w' = aw_db w
    | (Inr resp, w') \<Rightarrow>
        (\<exists>u. get_user (aw_db w) uid = Some u \<and> u_status u = Active \<and>
           argon_verify C (u_password_hash u) old = ArgonMatch \<and> new \<noteq> u_username u \<and> new \<noteq> old \<and>
           issue_access_token C S now uid (u_username u) = Inr (lr_access resp)) \<and>
        rows (users (aw_db w')) = map (\<lambda>u. if u_id u = uid
           then u\<lparr>u_password_hash := argon_hash C salt new\<rparr> else u) (rows (users (aw_db w))) \<and>
        (if refresh_pepper S = [] then tokens (aw_db w') = tokens (aw_db w)
         else list_active_families (aw_db w') uid now = [dr_family dr] \<and>
           (\<forall>uid' t. uid' \<noteq> uid \<longrightarrow> active_rows (aw_db w') uid' t = active_rows (aw_db w) uid' t))"
proof -
  obtain out w1 where b: "change_password_body C S now dr salt uid old new w = (out, w1)"
    by (cases "change_password_body C S now dr salt uid old new w")
  show ?thesis
  proof (cases out)
    case (Inl e)
    show ?thesis
    proof (cases "is_app_err e")
      case True
      with b [unfolded Inl] show ?thesis
        using change_password_body_Inl by (simp add: change_password_def commit_app_errors_def)
    qed (use b Inl in \<open>simp add: change_password_def commit_app_errors_def\<close>)
  next
    case (Inr x)
    then obtain name resp where x: "out = Inr (name, resp)" by (cases x) auto
    from b [unfolded x] show ?thesis
    proof (rule change_password_body_InrD)
      fix u issued d'
      let ?d = "set_password_hash uid (argon_hash C salt new) (aw_db w)"
      assume u: "get_user (aw_db w) uid = Some u" "u_status u = Active" "name = u_username u"
          "argon_verify C (u_password_hash u) old = ArgonMatch" "new \<noteq> u_username u" "new \<noteq> old"
        and a: "issue_access_token C S now (u_id u) (u_username u) = Inr (lr_access resp)"
        and r: "reissue C S now dr uid ?d = Inr (issued, d')" and w1: "w1 = w\<lparr>aw_db := d'\<rparr>"
      have id: "u_id u = uid" using get_user_SomeD [OF u(1)] by simp
      have tok: "tokens ?d = tokens (aw_db w)" by (simp add: set_password_hash_def)
      have agree: "same_family_agrees (rows (tokens ?d))"
        using assms(1) tok by (simp add: token_inv_def tokens_ok_def)
      have act: "active_rows ?d uid' t = active_rows (aw_db w) uid' t" for uid' t
        by (simp add: active_rows_def tok)
      have us: "rows (users ?d) = map (\<lambda>u. if u_id u = uid
           then u\<lparr>u_password_hash := argon_hash C salt new\<rparr> else u) (rows (users (aw_db w)))"
        by (simp add: set_password_hash_def update_where_def)
      show ?thesis
      proof (cases "refresh_pepper S = []")
        case True
        with r have "d' = ?d" by (simp add: reissue_def)
        then show ?thesis
          using b x u a True us tok w1 id by (simp add: change_password_def commit_app_errors_def)
      next
        case False
        note f = reissue_InrD [OF r False assms(2)]
        show ?thesis
          using b x u a False us w1 id f(1,2) f(3) [OF _ agree]
          by (simp add: change_password_def commit_app_errors_def act)
      qed
    qed
  qed
qed

theorem change_password_effect_witness:
  "\<exists>resp w'. change_password demo_crypto demo_settings 5 (demo_draw 2) ''salt'' 1 ''h'' ''newpassword1''
       demo_world = (Inr resp, w') \<and> list_active_families (aw_db w') 1 5 = [202]"
proof -
  let ?c = "change_password demo_crypto demo_settings 5 (demo_draw 2) ''salt'' 1 ''h'' ''newpassword1''
       demo_world"
  have "\<not> isl (fst ?c)" by code_simp
  then obtain resp w' where c: "?c = (Inr resp, w')" by (cases ?c; cases "fst ?c") auto
  have inv: "token_inv (aw_db demo_world)"
    using reachable_sys_inv [OF demo_reachable] by (simp add: token_sys_inv_def demo_world_def)
  have S: "settings_ok demo_settings" by (simp add: demo_settings_def settings_ok_def)
  have "refresh_pepper demo_settings \<noteq> []" by (simp add: demo_settings_def)
  with change_password_effect [OF inv S, where C = demo_crypto and now = 5 and dr = "demo_draw 2"
      and salt = "''salt''" and uid = 1 and old = "''h''" and new = "''newpassword1''"] c
  show ?thesis by (simp add: demo_draw_def)
qed

end
