(* ===== verification/DataScope.thy ===== *)
theory DataScope
  imports Schema
begin

text \<open>
  \<^verbatim>\<open>authz/scope.py\<close> and \<^verbatim>\<open>authz/data_scope.py\<close>: the effective data scope of a request, its
  translation to a WHERE condition (a filter on the rows of a query) and the check of a single
  object.  \<open>scope_sound\<close> characterises the scopes for which both agree.
\<close>

record data_scope =
  ds_type :: scope_type
  ds_user :: int
  ds_dept :: "int option"
  ds_visible :: "int set"
  ds_self :: bool

definition plain_scope :: "scope_type \<Rightarrow> int \<Rightarrow> data_scope" where
  "plain_scope st uid =
     \<lparr>ds_type = st, ds_user = uid, ds_dept = None, ds_visible = {}, ds_self = False\<rparr>"

text \<open>
  \<open>dept_of\<close> and \<open>owner_of\<close> are the columns; a NULL department is in no list.
\<close>

definition dept_in :: "int set \<Rightarrow> int option \<Rightarrow> bool" where
  "dept_in ids dept = (case dept of None \<Rightarrow> False | Some i \<Rightarrow> i \<in> ids)"

definition scope_conditions ::
    "data_scope \<Rightarrow> ('r \<Rightarrow> int option) \<Rightarrow> ('r \<Rightarrow> int) option \<Rightarrow> ('r \<Rightarrow> bool) list" where
  "scope_conditions scope dept_of owner_of =
     (if ds_visible scope \<noteq> {} then [\<lambda>r. dept_in (ds_visible scope) (dept_of r)] else []) @
     (case owner_of of
        Some owner \<Rightarrow> if ds_self scope \<or> ds_type scope = ScopeSelf
                      then [\<lambda>r. owner r = ds_user scope] else []
      | None \<Rightarrow> [])"

definition apply_data_scope ::
    "data_scope \<Rightarrow> ('r \<Rightarrow> int option) \<Rightarrow> ('r \<Rightarrow> int) option \<Rightarrow> 'r list \<Rightarrow> 'r list" where
  "apply_data_scope scope dept_of owner_of stmt =
     (if ds_type scope = ScopeAll then stmt
      else (case scope_conditions scope dept_of owner_of of
              [] \<Rightarrow> filter (\<lambda>r. False) stmt
            | [c] \<Rightarrow> filter c stmt
            | cs \<Rightarrow> filter (\<lambda>r. \<exists>c \<in> set cs. c r) stmt))"

definition is_dept_visible :: "data_scope \<Rightarrow> int option \<Rightarrow> bool" where
  "is_dept_visible scope dept =
     (if ds_type scope = ScopeAll then True else dept_in (ds_visible scope) dept)"

text \<open>\<^verbatim>\<open>_user_visible\<close> of the user and binding services.\<close>

definition user_visible :: "user \<Rightarrow> data_scope \<Rightarrow> bool" where
  "user_visible row scope \<longleftrightarrow>
     is_dept_visible scope (u_dept row) \<or> ds_self scope \<and> u_id row = ds_user scope"

text \<open>\<^verbatim>\<open>scope is not None and not is_dept_visible(scope, dept)\<close>\<close>

definition out_of_scope :: "data_scope option \<Rightarrow> int option \<Rightarrow> bool" where
  "out_of_scope scope dept =
     (case scope of None \<Rightarrow> False | Some s \<Rightarrow> \<not> is_dept_visible s dept)"

definition user_hidden :: "data_scope option \<Rightarrow> user \<Rightarrow> bool" where
  "user_hidden scope row = (case scope of None \<Rightarrow> False | Some s \<Rightarrow> \<not> user_visible row s)"

definition scope_sound :: "data_scope \<Rightarrow> bool" where
  "scope_sound s \<longleftrightarrow> (ds_type s = ScopeSelf \<longrightarrow> ds_self s)"

section \<open>Facts\<close>

lemma dept_in_simps [simp]:
  "dept_in ids None = False" "dept_in ids (Some i) = (i \<in> ids)" "dept_in {} dept = False"
  by (simp_all add: dept_in_def split: option.splits)

lemma apply_data_scope_eq:
  "apply_data_scope scope dept_of owner_of stmt =
     filter (\<lambda>r. ds_type scope = ScopeAll \<or> dept_in (ds_visible scope) (dept_of r) \<or>
        (case owner_of of None \<Rightarrow> False
         | Some owner \<Rightarrow> (ds_self scope \<or> ds_type scope = ScopeSelf) \<and> owner r = ds_user scope)) stmt"
  by (cases owner_of; cases "ds_visible scope = {}")
    (auto simp: apply_data_scope_def scope_conditions_def intro!: filter_cong)

lemma apply_data_scope_depts:
  "apply_data_scope scope dept_of None stmt = filter (\<lambda>r. is_dept_visible scope (dept_of r)) stmt"
  by (auto simp: apply_data_scope_eq is_dept_visible_def intro!: filter_cong)

lemma apply_data_scope_users:
  "scope_sound scope \<Longrightarrow>
     apply_data_scope scope u_dept (Some u_id) stmt = filter (\<lambda>u. user_visible u scope) stmt"
  by (auto simp: apply_data_scope_eq user_visible_def is_dept_visible_def scope_sound_def
      intro!: filter_cong)

end
