(* ===== verification/AdjTree.thy ===== *)
theory AdjTree
  imports Prelude
begin

text \<open>
  Trees stored as adjacency lists (\<^verbatim>\<open>parent_id\<close> of \<^verbatim>\<open>depts\<close> and \<^verbatim>\<open>menus\<close>) and the recursive
  CTEs over them.  An edge list holds, per row, its key and its parent.  \<open>levels n\<close> is the
  \<^verbatim>\<open>UNION ALL\<close> recursion cut at depth \<open>n\<close>; the repositories use \<open>n = 64\<close>, and the theorems say
  what that bound costs: a move is checked completely exactly when no node lies deeper than 64
  below the moved one.
\<close>

type_synonym edges = "(int \<times> int option) list"

definition children_of :: "edges \<Rightarrow> int \<Rightarrow> int list" where
  "children_of es p = map fst (filter (\<lambda>e. snd e = Some p) es)"

fun levels :: "nat \<Rightarrow> edges \<Rightarrow> int list \<Rightarrow> int list" where
  "levels 0 es front = front"
| "levels (Suc n) es front = front @ levels n es (concat (map (children_of es) front))"

definition max_depth :: nat where
  "max_depth = 64"

definition descendant_ids :: "edges \<Rightarrow> int \<Rightarrow> int set" where
  "descendant_ids es i = set (levels max_depth es (filter (\<lambda>k. k = i) (map fst es)))"

fun ancestors_up :: "nat \<Rightarrow> edges \<Rightarrow> int \<Rightarrow> int list" where
  "ancestors_up n es i =
     (case find (\<lambda>e. fst e = i) es of
        None \<Rightarrow> []
      | Some (_, None) \<Rightarrow> [i]
      | Some (_, Some p) \<Rightarrow> i # (case n of 0 \<Rightarrow> [] | Suc m \<Rightarrow> ancestors_up m es p))"

declare ancestors_up.simps [simp del]

definition ancestor_ids :: "edges \<Rightarrow> int \<Rightarrow> int list" where
  "ancestor_ids es i = rev (filter (\<lambda>k. k \<noteq> i) (ancestors_up max_depth es i))"

text \<open>\<^verbatim>\<open>_check_no_cycle\<close>: the new parent is neither the node nor one of the descendants found.\<close>

definition creates_cycle :: "edges \<Rightarrow> int \<Rightarrow> int \<Rightarrow> bool" where
  "creates_cycle es i p \<longleftrightarrow> p = i \<or> p \<in> descendant_ids es i"

section \<open>The parent relation\<close>

definition parent_rel :: "edges \<Rightarrow> (int \<times> int) set" where
  "parent_rel es = {(c, p). (c, Some p) \<in> set es}"

definition forest :: "edges \<Rightarrow> bool" where
  "forest es \<longleftrightarrow> acyclic (parent_rel es)"

definition depth_below :: "edges \<Rightarrow> int \<Rightarrow> nat \<Rightarrow> bool" where
  "depth_below es i n \<longleftrightarrow> (\<forall>c. \<forall>k > n. (c, i) \<notin> parent_rel es ^^ k)"

lemma in_children_of: "c \<in> set (children_of es p) \<longleftrightarrow> (c, p) \<in> parent_rel es"
  by (force simp: children_of_def parent_rel_def)

lemma in_levels:
  "c \<in> set (levels n es front) \<longleftrightarrow> (\<exists>k \<le> n. \<exists>f \<in> set front. (c, f) \<in> parent_rel es ^^ k)"
proof (induction n arbitrary: front)
  case (Suc n)
  have step: "(\<exists>f \<in> set (concat (map (children_of es) front)). (c, f) \<in> parent_rel es ^^ k) \<longleftrightarrow>
      (\<exists>f \<in> set front. (c, f) \<in> parent_rel es ^^ Suc k)" for k
    by (simp add: in_children_of Bex_def relcomp_unfold) blast
  show ?case
  proof
    assume "c \<in> set (levels (Suc n) es front)"
    then consider "c \<in> set front" | "c \<in> set (levels n es (concat (map (children_of es) front)))" by auto
    then show "\<exists>k \<le> Suc n. \<exists>f \<in> set front. (c, f) \<in> parent_rel es ^^ k"
    proof cases
      case 1
      then have "(c, c) \<in> parent_rel es ^^ 0" by simp
      with 1 show ?thesis by blast
    next
      case 2
      then obtain k where "k \<le> n"
        "\<exists>f \<in> set (concat (map (children_of es) front)). (c, f) \<in> parent_rel es ^^ k"
        unfolding Suc.IH by blast
      then have "Suc k \<le> Suc n" "\<exists>f \<in> set front. (c, f) \<in> parent_rel es ^^ Suc k"
        using step [of k] by simp_all
      then show ?thesis by blast
    qed
  next
    assume "\<exists>k \<le> Suc n. \<exists>f \<in> set front. (c, f) \<in> parent_rel es ^^ k"
    then obtain k where k: "k \<le> Suc n" "\<exists>f \<in> set front. (c, f) \<in> parent_rel es ^^ k" by blast
    show "c \<in> set (levels (Suc n) es front)"
    proof (cases k)
      case 0
      with k(2) show ?thesis by simp
    next
      case (Suc m)
      then have "c \<in> set (levels n es (concat (map (children_of es) front)))"
        using k step [of m] unfolding Suc.IH by auto
      then show ?thesis by simp
    qed
  qed
qed simp

lemma in_descendant_ids:
  assumes "i \<in> set (map fst es)"
  shows "c \<in> descendant_ids es i \<longleftrightarrow> (\<exists>k \<le> max_depth. (c, i) \<in> parent_rel es ^^ k)"
proof -
  have "set (filter (\<lambda>k. k = i) (map fst es)) = {i}" using assms by auto
  then show ?thesis unfolding descendant_ids_def in_levels by simp
qed

lemma descendant_self: "i \<in> set (map fst es) \<Longrightarrow> i \<in> descendant_ids es i"
  by (subst in_descendant_ids) (auto intro: exI [where x = 0])

lemma descendants_complete:
  assumes i: "i \<in> set (map fst es)" and d: "depth_below es i max_depth"
  shows "c \<in> descendant_ids es i \<longleftrightarrow> (c, i) \<in> (parent_rel es)\<^sup>*"
  unfolding in_descendant_ids [OF i]
proof
  assume "(c, i) \<in> (parent_rel es)\<^sup>*"
  then obtain k where k: "(c, i) \<in> parent_rel es ^^ k" by (auto simp: rtrancl_power)
  then have "k \<le> max_depth" using d unfolding depth_below_def by (meson not_le_imp_less)
  with k show "\<exists>k \<le> max_depth. (c, i) \<in> parent_rel es ^^ k" by blast
qed (auto simp: rtrancl_power)

section \<open>Insertions, moves, deletions\<close>

definition set_parent :: "int \<Rightarrow> int option \<Rightarrow> edges \<Rightarrow> edges" where
  "set_parent i p es = map (\<lambda>e. if fst e = i then (i, p) else e) es"

lemma forest_sub: "forest es \<Longrightarrow> parent_rel es' \<subseteq> parent_rel es \<Longrightarrow> forest es'"
  unfolding forest_def by (rule acyclic_subset)

lemma forest_insert:
  assumes "forest es" and new: "i \<notin> set (map fst es)" "\<And>p. p0 = Some p \<Longrightarrow> p \<noteq> i"
    and no_child: "\<And>c. (c, Some i) \<notin> set es"
  shows "forest (es @ [(i, p0)])"
proof (cases p0)
  case None
  then have "parent_rel (es @ [(i, p0)]) = parent_rel es" by (auto simp: parent_rel_def)
  with assms(1) show ?thesis by (simp add: forest_def)
next
  case (Some p)
  have rel: "parent_rel (es @ [(i, p0)]) = insert (i, p) (parent_rel es)"
    by (auto simp: parent_rel_def Some)
  have "(p, i) \<notin> (parent_rel es)\<^sup>*"
  proof
    assume "(p, i) \<in> (parent_rel es)\<^sup>*"
    then show False
      by (rule rtranclE) (use new(2) Some no_child in \<open>auto simp: parent_rel_def\<close>)
  qed
  with assms(1) show ?thesis by (simp add: forest_def rel acyclic_insert)
qed

lemma forest_set_parent:
  assumes "forest es" and "\<And>p. p0 = Some p \<Longrightarrow> (p, i) \<notin> (parent_rel es)\<^sup>*"
  shows "forest (set_parent i p0 es)"
proof (cases p0)
  case None
  then have "parent_rel (set_parent i p0 es) \<subseteq> parent_rel es"
    by (auto simp: parent_rel_def set_parent_def)
  with assms(1) show ?thesis by (rule forest_sub)
next
  case (Some p)
  have sub: "parent_rel (set_parent i p0 es) \<subseteq> insert (i, p) (parent_rel es)"
    by (auto simp: parent_rel_def set_parent_def Some split: if_splits)
  have "acyclic (insert (i, p) (parent_rel es))"
    using assms Some by (simp add: forest_def acyclic_insert)
  then show ?thesis unfolding forest_def using sub by (rule acyclic_subset)
qed

text \<open>The check is complete below the depth bound.\<close>

lemma checked_move_keeps_forest:
  assumes "forest es" "i \<in> set (map fst es)" "depth_below es i max_depth" "\<not> creates_cycle es i p"
  shows "forest (set_parent i (Some p) es)"
  using assms descendants_complete [OF assms(2,3)]
  by (intro forest_set_parent) (auto simp: creates_cycle_def)

lemma uncaught_cycle:
  assumes "(p, i) \<in> parent_rel (set_parent i (Some p) es) ^^ k" and "i \<in> set (map fst es)"
  shows "\<not> forest (set_parent i (Some p) es)"
proof -
  let ?R = "parent_rel (set_parent i (Some p) es)"
  have "(i, p) \<in> ?R" using assms(2) by (force simp: parent_rel_def set_parent_def)
  moreover have "(p, i) \<in> ?R\<^sup>*" using assms(1) relpow_imp_rtrancl by blast
  ultimately have "(i, i) \<in> ?R\<^sup>+" by (rule rtrancl_into_trancl2)
  then show ?thesis by (auto simp: forest_def acyclic_def)
qed

lemma forest_increasing:
  assumes "\<And>c p. (c, Some p) \<in> set es \<Longrightarrow> p < c"
  shows "forest es"
proof -
  have "b < a" if "(a, b) \<in> (parent_rel es)\<^sup>+" for a b
    using that by (induction rule: trancl_induct) (auto simp: parent_rel_def dest!: assms)
  then show ?thesis by (auto simp: forest_def acyclic_def)
qed

end
