(* ===== verification/Authz.thy ===== *)
theory Authz
  imports DataScope AdjTree Decimal
begin

text \<open>
  Where permissions and data scopes come from: the role, department and menu queries used for
  authorization, \<^verbatim>\<open>domains/role/provider.py\<close> (\<^verbatim>\<open>DbPermissionProvider\<close>, the fold of a user's roles
  to one data scope), \<^verbatim>\<open>authz/stub_providers.py\<close> and the guard \<^verbatim>\<open>require_permission\<close> of
  \<^verbatim>\<open>core/permissions.py\<close>.  The abstract class \<^verbatim>\<open>PermissionProvider\<close> is the locale
  \<open>permission_provider\<close>, interpreted on both providers.
\<close>

section \<open>Queries\<close>

text \<open>Active roles of a user, in the order of their id.\<close>

definition list_roles_for_user :: "db \<Rightarrow> int \<Rightarrow> role list" where
  "list_roles_for_user d uid =
     sort_key r_id (filter (\<lambda>r. (uid, r_id r) \<in> set (user_roles d) \<and> r_status r = Active)
                      (rows (roles d)))"

definition list_custom_dept_ids_for_role :: "db \<Rightarrow> int \<Rightarrow> int set" where
  "list_custom_dept_ids_for_role d rid =
     set (map snd (filter (\<lambda>p. fst p = rid) (role_depts d)))"

definition dept_edges :: "db \<Rightarrow> edges" where
  "dept_edges d = map (\<lambda>x. (d_id x, d_parent x)) (rows (depts d))"

definition list_descendant_dept_ids :: "db \<Rightarrow> int \<Rightarrow> int set" where
  "list_descendant_dept_ids d i = descendant_ids (dept_edges d) i"

definition list_ancestor_dept_ids :: "db \<Rightarrow> int \<Rightarrow> int list" where
  "list_ancestor_dept_ids d i = ancestor_ids (dept_edges d) i"

definition list_menu_ids_for_user :: "db \<Rightarrow> int \<Rightarrow> int set" where
  "list_menu_ids_for_user d uid =
     set (map snd (filter (\<lambda>p. fst p \<in> set (map r_id (list_roles_for_user d uid))) (role_menus d)))"

definition menu_perm :: "menu \<Rightarrow> string list" where
  "menu_perm m = (case m_perms m of None \<Rightarrow> [] | Some p \<Rightarrow> if p = [] then [] else [p])"

definition list_perms_for_user :: "db \<Rightarrow> int \<Rightarrow> string set" where
  "list_perms_for_user d uid =
     set (concat (map menu_perm
       (filter (\<lambda>m. m_status m = Active \<and> m_id m \<in> list_menu_ids_for_user d uid) (rows (menus d)))))"

section \<open>The effective data scope\<close>

text \<open>
  The loop over the roles: \<open>None\<close> as soon as one of them has scope ALL, otherwise the visible
  departments and whether own rows are included.
\<close>

fun fold_roles :: "db \<Rightarrow> int option \<Rightarrow> role list \<Rightarrow> int set \<Rightarrow> bool \<Rightarrow> (int set \<times> bool) option" where
  "fold_roles d dept [] visible self = Some (visible, self)"
| "fold_roles d dept (r # rs) visible self =
     (case r_scope r of
        ScopeAll \<Rightarrow> None
      | ScopeSelf \<Rightarrow> fold_roles d dept rs visible True
      | ScopeSelfDept \<Rightarrow>
          fold_roles d dept rs (case dept of None \<Rightarrow> visible | Some i \<Rightarrow> insert i visible) self
      | ScopeSelfDeptAndBelow \<Rightarrow>
          fold_roles d dept rs
            (case dept of None \<Rightarrow> visible | Some i \<Rightarrow> visible \<union> list_descendant_dept_ids d i) self
      | ScopeCustomDept \<Rightarrow>
          fold_roles d dept rs (visible \<union> list_custom_dept_ids_for_role d (r_id r)) self)"

definition compute_effective_data_scope :: "db \<Rightarrow> int \<Rightarrow> data_scope" where
  "compute_effective_data_scope d uid =
     (let dept = Option.bind (get_user d uid) u_dept
      in case fold_roles d dept (list_roles_for_user d uid) {} False of
           None \<Rightarrow> plain_scope ScopeAll uid
         | Some (visible, self) \<Rightarrow>
             \<lparr>ds_type = ScopeCustomDept, ds_user = uid, ds_dept = dept, ds_visible = visible,
              ds_self = self\<rparr>)"

section \<open>Providers\<close>

record authz_context =
  ac_active :: bool
  ac_super :: bool
  ac_perms :: "string set"
  ac_scope :: data_scope

definition db_is_active :: "db \<Rightarrow> int \<Rightarrow> bool" where
  "db_is_active d uid = (case get_user d uid of None \<Rightarrow> False | Some u \<Rightarrow> u_status u = Active)"

definition db_is_super_admin :: "db \<Rightarrow> int \<Rightarrow> bool" where
  "db_is_super_admin d uid =
     (case get_user d uid of None \<Rightarrow> False | Some u \<Rightarrow> u_super u \<and> u_status u = Active)"

definition db_role_codes :: "db \<Rightarrow> int \<Rightarrow> string set" where
  "db_role_codes d uid = set (map r_code (list_roles_for_user d uid))"

definition db_load_authz_context :: "db \<Rightarrow> int \<Rightarrow> authz_context" where
  "db_load_authz_context d uid =
     (case get_user d uid of
        None \<Rightarrow> \<lparr>ac_active = False, ac_super = False, ac_perms = {}, ac_scope = plain_scope ScopeSelf uid\<rparr>
      | Some u \<Rightarrow>
          if u_status u \<noteq> Active
          then \<lparr>ac_active = False, ac_super = False, ac_perms = {}, ac_scope = plain_scope ScopeSelf uid\<rparr>
          else if u_super u
          then \<lparr>ac_active = True, ac_super = True, ac_perms = {}, ac_scope = plain_scope ScopeAll uid\<rparr>
          else \<lparr>ac_active = True, ac_super = False, ac_perms = list_perms_for_user d uid,
                ac_scope = compute_effective_data_scope d uid\<rparr>)"

text \<open>\<^verbatim>\<open>PermissionProvider.a_load_authz_context\<close>, the default of the abstract class.\<close>

definition default_load_authz_context ::
    "(int \<Rightarrow> bool) \<Rightarrow> (int \<Rightarrow> bool) \<Rightarrow> (int \<Rightarrow> string set) \<Rightarrow> (int \<Rightarrow> data_scope) \<Rightarrow> int \<Rightarrow> authz_context" where
  "default_load_authz_context is_active is_super perms scope uid =
     (if \<not> is_active uid
      then \<lparr>ac_active = False, ac_super = False, ac_perms = {}, ac_scope = plain_scope ScopeSelf uid\<rparr>
      else if is_super uid
      then \<lparr>ac_active = True, ac_super = True, ac_perms = {}, ac_scope = plain_scope ScopeAll uid\<rparr>
      else \<lparr>ac_active = True, ac_super = False, ac_perms = perms uid, ac_scope = scope uid\<rparr>)"

record stub_provider =
  sp_permissions :: "(int \<times> string set) list"
  sp_scopes :: "(int \<times> data_scope) list"
  sp_supers :: "int list"
  sp_inactive :: "int list"

definition stub_is_active :: "stub_provider \<Rightarrow> int \<Rightarrow> bool" where
  "stub_is_active p uid \<longleftrightarrow> uid \<notin> set (sp_inactive p)"

definition stub_is_super_admin :: "stub_provider \<Rightarrow> int \<Rightarrow> bool" where
  "stub_is_super_admin p uid \<longleftrightarrow> uid \<in> set (sp_supers p)"

definition stub_user_permissions :: "stub_provider \<Rightarrow> int \<Rightarrow> string set" where
  "stub_user_permissions p uid = (case map_of (sp_permissions p) uid of None \<Rightarrow> {} | Some s \<Rightarrow> s)"

definition stub_data_scope :: "stub_provider \<Rightarrow> int \<Rightarrow> data_scope" where
  "stub_data_scope p uid =
     (case map_of (sp_scopes p) uid of None \<Rightarrow> plain_scope ScopeSelf uid | Some s \<Rightarrow> s)"

definition stub_load_authz_context :: "stub_provider \<Rightarrow> int \<Rightarrow> authz_context" where
  "stub_load_authz_context p =
     default_load_authz_context (stub_is_active p) (stub_is_super_admin p)
       (stub_user_permissions p) (stub_data_scope p)"

section \<open>The permission guard\<close>

record current_user =
  cu_id :: string
  cu_super :: bool
  cu_perms :: "string set"
  cu_dept :: "int option"
  cu_scope :: "data_scope option"

definition account_disabled :: exn where
  "account_disabled = AppErr ''auth.ACCOUNT_DISABLED'' 403"

definition forbidden_by_role :: exn where
  "forbidden_by_role = AppErr ''auth.FORBIDDEN_BY_ROLE'' 403"

definition forbidden_by_scope :: exn where
  "forbidden_by_scope = AppErr ''auth.FORBIDDEN_BY_SCOPE'' 403"

definition denied_event :: "string \<Rightarrow> int \<Rightarrow> string \<Rightarrow> audit_event" where
  "denied_event perm uid code =
     \<lparr>ev_type = ''permission_denied'', ev_action = perm, ev_actor = Some uid, ev_target = None,
      ev_display = None, ev_status = ''denied'', ev_http = Some 403, ev_error = Some code,
      ev_risk = ''medium'', ev_ttype = None\<rparr>"

text \<open>
  The dependency built for one permission: the user of the request and the provider's
  \<open>load\<close> give the enriched user or an error, and the events of a denial.  A subject that is no
  integer raises \<^verbatim>\<open>ValueError\<close>.
\<close>

definition require_permission ::
    "string \<Rightarrow> (int \<Rightarrow> authz_context) \<Rightarrow> current_user \<Rightarrow> (exn + current_user) \<times> audit_event list" where
  "require_permission perm load base =
     (case py_int (cu_id base) of
        None \<Rightarrow> (Inl (RuntimeErr ''ValueError''), [])
      | Some uid \<Rightarrow>
          (let ctx = load uid
           in if \<not> ac_active ctx
              then (Inl account_disabled, [denied_event perm uid ''auth.ACCOUNT_DISABLED''])
              else if ac_super ctx
              then (Inr (base\<lparr>cu_super := True, cu_scope := Some (plain_scope ScopeAll uid)\<rparr>), [])
              else if perm \<notin> ac_perms ctx
              then (Inl forbidden_by_role, [denied_event perm uid ''auth.FORBIDDEN_BY_ROLE''])
              else (Inr (base\<lparr>cu_super := False, cu_perms := ac_perms ctx,
                              cu_dept := ds_dept (ac_scope ctx), cu_scope := Some (ac_scope ctx)\<rparr>), [])))"

section \<open>The provider interface\<close>

text \<open>
  What the guard relies on: the snapshot loaded at once agrees with the separate queries, in the
  order of the short circuits, and a super administrator is active.
\<close>

locale permission_provider =
  fixes is_active :: "int \<Rightarrow> bool"
    and is_super :: "int \<Rightarrow> bool"
    and perms :: "int \<Rightarrow> string set"
    and scope :: "int \<Rightarrow> data_scope"
    and load :: "int \<Rightarrow> authz_context"
  assumes load_active: "ac_active (load uid) \<longleftrightarrow> is_active uid"
    and load_super: "ac_super (load uid) \<longleftrightarrow> is_active uid \<and> is_super uid"
    and load_perms: "is_active uid \<Longrightarrow> \<not> is_super uid \<Longrightarrow> ac_perms (load uid) = perms uid"
    and load_scope: "is_active uid \<Longrightarrow> \<not> is_super uid \<Longrightarrow> ac_scope (load uid) = scope uid"
begin

lemma guard_allows_iff:
  "(\<exists>u. fst (require_permission perm load base) = Inr u) \<longleftrightarrow>
     (\<exists>uid. py_int (cu_id base) = Some uid \<and> is_active uid \<and> (is_super uid \<or> perm \<in> perms uid))"
  using load_active load_super load_perms
  by (auto simp: require_permission_def Let_def split: option.splits)

lemma guard_scope:
  assumes "fst (require_permission perm load base) = Inr u" "py_int (cu_id base) = Some uid"
  shows "cu_scope u = Some (if is_super uid then plain_scope ScopeAll uid else scope uid)"
    and "cu_super u \<longleftrightarrow> is_super uid"
  using assms load_active [of uid] load_super [of uid] load_scope [of uid]
  by (auto simp: require_permission_def Let_def split: if_splits)

lemma guard_denials:
  assumes "py_int (cu_id base) = Some uid"
  shows "\<not> is_active uid \<Longrightarrow> require_permission perm load base =
      (Inl account_disabled, [denied_event perm uid ''auth.ACCOUNT_DISABLED''])"
    and "is_active uid \<Longrightarrow> \<not> is_super uid \<Longrightarrow> perm \<notin> perms uid \<Longrightarrow>
      require_permission perm load base =
        (Inl forbidden_by_role, [denied_event perm uid ''auth.FORBIDDEN_BY_ROLE''])"
  using assms load_active [of uid] load_super [of uid] load_perms [of uid]
  by (auto simp: require_permission_def Let_def)

end

interpretation db_provider: permission_provider "db_is_active d" "db_is_super_admin d"
    "list_perms_for_user d" "compute_effective_data_scope d" "db_load_authz_context d" for d
  by unfold_locales
    (auto simp: db_is_active_def db_is_super_admin_def db_load_authz_context_def split: option.splits)

interpretation stub: permission_provider "stub_is_active p" "stub_is_super_admin p"
    "stub_user_permissions p" "stub_data_scope p" "stub_load_authz_context p" for p
  by unfold_locales
    (auto simp: stub_load_authz_context_def default_load_authz_context_def)

section \<open>Facts about the fold\<close>

lemma fold_roles_None_iff:
  "fold_roles d dept rs visible self = None \<longleftrightarrow> (\<exists>r \<in> set rs. r_scope r = ScopeAll)"
  by (induction rs arbitrary: visible self) (auto split: scope_type.splits)

definition role_depts_granted :: "db \<Rightarrow> int option \<Rightarrow> role \<Rightarrow> int set" where
  "role_depts_granted d dept r =
     (case r_scope r of
        ScopeSelfDept \<Rightarrow> (case dept of None \<Rightarrow> {} | Some i \<Rightarrow> {i})
      | ScopeSelfDeptAndBelow \<Rightarrow>
          (case dept of None \<Rightarrow> {} | Some i \<Rightarrow> list_descendant_dept_ids d i)
      | ScopeCustomDept \<Rightarrow> list_custom_dept_ids_for_role d (r_id r)
      | _ \<Rightarrow> {})"

lemma fold_roles_Some:
  "fold_roles d dept rs visible self = Some (v, s) \<Longrightarrow>
     v = visible \<union> (\<Union>r \<in> set rs. role_depts_granted d dept r) \<and>
     (s \<longleftrightarrow> self \<or> (\<exists>r \<in> set rs. r_scope r = ScopeSelf))"
proof (induction rs arbitrary: visible self)
  case (Cons r rs)
  then show ?case
    by (cases "r_scope r"; cases dept) (auto simp: role_depts_granted_def dest!: Cons.IH)
qed simp

lemma compute_scope_sound: "scope_sound (compute_effective_data_scope d uid)"
  by (auto simp: compute_effective_data_scope_def scope_sound_def plain_scope_def Let_def
      split: option.splits)

lemma in_menu_perm: "p \<in> set (menu_perm m) \<longleftrightarrow> m_perms m = Some p \<and> p \<noteq> []"
  by (cases "m_perms m") (auto simp: menu_perm_def)

lemma set_list_roles_for_user:
  "r \<in> set (list_roles_for_user d uid) \<longleftrightarrow>
     r \<in> set (rows (roles d)) \<and> (uid, r_id r) \<in> set (user_roles d) \<and> r_status r = Active"
  by (auto simp: list_roles_for_user_def)

end
