(* ===== verification/AuthMiddleware.thy ===== *)
theory AuthMiddleware
  imports Authz AuthService
begin

text \<open>
  \<^verbatim>\<open>core/auth.py\<close>: the bearer-token middleware and the current-user dependencies, with
  \<^verbatim>\<open>decode_token\<close> of \<^verbatim>\<open>core/security.py\<close>.  The JWT library is the pair of functions
  \<open>jwt_encode\<close> (in \<open>crypto\<close>) and \<open>jd\<close>; \<open>jwt_laws\<close> states what its documentation promises: a
  token decodes under the key, issuer and audience it was encoded with until its expiry (whole
  seconds), and is reported expired afterwards.
\<close>

datatype jwt_outcome = JwtExpired | JwtInvalid | JwtPayload string string

type_synonym jwt_decoder = "string \<Rightarrow> string \<Rightarrow> string option \<Rightarrow> string option \<Rightarrow> int \<Rightarrow> jwt_outcome"

definition decode_token ::
    "jwt_decoder \<Rightarrow> auth_settings \<Rightarrow> int \<Rightarrow> string \<Rightarrow> exn + jwt_outcome" where
  "decode_token jd S now token =
     bind_res (require_secret (jwt_secret S)) (\<lambda>secret.
       Inr (case jd token secret (optional_claim (jwt_issuer S)) (optional_claim (jwt_audience S)) now of
              JwtExpired \<Rightarrow> JwtExpired
            | JwtInvalid \<Rightarrow> JwtInvalid
            | JwtPayload sub scope \<Rightarrow> if sub = [] then JwtInvalid else JwtPayload sub scope))"

definition is_public_path :: "string \<Rightarrow> string list \<Rightarrow> bool" where
  "is_public_path path publics \<longleftrightarrow>
     (\<exists>p \<in> set publics. path = p \<or> starts_with (p @ ''/'') path \<or> starts_with (p @ ''?'') path)"

definition token_invalid :: exn where
  "token_invalid = AppErr ''auth.TOKEN_INVALID'' 401"

definition token_expired :: exn where
  "token_expired = AppErr ''auth.TOKEN_EXPIRED'' 401"

text \<open>The state a request carries on: \<open>None\<close> when no user was set.\<close>

definition auth_dispatch ::
    "jwt_decoder \<Rightarrow> auth_settings \<Rightarrow> string list \<Rightarrow> int \<Rightarrow> string \<Rightarrow> string \<Rightarrow> exn + string option" where
  "auth_dispatch jd S publics now path header =
     (if is_public_path path publics then Inr None
      else if \<not> starts_with ''Bearer '' header then Inl token_invalid
      else (case decode_token jd S now (drop 7 header) of
              Inl e \<Rightarrow> Inl e
            | Inr JwtExpired \<Rightarrow> Inl token_expired
            | Inr JwtInvalid \<Rightarrow> Inl token_invalid
            | Inr (JwtPayload sub scope) \<Rightarrow> Inr (Some sub)))"

definition plain_user :: "string \<Rightarrow> current_user" where
  "plain_user uid =
     \<lparr>cu_id = uid, cu_super = False, cu_perms = {}, cu_dept = None, cu_scope = None\<rparr>"

definition get_optional_current_user :: "string option \<Rightarrow> current_user" where
  "get_optional_current_user st = plain_user (case st of None \<Rightarrow> [] | Some u \<Rightarrow> u)"

definition require_current_user :: "string option \<Rightarrow> exn + current_user" where
  "require_current_user st =
     (let uid = (case st of None \<Rightarrow> [] | Some u \<Rightarrow> u)
      in if uid = [] then Inl token_invalid else Inr (plain_user uid))"

text \<open>A guarded endpoint: middleware, current user, permission.\<close>

definition guarded ::
    "jwt_decoder \<Rightarrow> auth_settings \<Rightarrow> string list \<Rightarrow> int \<Rightarrow> string \<Rightarrow> string \<Rightarrow> string
      \<Rightarrow> (int \<Rightarrow> authz_context) \<Rightarrow> exn + current_user" where
  "guarded jd S publics now path header perm load =
     bind_res (auth_dispatch jd S publics now path header) (\<lambda>st.
       bind_res (require_current_user st) (\<lambda>base. fst (require_permission perm load base)))"

definition jwt_laws :: "crypto \<Rightarrow> jwt_decoder \<Rightarrow> bool" where
  "jwt_laws C jd \<longleftrightarrow> (\<forall>c key now. cl_iat c \<le> now \<longrightarrow>
     jd (jwt_encode C c key) key (cl_iss c) (cl_aud c) now =
       (if now < cl_exp c div 1000000 * 1000000 then JwtPayload (cl_sub c) [] else JwtExpired))"

section \<open>Facts\<close>

lemma no_header_refused:
  "\<not> is_public_path path publics \<Longrightarrow> \<not> starts_with ''Bearer '' header \<Longrightarrow>
     guarded jd S publics now path header perm load = Inl token_invalid"
  by (simp add: guarded_def auth_dispatch_def)

lemma public_guarded_refused:
  "is_public_path path publics \<Longrightarrow> guarded jd S publics now path header perm load = Inl token_invalid"
  by (simp add: guarded_def auth_dispatch_def require_current_user_def)

lemma issued_token_dispatch:
  assumes laws: "jwt_laws C jd" and tok: "issue_access_token C S t uid name = Inr token"
    and "t \<le> now" and "\<not> is_public_path path publics"
  shows "auth_dispatch jd S publics now path (''Bearer '' @ token) =
    (if now < (t + secs (access_ttl S)) div 1000000 * 1000000 then Inr (Some (int_str uid))
     else Inl token_expired)"
proof -
  let ?c = "\<lparr>cl_sub = int_str uid, cl_username = name, cl_iat = t, cl_exp = t + secs (access_ttl S),
      cl_iss = optional_claim (jwt_issuer S), cl_aud = optional_claim (jwt_audience S)\<rparr>"
  from tok have s: "jwt_secret S \<noteq> []" and token: "token = jwt_encode C ?c (jwt_secret S)"
    by (auto simp: issue_access_token_def require_secret_def split: if_splits)
  have "jd token (jwt_secret S) (optional_claim (jwt_issuer S)) (optional_claim (jwt_audience S)) now =
      (if now < cl_exp ?c div 1000000 * 1000000 then JwtPayload (cl_sub ?c) [] else JwtExpired)"
    using laws [unfolded jwt_laws_def, rule_format, of ?c now "jwt_secret S"] assms(3) token by simp
  then show ?thesis
    using s assms(4)
    by (simp add: auth_dispatch_def decode_token_def require_secret_def starts_with_def)
qed

end
