(* ===== verification/AuthzTheorems.thy ===== *)
theory AuthzTheorems
  imports AuthMiddleware SessionTheorems
begin

text \<open>
  Properties of authorization: the data scope is the union of what the active roles grant, the
  guard admits exactly who the tables say, and an access token carries no rights of its own.
\<close>

section \<open>Data scope\<close>

text \<open>What one role lets user \<open>u\<close> see, row by row.\<close>

definition role_grants :: "db \<Rightarrow> user \<Rightarrow> role \<Rightarrow> user \<Rightarrow> bool" where
  "role_grants d u r x =
     (case r_scope r of
        ScopeAll \<Rightarrow> True
      | ScopeCustomDept \<Rightarrow> (\<exists>i. u_dept x = Some i \<and> (r_id r, i) \<in> set (role_depts d))
      | ScopeSelfDept \<Rightarrow> u_dept u \<noteq> None \<and> u_dept x = u_dept u
      | ScopeSelfDeptAndBelow \<Rightarrow>
          (\<exists>i j. u_dept u = Some i \<and> u_dept x = Some j \<and> j \<in> list_descendant_dept_ids d i)
      | ScopeSelf \<Rightarrow> u_id x = u_id u)"

lemma custom_dept_ids: "i \<in> list_custom_dept_ids_for_role d rid \<longleftrightarrow> (rid, i) \<in> set (role_depts d)"
  by (force simp: list_custom_dept_ids_for_role_def)

lemma visible_iff_granted:
  assumes u: "get_user d uid = Some u"
  shows "user_visible x (compute_effective_data_scope d uid) \<longleftrightarrow>
    (\<exists>r \<in> set (list_roles_for_user d uid). role_grants d u r x)"
proof -
  have id: "u_id u = uid" using get_user_SomeD [OF u] by simp
  let ?rs = "list_roles_for_user d uid"
  have scope: "compute_effective_data_scope d uid =
      (case fold_roles d (u_dept u) ?rs {} False of None \<Rightarrow> plain_scope ScopeAll uid
       | Some (v, s) \<Rightarrow> \<lparr>ds_type = ScopeCustomDept, ds_user = uid, ds_dept = u_dept u,
           ds_visible = v, ds_self = s\<rparr>)"
    by (simp add: compute_effective_data_scope_def u Let_def)
  show ?thesis
  proof (cases "fold_roles d (u_dept u) ?rs {} False")
    case None
    then obtain r where "r \<in> set ?rs" "r_scope r = ScopeAll" by (auto simp: fold_roles_None_iff)
    moreover have "r_scope r = ScopeAll \<Longrightarrow> role_grants d u r x" for r
      by (simp add: role_grants_def)
    ultimately have "\<exists>r \<in> set ?rs. role_grants d u r x" by blast
    with None show ?thesis by (simp add: scope user_visible_def is_dept_visible_def plain_scope_def)
  next
    case (Some p)
    then obtain v s where f: "fold_roles d (u_dept u) ?rs {} False = Some (v, s)" by (cases p) auto
    then have no_all: "\<And>r. r \<in> set ?rs \<Longrightarrow> r_scope r \<noteq> ScopeAll"
      using fold_roles_None_iff by (metis option.distinct(1))
    have g: "role_grants d u r x \<longleftrightarrow> dept_in (role_depts_granted d (u_dept u) r) (u_dept x) \<or>
        r_scope r = ScopeSelf \<and> u_id x = uid" if "r \<in> set ?rs" for r
      using no_all [OF that] id
      by (cases "r_scope r"; cases "u_dept u"; cases "u_dept x")
        (auto simp: role_grants_def role_depts_granted_def custom_dept_ids)
    have "user_visible x (compute_effective_data_scope d uid) \<longleftrightarrow>
        dept_in (\<Union>r \<in> set ?rs. role_depts_granted d (u_dept u) r) (u_dept x) \<or>
        (\<exists>r \<in> set ?rs. r_scope r = ScopeSelf) \<and> u_id x = uid"
      using fold_roles_Some [OF f] by (simp add: scope f user_visible_def is_dept_visible_def)
    also have "\<dots> \<longleftrightarrow> (\<exists>r \<in> set ?rs. role_grants d u r x)"
      using g by (cases "u_dept x") auto
    finally show ?thesis .
  qed
qed

text \<open>
  C13 The user list filtered by the effective data scope of a user shows exactly the rows that one
  of the user's active roles grants (all rows, the departments bound to the role, the own
  department, the own department and those below, or the own row), and opening a single user is
  allowed for exactly the same rows.
\<close>

theorem data_scope_is_union_of_roles:
  assumes "get_user d uid = Some u"
  shows "(x \<in> set (apply_data_scope (compute_effective_data_scope d uid) u_dept (Some u_id)
        (rows (users d))) \<longleftrightarrow>
      x \<in> set (rows (users d)) \<and>
      (\<exists>r \<in> set (rows (roles d)). (uid, r_id r) \<in> set (user_roles d) \<and> r_status r = Active \<and>
         role_grants d u r x)) \<and>
    (user_visible x (compute_effective_data_scope d uid) \<longleftrightarrow>
      (\<exists>r \<in> set (rows (roles d)). (uid, r_id r) \<in> set (user_roles d) \<and> r_status r = Active \<and>
         role_grants d u r x))"
  using visible_iff_granted [OF assms, of x]
  by (auto simp: apply_data_scope_users [OF compute_scope_sound] set_list_roles_for_user)

definition demo_role :: "int \<Rightarrow> scope_type \<Rightarrow> role" where
  "demo_role i st = \<lparr>r_id = i, r_name = [], r_code = int_str i, r_scope = st, r_sort = 0,
     r_status = Active, r_created = 0\<rparr>"

definition demo_dept :: "int \<Rightarrow> int option \<Rightarrow> dept" where
  "demo_dept i p = \<lparr>d_id = i, d_parent = p, d_name = [], d_code = int_str i, d_sort = 0,
     d_status = Active, d_leader = None, d_phone = None, d_email = None\<rparr>"

definition demo_staff :: "int \<Rightarrow> int option \<Rightarrow> user" where
  "demo_staff i dept = \<lparr>u_id = i, u_username = int_str i, u_password_hash = [], u_nickname = [],
     u_status = Active, u_super = False, u_dept = dept, u_created = 0\<rparr>"

definition demo_menu :: "int \<Rightarrow> string \<Rightarrow> menu" where
  "demo_menu i p = \<lparr>m_id = i, m_parent = None, m_name = [], m_type = MenuF, m_path = [],
     m_component = None, m_perms = Some p, m_icon = [], m_sort = 0, m_visible = True,
     m_status = Active, m_seed = None\<rparr>"

text \<open>User 1 sits in department 10, user 2 below it in 11, user 3 elsewhere.\<close>

definition demo_org :: db where
  "demo_org = empty_db
     \<lparr>users := \<lparr>rows = [demo_staff 1 (Some 10), demo_staff 2 (Some 11), demo_staff 3 (Some 12)], seq = 4\<rparr>,
      depts := \<lparr>rows = [demo_dept 10 None, demo_dept 11 (Some 10), demo_dept 12 None], seq = 13\<rparr>,
      roles := \<lparr>rows = [demo_role 5 ScopeSelfDeptAndBelow], seq = 6\<rparr>,
      menus := \<lparr>rows = [demo_menu 7 ''system:user:list''], seq = 8\<rparr>,
      user_roles := [(1, 5)], role_menus := [(5, 7)]\<rparr>"

theorem data_scope_is_union_of_roles_witness:
  "demo_staff 2 (Some 11) \<in> set (apply_data_scope (compute_effective_data_scope demo_org 1) u_dept
     (Some u_id) (rows (users demo_org)))"
proof -
  have u: "get_user demo_org 1 = Some (demo_staff 1 (Some 10))" by code_simp
  have d: "11 \<in> list_descendant_dept_ids demo_org 10" by code_simp
  have "role_grants demo_org (demo_staff 1 (Some 10)) (demo_role 5 ScopeSelfDeptAndBelow)
      (demo_staff 2 (Some 11))"
    using d by (simp add: role_grants_def demo_role_def demo_staff_def)
  with data_scope_is_union_of_roles [OF u, of "demo_staff 2 (Some 11)"] show ?thesis
    by (simp add: demo_org_def demo_role_def)
qed

section \<open>The guard\<close>

lemma perms_for_user_iff:
  "perm \<in> list_perms_for_user d uid \<longleftrightarrow> perm \<noteq> [] \<and>
     (\<exists>r \<in> set (rows (roles d)). \<exists>m \<in> set (rows (menus d)).
        (uid, r_id r) \<in> set (user_roles d) \<and> r_status r = Active \<and>
        (r_id r, m_id m) \<in> set (role_menus d) \<and> m_status m = Active \<and> m_perms m = Some perm)"
proof -
  have m: "i \<in> list_menu_ids_for_user d uid \<longleftrightarrow> (\<exists>r \<in> set (rows (roles d)).
      (uid, r_id r) \<in> set (user_roles d) \<and> r_status r = Active \<and> (r_id r, i) \<in> set (role_menus d))" for i
    by (force simp: list_menu_ids_for_user_def set_list_roles_for_user)
  have "perm \<in> list_perms_for_user d uid \<longleftrightarrow> perm \<noteq> [] \<and> (\<exists>m \<in> set (rows (menus d)).
      m_status m = Active \<and> m_id m \<in> list_menu_ids_for_user d uid \<and> m_perms m = Some perm)"
    by (auto simp: list_perms_for_user_def in_menu_perm)
  then show ?thesis unfolding m by blast
qed

text \<open>
  The permission guard over the database admits a request for a permission exactly when its
  subject is the id of an active user who is the super administrator, or has an active role bound
  to an active menu that carries the permission; an inactive user is refused even as a super
  administrator, every refusal of a known subject is a 403 with one audit event, and an admitted
  user carries the effective data scope (ALL for the super administrator).
\<close>

theorem permission_guard_exact:
  "(case require_permission perm (db_load_authz_context d) base of
      (Inr u, evs) \<Rightarrow>
        (\<exists>uid usr. py_int (cu_id base) = Some uid \<and> get_user d uid = Some usr \<and>
           u_status usr = Active \<and> evs = [] \<and> cu_super u = u_super usr \<and>
           (if u_super usr then cu_scope u = Some (plain_scope ScopeAll uid)
            else cu_scope u = Some (compute_effective_data_scope d uid) \<and> perm \<noteq> [] \<and>
              (\<exists>r \<in> set (rows (roles d)). \<exists>m \<in> set (rows (menus d)).
                 (uid, r_id r) \<in> set (user_roles d) \<and> r_status r = Active \<and>
                 (r_id r, m_id m) \<in> set (role_menus d) \<and> m_status m = Active \<and>
                 m_perms m = Some perm)))
    | (Inl e, evs) \<Rightarrow>
        (case py_int (cu_id base) of
           None \<Rightarrow> e = RuntimeErr ''ValueError'' \<and> evs = []
         | Some uid \<Rightarrow>
             if \<not> db_is_active d uid
             then e = account_disabled \<and> evs = [denied_event perm uid ''auth.ACCOUNT_DISABLED'']
             else \<not> db_is_super_admin d uid \<and> perm \<notin> list_perms_for_user d uid \<and>
               e = forbidden_by_role \<and> evs = [denied_event perm uid ''auth.FORBIDDEN_BY_ROLE'']))"
proof (cases "py_int (cu_id base)")
  case None
  then show ?thesis by (simp add: require_permission_def)
next
  case (Some uid)
  show ?thesis
  proof (cases "get_user d uid")
    case None
    then show ?thesis
      using Some db_provider.guard_denials(1) [of base uid d perm] by (simp add: db_is_active_def)
  next
    case (Some u)
    note usr = Some \<open>py_int (cu_id base) = Some uid\<close>
    consider "u_status u \<noteq> Active" | "u_status u = Active" "u_super u"
      | "u_status u = Active" "\<not> u_super u" by blast
    then show ?thesis
    proof cases
      case 1
      then show ?thesis
        using usr db_provider.guard_denials(1) [of base uid d perm] by (simp add: db_is_active_def)
    next
      case 2
      then show ?thesis
        using usr by (simp add: require_permission_def db_load_authz_context_def Let_def)
    next
      case 3
      then show ?thesis
        using usr perms_for_user_iff [of perm d uid]
        by (cases "perm \<in> list_perms_for_user d uid")
          (auto simp: require_permission_def db_load_authz_context_def Let_def db_is_active_def
            db_is_super_admin_def)
    qed
  qed
qed

section \<open>Access tokens carry no rights\<close>

text \<open>
  C14 An access token issued for a user is accepted by the middleware on every non-public path until
  its expiry (in whole seconds) and refused as expired afterwards, and what it then admits is
  decided by the database at the time of the request alone: disabling the user, or taking away the
  role, the menu or the permission, takes effect on the next request.
\<close>

theorem access_token_admits_by_current_tables:
  assumes "jwt_laws C jd" and "issue_access_token C S t uid name = Inr token"
    and "t \<le> now" and "\<not> is_public_path path publics"
  shows "(\<exists>u. guarded jd S publics now path (''Bearer '' @ token) perm (db_load_authz_context d) = Inr u)
    \<longleftrightarrow> now < (t + secs (access_ttl S)) div 1000000 * 1000000 \<and> db_is_active d uid \<and>
        (db_is_super_admin d uid \<or> perm \<in> list_perms_for_user d uid)"
  using db_provider.guard_allows_iff [of perm d "plain_user (int_str uid)"]
  unfolding guarded_def issued_token_dispatch [OF assms]
  by (simp add: require_current_user_def plain_user_def Let_def)

definition demo_jwt_encode :: "claims \<Rightarrow> string \<Rightarrow> string" where
  "demo_jwt_encode c key = int_str (cl_exp c) @ CHR ''.'' # cl_sub c"

definition demo_jwt_decode :: jwt_decoder where
  "demo_jwt_decode tok key iss aud now =
     (case py_partition CHR ''.'' tok of
        (e, _, sub) \<Rightarrow>
          (case py_int e of
             None \<Rightarrow> JwtInvalid
           | Some x \<Rightarrow> if now < x div 1000000 * 1000000 then JwtPayload sub [] else JwtExpired))"

definition jwt_crypto :: crypto where
  "jwt_crypto = demo_crypto\<lparr>jwt_encode := demo_jwt_encode\<rparr>"

lemma demo_jwt_laws: "jwt_laws jwt_crypto demo_jwt_decode"
proof -
  have "CHR ''.'' \<notin> set (int_str i)" for i
    using nat_str_digits [of "CHR ''.''"]
    by (auto simp: int_str_def is_digit_def digit_val_def)
  then show ?thesis
    by (simp add: jwt_laws_def jwt_crypto_def demo_jwt_encode_def demo_jwt_decode_def
        py_partition_first)
qed

theorem access_token_admits_by_current_tables_witness:
  "\<exists>token u. issue_access_token jwt_crypto demo_settings 0 1 ''ann'' = Inr token \<and>
     guarded demo_jwt_decode demo_settings [] 7 ''/x'' (''Bearer '' @ token) ''system:user:list''
       (db_load_authz_context demo_org) = Inr u"
proof -
  obtain token where tok: "issue_access_token jwt_crypto demo_settings 0 1 ''ann'' = Inr token"
    by (simp add: issue_access_token_def require_secret_def demo_settings_def)
  have "db_is_active demo_org 1" "''system:user:list'' \<in> list_perms_for_user demo_org 1"
    by code_simp+
  then have "\<exists>u. guarded demo_jwt_decode demo_settings [] 7 ''/x'' (''Bearer '' @ token)
      ''system:user:list'' (db_load_authz_context demo_org) = Inr u"
    using access_token_admits_by_current_tables [OF demo_jwt_laws tok, of 7 "''/x''" "[]"
        "''system:user:list''" demo_org]
    by (simp add: is_public_path_def demo_settings_def secs_def)
  with tok show ?thesis by blast
qed

end
