(* ===== verification/Paging.thy ===== *)
theory Paging
  imports PyText "HOL-Library.List_Lexorder"
begin

text \<open>
  \<^verbatim>\<open>core/pagination.py\<close>: escaping of search keywords for \<^verbatim>\<open>LIKE\<close>, the number of pages, and the
  allowlist of sort fields.  A \<^verbatim>\<open>SELECT ... LIMIT ... OFFSET\<close> is \<open>page_slice\<close>; an ORDER BY term is
  a column name with its direction.
\<close>

section \<open>Search keywords\<close>

definition like_contains :: "string \<Rightarrow> string" where
  "like_contains keyword =
     (let escaped = py_replace ''_'' [CHR 0x5C, CHR ''_'']
            (py_replace ''%'' [CHR 0x5C, CHR ''%'']
              (py_replace [CHR 0x5C] [CHR 0x5C, CHR 0x5C] keyword))
      in CHR ''%'' # escaped @ ''%'')"

text \<open>SQL \<^verbatim>\<open>LIKE pattern ESCAPE '\'\<close>.\<close>

fun like_match :: "string \<Rightarrow> string \<Rightarrow> bool" where
  "like_match [] s \<longleftrightarrow> s = []"
| "like_match (c # p) s \<longleftrightarrow>
     (if c = CHR ''%'' then like_match p s \<or> (case s of [] \<Rightarrow> False | _ # t \<Rightarrow> like_match (c # p) t)
      else if c = CHR ''_'' then (case s of [] \<Rightarrow> False | _ # t \<Rightarrow> like_match p t)
      else if c = CHR 0x5C
      then (case p of [] \<Rightarrow> False
            | e # p' \<Rightarrow> (case s of [] \<Rightarrow> False | x # t \<Rightarrow> x = e \<and> like_match p' t))
      else (case s of [] \<Rightarrow> False | x # t \<Rightarrow> x = c \<and> like_match p t))"

text \<open>\<^verbatim>\<open>column.ilike(pattern, escape)\<close> on MySQL compares both sides in lower case.\<close>

definition ilike_contains :: "string \<Rightarrow> string \<Rightarrow> bool" where
  "ilike_contains column keyword = like_match (py_lower (like_contains keyword)) (py_lower column)"

section \<open>Pages\<close>

definition compute_total_pages :: "int \<Rightarrow> int \<Rightarrow> int" where
  "compute_total_pages cnt sz = (if 0 < sz then (cnt + sz - 1) div sz else 0)"

definition page_slice :: "int \<Rightarrow> int \<Rightarrow> 'a list \<Rightarrow> 'a list" where
  "page_slice page sz xs = take (nat sz) (drop (nat ((page - 1) * sz)) xs)"

record 'a page_result =
  pg_items :: "'a list"
  pg_page :: int
  pg_size :: int
  pg_total :: int
  pg_pages :: int

definition make_page :: "int \<Rightarrow> int \<Rightarrow> 'a list \<Rightarrow> 'a page_result" where
  "make_page page sz xs =
     \<lparr>pg_items = page_slice page sz xs, pg_page = page, pg_size = sz,
      pg_total = int (length xs), pg_pages = compute_total_pages (int (length xs)) sz\<rparr>"

section \<open>Sort fields\<close>

datatype sort_dir = Asc | Desc

definition sort_field_invalid :: exn where
  "sort_field_invalid = AppErr ''framework.SORT_FIELD_INVALID'' 422"

text \<open>\<open>allowed\<close> maps field names to columns.\<close>

definition resolve_sort ::
    "string option \<Rightarrow> sort_dir \<Rightarrow> (string \<times> string) list \<Rightarrow> (string \<times> sort_dir) list \<Rightarrow> string option
      \<Rightarrow> exn + (string \<times> sort_dir) list" where
  "resolve_sort order_by order allowed dflt tie_break =
     (case order_by of
        None \<Rightarrow> Inr dflt
      | Some f \<Rightarrow>
          (case map_of allowed f of
             None \<Rightarrow> Inl sort_field_invalid
           | Some column \<Rightarrow>
               let primary = (column, order)
               in if tie_break = None \<or> tie_break = Some column then Inr [primary]
                  else Inr [primary, (the tie_break, Asc)]))"

section \<open>ORDER BY\<close>

text \<open>
  Values of a sort column; instants are integers.  Terms apply left to right, which is a stable sort
  per term from the last one to the first.  Strings compare by code points (\<^verbatim>\<open>utf8mb4_0900_bin\<close>).
\<close>

datatype col_val = VInt int | VStr string

fun str_code :: "string \<Rightarrow> nat list" where
  "str_code [] = []"
| "str_code (c # cs) = of_char c # str_code cs"

lemma str_code_inj [simp]: "str_code a = str_code b \<longleftrightarrow> a = b"
proof (induction a arbitrary: b)
  case Nil
  then show ?case by (cases b) auto
next
  case (Cons c a)
  then show ?case by (cases b) auto
qed

instantiation col_val :: linorder
begin

fun less_eq_col_val :: "col_val \<Rightarrow> col_val \<Rightarrow> bool" where
  "less_eq_col_val (VInt a) (VInt b) \<longleftrightarrow> a \<le> b"
| "less_eq_col_val (VInt a) (VStr b) \<longleftrightarrow> True"
| "less_eq_col_val (VStr a) (VInt b) \<longleftrightarrow> False"
| "less_eq_col_val (VStr a) (VStr b) \<longleftrightarrow> str_code a \<le> str_code b"

definition less_col_val :: "col_val \<Rightarrow> col_val \<Rightarrow> bool" where
  "less_col_val a b \<longleftrightarrow> a \<le> b \<and> \<not> b \<le> a"

instance
proof
  fix x y z :: col_val
  show "x < y \<longleftrightarrow> x \<le> y \<and> \<not> y \<le> x" by (rule less_col_val_def)
  show "x \<le> x" by (cases x) auto
  show "x \<le> z" if "x \<le> y" "y \<le> z" using that by (cases x; cases y; cases z) auto
  show "x = y" if "x \<le> y" "y \<le> x"
    using that by (cases x; cases y) (auto dest: order_antisym)
  show "x \<le> y \<or> y \<le> x" by (cases x; cases y) auto
qed

end

definition sort_dir_key :: "sort_dir \<Rightarrow> ('r \<Rightarrow> col_val) \<Rightarrow> 'r list \<Rightarrow> 'r list" where
  "sort_dir_key dir key xs =
     (case dir of Asc \<Rightarrow> sort_key key xs | Desc \<Rightarrow> rev (sort_key key (rev xs)))"

fun order_rows :: "(string \<Rightarrow> 'r \<Rightarrow> col_val) \<Rightarrow> (string \<times> sort_dir) list \<Rightarrow> 'r list \<Rightarrow> 'r list" where
  "order_rows col [] xs = xs"
| "order_rows col ((c, dir) # ts) xs = sort_dir_key dir (col c) (order_rows col ts xs)"

text \<open>A filter that is active when its parameter is given; keywords must be non-empty.\<close>

definition keyword_filter :: "string option \<Rightarrow> string \<Rightarrow> bool" where
  "keyword_filter k column = (case k of None \<Rightarrow> True | Some w \<Rightarrow> w = [] \<or> ilike_contains column w)"

definition opt_filter :: "'a option \<Rightarrow> ('a \<Rightarrow> bool) \<Rightarrow> bool" where
  "opt_filter p f = (case p of None \<Rightarrow> True | Some v \<Rightarrow> f v)"

text \<open>A keyword looked for in several columns.\<close>

definition any_keyword :: "string option \<Rightarrow> string list \<Rightarrow> bool" where
  "any_keyword k columns =
     (case k of None \<Rightarrow> True | Some w \<Rightarrow> w = [] \<or> list_ex (\<lambda>c. ilike_contains c w) columns)"

lemma set_order_rows [simp]: "set (order_rows col ts xs) = set xs"
  by (induction col ts xs rule: order_rows.induct) (auto simp: sort_dir_key_def split: sort_dir.splits)

lemma distinct_order_rows [simp]: "distinct (order_rows col ts xs) = distinct xs"
  by (induction col ts xs rule: order_rows.induct) (auto simp: sort_dir_key_def split: sort_dir.splits)

lemma length_order_rows [simp]: "length (order_rows col ts xs) = length xs"
  by (induction col ts xs rule: order_rows.induct) (auto simp: sort_dir_key_def split: sort_dir.splits)

section \<open>Escaped patterns match literally\<close>

lemma py_replace_char: "py_replace [c] new s = concat (map (\<lambda>x. if x = c then new else [x]) s)"
  by (induction s) (simp_all add: starts_with_def)

definition esc_char :: "char \<Rightarrow> string" where
  "esc_char c = (if c = CHR 0x5C \<or> c = CHR ''%'' \<or> c = CHR ''_'' then [CHR 0x5C, c] else [c])"

lemma like_contains_esc:
  "like_contains k = CHR ''%'' # concat (map esc_char k) @ ''%''"
proof -
  have "py_replace ''_'' [CHR 0x5C, CHR ''_''] (py_replace ''%'' [CHR 0x5C, CHR ''%'']
      (py_replace [CHR 0x5C] [CHR 0x5C, CHR 0x5C] k)) = concat (map esc_char k)"
    unfolding py_replace_char by (induction k) (auto simp: esc_char_def)
  then show ?thesis by (simp add: like_contains_def)
qed

lemma lower_char_special [simp]:
  "lower_char (CHR 0x5C) = CHR 0x5C" "lower_char (CHR ''%'') = CHR ''%''"
  "lower_char (CHR ''_'') = CHR ''_''"
  by (simp_all add: lower_char_def)

lemma lower_char_small: "65 \<le> n \<Longrightarrow> n \<le> 90 \<Longrightarrow> of_char (char_of (n + 32 :: nat) :: char) = n + 32"
  by simp

lemma lower_char_not_special:
  "c \<noteq> CHR 0x5C \<Longrightarrow> lower_char c \<noteq> CHR 0x5C" "c \<noteq> CHR ''%'' \<Longrightarrow> lower_char c \<noteq> CHR ''%''"
  "c \<noteq> CHR ''_'' \<Longrightarrow> lower_char c \<noteq> CHR ''_''"
proof -
  have n: "of_char (lower_char c) = (let n = (of_char c :: nat) in
      if 65 \<le> n \<and> n \<le> 90 \<or> 192 \<le> n \<and> n \<le> 222 \<and> n \<noteq> 215 then n + 32 else n)"
    by (simp add: lower_char_def Let_def)
  have v: "of_char (CHR 0x5C) = (92 :: nat)" "of_char (CHR ''%'') = (37 :: nat)"
    "of_char (CHR ''_'') = (95 :: nat)" by simp_all
  have inj: "of_char a = (of_char b :: nat) \<Longrightarrow> a = b" for a b :: char by simp
  show "c \<noteq> CHR 0x5C \<Longrightarrow> lower_char c \<noteq> CHR 0x5C"
    using n v(1) inj [of c "CHR 0x5C"] by (auto simp: Let_def split: if_splits)
  show "c \<noteq> CHR ''%'' \<Longrightarrow> lower_char c \<noteq> CHR ''%''"
    using n v(2) inj [of c "CHR ''%''"] by (auto simp: Let_def split: if_splits)
  show "c \<noteq> CHR ''_'' \<Longrightarrow> lower_char c \<noteq> CHR ''_''"
    using n v(3) inj [of c "CHR ''_''"] by (auto simp: Let_def split: if_splits)
qed

lemma lower_esc_char: "py_lower (esc_char c) = esc_char (lower_char c)"
  using lower_char_not_special [of c] by (auto simp: esc_char_def py_lower_def)

lemma like_match_esc:
  "like_match (esc_char c @ p) s \<longleftrightarrow> (\<exists>t. s = c # t \<and> like_match p t)"
  by (cases s) (auto simp: esc_char_def)

lemma like_match_escs:
  "like_match (concat (map esc_char k) @ p) s \<longleftrightarrow> (\<exists>t. s = k @ t \<and> like_match p t)"
  by (induction k arbitrary: s) (auto simp: like_match_esc)

lemma like_match_percent: "like_match (CHR ''%'' # p) s \<longleftrightarrow> (\<exists>a b. s = a @ b \<and> like_match p b)"
proof (induction s)
  case (Cons x s)
  show ?case
  proof
    assume "like_match (CHR ''%'' # p) (x # s)"
    then consider "like_match p (x # s)" | "like_match (CHR ''%'' # p) s" by auto
    then show "\<exists>a b. x # s = a @ b \<and> like_match p b"
    proof cases
      case 1
      then show ?thesis by (intro exI [of _ "[]"] exI [of _ "x # s"]) simp
    next
      case 2
      then obtain a b where "s = a @ b" "like_match p b" unfolding Cons.IH by blast
      then show ?thesis by (intro exI [of _ "x # a"] exI [of _ b]) simp
    qed
  next
    assume "\<exists>a b. x # s = a @ b \<and> like_match p b"
    then obtain a b where ab: "x # s = a @ b" "like_match p b" by blast
    show "like_match (CHR ''%'' # p) (x # s)"
    proof (cases a)
      case Nil
      with ab show ?thesis by simp
    next
      case (Cons y a')
      with ab have "s = a' @ b" by simp
      with ab(2) have "like_match (CHR ''%'' # p) s" unfolding Cons.IH by blast
      then show ?thesis by simp
    qed
  qed
qed simp

lemma like_match_all: "like_match ''%'' s \<longleftrightarrow> True"
  unfolding like_match_percent by (auto intro: exI [of _ s])

lemma ilike_contains_iff:
  "ilike_contains column keyword \<longleftrightarrow> (\<exists>a b. py_lower column = a @ py_lower keyword @ b)"
proof -
  have "py_lower (concat (map esc_char k)) = concat (map esc_char (py_lower k))" for k
    by (induction k) (simp_all add: py_lower_def lower_esc_char [unfolded py_lower_def])
  then have "py_lower (like_contains keyword) =
      CHR ''%'' # concat (map esc_char (py_lower keyword)) @ ''%''"
    by (simp add: like_contains_esc py_lower_def)
  then have "ilike_contains column keyword \<longleftrightarrow>
      like_match (CHR ''%'' # concat (map esc_char (py_lower keyword)) @ ''%'') (py_lower column)"
    by (simp only: ilike_contains_def)
  also have "\<dots> \<longleftrightarrow> (\<exists>a b. py_lower column = a @ b \<and> (\<exists>t. b = py_lower keyword @ t))"
    unfolding like_match_percent like_match_escs like_match_all by simp
  finally show ?thesis by auto
qed

section \<open>Pages partition the result\<close>

lemma page_slices:
  assumes "0 < n"
  shows "concat (map (\<lambda>k. take n (drop (k * n) xs)) [0..<m]) = take (m * n) xs"
proof (induction m)
  case (Suc m)
  have "take (m * n) xs @ take n (drop (m * n) xs) = take (Suc m * n) xs"
    by (metis add.commute mult_Suc take_add)
  with Suc show ?case by simp
qed simp

lemma total_pages_cover:
  assumes "0 < sz"
  shows "n \<le> nat (compute_total_pages (int n) sz) * nat sz"
proof -
  have "sz * ((int n + sz - 1) div sz) + (int n + sz - 1) mod sz = int n + sz - 1"
    by (rule mult_div_mod_eq)
  moreover have "(int n + sz - 1) mod sz \<le> sz - 1"
    using pos_mod_bound [OF assms, of "int n + sz - 1"] by linarith
  ultimately have "int n \<le> sz * ((int n + sz - 1) div sz)" by linarith
  then have "int n \<le> ((int n + sz - 1) div sz) * sz" by (simp only: mult.commute)
  moreover have "0 \<le> (int n + sz - 1) div sz" using assms by (intro div_int_pos_iff [THEN iffD2]) auto
  ultimately have "int n \<le> int (nat ((int n + sz - 1) div sz) * nat sz)" using assms by simp
  then have "n \<le> nat ((int n + sz - 1) div sz) * nat sz" by (simp only: of_nat_le_iff)
  with assms show ?thesis by (simp add: compute_total_pages_def)
qed

lemma make_page_partition:
  assumes "0 < sz"
  shows "concat (map (\<lambda>k. pg_items (make_page (int k + 1) sz xs))
     [0..<nat (compute_total_pages (int (length xs)) sz)]) = xs"
proof -
  have "nat (int k * sz) = k * nat sz" for k using assms by (simp add: nat_mult_distrib)
  then have "concat (map (\<lambda>k. pg_items (make_page (int k + 1) sz xs))
        [0..<nat (compute_total_pages (int (length xs)) sz)]) =
      take (nat (compute_total_pages (int (length xs)) sz) * nat sz) xs"
    using page_slices [of "nat sz" xs "nat (compute_total_pages (int (length xs)) sz)"] assms
    by (simp add: make_page_def page_slice_def)
  also have "\<dots> = xs" using total_pages_cover [OF assms, of "length xs"] by simp
  finally show ?thesis .
qed

end
