(* ===== verification/DeptService.thy ===== *)
theory DeptService
  imports DataScope AdjTree Authz Paging
begin

text \<open>
  \<^verbatim>\<open>domains/dept\<close>: the department tree.  \<open>dept_repo_*\<close> are the statements of the repository
  with the constraints of the table (unique code, parent foreign key with RESTRICT, NOT NULL
  columns, ON DELETE CASCADE of \<^verbatim>\<open>role_depts\<close> and SET NULL of \<^verbatim>\<open>users.dept_id\<close>); \<open>dept_*\<close> are the
  operations of \<^verbatim>\<open>DeptService\<close>, which run in one transaction and leave the database unchanged
  when they raise.  \<open>scope\<close> is \<open>None\<close> when the caller applies no data scope.
\<close>

section \<open>Payloads and errors\<close>

record dept_create =
  dc_name :: string
  dc_code :: string
  dc_parent :: "int option"
  dc_sort :: int
  dc_leader :: "string option"
  dc_phone :: "string option"
  dc_email :: "string option"

record dept_update =
  du_name :: "string option patch"
  du_code :: "string option patch"
  du_parent :: "int option patch"
  du_sort :: "int option patch"
  du_status :: "status option patch"
  du_leader :: "string option patch"
  du_phone :: "string option patch"
  du_email :: "string option patch"

definition dept_not_found :: exn where "dept_not_found = AppErr ''dept.NOT_FOUND'' 404"
definition dept_parent_not_found :: exn where
  "dept_parent_not_found = AppErr ''dept.PARENT_NOT_FOUND'' 404"
definition dept_code_duplicate :: exn where
  "dept_code_duplicate = AppErr ''dept.CODE_DUPLICATE'' 409"
definition dept_cycle :: exn where "dept_cycle = AppErr ''dept.CYCLE'' 409"
definition dept_has_children :: exn where "dept_has_children = AppErr ''dept.HAS_CHILDREN'' 409"

section \<open>Repository\<close>

definition get_dept :: "db \<Rightarrow> int \<Rightarrow> dept option" where
  "get_dept d i = get_row d_id (depts d) i"

definition find_dept_by_code :: "db \<Rightarrow> string \<Rightarrow> dept option" where
  "find_dept_by_code d c = find (\<lambda>x. d_code x = c) (rows (depts d))"

definition dept_count_children :: "db \<Rightarrow> int \<Rightarrow> nat" where
  "dept_count_children d i = length (filter (\<lambda>x. d_parent x = Some i) (rows (depts d)))"

definition dept_list_rows :: "db \<Rightarrow> data_scope option \<Rightarrow> dept list" where
  "dept_list_rows d scope =
     (let stmt = sort_key d_id (rows (depts d))
      in case scope of None \<Rightarrow> stmt
         | Some s \<Rightarrow> apply_data_scope s (\<lambda>x. Some (d_id x)) None stmt)"

definition dept_existing_ids :: "db \<Rightarrow> int list \<Rightarrow> int set" where
  "dept_existing_ids d ids = set (filter (\<lambda>i. get_dept d i \<noteq> None) ids)"

definition parent_missing :: "db \<Rightarrow> int option \<Rightarrow> bool" where
  "parent_missing d p = (case p of None \<Rightarrow> False | Some i \<Rightarrow> get_dept d i = None)"

definition new_dept :: "dept_create \<Rightarrow> int \<Rightarrow> dept" where
  "new_dept c i = \<lparr>d_id = i, d_parent = dc_parent c, d_name = dc_name c, d_code = dc_code c,
     d_sort = dc_sort c, d_status = Active, d_leader = dc_leader c, d_phone = dc_phone c,
     d_email = dc_email c\<rparr>"

definition dept_repo_create :: "dept_create \<Rightarrow> db \<Rightarrow> exn + dept \<times> db" where
  "dept_repo_create c d =
     (if find_dept_by_code d (dc_code c) \<noteq> None then Inl (IntegrityErr ''uq_depts_code'')
      else if parent_missing d (dc_parent c) then Inl (IntegrityErr ''depts.parent_id'')
      else (case insert_row (new_dept c) (depts d) of (x, t) \<Rightarrow> Inr (x, d\<lparr>depts := t\<rparr>)))"

definition apply_dept_update :: "dept_update \<Rightarrow> dept \<Rightarrow> dept" where
  "apply_dept_update p x = x\<lparr>d_name := patched_nn (du_name p) (d_name x),
     d_code := patched_nn (du_code p) (d_code x), d_parent := patched (du_parent p) (d_parent x),
     d_sort := patched_nn (du_sort p) (d_sort x), d_status := patched_nn (du_status p) (d_status x),
     d_leader := patched (du_leader p) (d_leader x), d_phone := patched (du_phone p) (d_phone x),
     d_email := patched (du_email p) (d_email x)\<rparr>"

definition dept_null_column :: "dept_update \<Rightarrow> bool" where
  "dept_null_column p \<longleftrightarrow> null_patch (du_name p) \<or> null_patch (du_code p) \<or> null_patch (du_sort p) \<or>
     null_patch (du_status p)"

definition dept_repo_update :: "int \<Rightarrow> dept_update \<Rightarrow> db \<Rightarrow> exn + dept option \<times> db" where
  "dept_repo_update i p d =
     (case get_dept d i of
        None \<Rightarrow> Inr (None, d)
      | Some x \<Rightarrow>
          (let x' = apply_dept_update p x
           in if dept_null_column p then Inl (IntegrityErr ''NOT NULL'')
              else if \<exists>y \<in> set (rows (depts d)). d_id y \<noteq> i \<and> d_code y = d_code x'
              then Inl (IntegrityErr ''uq_depts_code'')
              else if parent_missing d (d_parent x') then Inl (IntegrityErr ''depts.parent_id'')
              else Inr (Some x',
                d\<lparr>depts := update_where (\<lambda>y. d_id y = i) (apply_dept_update p) (depts d)\<rparr>)))"

definition dept_repo_delete :: "int \<Rightarrow> db \<Rightarrow> exn + bool \<times> db" where
  "dept_repo_delete i d =
     (if get_dept d i = None then Inr (False, d)
      else if dept_count_children d i > 0 then Inl (IntegrityErr ''depts.parent_id'')
      else Inr (True, d\<lparr>depts := delete_where (\<lambda>y. d_id y = i) (depts d),
             role_depts := filter (\<lambda>p. snd p \<noteq> i) (role_depts d),
             users := update_where (\<lambda>u. u_dept u = Some i) (\<lambda>u. u\<lparr>u_dept := None\<rparr>) (users d)\<rparr>))"

section \<open>Service\<close>

definition dept_list ::
    "db \<Rightarrow> int \<Rightarrow> int \<Rightarrow> data_scope option \<Rightarrow> dept page_result" where
  "dept_list d page sz scope = make_page page sz (dept_list_rows d scope)"

definition dept_get :: "db \<Rightarrow> int \<Rightarrow> data_scope option \<Rightarrow> exn + dept" where
  "dept_get d i scope =
     (case get_dept d i of
        None \<Rightarrow> Inl dept_not_found
      | Some x \<Rightarrow> if out_of_scope scope (Some (d_id x)) then Inl dept_not_found else Inr x)"

definition dept_create_op :: "dept_create \<Rightarrow> data_scope option \<Rightarrow> db \<Rightarrow> exn + dept \<times> db" where
  "dept_create_op c scope d =
     (if out_of_scope scope (dc_parent c) then Inl forbidden_by_scope
      else if parent_missing d (dc_parent c) then Inl dept_parent_not_found
      else if find_dept_by_code d (dc_code c) \<noteq> None then Inl dept_code_duplicate
      else dept_repo_create c d)"

definition dept_code_taken :: "db \<Rightarrow> dept \<Rightarrow> dept_update \<Rightarrow> bool" where
  "dept_code_taken d x p =
     (case du_code p of
        Assign (Some c) \<Rightarrow> c \<noteq> d_code x \<and> find_dept_by_code d c \<noteq> None
      | _ \<Rightarrow> False)"

text \<open>The checks of a move: data scope first, then the parent, then the cycle.\<close>

definition dept_check_move ::
    "int \<Rightarrow> dept_update \<Rightarrow> data_scope option \<Rightarrow> db \<Rightarrow> exn + unit" where
  "dept_check_move i p scope d =
     (case du_parent p of
        Unset \<Rightarrow> Inr ()
      | Assign np \<Rightarrow>
          if out_of_scope scope np then Inl forbidden_by_scope
          else (case np of
                  None \<Rightarrow> Inr ()
                | Some q \<Rightarrow>
                    if get_dept d q = None then Inl dept_parent_not_found
                    else if creates_cycle (dept_edges d) i q then Inl dept_cycle
                    else Inr ()))"

definition dept_update_op ::
    "int \<Rightarrow> dept_update \<Rightarrow> data_scope option \<Rightarrow> db \<Rightarrow> exn + dept \<times> db" where
  "dept_update_op i p scope d =
     (case get_dept d i of
        None \<Rightarrow> Inl dept_not_found
      | Some x \<Rightarrow>
          if out_of_scope scope (Some (d_id x)) then Inl dept_not_found
          else if dept_code_taken d x p then Inl dept_code_duplicate
          else bind_res (dept_check_move i p scope d) (\<lambda>_.
            bind_res (dept_repo_update i p d) (\<lambda>(row, d').
              case row of None \<Rightarrow> Inl dept_not_found | Some x' \<Rightarrow> Inr (x', d'))))"

definition dept_delete_op :: "int \<Rightarrow> data_scope option \<Rightarrow> db \<Rightarrow> exn + unit \<times> db" where
  "dept_delete_op i scope d =
     (case get_dept d i of
        None \<Rightarrow> Inl dept_not_found
      | Some x \<Rightarrow>
          if out_of_scope scope (Some (d_id x)) then Inl dept_not_found
          else if dept_count_children d i > 0 then Inl dept_has_children
          else bind_res (dept_repo_delete i d) (\<lambda>(_, d'). Inr ((), d')))"

section \<open>Invariant\<close>

text \<open>Keys, unique codes, and references to existing departments.\<close>

definition dept_inv :: "db \<Rightarrow> bool" where
  "dept_inv d \<longleftrightarrow> table_ok d_id (depts d) \<and> distinct (map d_code (rows (depts d))) \<and>
     (\<forall>x \<in> set (rows (depts d)). \<not> parent_missing d (d_parent x)) \<and>
     (\<forall>p \<in> set (role_depts d). get_dept d (snd p) \<noteq> None) \<and>
     (\<forall>u \<in> set (rows (users d)). \<not> parent_missing d (u_dept u))"

lemma get_dept_Some_iff:
  "table_ok d_id (depts d) \<Longrightarrow> get_dept d i = Some x \<longleftrightarrow> x \<in> set (rows (depts d)) \<and> d_id x = i"
  unfolding get_dept_def by (rule get_row_Some_iff)

lemma get_dept_SomeD: "get_dept d i = Some x \<Longrightarrow> x \<in> set (rows (depts d)) \<and> d_id x = i"
  unfolding get_dept_def by (rule get_row_SomeD)

lemma get_dept_None_iff: "get_dept d i = None \<longleftrightarrow> (\<forall>x \<in> set (rows (depts d)). d_id x \<noteq> i)"
  unfolding get_dept_def by (rule get_row_None_iff)

lemma find_dept_by_code_None_iff:
  "find_dept_by_code d c = None \<longleftrightarrow> (\<forall>x \<in> set (rows (depts d)). d_code x \<noteq> c)"
  by (auto simp: find_dept_by_code_def find_None_iff)

lemma apply_dept_update_id [simp]: "d_id (apply_dept_update p x) = d_id x"
  by (simp add: apply_dept_update_def)

lemma dept_edges_update:
  "dept_edges (d\<lparr>depts := update_where (\<lambda>y. d_id y = i) (apply_dept_update p) (depts d)\<rparr>) =
    (case du_parent p of Unset \<Rightarrow> dept_edges d | Assign q \<Rightarrow> set_parent i q (dept_edges d))"
  by (auto simp: dept_edges_def set_parent_def rows_update_where apply_dept_update_def
      split: patch.splits)

lemma dept_edges_keys: "map fst (dept_edges d) = map d_id (rows (depts d))"
  by (simp add: dept_edges_def)

lemma in_dept_edges: "i \<in> set (map fst (dept_edges d)) \<longleftrightarrow> get_dept d i \<noteq> None"
  unfolding dept_edges_keys by (auto simp: get_dept_None_iff)

end
