(* ===== verification/TreeService.thy ===== *)
theory TreeService
  imports AdjTree
begin

text \<open>
  The contract shared by the services that keep a tree in an adjacency list (departments and
  menus): a write inserts a fresh row, gives an existing row a parent that passed the cycle check,
  or only removes edges.  Under this contract the tree stays acyclic along every sequence of writes
  as long as no path is longer than the depth bound of the recursive query.
\<close>

definition shallow :: "edges \<Rightarrow> bool" where
  "shallow es \<longleftrightarrow> (\<forall>i. depth_below es i max_depth)"

definition inserts_leaf :: "edges \<Rightarrow> edges \<Rightarrow> bool" where
  "inserts_leaf es es' \<longleftrightarrow> (\<exists>i q. es' = es @ [(i, q)] \<and> i \<notin> set (map fst es) \<and> q \<noteq> Some i \<and>
     (\<forall>c. (c, Some i) \<notin> set es))"

definition moves_checked :: "edges \<Rightarrow> edges \<Rightarrow> bool" where
  "moves_checked es es' \<longleftrightarrow> (\<exists>i q. es' = set_parent i q es \<and> i \<in> set (map fst es) \<and>
     (\<forall>p. q = Some p \<longrightarrow> \<not> creates_cycle es i p))"

definition removes_edges :: "edges \<Rightarrow> edges \<Rightarrow> bool" where
  "removes_edges es es' \<longleftrightarrow> parent_rel es' \<subseteq> parent_rel es"

lemma removes_edges_refl: "removes_edges es es"
  by (simp add: removes_edges_def)

lemma inserts_leaf_forest: "inserts_leaf es es' \<Longrightarrow> forest es \<Longrightarrow> forest es'"
  unfolding inserts_leaf_def by (elim exE conjE) (hypsubst, rule forest_insert, auto)

lemma removes_edges_forest: "removes_edges es es' \<Longrightarrow> forest es \<Longrightarrow> forest es'"
  unfolding removes_edges_def by (rule forest_sub)

lemma moves_checked_forest:
  assumes "moves_checked es es'" "shallow es" "forest es"
  shows "forest es'"
proof -
  from assms(1) obtain i q where e: "es' = set_parent i q es" "i \<in> set (map fst es)"
    "\<And>p. q = Some p \<Longrightarrow> \<not> creates_cycle es i p"
    by (auto simp: moves_checked_def)
  show ?thesis
  proof (cases q)
    case None
    then show ?thesis unfolding e(1) by (intro forest_set_parent assms(3)) simp
  next
    case (Some p)
    then show ?thesis unfolding e(1)
      using checked_move_keeps_forest [OF assms(3) e(2) _ e(3)] assms(2) by (simp add: shallow_def)
  qed
qed

locale tree_service =
  fixes es :: "'s \<Rightarrow> edges"
    and ok :: "'s \<Rightarrow> bool"
    and step :: "'s \<Rightarrow> 's \<Rightarrow> bool"
  assumes step_ok: "ok s \<Longrightarrow> step s s' \<Longrightarrow> ok s'"
    and step_edges: "ok s \<Longrightarrow> step s s' \<Longrightarrow>
      inserts_leaf (es s) (es s') \<or> moves_checked (es s) (es s') \<or> removes_edges (es s) (es s')"
begin

lemma step_forest:
  "ok s \<Longrightarrow> step s s' \<Longrightarrow> shallow (es s) \<Longrightarrow> forest (es s) \<Longrightarrow> forest (es s')"
  using step_edges [of s s'] inserts_leaf_forest moves_checked_forest removes_edges_forest by blast

lemma steps_ok: "step\<^sup>*\<^sup>* s s' \<Longrightarrow> ok s \<Longrightarrow> ok s'"
  by (induction rule: rtranclp_induct) (auto intro: step_ok)

lemma steps_forest:
  assumes "(\<lambda>a b. step a b \<and> shallow (es a))\<^sup>*\<^sup>* s s'" "ok s" "forest (es s)"
  shows "ok s' \<and> forest (es s')"
  using assms by (induction rule: rtranclp_induct) (auto intro: step_ok step_forest)

end

end
