(* ===== verification/DeptTheorems.thy ===== *)
theory DeptTheorems
  imports DeptService TreeService AuthzTheorems
begin

text \<open>
  Properties of the department service: the referential invariant, acyclicity of the tree and what
  the depth bound of the recursive query costs, and confinement of writes to the data scope.
\<close>

section \<open>Inversion of the operations\<close>

lemma dept_create_InrD:
  assumes "dept_create_op c scope d = Inr (x, d')"
  shows "x = new_dept c (seq (depts d))"
    and "d' = d\<lparr>depts := (depts d)\<lparr>rows := rows (depts d) @ [x], seq := seq (depts d) + 1\<rparr>\<rparr>"
    and "\<not> out_of_scope scope (dc_parent c)" and "\<not> parent_missing d (dc_parent c)"
    and "find_dept_by_code d (dc_code c) = None"
  using assms by (auto simp: dept_create_op_def dept_repo_create_def insert_row_def split: if_splits)

lemma dept_update_InrD:
  assumes "dept_update_op i p scope d = Inr (x', d')"
  obtains x where "get_dept d i = Some x" "x' = apply_dept_update p x"
    "d' = d\<lparr>depts := update_where (\<lambda>y. d_id y = i) (apply_dept_update p) (depts d)\<rparr>"
    "\<not> out_of_scope scope (Some i)" "dept_check_move i p scope d = Inr ()"
    "\<not> parent_missing d (d_parent x')"
    "\<forall>y \<in> set (rows (depts d)). d_id y \<noteq> i \<longrightarrow> d_code y \<noteq> d_code x'"
proof -
  from assms obtain x where x: "get_dept d i = Some x" "\<not> out_of_scope scope (Some (d_id x))"
    and m: "dept_check_move i p scope d = Inr ()"
    and r: "dept_repo_update i p d = Inr (Some x', d')"
    by (auto simp: dept_update_op_def bind_res_Inr_iff split: option.splits if_splits)
  have "d_id x = i" using get_dept_SomeD [OF x(1)] by simp
  then show thesis
    using that [OF x(1)] x m r
    by (auto simp: dept_repo_update_def Let_def split: if_splits)
qed

lemma dept_delete_InrD:
  assumes "dept_delete_op i scope d = Inr ((), d')"
  shows "get_dept d i \<noteq> None" and "\<not> out_of_scope scope (Some i)" and "dept_count_children d i = 0"
    and "d' = d\<lparr>depts := delete_where (\<lambda>y. d_id y = i) (depts d),
             role_depts := filter (\<lambda>p. snd p \<noteq> i) (role_depts d),
             users := update_where (\<lambda>u. u_dept u = Some i) (\<lambda>u. u\<lparr>u_dept := None\<rparr>) (users d)\<rparr>"
  using assms get_dept_SomeD [of d i]
  by (auto simp: dept_delete_op_def dept_repo_delete_def bind_res_Inr_iff
      split: option.splits if_splits)

section \<open>The invariant\<close>

lemma parent_missing_mono:
  assumes "d_id ` set (rows (depts d)) \<subseteq> d_id ` set (rows (depts d'))" "\<not> parent_missing d p"
  shows "\<not> parent_missing d' p"
proof (cases p)
  case (Some i)
  then have "i \<in> d_id ` set (rows (depts d))"
    using assms(2) by (auto simp: parent_missing_def dest: get_dept_SomeD)
  then have "i \<in> d_id ` set (rows (depts d'))" using assms(1) by blast
  then have "get_dept d' i \<noteq> None" unfolding get_dept_def get_row_exists_iff .
  then show ?thesis using Some by (auto simp: parent_missing_def)
qed (simp add: parent_missing_def)

lemma get_dept_parent: "get_dept d i \<noteq> None \<longleftrightarrow> \<not> parent_missing d (Some i)"
  by (simp add: parent_missing_def)

lemma dept_create_inv:
  assumes inv: "dept_inv d" and c: "dept_create_op c scope d = Inr (x, d')"
  shows "dept_inv d'"
proof -
  note r = dept_create_InrD [OF c]
  have sub: "d_id ` set (rows (depts d)) \<subseteq> d_id ` set (rows (depts d'))" by (auto simp: r(2))
  note mono = parent_missing_mono [OF sub]
  have "table_ok d_id (depts d')"
    using inv table_ok_append [of d_id "depts d" x] r(1)
    by (simp add: dept_inv_def r(2) new_dept_def)
  moreover have "distinct (map d_code (rows (depts d')))"
    using inv r(1,5) by (auto simp: dept_inv_def r(2) new_dept_def find_dept_by_code_None_iff)
  moreover have "\<forall>y \<in> set (rows (depts d')). \<not> parent_missing d' (d_parent y)"
    using inv r(4) mono r(1) by (auto simp: dept_inv_def r(2) new_dept_def)
  moreover have "\<forall>p \<in> set (role_depts d'). get_dept d' (snd p) \<noteq> None"
    using inv mono unfolding get_dept_parent dept_inv_def by (auto simp: r(2))
  moreover have "\<forall>u \<in> set (rows (users d')). \<not> parent_missing d' (u_dept u)"
    using inv mono by (auto simp: dept_inv_def r(2))
  ultimately show ?thesis by (simp add: dept_inv_def)
qed

lemma dept_update_inv:
  assumes inv: "dept_inv d" and u: "dept_update_op i p scope d = Inr (x', d')"
  shows "dept_inv d'"
  using u
proof (rule dept_update_InrD)
  fix x assume x: "get_dept d i = Some x" and x': "x' = apply_dept_update p x"
    and d': "d' = d\<lparr>depts := update_where (\<lambda>y. d_id y = i) (apply_dept_update p) (depts d)\<rparr>"
    and par: "\<not> parent_missing d (d_parent x')"
    and code: "\<forall>y \<in> set (rows (depts d)). d_id y \<noteq> i \<longrightarrow> d_code y \<noteq> d_code x'"
  have ok: "table_ok d_id (depts d)" using inv by (simp add: dept_inv_def)
  have same: "y = x" if "y \<in> set (rows (depts d))" "d_id y = i" for y
    using get_row_inj [OF ok that(1), of x] get_dept_SomeD [OF x] that by simp
  have "d_id ` set (rows (depts d')) = d_id ` set (rows (depts d))"
    using keys_update_where [of d_id "apply_dept_update p" "\<lambda>y. d_id y = i" "depts d"]
    by (simp add: d' flip: set_map)
  then have sub: "d_id ` set (rows (depts d)) \<subseteq> d_id ` set (rows (depts d'))" by simp
  note mono = parent_missing_mono [OF sub]
  have rows': "rows (depts d') =
      map (\<lambda>y. if d_id y = i then apply_dept_update p y else y) (rows (depts d))"
    by (simp add: d' rows_update_where)
  have "distinct (map d_code (rows (depts d')))"
    unfolding rows' using ok inv code same x'
    by (intro distinct_codes_update [where c = "d_code x'" and code = d_code and key = d_id])
      (auto simp: table_ok_def dept_inv_def)
  moreover have "table_ok d_id (depts d')"
    using table_ok_update [OF ok, of "apply_dept_update p"] by (simp add: d')
  moreover have "\<forall>y \<in> set (rows (depts d')). \<not> parent_missing d' (d_parent y)"
    unfolding d' [symmetric]
  proof
    fix y assume "y \<in> set (rows (depts d'))"
    then obtain z where z: "z \<in> set (rows (depts d))"
      "y = (if d_id z = i then apply_dept_update p z else z)"
      by (auto simp: d' mem_update_where)
    show "\<not> parent_missing d' (d_parent y)"
    proof (cases "d_id z = i")
      case True
      with z same x' have "y = x'" by auto
      with par mono show ?thesis by blast
    next
      case False
      with z inv mono show ?thesis by (auto simp: dept_inv_def)
    qed
  qed
  moreover have "\<forall>q \<in> set (role_depts d'). get_dept d' (snd q) \<noteq> None"
    using inv mono unfolding get_dept_parent dept_inv_def by (auto simp: d')
  moreover have "\<forall>u \<in> set (rows (users d')). \<not> parent_missing d' (u_dept u)"
    using inv mono by (auto simp: dept_inv_def d')
  ultimately show ?thesis by (simp add: dept_inv_def)
qed

lemma dept_count_children_0: "dept_count_children d i = 0 \<longleftrightarrow> (\<forall>x \<in> set (rows (depts d)). d_parent x \<noteq> Some i)"
  by (auto simp: dept_count_children_def filter_empty_conv)

lemma dept_delete_inv:
  assumes inv: "dept_inv d" and u: "dept_delete_op i scope d = Inr ((), d')"
  shows "dept_inv d'"
proof -
  note r = dept_delete_InrD [OF u]
  have keep: "\<not> parent_missing d' p" if "\<not> parent_missing d p" "p \<noteq> Some i" for p
    using that by (cases p) (auto simp: parent_missing_def get_dept_None_iff r(4) rows_delete_where)
  have "table_ok d_id (depts d')" using inv by (simp add: r(4) dept_inv_def table_ok_delete)
  moreover have "distinct (map d_code (rows (depts d')))"
    using inv by (simp add: r(4) dept_inv_def rows_delete_where distinct_map_filter)
  moreover have "\<forall>y \<in> set (rows (depts d')). \<not> parent_missing d' (d_parent y)"
    using inv keep r(3) by (auto simp: r(4) dept_inv_def rows_delete_where dept_count_children_0)
  moreover have "\<forall>q \<in> set (role_depts d'). get_dept d' (snd q) \<noteq> None"
  proof
    fix q assume "q \<in> set (role_depts d')"
    then have "q \<in> set (role_depts d)" "snd q \<noteq> i" by (auto simp: r(4))
    then have "\<not> parent_missing d (Some (snd q))"
      using inv unfolding dept_inv_def get_dept_parent by blast
    with keep [of "Some (snd q)"] \<open>snd q \<noteq> i\<close> show "get_dept d' (snd q) \<noteq> None"
      unfolding get_dept_parent by blast
  qed
  moreover have "\<forall>u \<in> set (rows (users d')). \<not> parent_missing d' (u_dept u)"
  proof
    fix u assume "u \<in> set (rows (users d'))"
    then obtain v where v: "v \<in> set (rows (users d))"
      "u = (if u_dept v = Some i then v\<lparr>u_dept := None\<rparr> else v)"
      by (auto simp: r(4) mem_update_where)
    show "\<not> parent_missing d' (u_dept u)"
    proof (cases "u_dept v = Some i")
      case True
      with v show ?thesis by (simp add: parent_missing_def)
    next
      case False
      with v inv keep show ?thesis by (auto simp: dept_inv_def)
    qed
  qed
  ultimately show ?thesis by (simp add: dept_inv_def)
qed

section \<open>The tree\<close>

inductive dept_step :: "db \<Rightarrow> db \<Rightarrow> bool" where
  create: "dept_create_op c scope d = Inr (x, d') \<Longrightarrow> dept_step d d'"
| update: "dept_update_op i p scope d = Inr (x, d') \<Longrightarrow> dept_step d d'"
| delete: "dept_delete_op i scope d = Inr (u, d') \<Longrightarrow> dept_step d d'"

lemma dept_create_edges:
  assumes inv: "dept_inv d" and c: "dept_create_op c scope d = Inr (x, d')"
  shows "inserts_leaf (dept_edges d) (dept_edges d')"
proof -
  note r = dept_create_InrD [OF c]
  have "\<And>y. y \<in> set (rows (depts d)) \<Longrightarrow> d_id y < seq (depts d)"
    using inv by (simp add: dept_inv_def table_ok_def)
  then have fresh: "get_dept d (seq (depts d)) = None" by (force simp: get_dept_None_iff)
  have "(y, Some (seq (depts d))) \<notin> set (dept_edges d)" for y
  proof
    assume "(y, Some (seq (depts d))) \<in> set (dept_edges d)"
    then obtain z where "z \<in> set (rows (depts d))" "d_parent z = Some (seq (depts d))"
      by (auto simp: dept_edges_def)
    with inv have "\<not> parent_missing d (Some (seq (depts d)))" by (auto simp: dept_inv_def)
    with fresh show False by (simp add: parent_missing_def)
  qed
  moreover have "seq (depts d) \<notin> set (map fst (dept_edges d))"
    using fresh unfolding in_dept_edges by blast
  moreover have "dc_parent c \<noteq> Some (seq (depts d))"
    using r(4) fresh by (auto simp: parent_missing_def)
  moreover have "dept_edges d' = dept_edges d @ [(seq (depts d), dc_parent c)]"
    using r(1) by (simp add: dept_edges_def r(2) new_dept_def)
  ultimately show ?thesis unfolding inserts_leaf_def by blast
qed

lemma dept_update_edges:
  assumes u: "dept_update_op i p scope d = Inr (x', d')"
  shows "moves_checked (dept_edges d) (dept_edges d') \<or> removes_edges (dept_edges d) (dept_edges d')"
  using u
proof (rule dept_update_InrD)
  fix x assume x: "get_dept d i = Some x" and m: "dept_check_move i p scope d = Inr ()"
    and d': "d' = d\<lparr>depts := update_where (\<lambda>y. d_id y = i) (apply_dept_update p) (depts d)\<rparr>"
  show ?thesis
  proof (cases "du_parent p")
    case (Assign q)
    have "i \<in> set (map fst (dept_edges d))" using x by (simp only: in_dept_edges) simp
    moreover have "\<not> creates_cycle (dept_edges d) i np" if "q = Some np" for np
      using m Assign that by (auto simp: dept_check_move_def split: if_splits)
    moreover have "dept_edges d' = set_parent i q (dept_edges d)"
      by (simp add: d' dept_edges_update Assign)
    ultimately show ?thesis unfolding moves_checked_def by blast
  qed (simp add: d' dept_edges_update removes_edges_refl)
qed

lemma dept_delete_edges:
  "dept_delete_op i scope d = Inr ((), d') \<Longrightarrow> removes_edges (dept_edges d) (dept_edges d')"
  by (drule dept_delete_InrD(4))
    (auto simp: removes_edges_def parent_rel_def dept_edges_def rows_delete_where)

interpretation dept_tree: tree_service dept_edges dept_inv dept_step
proof
  fix d d' assume inv: "dept_inv d" and s: "dept_step d d'"
  show "dept_inv d'"
    using s inv by cases (auto intro: dept_create_inv dept_update_inv dept_delete_inv)
  show "inserts_leaf (dept_edges d) (dept_edges d') \<or> moves_checked (dept_edges d) (dept_edges d') \<or>
      removes_edges (dept_edges d) (dept_edges d')"
    using s inv
    by cases (auto dest: dept_create_edges dept_update_edges dept_delete_edges)
qed

lemma dept_update_forest:
  assumes "forest (dept_edges d)" and u: "dept_update_op i p scope d = Inr (x', d')"
    and deep: "depth_below (dept_edges d) i max_depth"
  shows "forest (dept_edges d')"
  using u
proof (rule dept_update_InrD)
  fix x assume x: "get_dept d i = Some x" and m: "dept_check_move i p scope d = Inr ()"
    and d': "d' = d\<lparr>depts := update_where (\<lambda>y. d_id y = i) (apply_dept_update p) (depts d)\<rparr>"
  have i: "i \<in> set (map fst (dept_edges d))" using x by (simp only: in_dept_edges) simp
  have "forest (set_parent i q (dept_edges d))" if q: "du_parent p = Assign q" for q
  proof (cases q)
    case None
    then show ?thesis by (intro forest_set_parent [OF assms(1)]) simp
  next
    case (Some np)
    then have "\<not> creates_cycle (dept_edges d) i np"
      using m q by (auto simp: dept_check_move_def split: if_splits)
    with Some show ?thesis by (simp add: checked_move_keeps_forest [OF assms(1) i deep])
  qed
  then show ?thesis using assms(1) by (simp add: d' dept_edges_update split: patch.split)
qed

text \<open>
  C15 Creating, updating, moving and deleting departments keeps keys and codes unique and every
  reference (to a parent, from a user, from a role) pointing at an existing department; creations
  and deletions keep the tree acyclic, and so does a move unless a department lies more than 64
  levels below the moved one.
\<close>

theorem dept_operations_keep_tree:
  assumes "dept_inv d" and "forest (dept_edges d)"
  shows "(dept_create_op c scope d = Inr (x, d1) \<longrightarrow> dept_inv d1 \<and> forest (dept_edges d1)) \<and>
    (dept_delete_op i scope d = Inr ((), d2) \<longrightarrow> dept_inv d2 \<and> forest (dept_edges d2)) \<and>
    (dept_update_op i p scope d = Inr (y, d3) \<longrightarrow> dept_inv d3 \<and>
       (depth_below (dept_edges d) i 64 \<longrightarrow> forest (dept_edges d3)))"
proof (intro conjI impI)
  note inv = assms(1) and f = assms(2)
  show "dept_inv d1" "forest (dept_edges d1)" if "dept_create_op c scope d = Inr (x, d1)"
    using dept_create_inv [OF inv that] inserts_leaf_forest [OF dept_create_edges [OF inv that] f] by simp_all
  show "dept_inv d2" "forest (dept_edges d2)" if "dept_delete_op i scope d = Inr ((), d2)"
    using dept_delete_inv [OF inv that] removes_edges_forest [OF dept_delete_edges [OF that] f] by simp_all
  show "dept_inv d3" if "dept_update_op i p scope d = Inr (y, d3)"
    by (rule dept_update_inv [OF inv that])
  show "forest (dept_edges d3)" if "dept_update_op i p scope d = Inr (y, d3)"
    and "depth_below (dept_edges d) i 64"
    using dept_update_forest [OF f that(1)] that(2) by (simp add: max_depth_def)
qed

lemma demo_org_inv: "dept_inv demo_org"
  by (simp add: dept_inv_def table_ok_def demo_org_def empty_db_def demo_dept_def demo_staff_def
      parent_missing_def get_dept_def get_row_def)

definition no_dept_update :: dept_update where
  "no_dept_update = \<lparr>du_name = Unset, du_code = Unset, du_parent = Unset, du_sort = Unset,
     du_status = Unset, du_leader = Unset, du_phone = Unset, du_email = Unset\<rparr>"

definition move_dept :: "int option \<Rightarrow> dept_update" where
  "move_dept p = no_dept_update\<lparr>du_parent := Assign p\<rparr>"

theorem dept_operations_keep_tree_witness:
  "case dept_update_op 11 (move_dept (Some 12)) None demo_org of
     Inr (x, d') \<Rightarrow> dept_inv d' \<and> d_parent x = Some 12 | Inl e \<Rightarrow> False"
proof -
  have "case dept_update_op 11 (move_dept (Some 12)) None demo_org of
     Inr (x, d') \<Rightarrow> d_parent x = Some 12 | Inl e \<Rightarrow> False" by code_simp
  then obtain x d' where u: "dept_update_op 11 (move_dept (Some 12)) None demo_org = Inr (x, d')"
    "d_parent x = Some 12" by (auto split: sum.splits)
  have "forest (dept_edges demo_org)"
    by (rule forest_increasing) (auto simp: dept_edges_def demo_org_def demo_dept_def)
  from dept_operations_keep_tree [OF demo_org_inv this] u show ?thesis by force
qed

section \<open>The depth bound\<close>

text \<open>A chain of departments 1, ..., n, each below the one before; creation has no depth limit.\<close>

definition chain_db :: "nat \<Rightarrow> db" where
  "chain_db n = empty_db\<lparr>depts := \<lparr>rows = map (\<lambda>k. demo_dept (int k)
     (if k = 1 then None else Some (int k - 1))) [1..<Suc n], seq = int n + 1\<rparr>\<rparr>"

lemma chain_forest: "forest (dept_edges (chain_db n))"
  by (rule forest_increasing) (auto simp: dept_edges_def chain_db_def demo_dept_def split: if_splits)

text \<open>
  The cycle check is cut at depth 64: in a chain of 66 departments, which is acyclic, moving the
  first below the last is accepted and closes a cycle.
\<close>

theorem deep_dept_move_closes_cycle:
  "forest (dept_edges (chain_db 66)) \<and>
   (case dept_update_op 1 (move_dept (Some 66)) None (chain_db 66) of
      Inr (x, d') \<Rightarrow> \<not> forest (dept_edges d')
    | Inl e \<Rightarrow> False)"
proof -
  let ?p = "move_dept (Some 66)"
  let ?es = "set_parent 1 (Some 66) (dept_edges (chain_db 66))"
  have "case dept_update_op 1 ?p None (chain_db 66) of Inr (x, d') \<Rightarrow> d_id x = 1 | Inl e \<Rightarrow> False"
    by code_simp
  then obtain x d' where u: "dept_update_op 1 ?p None (chain_db 66) = Inr (x, d')"
    by (auto split: sum.splits)
  have e: "dept_edges d' = ?es"
    using u by (rule dept_update_InrD) (simp add: dept_edges_update move_dept_def)
  have "66 \<in> set (levels 65 ?es [1])" by code_simp
  then obtain k where "(66, 1) \<in> parent_rel ?es ^^ k" unfolding in_levels by auto
  moreover have "1 \<in> set (map fst (dept_edges (chain_db 66)))" by code_simp
  ultimately have "\<not> forest ?es" by (rule uncaught_cycle)
  then show ?thesis using u e chain_forest by simp
qed

section \<open>Data scope\<close>

text \<open>
  C16 A caller whose data scope is not ALL touches visible departments only: a department is created
  under a visible parent and never as a root, an update or a deletion acts on a visible department
  and moves it under a visible parent only, every other row keeps its value, and a list shows
  exactly the departments that can be opened.
\<close>

theorem dept_writes_stay_in_scope:
  assumes "ds_type s \<noteq> ScopeAll"
  shows "(dept_create_op c (Some s) d = Inr (x, d1) \<longrightarrow>
       (\<exists>p \<in> ds_visible s. dc_parent c = Some p) \<and> rows (depts d1) = rows (depts d) @ [x]) \<and>
    (dept_update_op i p (Some s) d = Inr (y, d2) \<longrightarrow> i \<in> ds_visible s \<and>
       (\<forall>q. du_parent p = Assign q \<longrightarrow> (\<exists>k \<in> ds_visible s. q = Some k)) \<and>
       rows (depts d2) = map (\<lambda>z. if d_id z = i then apply_dept_update p z else z) (rows (depts d))) \<and>
    (dept_delete_op i (Some s) d = Inr ((), d3) \<longrightarrow> i \<in> ds_visible s \<and>
       rows (depts d3) = filter (\<lambda>z. d_id z \<noteq> i) (rows (depts d))) \<and>
    (table_ok d_id (depts d) \<longrightarrow>
       (z \<in> set (dept_list_rows d (Some s)) \<longleftrightarrow> dept_get d (d_id z) (Some s) = Inr z))"
proof (intro conjI impI allI)
  have vis: "out_of_scope (Some s) q \<longleftrightarrow> \<not> (\<exists>k \<in> ds_visible s. q = Some k)" for q
    using assms by (cases q) (auto simp: out_of_scope_def is_dept_visible_def)
  show "\<exists>p \<in> ds_visible s. dc_parent c = Some p" "rows (depts d1) = rows (depts d) @ [x]"
    if c: "dept_create_op c (Some s) d = Inr (x, d1)"
    using dept_create_InrD(2,3) [OF c] vis by simp_all
  show "i \<in> ds_visible s" if u: "dept_update_op i p (Some s) d = Inr (y, d2)"
    using u by (rule dept_update_InrD) (use vis in auto)
  show "\<exists>k \<in> ds_visible s. q = Some k"
    if u: "dept_update_op i p (Some s) d = Inr (y, d2)" and q: "du_parent p = Assign q" for q
    using u by (rule dept_update_InrD) (use q vis in \<open>auto simp: dept_check_move_def split: if_splits\<close>)
  show "rows (depts d2) = map (\<lambda>z. if d_id z = i then apply_dept_update p z else z) (rows (depts d))"
    if u: "dept_update_op i p (Some s) d = Inr (y, d2)"
    using u by (rule dept_update_InrD) (simp add: rows_update_where)
  show "i \<in> ds_visible s" "rows (depts d3) = filter (\<lambda>z. d_id z \<noteq> i) (rows (depts d))"
    if r: "dept_delete_op i (Some s) d = Inr ((), d3)"
    using dept_delete_InrD(2,4) [OF r] vis by (simp_all add: rows_delete_where)
  show "z \<in> set (dept_list_rows d (Some s)) \<longleftrightarrow> dept_get d (d_id z) (Some s) = Inr z"
    if ok: "table_ok d_id (depts d)"
  proof -
    have "z \<in> set (dept_list_rows d (Some s)) \<longleftrightarrow>
        get_dept d (d_id z) = Some z \<and> is_dept_visible s (Some (d_id z))"
      unfolding get_dept_Some_iff [OF ok]
      by (simp add: dept_list_rows_def Let_def apply_data_scope_depts)
    then show ?thesis
      by (auto simp: dept_get_def out_of_scope_def split: option.splits dest: get_dept_SomeD)
  qed
qed

theorem dept_writes_stay_in_scope_witness:
  "case dept_update_op 11 (move_dept (Some 10)) (Some (compute_effective_data_scope demo_org 1)) demo_org of
     Inr (x, d') \<Rightarrow> 11 \<in> ds_visible (compute_effective_data_scope demo_org 1) | Inl e \<Rightarrow> False"
proof -
  let ?s = "compute_effective_data_scope demo_org 1"
  have "case dept_update_op 11 (move_dept (Some 10)) (Some ?s) demo_org of
     Inr (x, d') \<Rightarrow> True | Inl e \<Rightarrow> False" by code_simp
  then obtain x d' where u: "dept_update_op 11 (move_dept (Some 10)) (Some ?s) demo_org = Inr (x, d')"
    by (auto split: sum.splits)
  have "ds_type ?s \<noteq> ScopeAll" by code_simp
  from dept_writes_stay_in_scope [OF this] u show ?thesis by fastforce
qed

end
