(* ===== verification/MenuService.thy ===== *)
theory MenuService
  imports AdjTree Authz Paging
begin

text \<open>
  \<^verbatim>\<open>domains/menu/service.py\<close> and \<^verbatim>\<open>domains/menu/repository.py\<close>: the menu tree, whose buttons carry
  the permissions.  \<open>menu_repo_*\<close> are the repository's statements with the constraints of the
  table, \<open>menu_*_op\<close> the operations of \<^verbatim>\<open>MenuService\<close>, each in one transaction.  Only a super
  administrator writes \<^verbatim>\<open>perms\<close>, \<^verbatim>\<open>status\<close> and, on an update, \<^verbatim>\<open>menu_type\<close>.  \<^verbatim>\<open>seed_key\<close> is written by
  the seeding command only (theory \<open>Seed\<close>).
\<close>

section \<open>Payloads and errors\<close>

record menu_create =
  mc_name :: string
  mc_type :: menu_type
  mc_parent :: "int option"
  mc_path :: string
  mc_component :: "string option"
  mc_perms :: "string option"
  mc_icon :: string
  mc_sort :: int
  mc_visible :: bool
  mc_status :: status

record menu_update =
  mu_name :: "string option patch"
  mu_type :: "menu_type option patch"
  mu_parent :: "int option patch"
  mu_path :: "string option patch"
  mu_component :: "string option patch"
  mu_perms :: "string option patch"
  mu_icon :: "string option patch"
  mu_sort :: "int option patch"
  mu_visible :: "bool option patch"
  mu_status :: "status option patch"

definition menu_not_found :: exn where "menu_not_found = AppErr ''menu.NOT_FOUND'' 404"
definition menu_parent_not_found :: exn where
  "menu_parent_not_found = AppErr ''menu.PARENT_NOT_FOUND'' 404"
definition menu_cycle :: exn where "menu_cycle = AppErr ''menu.CYCLE'' 409"
definition menu_has_children :: exn where "menu_has_children = AppErr ''menu.HAS_CHILDREN'' 409"
definition menu_invalid_parent_type :: exn where
  "menu_invalid_parent_type = AppErr ''menu.INVALID_PARENT_TYPE'' 409"
definition menu_type_has_children :: exn where
  "menu_type_has_children = AppErr ''menu.TYPE_HAS_CHILDREN'' 409"

section \<open>Repository\<close>

definition get_menu :: "db \<Rightarrow> int \<Rightarrow> menu option" where
  "get_menu d i = get_row m_id (menus d) i"

definition menu_order :: "menu list \<Rightarrow> menu list" where
  "menu_order = sort_key (\<lambda>m. (m_sort m, m_id m))"

definition menu_count_children :: "db \<Rightarrow> int \<Rightarrow> nat" where
  "menu_count_children d i = length (filter (\<lambda>x. m_parent x = Some i) (rows (menus d)))"

definition menu_edges :: "db \<Rightarrow> edges" where
  "menu_edges d = map (\<lambda>x. (m_id x, m_parent x)) (rows (menus d))"

definition list_descendant_menu_ids :: "db \<Rightarrow> int \<Rightarrow> int set" where
  "list_descendant_menu_ids d i = descendant_ids (menu_edges d) i"

definition menu_fk_missing :: "db \<Rightarrow> int option \<Rightarrow> bool" where
  "menu_fk_missing d p = (case p of None \<Rightarrow> False | Some i \<Rightarrow> get_menu d i = None)"

definition new_menu :: "menu_create \<Rightarrow> int \<Rightarrow> menu" where
  "new_menu c i = \<lparr>m_id = i, m_parent = mc_parent c, m_name = mc_name c, m_type = mc_type c,
     m_path = mc_path c, m_component = mc_component c, m_perms = mc_perms c, m_icon = mc_icon c,
     m_sort = mc_sort c, m_visible = mc_visible c, m_status = mc_status c,
     m_seed = None\<rparr>"

definition menu_repo_create :: "menu_create \<Rightarrow> db \<Rightarrow> exn + menu \<times> db" where
  "menu_repo_create c d =
     (if menu_fk_missing d (mc_parent c) then Inl (IntegrityErr ''menus.parent_id'')
      else (case insert_row (new_menu c) (menus d) of (x, t) \<Rightarrow> Inr (x, d\<lparr>menus := t\<rparr>)))"

definition apply_menu_update :: "menu_update \<Rightarrow> menu \<Rightarrow> menu" where
  "apply_menu_update p x = x\<lparr>m_name := patched_nn (mu_name p) (m_name x),
     m_type := patched_nn (mu_type p) (m_type x), m_parent := patched (mu_parent p) (m_parent x),
     m_path := patched_nn (mu_path p) (m_path x),
     m_component := patched (mu_component p) (m_component x),
     m_perms := patched (mu_perms p) (m_perms x), m_icon := patched_nn (mu_icon p) (m_icon x),
     m_sort := patched_nn (mu_sort p) (m_sort x), m_visible := patched_nn (mu_visible p) (m_visible x),
     m_status := patched_nn (mu_status p) (m_status x)\<rparr>"

definition menu_null_column :: "menu_update \<Rightarrow> bool" where
  "menu_null_column p \<longleftrightarrow> null_patch (mu_name p) \<or> null_patch (mu_type p) \<or> null_patch (mu_path p) \<or>
     null_patch (mu_icon p) \<or> null_patch (mu_sort p) \<or> null_patch (mu_visible p) \<or>
     null_patch (mu_status p)"

definition menu_repo_update :: "int \<Rightarrow> menu_update \<Rightarrow> db \<Rightarrow> exn + menu option \<times> db" where
  "menu_repo_update i p d =
     (case get_menu d i of
        None \<Rightarrow> Inr (None, d)
      | Some x \<Rightarrow>
          (let x' = apply_menu_update p x
           in if menu_null_column p then Inl (IntegrityErr ''NOT NULL'')
              else if menu_fk_missing d (m_parent x') then Inl (IntegrityErr ''menus.parent_id'')
              else Inr (Some x',
                d\<lparr>menus := update_where (\<lambda>y. m_id y = i) (apply_menu_update p) (menus d)\<rparr>)))"

text \<open>The foreign key of \<^verbatim>\<open>role_menus\<close> cascades; the one of \<^verbatim>\<open>menus.parent_id\<close> restricts.\<close>

definition menu_repo_delete :: "int \<Rightarrow> db \<Rightarrow> exn + bool \<times> db" where
  "menu_repo_delete i d =
     (if get_menu d i = None then Inr (False, d)
      else if menu_count_children d i > 0 then Inl (IntegrityErr ''menus.parent_id'')
      else Inr (True, d\<lparr>menus := delete_where (\<lambda>y. m_id y = i) (menus d),
             role_menus := filter (\<lambda>p. snd p \<noteq> i) (role_menus d)\<rparr>))"

definition menu_existing_ids :: "db \<Rightarrow> int list \<Rightarrow> int set" where
  "menu_existing_ids d ids = set (filter (\<lambda>i. get_menu d i \<noteq> None) ids)"

definition list_all_active :: "db \<Rightarrow> menu list" where
  "list_all_active d = menu_order (filter (\<lambda>m. m_status m = Active) (rows (menus d)))"

definition list_active_by_ids :: "db \<Rightarrow> int set \<Rightarrow> menu list" where
  "list_active_by_ids d ids =
     (if ids = {} then []
      else menu_order (filter (\<lambda>m. m_status m = Active \<and> m_id m \<in> ids) (rows (menus d))))"

section \<open>Service\<close>

definition menu_list :: "db \<Rightarrow> int \<Rightarrow> int \<Rightarrow> menu page_result" where
  "menu_list d page sz = make_page page sz (menu_order (rows (menus d)))"

definition menu_get :: "db \<Rightarrow> int \<Rightarrow> exn + menu" where
  "menu_get d i = (case get_menu d i of None \<Rightarrow> Inl menu_not_found | Some x \<Rightarrow> Inr x)"

definition menu_guard_create :: "menu_create \<Rightarrow> bool \<Rightarrow> exn + unit" where
  "menu_guard_create c super =
     guard (super \<or> mc_perms c = None \<and> mc_status c = Active) forbidden_by_role"

definition menu_guard_update :: "menu_update \<Rightarrow> bool \<Rightarrow> exn + unit" where
  "menu_guard_update p super =
     guard (super \<or> \<not> (is_set (mu_perms p) \<or> is_set (mu_type p) \<or> is_set (mu_status p)))
       forbidden_by_role"

text \<open>The parent exists and is not a button.\<close>

definition check_menu_parent :: "db \<Rightarrow> int \<Rightarrow> exn + unit" where
  "check_menu_parent d q =
     (case get_menu d q of
        None \<Rightarrow> Inl menu_parent_not_found
      | Some m \<Rightarrow> guard (m_type m \<noteq> MenuF) menu_invalid_parent_type)"

definition menu_create_op :: "menu_create \<Rightarrow> bool \<Rightarrow> db \<Rightarrow> exn + menu \<times> db" where
  "menu_create_op c super d =
     bind_res (menu_guard_create c super) (\<lambda>_.
     bind_res (case mc_parent c of None \<Rightarrow> Inr () | Some q \<Rightarrow> check_menu_parent d q) (\<lambda>_.
       menu_repo_create c d))"

definition changing_to_button :: "menu_update \<Rightarrow> bool" where
  "changing_to_button p \<longleftrightarrow> mu_type p = Assign (Some MenuF)"

definition menu_check_move :: "int \<Rightarrow> menu_update \<Rightarrow> db \<Rightarrow> exn + unit" where
  "menu_check_move i p d =
     (case mu_parent p of
        Assign (Some q) \<Rightarrow>
          bind_res (check_menu_parent d q) (\<lambda>_.
            guard (\<not> (q = i \<or> q \<in> list_descendant_menu_ids d i)) menu_cycle)
      | _ \<Rightarrow> Inr ())"

definition menu_update_op :: "int \<Rightarrow> menu_update \<Rightarrow> bool \<Rightarrow> db \<Rightarrow> exn + menu \<times> db" where
  "menu_update_op i p super d =
     bind_res (menu_guard_update p super) (\<lambda>_.
     case get_menu d i of
       None \<Rightarrow> Inl menu_not_found
     | Some x \<Rightarrow>
         if changing_to_button p \<and> menu_count_children d i > 0 then Inl menu_type_has_children
         else bind_res (menu_check_move i p d) (\<lambda>_.
           bind_res (menu_repo_update i p d) (\<lambda>(row, d').
             case row of None \<Rightarrow> Inl menu_not_found | Some x' \<Rightarrow> Inr (x', d'))))"

definition menu_delete_op :: "int \<Rightarrow> db \<Rightarrow> exn + unit \<times> db" where
  "menu_delete_op i d =
     (case get_menu d i of
        None \<Rightarrow> Inl menu_not_found
      | Some x \<Rightarrow>
          if menu_count_children d i > 0 then Inl menu_has_children
          else bind_res (menu_repo_delete i d) (\<lambda>(_, d'). Inr ((), d')))"

section \<open>Invariant\<close>

text \<open>Keys, references to existing menus, and no child below a button.\<close>

definition menu_inv :: "db \<Rightarrow> bool" where
  "menu_inv d \<longleftrightarrow> table_ok m_id (menus d) \<and>
     (\<forall>x \<in> set (rows (menus d)). \<not> menu_fk_missing d (m_parent x)) \<and>
     (\<forall>p \<in> set (role_menus d). get_menu d (snd p) \<noteq> None)"

definition no_button_parent :: "db \<Rightarrow> bool" where
  "no_button_parent d \<longleftrightarrow>
     (\<forall>x \<in> set (rows (menus d)). \<forall>y \<in> set (rows (menus d)).
        m_type x = MenuF \<longrightarrow> m_parent y \<noteq> Some (m_id x))"

lemma get_menu_SomeD: "get_menu d i = Some x \<Longrightarrow> x \<in> set (rows (menus d)) \<and> m_id x = i"
  unfolding get_menu_def by (rule get_row_SomeD)

lemma get_menu_None_iff: "get_menu d i = None \<longleftrightarrow> (\<forall>x \<in> set (rows (menus d)). m_id x \<noteq> i)"
  unfolding get_menu_def by (rule get_row_None_iff)

lemma get_menu_Some_iff:
  "table_ok m_id (menus d) \<Longrightarrow> get_menu d i = Some x \<longleftrightarrow> x \<in> set (rows (menus d)) \<and> m_id x = i"
  unfolding get_menu_def by (rule get_row_Some_iff)

lemma apply_menu_update_id [simp]: "m_id (apply_menu_update p x) = m_id x"
  by (simp add: apply_menu_update_def)

lemma menu_count_children_0:
  "menu_count_children d i = 0 \<longleftrightarrow> (\<forall>y \<in> set (rows (menus d)). m_parent y \<noteq> Some i)"
  by (auto simp: menu_count_children_def filter_empty_conv)

lemma menu_edges_update:
  "menu_edges (d\<lparr>menus := update_where (\<lambda>y. m_id y = i) (apply_menu_update p) (menus d)\<rparr>) =
    (case mu_parent p of Unset \<Rightarrow> menu_edges d | Assign q \<Rightarrow> set_parent i q (menu_edges d))"
  by (auto simp: menu_edges_def set_parent_def rows_update_where apply_menu_update_def
      split: patch.splits)

lemma in_menu_edges: "i \<in> set (map fst (menu_edges d)) \<longleftrightarrow> get_menu d i \<noteq> None"
proof -
  have "map fst (menu_edges d) = map m_id (rows (menus d))" by (simp add: menu_edges_def)
  then show ?thesis by (auto simp: get_menu_None_iff)
qed

lemma menu_edge_iff:
  "(c, Some p) \<in> set (menu_edges d) \<longleftrightarrow> (\<exists>x \<in> set (rows (menus d)). m_id x = c \<and> m_parent x = Some p)"
  by (auto simp: menu_edges_def)

lemma check_menu_parent_InrD:
  "check_menu_parent d q = Inr u \<Longrightarrow> \<exists>m. get_menu d q = Some m \<and> m_type m \<noteq> MenuF"
  by (auto simp: check_menu_parent_def split: option.splits)

section \<open>Inversion of the operations\<close>

lemma menu_create_InrD:
  assumes "menu_create_op c super d = Inr (x, d')"
  shows "x = new_menu c (seq (menus d))"
    and "d' = d\<lparr>menus := (menus d)\<lparr>rows := rows (menus d) @ [x], seq := seq (menus d) + 1\<rparr>\<rparr>"
    and "super \<or> mc_perms c = None \<and> mc_status c = Active"
    and "\<not> menu_fk_missing d (mc_parent c)"
    and "\<And>q m. mc_parent c = Some q \<Longrightarrow> get_menu d q = Some m \<Longrightarrow> m_type m \<noteq> MenuF"
  using assms
  by (auto simp: menu_create_op_def menu_guard_create_def menu_repo_create_def insert_row_def
      bind_res_Inr_iff split: if_splits dest!: check_menu_parent_InrD)

lemma menu_update_InrD:
  assumes "menu_update_op i p super d = Inr (x', d')"
  obtains x where "get_menu d i = Some x" "x' = apply_menu_update p x"
    "d' = d\<lparr>menus := update_where (\<lambda>y. m_id y = i) (apply_menu_update p) (menus d)\<rparr>"
    "super \<or> mu_perms p = Unset \<and> mu_type p = Unset \<and> mu_status p = Unset"
    "changing_to_button p \<Longrightarrow> menu_count_children d i = 0"
    "menu_check_move i p d = Inr ()" "\<not> menu_fk_missing d (m_parent x')"
proof -
  from assms obtain x where x: "get_menu d i = Some x"
    and g: "super \<or> \<not> (is_set (mu_perms p) \<or> is_set (mu_type p) \<or> is_set (mu_status p))"
    and b: "\<not> (changing_to_button p \<and> menu_count_children d i > 0)"
    and m: "menu_check_move i p d = Inr ()"
    and r: "menu_repo_update i p d = Inr (Some x', d')"
    by (auto simp: menu_update_op_def menu_guard_update_def bind_res_Inr_iff
        split: option.splits if_splits)
  have unset: "\<not> is_set q \<Longrightarrow> q = Unset" for q :: "'z patch" by (cases q) auto
  show thesis
    using that [OF x] x m r b g unset [of "mu_perms p"] unset [of "mu_type p"] unset [of "mu_status p"]
    by (auto simp: menu_repo_update_def Let_def split: if_splits)
qed

lemma menu_delete_InrD:
  assumes "menu_delete_op i d = Inr ((), d')"
  shows "get_menu d i \<noteq> None" and "menu_count_children d i = 0"
    and "d' = d\<lparr>menus := delete_where (\<lambda>y. m_id y = i) (menus d),
             role_menus := filter (\<lambda>p. snd p \<noteq> i) (role_menus d)\<rparr>"
  using assms
  by (auto simp: menu_delete_op_def menu_repo_delete_def bind_res_Inr_iff
      split: option.splits if_splits)

end
