(* ===== verification/MenuRouting.thy ===== *)
theory MenuRouting
  imports MenuService "HOL-Library.Multiset"
begin

text \<open>
  \<^verbatim>\<open>domains/menu/provider.py\<close> (the menu forest of a user) and \<^verbatim>\<open>domains/menu/routers.py\<close> (the
  payload of the front end's dynamic routes).  The recursion of \<^verbatim>\<open>assemble_menu_forest\<close> follows
  child lists and gets the fuel \<open>length menus + 1\<close>; \<open>build_fuel\<close> shows that more fuel changes
  nothing.  Absent children of a route are the empty list.
\<close>

section \<open>The forest\<close>

datatype menu_node = MenuNode (mn_id: int) (mn_name: string) (mn_path: string) (mn_type: menu_type)
  (mn_component: "string option") (mn_perms: "string option") (mn_icon: string) (mn_visible: bool)
  (mn_children: "menu_node list")

definition parent_key :: "menu list \<Rightarrow> menu \<Rightarrow> int option" where
  "parent_key ms m =
     (case m_parent m of None \<Rightarrow> None | Some p \<Rightarrow> if p \<in> set (map m_id ms) then Some p else None)"

definition menu_children :: "menu list \<Rightarrow> int option \<Rightarrow> menu list" where
  "menu_children ms key = menu_order (filter (\<lambda>m. parent_key ms m = key) ms)"

definition node_of :: "menu \<Rightarrow> menu_node list \<Rightarrow> menu_node" where
  "node_of m ch = MenuNode (m_id m) (m_name m) (m_path m) (m_type m) (m_component m) (m_perms m)
     (m_icon m) (m_visible m) ch"

fun build :: "nat \<Rightarrow> menu list \<Rightarrow> int option \<Rightarrow> menu_node list" where
  "build 0 ms key = []"
| "build (Suc n) ms key = map (\<lambda>m. node_of m (build n ms (Some (m_id m)))) (menu_children ms key)"

definition assemble_menu_forest :: "menu list \<Rightarrow> menu_node list" where
  "assemble_menu_forest ms = build (Suc (length ms)) ms None"

definition visible_menus :: "db \<Rightarrow> int \<Rightarrow> menu list" where
  "visible_menus d uid =
     (case get_user d uid of
        None \<Rightarrow> []
      | Some u \<Rightarrow>
          if u_status u \<noteq> Active then []
          else if u_super u then list_all_active d
          else list_active_by_ids d (list_menu_ids_for_user d uid))"

definition get_user_menu_tree :: "db \<Rightarrow> int \<Rightarrow> menu_node list" where
  "get_user_menu_tree d uid = assemble_menu_forest (visible_menus d uid)"

section \<open>The routes\<close>

record router_meta =
  me_title :: string
  me_icon :: string
  me_no_cache :: bool
  me_link :: "string option"

datatype router = Router (ro_name: string) (ro_path: string) (ro_hidden: bool) (ro_component: string)
  (ro_redirect: "string option") (ro_always_show: bool) (ro_meta: router_meta)
  (ro_children: "router list")

definition external :: "string \<Rightarrow> bool" where
  "external path \<longleftrightarrow> starts_with ''http://'' path \<or> starts_with ''https://'' path"

definition route_name :: "string \<Rightarrow> string" where
  "route_name path =
     (case dropWhile (\<lambda>c. c = CHR ''/'') path of [] \<Rightarrow> [] | c # cs \<Rightarrow> upper_char c # cs)"

definition route_path :: "string \<Rightarrow> bool \<Rightarrow> string" where
  "route_path path top_level =
     (if external path then path
      else if top_level then (if starts_with ''/'' path then path else CHR ''/'' # path)
      else path)"

definition route_component :: "menu_node \<Rightarrow> bool \<Rightarrow> bool \<Rightarrow> string" where
  "route_component node top_level is_dir =
     (if is_dir then (if top_level then ''Layout'' else ''ParentView'')
      else (case mn_component node of None \<Rightarrow> ''Layout'' | Some c \<Rightarrow> if c = [] then ''Layout'' else c))"

definition route_meta :: "menu_node \<Rightarrow> router_meta" where
  "route_meta node = \<lparr>me_title = mn_name node, me_icon = mn_icon node, me_no_cache = False,
     me_link = (if external (mn_path node) then Some (mn_path node) else None)\<rparr>"

fun to_router :: "bool \<Rightarrow> menu_node \<Rightarrow> router" where
  "to_router top_level (MenuNode i nm path ty cmp perms icon vis ch) =
     (let node = MenuNode i nm path ty cmp perms icon vis ch;
          child_routers = map (to_router False) (filter (\<lambda>c. mn_type c \<noteq> MenuF) ch);
          is_dir = (ty = MenuM);
          dir_with_children = (is_dir \<and> child_routers \<noteq> [])
      in Router (route_name path) (route_path path top_level) (\<not> vis) (route_component node top_level is_dir)
           (if dir_with_children then Some ''noRedirect'' else None) dir_with_children
           (route_meta node) child_routers)"

definition build_routers :: "menu_node list \<Rightarrow> router list" where
  "build_routers tree = map (to_router True) (filter (\<lambda>n. mn_type n \<noteq> MenuF) tree)"

section \<open>Flattening\<close>

fun all_nodes :: "menu_node \<Rightarrow> menu_node list" where
  "all_nodes (MenuNode i nm path ty cmp perms icon vis ch) =
     MenuNode i nm path ty cmp perms icon vis ch # concat (map all_nodes ch)"

fun all_routes :: "router \<Rightarrow> router list" where
  "all_routes (Router nm path hid cmp red always meta ch) =
     Router nm path hid cmp red always meta ch # concat (map all_routes ch)"

fun flat_menus :: "nat \<Rightarrow> menu list \<Rightarrow> int option \<Rightarrow> menu list" where
  "flat_menus 0 ms key = []"
| "flat_menus (Suc n) ms key =
     concat (map (\<lambda>m. m # flat_menus n ms (Some (m_id m))) (menu_children ms key))"

lemma node_of_sel [simp]:
  "mn_id (node_of m ch) = m_id m" "mn_name (node_of m ch) = m_name m"
  "mn_type (node_of m ch) = m_type m" "mn_children (node_of m ch) = ch"
  "mn_path (node_of m ch) = m_path m" "mn_icon (node_of m ch) = m_icon m"
  "mn_visible (node_of m ch) = m_visible m"
  by (simp_all add: node_of_def)

lemma all_nodes_node_of [simp]:
  "all_nodes (node_of m ch) = node_of m ch # concat (map all_nodes ch)"
  by (simp add: node_of_def)

lemma map_concat_map: "map f (concat (map g xs)) = concat (map (\<lambda>x. map f (g x)) xs)"
  by (induction xs) auto

lemma build_nodes_flat:
  "map mn_id (concat (map all_nodes (build n ms key))) = map m_id (flat_menus n ms key)"
proof (induction n arbitrary: key)
  case (Suc n)
  then show ?case by (simp add: map_concat_map comp_def)
qed simp

lemma set_menu_children:
  "set (menu_children ms key) = {m \<in> set ms. parent_key ms m = key}"
  by (auto simp: menu_children_def menu_order_def)

lemma distinct_menu_children: "distinct ms \<Longrightarrow> distinct (menu_children ms key)"
  by (simp add: menu_children_def menu_order_def)

section \<open>Chains of parents\<close>

inductive chain :: "menu list \<Rightarrow> int option \<Rightarrow> int list \<Rightarrow> bool" for ms where
  root: "chain ms None []"
| down: "chain ms key ps \<Longrightarrow> m \<in> set ms \<Longrightarrow> parent_key ms m = key \<Longrightarrow>
    chain ms (Some (m_id m)) (m_id m # ps)"

inductive_cases chain_NoneE: "chain ms None ps"
inductive_cases chain_SomeE: "chain ms (Some i) ps"

lemma menu_inj: "distinct (map m_id ms) \<Longrightarrow> m \<in> set ms \<Longrightarrow> m' \<in> set ms \<Longrightarrow> m_id m = m_id m' \<Longrightarrow> m = m'"
  by (auto simp: distinct_map inj_on_def)

lemma chain_unique:
  assumes "distinct (map m_id ms)" "chain ms key ps"
  shows "chain ms key qs \<Longrightarrow> qs = ps"
  using assms(2)
proof (induction arbitrary: qs)
  case root
  then show ?case by (rule chain_NoneE) simp
next
  case (down key ps m)
  from down.prems obtain key' qs' m' where "qs = m_id m # qs'" "chain ms key' qs'" "m' \<in> set ms"
      "parent_key ms m' = key'" "m_id m = m_id m'"
    by (auto elim: chain_SomeE)
  then show ?case using down.IH down.hyps menu_inj [OF assms(1) down.hyps(2), of m'] by simp
qed

lemma chain_suffix: "chain ms key ps \<Longrightarrow> i \<in> set ps \<Longrightarrow> \<exists>rs us. ps = us @ i # rs \<and> chain ms (Some i) (i # rs)"
proof (induction rule: chain.induct)
  case (down key ps m)
  show ?case
  proof (cases "i = m_id m")
    case True
    with down.hyps show ?thesis
      by (intro exI [of _ ps] exI [of _ "[]"]) (auto intro: chain.down)
  next
    case False
    with down.prems down.IH obtain rs us where "ps = us @ i # rs" "chain ms (Some i) (i # rs)" by auto
    then show ?thesis by (intro exI [of _ rs] exI [of _ "m_id m # us"]) simp
  qed
qed simp

lemma chain_distinct:
  assumes d: "distinct (map m_id ms)"
  shows "chain ms key ps \<Longrightarrow> distinct ps \<and> set ps \<subseteq> set (map m_id ms)"
proof (induction rule: chain.induct)
  case (down key ps m)
  have "m_id m \<notin> set ps"
  proof
    assume "m_id m \<in> set ps"
    from chain_suffix [OF down.hyps(1) this] obtain rs us
      where s: "ps = us @ m_id m # rs" "chain ms (Some (m_id m)) (m_id m # rs)" by blast
    have "chain ms (Some (m_id m)) (m_id m # ps)" by (rule chain.down) (use down.hyps in auto)
    with chain_unique [OF d s(2)] have "ps = rs" by blast
    with s(1) have "length ps = length us + 1 + length ps" by simp
    then show False by simp
  qed
  with down show ?case by simp
qed simp

lemma chain_length: "distinct (map m_id ms) \<Longrightarrow> chain ms key ps \<Longrightarrow> length ps \<le> length ms"
  using chain_distinct [of ms key ps] distinct_card [of ps] card_mono [of "set (map m_id ms)" "set ps"]
    card_length [of "map m_id ms"] by fastforce

section \<open>Enough fuel\<close>

lemma build_step:
  assumes d: "distinct (map m_id ms)"
  shows "chain ms key ps \<Longrightarrow> length ms < n + length ps \<Longrightarrow> build (Suc n) ms key = build n ms key"
proof (induction n arbitrary: key ps)
  case 0
  with chain_length [OF d] have False by fastforce
  then show ?case ..
next
  case (Suc n)
  have "build (Suc n) ms (Some (m_id m)) = build n ms (Some (m_id m))"
    if "m \<in> set (menu_children ms key)" for m
    using that Suc.prems by (intro Suc.IH [of _ "m_id m # ps"]) (auto simp: set_menu_children intro: chain.down)
  then show ?case by (simp only: build.simps(2) [of "Suc n"] build.simps(2) [of n] cong: map_cong)
qed

lemma build_fuel:
  assumes "distinct (map m_id ms)"
  shows "build (Suc (length ms) + k) ms None = assemble_menu_forest ms"
proof (induction k)
  case (Suc k)
  have "build (Suc (Suc (length ms) + k)) ms None = build (Suc (length ms) + k) ms None"
    by (rule build_step [OF assms chain.root]) simp
  with Suc show ?case by simp
qed (simp add: assemble_menu_forest_def)

section \<open>Every menu once\<close>

lemma flat_chain:
  "x \<in> set (flat_menus n ms key) \<Longrightarrow> chain ms key ps \<Longrightarrow>
     x \<in> set ms \<and> (\<exists>us. chain ms (Some (m_id x)) (m_id x # us @ ps))"
proof (induction n arbitrary: key ps)
  case (Suc n)
  then obtain m where m: "m \<in> set ms" "parent_key ms m = key"
    and x: "x = m \<or> x \<in> set (flat_menus n ms (Some (m_id m)))"
    by (auto simp: set_menu_children)
  have c: "chain ms (Some (m_id m)) (m_id m # ps)" by (rule chain.down) (use Suc.prems m in auto)
  from x show ?case
  proof
    assume "x = m"
    with m c show ?thesis by (auto intro: exI [of _ "[]"])
  next
    assume "x \<in> set (flat_menus n ms (Some (m_id m)))"
    from Suc.IH [OF this c] obtain us where "x \<in> set ms" "chain ms (Some (m_id x)) (m_id x # us @ m_id m # ps)"
      by blast
    then show ?thesis by (auto intro: exI [of _ "us @ [m_id m]"])
  qed
qed simp

lemma distinct_concat_map:
  "distinct xs \<Longrightarrow> (\<And>x. x \<in> set xs \<Longrightarrow> distinct (f x)) \<Longrightarrow>
   (\<And>x y z. x \<in> set xs \<Longrightarrow> y \<in> set xs \<Longrightarrow> z \<in> set (f x) \<Longrightarrow> z \<in> set (f y) \<Longrightarrow> x = y) \<Longrightarrow>
   distinct (concat (map f xs))"
proof (induction xs)
  case (Cons a xs)
  have "distinct (concat (map f xs))" using Cons by simp
  moreover have "set (f a) \<inter> set (concat (map f xs)) = {}"
    using Cons.prems(1,3) by fastforce
  ultimately show ?case using Cons.prems(2) [of a] by simp
qed simp

lemma distinct_flat_menus:
  assumes d: "distinct (map m_id ms)"
  shows "chain ms key ps \<Longrightarrow> distinct (flat_menus n ms key)"
proof (induction n arbitrary: key ps)
  case (Suc n)
  have ms: "distinct ms" using d by (simp add: distinct_map)
  have c: "chain ms (Some (m_id m)) (m_id m # ps)" if "m \<in> set (menu_children ms key)" for m
    using that Suc.prems by (auto simp: set_menu_children intro: chain.down)
  have sub: "\<exists>us. chain ms (Some (m_id x)) (us @ m_id m # ps)"
    if m: "m \<in> set (menu_children ms key)" and x: "x \<in> set (m # flat_menus n ms (Some (m_id m)))" for m x
  proof (cases "x = m")
    case True
    with c [OF m] show ?thesis by (auto intro: exI [of _ "[]"])
  next
    case False
    with x have "x \<in> set (flat_menus n ms (Some (m_id m)))" by simp
    from flat_chain [OF this c [OF m]] obtain us
      where "chain ms (Some (m_id x)) (m_id x # us @ m_id m # ps)" by blast
    then show ?thesis by (intro exI [of _ "m_id x # us"]) simp
  qed
  show ?case unfolding flat_menus.simps(2)
  proof (rule distinct_concat_map)
    show "distinct (menu_children ms key)" by (rule distinct_menu_children [OF ms])
  next
    fix m assume m: "m \<in> set (menu_children ms key)"
    have "m \<notin> set (flat_menus n ms (Some (m_id m)))"
    proof
      assume "m \<in> set (flat_menus n ms (Some (m_id m)))"
      from flat_chain [OF this c [OF m]] obtain us
        where "chain ms (Some (m_id m)) (m_id m # us @ m_id m # ps)" by blast
      with chain_distinct [OF d] show False by fastforce
    qed
    then show "distinct (m # flat_menus n ms (Some (m_id m)))" using Suc.IH [OF c [OF m]] by simp
  next
    fix m m' x
    assume m: "m \<in> set (menu_children ms key)" and m': "m' \<in> set (menu_children ms key)"
      and x: "x \<in> set (m # flat_menus n ms (Some (m_id m)))"
        "x \<in> set (m' # flat_menus n ms (Some (m_id m')))"
    obtain us us' where "chain ms (Some (m_id x)) (us @ m_id m # ps)"
      "chain ms (Some (m_id x)) (us' @ m_id m' # ps)"
      using sub [OF m x(1)] sub [OF m' x(2)] by blast
    from chain_unique [OF d this] have e: "us' @ m_id m' # ps = us @ m_id m # ps" by simp
    then have "length us' = length us" using arg_cong [OF e, of length] by simp
    with e have "m_id m' = m_id m" by simp
    then show "m = m'" using menu_inj [OF d] m m' by (auto simp: set_menu_children)
  qed
qed simp

lemma flat_complete:
  assumes d: "distinct (map m_id ms)" and x: "x \<in> set ms"
  shows "chain ms (Some (m_id x)) (us @ ps) \<Longrightarrow> chain ms key ps \<Longrightarrow> us \<noteq> [] \<Longrightarrow> length us \<le> n \<Longrightarrow>
    x \<in> set (flat_menus n ms key)"
proof (induction n arbitrary: us key ps)
  case (Suc n)
  then obtain vs a where us: "us = vs @ [a]" by (cases us rule: rev_exhaust) auto
  from chain_suffix [OF Suc.prems(1), of a] obtain rs ws
    where rs: "us @ ps = ws @ a # rs" "chain ms (Some a) (a # rs)" unfolding us by auto
  have dis: "distinct (vs @ a # ps)" using chain_distinct [OF d Suc.prems(1)] us by simp
  have "rs = ps"
  proof -
    have "vs @ a # ps = ws @ a # rs" using rs(1) us by simp
    moreover have "a \<notin> set vs" "a \<notin> set ps" using dis by simp_all
    ultimately show ?thesis using append_Cons_eq_iff [of a vs ps ws rs] by blast
  qed
  with rs(2) have c: "chain ms (Some a) (a # ps)" by simp
  then obtain m key' where m: "a = m_id m" "m \<in> set ms" "parent_key ms m = key'" "chain ms key' ps"
    by (auto elim: chain_SomeE)
  have "key' = key"
  proof (cases ps)
    case Nil
    then show ?thesis using m(4) Suc.prems(2) by (auto elim: chain.cases)
  next
    case (Cons q qs)
    then show ?thesis using m(4) Suc.prems(2) by (auto elim: chain.cases)
  qed
  with m have mem: "m \<in> set (menu_children ms key)" by (simp add: set_menu_children)
  show ?case
  proof (cases "vs = []")
    case True
    then have "m_id x = m_id m" using Suc.prems(1) us m(1) by (auto elim: chain_SomeE)
    then have "x = m" using menu_inj [OF d x m(2)] by simp
    with mem show ?thesis by auto
  next
    case False
    have "x \<in> set (flat_menus n ms (Some a))"
      by (rule Suc.IH [of vs "a # ps"]) (use Suc.prems us False c in auto)
    with mem m(1) show ?thesis by auto
  qed
qed simp

lemma chain_exists:
  assumes "finite (parent_rel es)" "acyclic (parent_rel es)"
    and es: "es = map (\<lambda>m. (m_id m, m_parent m)) ms"
  shows "m \<in> set ms \<Longrightarrow> \<exists>ps. chain ms (Some (m_id m)) (m_id m # ps)"
proof -
  have "wf ((parent_rel es)\<inverse>)" using assms(1,2) by (rule finite_acyclic_wf_converse)
  then have "\<forall>m \<in> set ms. m_id m = i \<longrightarrow> (\<exists>ps. chain ms (Some (m_id m)) (m_id m # ps))" for i
  proof (induction i rule: wf_induct_rule)
    case (less i)
    show ?case
    proof (intro ballI impI)
      fix m assume m: "m \<in> set ms" "m_id m = i"
      show "\<exists>ps. chain ms (Some (m_id m)) (m_id m # ps)"
      proof (cases "parent_key ms m")
        case None
        then show ?thesis using m by (intro exI [of _ "[]"]) (auto intro: chain.intros)
      next
        case (Some p)
        then have p: "m_parent m = Some p" "p \<in> set (map m_id ms)"
          by (auto simp: parent_key_def split: option.splits if_splits)
        then obtain q where q: "q \<in> set ms" "m_id q = p" by auto
        have "(p, i) \<in> (parent_rel es)\<inverse>" using m p(1) es by (force simp: parent_rel_def)
        with less q obtain ps where "chain ms (Some p) (p # ps)" by blast
        with Some m show ?thesis by (intro exI [of _ "p # ps"]) (auto intro: chain.down)
      qed
    qed
  qed
  then show "m \<in> set ms \<Longrightarrow> \<exists>ps. chain ms (Some (m_id m)) (m_id m # ps)" by blast
qed

lemma finite_parent_rel: "finite (parent_rel es)"
  by (rule finite_subset [of _ "(\<lambda>e. (fst e, the (snd e))) ` set es"])
    (force simp: parent_rel_def)+

lemma mset_flat_menus:
  assumes d: "distinct (map m_id ms)" and f: "forest (map (\<lambda>m. (m_id m, m_parent m)) ms)"
  shows "mset (flat_menus (Suc (length ms)) ms None) = mset ms"
proof -
  have "m \<in> set (flat_menus (Suc (length ms)) ms None)" if m: "m \<in> set ms" for m
  proof -
    obtain ps where c: "chain ms (Some (m_id m)) (m_id m # ps)"
      using chain_exists [OF finite_parent_rel _ refl m] f by (auto simp: forest_def)
    show ?thesis
      by (rule flat_complete [OF d m, of "m_id m # ps" "[]"])
        (use c chain_length [OF d c] in \<open>auto intro: chain.root\<close>)
  qed
  moreover have "set (flat_menus (Suc (length ms)) ms None) \<subseteq> set ms"
    using flat_chain [OF _ chain.root] by blast
  moreover have "distinct (flat_menus (Suc (length ms)) ms None)"
    by (rule distinct_flat_menus [OF d chain.root])
  moreover have "distinct ms" using d by (simp add: distinct_map)
  ultimately show ?thesis by (metis set_eq_iff_mset_eq_distinct subset_antisym subsetI)
qed

end
