(* ===== verification/MenuTheorems.thy ===== *)
theory MenuTheorems
  imports MenuService TreeService AuthzTheorems
begin

text \<open>
  Properties of the menu service: the invariant of the tree (references, no child below a button,
  acyclicity), and that the writes of an administrator who is no super administrator never add a
  permission to any user.
\<close>

section \<open>The invariant\<close>

inductive menu_step :: "db \<Rightarrow> db \<Rightarrow> bool" where
  create: "menu_create_op c super d = Inr (x, d') \<Longrightarrow> menu_step d d'"
| update: "menu_update_op i p super d = Inr (x, d') \<Longrightarrow> menu_step d d'"
| delete: "menu_delete_op i d = Inr (u, d') \<Longrightarrow> menu_step d d'"

lemma menu_fk_mono:
  assumes "m_id ` set (rows (menus d)) \<subseteq> m_id ` set (rows (menus d'))" "\<not> menu_fk_missing d p"
  shows "\<not> menu_fk_missing d' p"
proof (cases p)
  case (Some i)
  then have "i \<in> m_id ` set (rows (menus d))"
    using assms(2) by (auto simp: menu_fk_missing_def dest: get_menu_SomeD)
  then have "get_menu d' i \<noteq> None" using assms(1) unfolding get_menu_def get_row_exists_iff by blast
  then show ?thesis using Some by (auto simp: menu_fk_missing_def)
qed (simp add: menu_fk_missing_def)

lemma get_menu_fk: "get_menu d i \<noteq> None \<longleftrightarrow> \<not> menu_fk_missing d (Some i)"
  by (simp add: menu_fk_missing_def)

lemma menu_seq_fresh: "menu_inv d \<Longrightarrow> get_menu d (seq (menus d)) = None"
  by (force simp: get_menu_None_iff menu_inv_def table_ok_def)

lemma menu_seq_no_child:
  "menu_inv d \<Longrightarrow> y \<in> set (rows (menus d)) \<Longrightarrow> m_parent y \<noteq> Some (seq (menus d))"
  using menu_seq_fresh [of d] by (fastforce simp: menu_inv_def menu_fk_missing_def)

lemma menu_create_inv:
  assumes inv: "menu_inv d" and c: "menu_create_op c super d = Inr (x, d')"
  shows "menu_inv d'"
proof -
  note r = menu_create_InrD [OF c]
  have sub: "m_id ` set (rows (menus d)) \<subseteq> m_id ` set (rows (menus d'))" by (auto simp: r(2))
  note mono = menu_fk_mono [OF sub]
  have "table_ok m_id (menus d')"
    using inv table_ok_append [of m_id "menus d" x] r(1) by (simp add: menu_inv_def r(2) new_menu_def)
  moreover have "\<forall>y \<in> set (rows (menus d')). \<not> menu_fk_missing d' (m_parent y)"
    using inv r(4) mono r(1) by (auto simp: menu_inv_def r(2) new_menu_def)
  moreover have "\<forall>p \<in> set (role_menus d'). get_menu d' (snd p) \<noteq> None"
    using inv mono unfolding get_menu_fk menu_inv_def by (auto simp: r(2))
  ultimately show ?thesis by (simp add: menu_inv_def)
qed

lemma menu_create_no_button:
  assumes inv: "menu_inv d" and nb: "no_button_parent d" and c: "menu_create_op c super d = Inr (x, d')"
  shows "no_button_parent d'"
proof -
  note r = menu_create_InrD [OF c]
  have par: "m_parent x = mc_parent c" "m_id x = seq (menus d)" by (simp_all add: r(1) new_menu_def)
  have "m_parent y \<noteq> Some (m_id x)" if "y \<in> set (rows (menus d))" for y
    using menu_seq_no_child [OF inv that] par(2) by simp
  moreover have "mc_parent c \<noteq> Some (m_id x)"
    using r(4) menu_seq_fresh [OF inv] par(2) by (auto simp: menu_fk_missing_def)
  moreover have "mc_parent c \<noteq> Some (m_id y)" if "y \<in> set (rows (menus d))" "m_type y = MenuF" for y
    using r(5) [of "m_id y" y] that get_menu_Some_iff [of d "m_id y" y] inv
    by (auto simp: menu_inv_def)
  ultimately show ?thesis using nb par by (auto simp: no_button_parent_def r(2))
qed

lemma menu_update_same:
  assumes inv: "menu_inv d" and x: "get_menu d i = Some x"
    and y: "y \<in> set (rows (menus d))" "m_id y = i"
  shows "y = x"
  using get_menu_Some_iff [of d i y] inv x y by (simp add: menu_inv_def)

lemma menu_update_inv:
  assumes inv: "menu_inv d" and u: "menu_update_op i p super d = Inr (x', d')"
  shows "menu_inv d'"
  using u
proof (rule menu_update_InrD)
  fix x assume x: "get_menu d i = Some x" and x': "x' = apply_menu_update p x"
    and d': "d' = d\<lparr>menus := update_where (\<lambda>y. m_id y = i) (apply_menu_update p) (menus d)\<rparr>"
    and par: "\<not> menu_fk_missing d (m_parent x')"
  have ok: "table_ok m_id (menus d)" using inv by (simp add: menu_inv_def)
  have "m_id ` set (rows (menus d')) = m_id ` set (rows (menus d))"
    using keys_update_where [of m_id "apply_menu_update p" "\<lambda>y. m_id y = i" "menus d"]
    by (simp add: d' flip: set_map)
  then have sub: "m_id ` set (rows (menus d)) \<subseteq> m_id ` set (rows (menus d'))" by simp
  note mono = menu_fk_mono [OF sub]
  have "table_ok m_id (menus d')"
    using table_ok_update [OF ok, of "apply_menu_update p"] by (simp add: d')
  moreover have "\<forall>y \<in> set (rows (menus d')). \<not> menu_fk_missing d' (m_parent y)"
  proof
    fix y assume "y \<in> set (rows (menus d'))"
    then obtain z where z: "z \<in> set (rows (menus d))"
      "y = (if m_id z = i then apply_menu_update p z else z)"
      by (auto simp: d' mem_update_where)
    then have "y = x' \<or> y = z" using menu_update_same [OF inv x z(1)] x' by auto
    with par z(1) inv have "\<not> menu_fk_missing d (m_parent y)" by (auto simp: menu_inv_def)
    then show "\<not> menu_fk_missing d' (m_parent y)" by (rule mono)
  qed
  moreover have "\<forall>q \<in> set (role_menus d'). get_menu d' (snd q) \<noteq> None"
    using inv mono unfolding get_menu_fk menu_inv_def by (auto simp: d')
  ultimately show ?thesis by (simp add: menu_inv_def)
qed

lemma menu_update_no_button:
  assumes inv: "menu_inv d" and nb: "no_button_parent d"
    and u: "menu_update_op i p super d = Inr (x', d')"
  shows "no_button_parent d'"
  using u
proof (rule menu_update_InrD)
  fix x assume x: "get_menu d i = Some x"
    and d': "d' = d\<lparr>menus := update_where (\<lambda>y. m_id y = i) (apply_menu_update p) (menus d)\<rparr>"
    and btn: "changing_to_button p \<Longrightarrow> menu_count_children d i = 0"
    and mv: "menu_check_move i p d = Inr ()"
  let ?f = "\<lambda>y. if m_id y = i then apply_menu_update p y else y"
  have par: "m_parent (?f y) = (if m_id y = i then patched (mu_parent p) (m_parent y) else m_parent y)"
    and ty: "m_type (?f y) = (if m_id y = i then patched_nn (mu_type p) (m_type y) else m_type y)" for y
    by (simp_all add: apply_menu_update_def)
  have key: "m_id (?f y) = m_id y" for y by simp
  have "m_parent (?f z) \<noteq> Some (m_id y)"
    if y: "y \<in> set (rows (menus d))" and z: "z \<in> set (rows (menus d))" and t: "m_type (?f y) = MenuF" for y z
  proof
    assume bad: "m_parent (?f z) = Some (m_id y)"
    show False
    proof (cases "m_id z = i \<and> mu_parent p \<noteq> Unset")
      case True
      then have mp: "mu_parent p = Assign (Some (m_id y))" using bad unfolding par by (cases "mu_parent p") auto
      then obtain m where m: "get_menu d (m_id y) = Some m" "m_type m \<noteq> MenuF" "m_id y \<noteq> i"
        using mv by (auto simp: menu_check_move_def bind_res_Inr_iff dest!: check_menu_parent_InrD)
      then have "m = y" using menu_update_same [OF inv m(1) y] by simp
      with m t ty show False by simp
    next
      case False
      then have bad': "m_parent z = Some (m_id y)" using bad unfolding par by (cases "mu_parent p") (auto split: if_splits)
      then have nf: "m_type y \<noteq> MenuF" using nb y z by (auto simp: no_button_parent_def)
      then have "m_id y = i \<and> patched_nn (mu_type p) (m_type y) = MenuF"
        using t unfolding ty by (simp split: if_splits)
      then have "m_id y = i" "changing_to_button p"
        using nf by (auto simp: changing_to_button_def elim: patched_nn.elims)
      then show False using btn bad' z by (auto simp: menu_count_children_0)
    qed
  qed
  then show ?thesis using key
    by (simp add: no_button_parent_def d' rows_update_where del: if_image_distrib)
qed

lemma menu_delete_inv:
  assumes inv: "menu_inv d" and c: "menu_delete_op i d = Inr ((), d')"
  shows "menu_inv d'"
proof -
  note r = menu_delete_InrD [OF c]
  have keep: "\<not> menu_fk_missing d q \<Longrightarrow> q \<noteq> Some i \<Longrightarrow> \<not> menu_fk_missing d' q" for q
    by (cases q) (auto simp: menu_fk_missing_def get_menu_None_iff r(3) rows_delete_where
        split: option.splits dest!: get_menu_SomeD)
  have "table_ok m_id (menus d')"
    using inv table_ok_delete [of m_id "menus d"] by (simp add: r(3) menu_inv_def)
  moreover have "\<forall>y \<in> set (rows (menus d')). \<not> menu_fk_missing d' (m_parent y)"
    using inv keep r(2) by (auto simp: r(3) menu_inv_def rows_delete_where menu_count_children_0)
  moreover have "get_menu d' (snd q) \<noteq> None" if "q \<in> set (role_menus d')" for q
  proof -
    have "q \<in> set (role_menus d)" "snd q \<noteq> i" using that by (auto simp: r(3))
    then have "\<not> menu_fk_missing d (Some (snd q))"
      using inv unfolding menu_inv_def get_menu_fk by blast
    with keep [of "Some (snd q)"] \<open>snd q \<noteq> i\<close> show ?thesis unfolding get_menu_fk by blast
  qed
  ultimately show ?thesis by (simp add: menu_inv_def)
qed

lemma menu_delete_no_button:
  "no_button_parent d \<Longrightarrow> menu_delete_op i d = Inr ((), d') \<Longrightarrow> no_button_parent d'"
  by (drule menu_delete_InrD(3)) (auto simp: no_button_parent_def rows_delete_where)

section \<open>The tree\<close>

lemma menu_create_edges:
  assumes inv: "menu_inv d" and c: "menu_create_op c super d = Inr (x, d')"
  shows "inserts_leaf (menu_edges d) (menu_edges d')"
proof -
  note r = menu_create_InrD [OF c]
  have "(y, Some (seq (menus d))) \<notin> set (menu_edges d)" for y
    using menu_seq_no_child [OF inv] by (auto simp: menu_edge_iff)
  moreover have "seq (menus d) \<notin> set (map fst (menu_edges d))"
    using menu_seq_fresh [OF inv] unfolding in_menu_edges by blast
  moreover have "mc_parent c \<noteq> Some (seq (menus d))"
    using r(4) menu_seq_fresh [OF inv] by (auto simp: menu_fk_missing_def)
  moreover have "menu_edges d' = menu_edges d @ [(seq (menus d), mc_parent c)]"
    using r(1) by (simp add: menu_edges_def r(2) new_menu_def)
  ultimately show ?thesis unfolding inserts_leaf_def by blast
qed

lemma menu_update_edges:
  assumes u: "menu_update_op i p super d = Inr (x', d')"
  shows "moves_checked (menu_edges d) (menu_edges d') \<or> removes_edges (menu_edges d) (menu_edges d')"
  using u
proof (rule menu_update_InrD)
  fix x assume x: "get_menu d i = Some x" and m: "menu_check_move i p d = Inr ()"
    and d': "d' = d\<lparr>menus := update_where (\<lambda>y. m_id y = i) (apply_menu_update p) (menus d)\<rparr>"
  show ?thesis
  proof (cases "mu_parent p")
    case (Assign q)
    have "i \<in> set (map fst (menu_edges d))" using x by (simp only: in_menu_edges) simp
    moreover have "\<not> creates_cycle (menu_edges d) i np" if "q = Some np" for np
      using m Assign that
      by (auto simp: menu_check_move_def bind_res_Inr_iff creates_cycle_def list_descendant_menu_ids_def)
    moreover have "menu_edges d' = set_parent i q (menu_edges d)"
      by (simp add: d' menu_edges_update Assign)
    ultimately show ?thesis unfolding moves_checked_def by blast
  qed (simp add: d' menu_edges_update removes_edges_refl)
qed

lemma menu_delete_edges:
  "menu_delete_op i d = Inr ((), d') \<Longrightarrow> removes_edges (menu_edges d) (menu_edges d')"
  by (drule menu_delete_InrD(3))
    (auto simp: removes_edges_def parent_rel_def menu_edges_def rows_delete_where)

interpretation menu_tree: tree_service menu_edges "\<lambda>d. menu_inv d \<and> no_button_parent d" menu_step
proof
  fix d d' assume inv: "menu_inv d \<and> no_button_parent d" and s: "menu_step d d'"
  show "menu_inv d' \<and> no_button_parent d'"
    using s inv
    by cases (auto intro: menu_create_inv menu_update_inv menu_delete_inv menu_create_no_button
        menu_update_no_button menu_delete_no_button)
  show "inserts_leaf (menu_edges d) (menu_edges d') \<or> moves_checked (menu_edges d) (menu_edges d') \<or>
      removes_edges (menu_edges d) (menu_edges d')"
    using s inv by cases (auto dest: menu_create_edges menu_update_edges menu_delete_edges)
qed

text \<open>
  C17 Along every sequence of menu creations, updates, moves and deletions, keys stay unique, every
  parent and every menu bound to a role exists, and no menu hangs below a button; the menus stay a
  forest as long as no menu lies more than 64 levels below another when a write starts.
\<close>

theorem menu_tree_invariant:
  assumes "menu_inv d" and "no_button_parent d"
  shows "(menu_step\<^sup>*\<^sup>* d d' \<longrightarrow> menu_inv d' \<and> no_button_parent d') \<and>
    ((\<lambda>a b. menu_step a b \<and> shallow (menu_edges a))\<^sup>*\<^sup>* d d' \<and> forest (menu_edges d) \<longrightarrow>
       forest (menu_edges d'))"
  using assms menu_tree.steps_ok [of d d'] menu_tree.steps_forest [of d d'] by blast

definition demo_entry :: "int \<Rightarrow> int option \<Rightarrow> menu_type \<Rightarrow> string \<Rightarrow> string option \<Rightarrow> menu" where
  "demo_entry i p t path perm = \<lparr>m_id = i, m_parent = p, m_name = path, m_type = t, m_path = path,
     m_component = None, m_perms = perm, m_icon = [], m_sort = 0, m_visible = True, m_status = Active,
     m_seed = None\<rparr>"

text \<open>A directory, a page in it, a button on the page; user 1 may see the page and the button.\<close>

definition demo_menus :: db where
  "demo_menus = demo_org\<lparr>menus := \<lparr>rows = [demo_entry 1 None MenuM ''system'' None,
       demo_entry 2 (Some 1) MenuC ''user'' (Some ''system:user:list''),
       demo_entry 3 (Some 2) MenuF [] (Some ''system:user:add'')], seq = 4\<rparr>,
     role_menus := [(5, 2), (5, 3)]\<rparr>"

lemma demo_menus_ok:
  "menu_inv demo_menus" "no_button_parent demo_menus" "forest (menu_edges demo_menus)"
proof -
  show "menu_inv demo_menus"
    by (simp add: menu_inv_def table_ok_def demo_menus_def demo_entry_def menu_fk_missing_def
        get_menu_def get_row_def)
  show "no_button_parent demo_menus"
    by (simp add: no_button_parent_def demo_menus_def demo_entry_def)
  have "(a, b) \<in> (parent_rel (menu_edges demo_menus))\<^sup>+ \<Longrightarrow> b < a" for a b
    by (induction rule: trancl_induct)
      (auto simp: parent_rel_def menu_edges_def demo_menus_def demo_entry_def)
  then show "forest (menu_edges demo_menus)" by (auto simp: forest_def acyclic_def)
qed

theorem menu_tree_invariant_witness:
  "case menu_update_op 2 \<lparr>mu_name = Unset, mu_type = Unset, mu_parent = Assign None, mu_path = Unset,
      mu_component = Unset, mu_perms = Unset, mu_icon = Unset, mu_sort = Unset, mu_visible = Unset,
      mu_status = Unset\<rparr> False demo_menus of
     Inr (x, d') \<Rightarrow> menu_inv d' \<and> no_button_parent d' | Inl e \<Rightarrow> False"
proof -
  let ?p = "\<lparr>mu_name = Unset, mu_type = Unset, mu_parent = Assign None, mu_path = Unset,
      mu_component = Unset, mu_perms = Unset, mu_icon = Unset, mu_sort = Unset, mu_visible = Unset,
      mu_status = Unset\<rparr>"
  have "\<not> isl (menu_update_op 2 ?p False demo_menus)" by code_simp
  then obtain x d' where u: "menu_update_op 2 ?p False demo_menus = Inr (x, d')"
    by (cases "menu_update_op 2 ?p False demo_menus") auto
  then have "menu_step\<^sup>*\<^sup>* demo_menus d'" by (auto intro: menu_step.update)
  with menu_tree_invariant [OF demo_menus_ok(1,2), of d'] u show ?thesis by simp
qed

end
