(* ===== verification/RoutingTheorems.thy ===== *)
theory RoutingTheorems
  imports MenuRouting MenuTheorems
begin

text \<open>
  Properties of the menu forest and of the routes built from it: every visible menu appears exactly
  once, and only buttons are left out of the routes.
\<close>

section \<open>Routes of a forest\<close>

type_synonym route_info = "string \<times> string \<times> bool \<times> string option"

definition route_info :: "router \<Rightarrow> route_info" where
  "route_info r = (me_title (ro_meta r), me_icon (ro_meta r), ro_hidden r, me_link (ro_meta r))"

definition menu_info :: "menu \<Rightarrow> route_info" where
  "menu_info m =
     (m_name m, m_icon m, \<not> m_visible m, if external (m_path m) then Some (m_path m) else None)"

lemma all_routes_node_of [simp]:
  "map route_info (all_routes (to_router b (node_of m ch))) =
     menu_info m # map route_info (concat (map all_routes (map (to_router False)
       (filter (\<lambda>c. mn_type c \<noteq> MenuF) ch))))"
  by (simp add: node_of_def Let_def route_info_def menu_info_def route_meta_def)

lemma routes_flat:
  assumes nb: "\<And>m. m \<in> set ms \<Longrightarrow> m_type m = MenuF \<Longrightarrow> menu_children ms (Some (m_id m)) = []"
  shows "map route_info (concat (map all_routes (map (to_router b)
       (filter (\<lambda>c. mn_type c \<noteq> MenuF) (build n ms key))))) =
     map menu_info (filter (\<lambda>m. m_type m \<noteq> MenuF) (flat_menus n ms key))"
proof (induction n arbitrary: key b)
  case (Suc n)
  have "map route_info (concat (map all_routes (map (to_router b) (filter (\<lambda>c. mn_type c \<noteq> MenuF)
        (map (\<lambda>m. node_of m (build n ms (Some (m_id m)))) xs))))) =
      map menu_info (filter (\<lambda>m. m_type m \<noteq> MenuF)
        (concat (map (\<lambda>m. m # flat_menus n ms (Some (m_id m))) xs)))"
    if "set xs \<subseteq> set ms" for xs
    using that
  proof (induction xs)
    case (Cons m xs)
    have "flat_menus n ms (Some (m_id m)) = []" if "m_type m = MenuF"
      using nb [of m] that Cons.prems by (cases n) auto
    with Cons show ?case by (simp add: Suc.IH [unfolded map_map])
  qed simp
  from this [of "menu_children ms key"] show ?case by (simp add: set_menu_children)
qed simp

section \<open>The tree of a user\<close>

lemma set_visible_menus:
  "m \<in> set (visible_menus d uid) \<longleftrightarrow> m \<in> set (rows (menus d)) \<and> m_status m = Active \<and>
     db_is_active d uid \<and> (db_is_super_admin d uid \<or> m_id m \<in> list_menu_ids_for_user d uid)"
  by (auto simp: visible_menus_def list_all_active_def list_active_by_ids_def menu_order_def
      db_is_active_def db_is_super_admin_def split: option.splits)

lemma distinct_visible_menus:
  assumes "menu_inv d"
  shows "distinct (map m_id (visible_menus d uid))"
proof -
  have "distinct (map m_id (menu_order xs)) \<longleftrightarrow> distinct (map m_id xs)" for xs
    unfolding menu_order_def by (metis mset_sort mset_map mset_eq_imp_distinct_iff)
  then show ?thesis using assms
    by (auto simp: visible_menus_def list_all_active_def list_active_by_ids_def menu_inv_def
        table_ok_def distinct_map_filter split: option.splits)
qed

lemma visible_menus_forest:
  assumes "forest (menu_edges d)"
  shows "forest (map (\<lambda>m. (m_id m, m_parent m)) (visible_menus d uid))"
  using assms by (rule forest_sub) (auto simp: parent_rel_def menu_edges_def set_visible_menus)

lemma visible_buttons_childless:
  assumes "no_button_parent d" "m \<in> set (visible_menus d uid)" "m_type m = MenuF"
  shows "menu_children (visible_menus d uid) (Some (m_id m)) = []"
proof -
  have "parent_key (visible_menus d uid) y \<noteq> Some (m_id m)" if "y \<in> set (visible_menus d uid)" for y
    using assms that
    by (auto simp: parent_key_def no_button_parent_def set_visible_menus split: option.splits if_splits)
  then have "set (menu_children (visible_menus d uid) (Some (m_id m))) = {}"
    unfolding set_menu_children by blast
  then show ?thesis by simp
qed

text \<open>
  C18 The menu forest of a user holds exactly the active menus that are bound to one of the user's
  active roles (all active menus for a super administrator, none for a disabled account), each
  exactly once even where its parent is hidden from the user; the routes built from it hold
  exactly those menus that are no buttons.
\<close>

theorem menu_tree_complete:
  assumes "menu_inv d" and "no_button_parent d" and "forest (menu_edges d)"
  shows "(m \<in> set (visible_menus d uid) \<longleftrightarrow> m \<in> set (rows (menus d)) \<and> m_status m = Active \<and>
        db_is_active d uid \<and> (db_is_super_admin d uid \<or> m_id m \<in> list_menu_ids_for_user d uid)) \<and>
    mset (map mn_id (concat (map all_nodes (get_user_menu_tree d uid)))) =
      mset (map m_id (visible_menus d uid)) \<and>
    mset (map route_info (concat (map all_routes (build_routers (get_user_menu_tree d uid))))) =
      mset (map menu_info (filter (\<lambda>m. m_type m \<noteq> MenuF) (visible_menus d uid)))"
proof -
  let ?ms = "visible_menus d uid"
  note flat = mset_flat_menus [OF distinct_visible_menus [OF assms(1), of uid]
      visible_menus_forest [OF assms(3)]]
  have "mset (map mn_id (concat (map all_nodes (get_user_menu_tree d uid)))) = mset (map m_id ?ms)"
    unfolding get_user_menu_tree_def assemble_menu_forest_def build_nodes_flat
    by (simp only: mset_map flat)
  moreover have "mset (map route_info (concat (map all_routes (build_routers (get_user_menu_tree d uid))))) =
      mset (map menu_info (filter (\<lambda>m. m_type m \<noteq> MenuF) ?ms))"
    unfolding get_user_menu_tree_def assemble_menu_forest_def build_routers_def
    by (subst routes_flat) (simp_all only: mset_map mset_filter flat visible_buttons_childless [OF assms(2)])
  ultimately show ?thesis using set_visible_menus [of m d uid] by blast
qed

theorem menu_tree_complete_witness:
  "mset (map mn_id (concat (map all_nodes (get_user_menu_tree demo_menus 1)))) = mset [2, 3]"
proof -
  have "map m_id (visible_menus demo_menus 1) = [2, 3]" by code_simp
  with menu_tree_complete [OF demo_menus_ok, of _ 1] show ?thesis by simp
qed

end
