(* ===== verification/Crud.thy ===== *)
theory Crud
  imports Prelude
begin

text \<open>
  The contract shared by the CRUD services over a table with a unique column (roles, posts, users,
  configs, dictionary types, departments): what a successful creation, update or deletion does to
  the table, and what follows for later reads.  \<open>creates x d d'\<close> says that some creation succeeded
  with the row \<open>x\<close>, and likewise for the others; a table without a unique column takes its key.
\<close>

definition coded_ok :: "('r \<Rightarrow> int) \<Rightarrow> ('r \<Rightarrow> 'c) \<Rightarrow> 'r table \<Rightarrow> bool" where
  "coded_ok key code t \<longleftrightarrow> table_ok key t \<and> distinct (map code (rows t))"

definition appended :: "'r \<Rightarrow> 'r table \<Rightarrow> 'r table" where
  "appended x t = t\<lparr>rows := rows t @ [x], seq := seq t + 1\<rparr>"

lemma rows_appended [table_simps, simp]:
  "rows (appended x t) = rows t @ [x]" "seq (appended x t) = seq t + 1"
  by (simp_all add: appended_def)

lemma insert_row_appended: "insert_row mk t = (mk (seq t), appended (mk (seq t)) t)"
  by (simp add: insert_row_def appended_def)

lemma coded_ok_appended:
  assumes "coded_ok key code t" "key x = seq t" "code x \<notin> code ` set (rows t)"
  shows "coded_ok key code (appended x t)"
  using assms by (auto simp: coded_ok_def table_ok_def)

lemma coded_ok_updated:
  assumes ok: "coded_ok key code t" and k: "\<And>y. key (f y) = key y"
    and x: "get_row key t i = Some y" and c: "\<forall>z \<in> set (rows t). key z \<noteq> i \<longrightarrow> code z \<noteq> code (f y)"
  shows "coded_ok key code (update_where (\<lambda>z. key z = i) f t)"
proof -
  have t: "table_ok key t" using ok by (simp add: coded_ok_def)
  have same: "z = y" if "z \<in> set (rows t)" "key z = i" for z
    using get_row_Some_iff [OF t, of i z] that x by simp
  have "distinct (map code (map (\<lambda>z. if key z = i then f z else z) (rows t)))"
    using ok k c same
    by (intro distinct_codes_update [where c = "code (f y)" and code = code and key = key])
      (auto simp: coded_ok_def table_ok_def)
  then show ?thesis using table_ok_update [OF t k] by (simp add: coded_ok_def rows_update_where)
qed

lemma coded_ok_deleted: "coded_ok key code t \<Longrightarrow> coded_ok key code (delete_where p t)"
  by (auto simp: coded_ok_def rows_delete_where distinct_map_filter intro: table_ok_delete)

lemma get_row_appended:
  assumes "table_ok key t" "key x = seq t"
  shows "get_row key (appended x t) j = (if j = key x then Some x else get_row key t j)"
proof -
  have "find (\<lambda>r. key r = j) (rows t @ [x]) =
      (case find (\<lambda>r. key r = j) (rows t) of None \<Rightarrow> if key x = j then Some x else None | Some r \<Rightarrow> Some r)"
    for j
  proof -
    have "find P (xs @ [x]) = (case find P xs of None \<Rightarrow> if P x then Some x else None | Some r \<Rightarrow> Some r)"
      for P xs by (induction xs) auto
    then show ?thesis by simp
  qed
  moreover have "find (\<lambda>r. key r = key x) (rows t) = None"
    using assms by (force simp: table_ok_def find_None_iff)
  ultimately show ?thesis
    by (auto simp: get_row_def split: option.splits)
qed

lemma get_row_updated:
  assumes k: "\<And>y. key (f y) = key y"
  shows "get_row key (update_where (\<lambda>z. key z = i) f t) j =
    (if j = i then map_option f (get_row key t i) else get_row key t j)"
proof -
  have "find (\<lambda>r. key r = j) (map (\<lambda>z. if key z = i then f z else z) xs) =
      (if j = i then map_option f (find (\<lambda>r. key r = i) xs) else find (\<lambda>r. key r = j) xs)" for xs
    using k by (induction xs) auto
  then show ?thesis by (simp add: get_row_def rows_update_where)
qed

lemma get_row_deleted:
  "get_row key (delete_where (\<lambda>z. key z = i) t) j = (if j = i then None else get_row key t j)"
proof -
  have "find (\<lambda>r. key r = j) (filter (\<lambda>z. key z \<noteq> i) xs) =
      (if j = i then None else find (\<lambda>r. key r = j) xs)" for xs
    by (induction xs) auto
  then show ?thesis by (simp add: get_row_def rows_delete_where)
qed

text \<open>A row whose unique column stays shares it with no other row.\<close>

lemma code_kept:
  assumes "coded_ok key code t" "get_row key t i = Some y" "code x = code y"
    and "z \<in> set (rows t)" "key z \<noteq> i"
  shows "code z \<noteq> code x"
proof
  assume "code z = code x"
  moreover have "y \<in> set (rows t)" "key y = i" using get_row_SomeD [OF assms(2)] by auto
  ultimately show False using assms by (auto simp: coded_ok_def distinct_map inj_on_def)
qed

text \<open>Looking a row up by its unique column.\<close>

lemma find_code_appended:
  "code x \<notin> code ` set xs \<Longrightarrow>
     find (\<lambda>r. code r = k) (xs @ [x]) = (if k = code x then Some x else find (\<lambda>r. code r = k) xs)"
  by (induction xs) auto

lemma find_code_updated:
  "(\<And>y. code (f y) = code y) \<Longrightarrow>
     find (\<lambda>r. code r = k) (map (\<lambda>y. if P y then f y else y) xs) =
       map_option (\<lambda>y. if P y then f y else y) (find (\<lambda>r. code r = k) xs)"
  by (induction xs) auto

lemma find_code_deleted:
  assumes "\<forall>y \<in> set xs. key y = i \<longleftrightarrow> code y = c"
  shows "find (\<lambda>r. code r = k) (filter (\<lambda>y. key y \<noteq> i) xs) =
    (if k = c then None else find (\<lambda>r. code r = k) xs)"
  using assms by (induction xs) auto

locale crud =
  fixes tbl :: "'s \<Rightarrow> 'r table"
    and key :: "'r \<Rightarrow> int"
    and code :: "'r \<Rightarrow> 'c"
    and creates :: "'r \<Rightarrow> 's \<Rightarrow> 's \<Rightarrow> bool"
    and updates :: "int \<Rightarrow> 'r \<Rightarrow> 's \<Rightarrow> 's \<Rightarrow> bool"
    and deletes :: "int \<Rightarrow> 's \<Rightarrow> 's \<Rightarrow> bool"
  assumes create_law: "coded_ok key code (tbl d) \<Longrightarrow> creates x d d' \<Longrightarrow>
      key x = seq (tbl d) \<and> code x \<notin> code ` set (rows (tbl d)) \<and> tbl d' = appended x (tbl d)"
    and update_law: "coded_ok key code (tbl d) \<Longrightarrow> updates i x d d' \<Longrightarrow>
      \<exists>f y. (\<forall>z. key (f z) = key z) \<and> get_row key (tbl d) i = Some y \<and> x = f y \<and>
        tbl d' = update_where (\<lambda>z. key z = i) f (tbl d) \<and>
        (\<forall>z \<in> set (rows (tbl d)). key z \<noteq> i \<longrightarrow> code z \<noteq> code x)"
    and delete_law: "coded_ok key code (tbl d) \<Longrightarrow> deletes i d d' \<Longrightarrow>
      get_row key (tbl d) i \<noteq> None \<and> tbl d' = delete_where (\<lambda>z. key z = i) (tbl d)"
begin

lemma create_ok: "coded_ok key code (tbl d) \<Longrightarrow> creates x d d' \<Longrightarrow> coded_ok key code (tbl d')"
  using create_law coded_ok_appended by metis

lemma update_ok:
  assumes "coded_ok key code (tbl d)" "updates i x d d'"
  shows "coded_ok key code (tbl d')"
proof -
  from update_law [OF assms] obtain f y where u: "\<And>z. key (f z) = key z"
    "get_row key (tbl d) i = Some y" "x = f y" "tbl d' = update_where (\<lambda>z. key z = i) f (tbl d)"
    "\<forall>z \<in> set (rows (tbl d)). key z \<noteq> i \<longrightarrow> code z \<noteq> code x" by blast
  show ?thesis unfolding u(4) by (rule coded_ok_updated [OF assms(1) u(1,2)]) (use u(3,5) in simp)
qed

lemma delete_ok: "coded_ok key code (tbl d) \<Longrightarrow> deletes i d d' \<Longrightarrow> coded_ok key code (tbl d')"
  using delete_law coded_ok_deleted by metis

lemma write_ok:
  "coded_ok key code (tbl d) \<Longrightarrow> creates x d d' \<or> updates i x d d' \<or> deletes i d d' \<Longrightarrow>
     coded_ok key code (tbl d')"
  using create_ok update_ok delete_ok by blast

lemma get_created:
  assumes "coded_ok key code (tbl d)" "creates x d d'"
  shows "get_row key (tbl d) (key x) = None" and
    "get_row key (tbl d') j = (if j = key x then Some x else get_row key (tbl d) j)"
proof -
  note l = create_law [OF assms]
  show "get_row key (tbl d) (key x) = None"
    using l assms(1) by (force simp: get_row_None_iff coded_ok_def table_ok_def)
  show "get_row key (tbl d') j = (if j = key x then Some x else get_row key (tbl d) j)"
    using l assms(1) get_row_appended [of key "tbl d" x j] by (simp add: coded_ok_def)
qed

lemma get_updated:
  assumes "coded_ok key code (tbl d)" "updates i x d d'"
  shows "get_row key (tbl d) i \<noteq> None" and "key x = i" and
    "get_row key (tbl d') j = (if j = i then Some x else get_row key (tbl d) j)"
proof -
  from update_law [OF assms] obtain f y where u: "\<And>z. key (f z) = key z"
    "get_row key (tbl d) i = Some y" "x = f y" "tbl d' = update_where (\<lambda>z. key z = i) f (tbl d)" by blast
  show "get_row key (tbl d) i \<noteq> None" using u(2) by simp
  show "key x = i" using u(1,3) get_row_SomeD [OF u(2)] by simp
  show "get_row key (tbl d') j = (if j = i then Some x else get_row key (tbl d) j)"
    unfolding u(4) using get_row_updated [of key f i "tbl d" j] u(1,2,3) by simp
qed

lemma get_deleted:
  assumes "coded_ok key code (tbl d)" "deletes i d d'"
  shows "get_row key (tbl d) i \<noteq> None" and
    "get_row key (tbl d') j = (if j = i then None else get_row key (tbl d) j)"
  using delete_law [OF assms] get_row_deleted [of key i "tbl d" j] by simp_all

end

end
