(* ===== verification/Excel.thy ===== *)
theory Excel
  imports PyText Decimal
begin

text \<open>
  \<^verbatim>\<open>excel/reader.py\<close>, \<^verbatim>\<open>excel/schemas.py\<close>, \<^verbatim>\<open>excel/writer.py\<close>: the check of the zip directory, the
  row-wise import and the text of exported cells.  \<^verbatim>\<open>openpyxl\<close> and \<^verbatim>\<open>zipfile\<close> are parameters: a
  file is the list of its zip entries (\<open>None\<close> for a bad zip) and the \<open>workbook\<close> that opening it
  gives, a cell the \<^verbatim>\<open>str\<close> of its value or \<open>None\<close>.  \<open>broken\<close> says that reading on behind the
  listed rows raises.  Error messages are display data.  Python compares the compression ratio as a
  float, the model exactly; below \<open>2 ^ 46\<close> bytes the two agree.  Characters are code points below
  256, so U+FFFE and U+FFFF do not occur.
\<close>

record excel_column =
  ec_field :: string
  ec_header :: string
  ec_required :: bool

record row_error =
  er_row :: int
  er_column :: "string option"
  er_code :: string

record 'a import_result =
  ir_rows :: "(int \<times> 'a) list"
  ir_errors :: "row_error list"

type_synonym cell = "string option"

datatype workbook = BadWorkbook | NoSheet | Sheet (sheet_rows: "cell list option list") (broken: bool)

record excel_file =
  xf_zip :: "(int \<times> int) list option"
  xf_book :: workbook

record excel_limits =
  xl_rows :: int
  xl_bytes :: int
  xl_entries :: int
  xl_ratio :: int

section \<open>The zip directory\<close>

fun zip_scan :: "excel_limits \<Rightarrow> int \<Rightarrow> (int \<times> int) list \<Rightarrow> bool" where
  "zip_scan L acc [] = True"
| "zip_scan L acc ((file_size, compress_size) # infos) =
     (if acc + file_size > xl_bytes L then False
      else if file_size > xl_ratio L * max compress_size 1 then False
      else zip_scan L (acc + file_size) infos)"

definition guard_zip_bomb :: "excel_limits \<Rightarrow> excel_file \<Rightarrow> bool" where
  "guard_zip_bomb L f =
     (case xf_zip f of
        None \<Rightarrow> True
      | Some infos \<Rightarrow> int (length infos) \<le> xl_entries L \<and> zip_scan L 0 infos)"

section \<open>Rows\<close>

definition canonical_in :: "cell \<Rightarrow> string" where
  "canonical_in v = (case v of None \<Rightarrow> [] | Some s \<Rightarrow> py_strip s)"

text \<open>The position of a header; a repeated header counts where it stands last.\<close>

fun header_map :: "nat \<Rightarrow> cell list \<Rightarrow> string \<Rightarrow> nat option" where
  "header_map i [] h = None"
| "header_map i (c # cs) h =
     (case header_map (Suc i) cs h of
        Some j \<Rightarrow> Some j
      | None \<Rightarrow> (case c of None \<Rightarrow> None | Some s \<Rightarrow> if py_strip s = h then Some i else None))"

definition row_cell :: "cell list \<Rightarrow> cell list \<Rightarrow> string \<Rightarrow> cell" where
  "row_cell header raw h =
     (case header_map 0 header h of
        None \<Rightarrow> None
      | Some i \<Rightarrow> if i < length raw then raw ! i else None)"

definition row_data :: "excel_column list \<Rightarrow> cell list \<Rightarrow> cell list \<Rightarrow> (string \<times> string) list" where
  "row_data cols header raw =
     concat (map (\<lambda>c. let v = canonical_in (row_cell header raw (ec_header c))
                      in if v = [] \<and> \<not> ec_required c then [] else [(ec_field c, v)]) cols)"

definition header_of :: "excel_column list \<Rightarrow> string \<Rightarrow> string option" where
  "header_of cols field = map_option ec_header (find (\<lambda>c. ec_field c = field) cols)"

definition row_errors :: "excel_column list \<Rightarrow> int \<Rightarrow> string list \<Rightarrow> row_error list" where
  "row_errors cols i flds =
     map (\<lambda>f. \<lparr>er_row = i, er_column = header_of cols f, er_code = ''VALIDATION''\<rparr>) flds"

text \<open>
  \<open>validate\<close> gives a value or the fields in error.  The flag of the result says whether all rows
  were read (and the reader went on behind them).
\<close>

fun parse_rows ::
    "((string \<times> string) list \<Rightarrow> string list + 'a) \<Rightarrow> excel_column list \<Rightarrow> int \<Rightarrow> cell list \<Rightarrow> int
      \<Rightarrow> cell list option list \<Rightarrow> (int \<times> 'a) list \<times> row_error list \<times> bool" where
  "parse_rows validate cols limit header i [] = ([], [], True)"
| "parse_rows validate cols limit header i (r # rs) =
     (if i - 1 > limit then ([], [\<lparr>er_row = i, er_column = None, er_code = ''TOO_MANY_ROWS''\<rparr>], False)
      else (case parse_rows validate cols limit header (i + 1) rs of (xs, es, fin) \<Rightarrow>
        (case r of
           None \<Rightarrow> (xs, es, fin)
         | Some raw \<Rightarrow>
             if list_all (\<lambda>c. c = None) raw then (xs, es, fin)
             else (case validate (row_data cols header raw) of
                     Inl flds \<Rightarrow> (xs, row_errors cols i flds @ es, fin)
                   | Inr x \<Rightarrow> ((i, x) # xs, es, fin)))))"

definition one_error :: "string option \<Rightarrow> string \<Rightarrow> 'a import_result" where
  "one_error column code = \<lparr>ir_rows = [], ir_errors = [\<lparr>er_row = 1, er_column = column, er_code = code\<rparr>]\<rparr>"

definition parse_sheet ::
    "((string \<times> string) list \<Rightarrow> string list + 'a) \<Rightarrow> excel_column list \<Rightarrow> int
      \<Rightarrow> cell list option list \<Rightarrow> bool \<Rightarrow> 'a import_result" where
  "parse_sheet validate cols limit rs bad =
     (case rs of
        [] \<Rightarrow> one_error None (if bad then ''INVALID_FILE'' else ''EMPTY'')
      | None # _ \<Rightarrow> one_error None ''EMPTY''
      | Some header # rest \<Rightarrow>
          (let missing = filter (\<lambda>c. header_map 0 header (ec_header c) = None) cols
           in if missing \<noteq> []
              then \<lparr>ir_rows = [], ir_errors = map (\<lambda>c. \<lparr>er_row = 1, er_column = Some (ec_header c),
                      er_code = ''MISSING_COLUMN''\<rparr>) missing\<rparr>
              else (case parse_rows validate cols limit header 2 rest of (xs, es, fin) \<Rightarrow>
                if fin \<and> bad then one_error None ''INVALID_FILE''
                else \<lparr>ir_rows = xs, ir_errors = es\<rparr>)))"

text \<open>\<open>None\<close> is \<^verbatim>\<open>ExcelTooLargeError\<close>.\<close>

definition excel_parse ::
    "((string \<times> string) list \<Rightarrow> string list + 'a) \<Rightarrow> excel_column list \<Rightarrow> excel_limits \<Rightarrow> excel_file
      \<Rightarrow> 'a import_result option" where
  "excel_parse validate cols L f =
     (if \<not> guard_zip_bomb L f then None
      else Some (case xf_book f of
        BadWorkbook \<Rightarrow> one_error None ''INVALID_FILE''
      | NoSheet \<Rightarrow> one_error None ''EMPTY''
      | Sheet rs bad \<Rightarrow> parse_sheet validate cols (xl_rows L) rs bad))"

section \<open>Exported cells\<close>

definition illegal_char :: "char \<Rightarrow> bool" where
  "illegal_char c \<longleftrightarrow> (let n = (of_char c :: nat) in n \<le> 8 \<or> n = 11 \<or> n = 12 \<or> 14 \<le> n \<and> n \<le> 31)"

definition formula_trigger :: "char \<Rightarrow> bool" where
  "formula_trigger c \<longleftrightarrow> c \<in> set [CHR ''='', CHR ''+'', CHR ''-'', CHR ''@'', CHR 0x09, CHR 0x0D, CHR 0x0A]"

definition canonical_out :: "string \<Rightarrow> string" where
  "canonical_out v =
     (let text = filter (\<lambda>c. \<not> illegal_char c) v
      in case text of
           [] \<Rightarrow> []
         | c # _ \<Rightarrow> if formula_trigger c then CHR 0x27 # text else text)"

text \<open>The rows appended to the sheet: the headers, then one row per record.\<close>

definition excel_write :: "excel_column list \<Rightarrow> (string \<Rightarrow> string) list \<Rightarrow> string list list" where
  "excel_write cols records =
     map ec_header cols # map (\<lambda>r. map (\<lambda>c. canonical_out (r (ec_field c))) cols) records"

section \<open>Facts\<close>

text \<open>Text that an export and a later import leave as it is.\<close>

definition plain_cell :: "string \<Rightarrow> bool" where
  "plain_cell s \<longleftrightarrow> s \<noteq> [] \<and> list_all (\<lambda>c. \<not> illegal_char c) s \<and> \<not> formula_trigger (hd s) \<and> py_strip s = s"

lemma canonical_out_plain: "plain_cell s \<Longrightarrow> canonical_out s = s"
proof -
  assume p: "plain_cell s"
  then have "filter (\<lambda>c. \<not> illegal_char c) s = s" by (simp add: plain_cell_def list_all_iff filter_id_conv)
  with p show ?thesis by (cases s) (auto simp: canonical_out_def plain_cell_def)
qed

lemma export_never_formula:
  assumes "canonical_out v = c # cs"
  shows "\<not> formula_trigger c"
proof -
  have "\<not> formula_trigger (CHR 0x27)" by (simp add: formula_trigger_def)
  with assms show ?thesis
    by (auto simp: canonical_out_def Let_def split: list.splits if_splits)
qed

lemma export_legal: "c \<in> set (canonical_out v) \<Longrightarrow> \<not> illegal_char c"
proof -
  have q: "\<not> illegal_char (CHR 0x27)" by (simp add: illegal_char_def)
  assume c: "c \<in> set (canonical_out v)"
  let ?t = "filter (\<lambda>c. \<not> illegal_char c) v"
  have "canonical_out v = ?t \<or> canonical_out v = CHR 0x27 # ?t"
    by (cases ?t) (auto simp: canonical_out_def Let_def)
  then show ?thesis using c q by auto
qed

lemma zip_scan_bounds:
  "zip_scan L acc infos \<Longrightarrow> \<forall>(f, c) \<in> set infos. f \<le> xl_ratio L * max c 1"
  by (induction L acc infos rule: zip_scan.induct) (auto split: if_splits)

lemma zip_scan_total:
  "zip_scan L acc infos \<Longrightarrow> infos \<noteq> [] \<Longrightarrow> acc + sum_list (map fst infos) \<le> xl_bytes L"
proof (induction L acc infos rule: zip_scan.induct)
  case (2 L acc f c infos)
  then show ?case by (cases infos) (auto split: if_splits simp: add.assoc)
qed simp

end
