(* ===== verification/PostService.thy ===== *)
theory PostService
  imports Schema Paging Crud Excel
begin

text \<open>
  \<^verbatim>\<open>domains/post\<close>: posts (job positions), their CRUD service, the Excel import (all or nothing,
  with every row error reported) and the Excel export.  Pydantic's conversion of a string to an
  integer is the parameter \<open>to_int\<close>; the other constraints of \<^verbatim>\<open>PostCreate\<close> are \<open>post_validate\<close>.
\<close>

record post_create =
  pc_name :: string
  pc_code :: string
  pc_sort :: int
  pc_status :: status

record post_update =
  pu_name :: "string option patch"
  pu_code :: "string option patch"
  pu_sort :: "int option patch"
  pu_status :: "status option patch"

record post_query =
  pq_code :: "string option"
  pq_name :: "string option"
  pq_status :: "status option"
  pq_order_by :: "string option"
  pq_order :: sort_dir

definition post_not_found :: exn where "post_not_found = AppErr ''post.NOT_FOUND'' 404"
definition post_duplicate :: exn where "post_duplicate = AppErr ''post.CODE_DUPLICATE'' 409"
definition export_too_large :: exn where "export_too_large = AppErr ''post.EXPORT_TOO_LARGE'' 422"
definition import_too_large :: exn where "import_too_large = AppErr ''post.EXCEL_TOO_LARGE'' 413"

definition excel_max_rows :: int where "excel_max_rows = 10000"

section \<open>Repository\<close>

definition post_filters :: "post_query \<Rightarrow> post \<Rightarrow> bool" where
  "post_filters q p \<longleftrightarrow> keyword_filter (pq_code q) (p_code p) \<and> keyword_filter (pq_name q) (p_name p) \<and>
     opt_filter (pq_status q) (\<lambda>s. p_status p = s)"

definition post_col :: "string \<Rightarrow> post \<Rightarrow> col_val" where
  "post_col c p = (if c = ''id'' then VInt (p_id p) else if c = ''sort_order'' then VInt (p_sort p)
     else VInt (p_created p))"

definition post_sort_allowed :: "(string \<times> string) list" where
  "post_sort_allowed = [(''id'', ''id''), (''sort_order'', ''sort_order''), (''created_at'', ''created_at'')]"

definition post_sort_default :: "(string \<times> sort_dir) list" where
  "post_sort_default = [(''sort_order'', Asc), (''id'', Asc)]"

definition get_post :: "db \<Rightarrow> int \<Rightarrow> post option" where
  "get_post d i = get_row p_id (posts d) i"

definition find_post_by_code :: "db \<Rightarrow> string \<Rightarrow> post option" where
  "find_post_by_code d c = find (\<lambda>p. p_code p = c) (rows (posts d))"

definition new_post :: "post_create \<Rightarrow> int \<Rightarrow> int \<Rightarrow> post" where
  "new_post c now i = \<lparr>p_id = i, p_name = pc_name c, p_code = pc_code c, p_sort = pc_sort c,
     p_status = pc_status c, p_created = now\<rparr>"

definition post_repo_create :: "post_create \<Rightarrow> int \<Rightarrow> db \<Rightarrow> exn + post \<times> db" where
  "post_repo_create c now d =
     (if find_post_by_code d (pc_code c) \<noteq> None then Inl (IntegrityErr ''uq_posts_code'')
      else (case insert_row (new_post c now) (posts d) of (x, t) \<Rightarrow> Inr (x, d\<lparr>posts := t\<rparr>)))"

definition apply_post_update :: "post_update \<Rightarrow> post \<Rightarrow> post" where
  "apply_post_update u p = p\<lparr>p_name := patched_nn (pu_name u) (p_name p),
     p_code := patched_nn (pu_code u) (p_code p), p_sort := patched_nn (pu_sort u) (p_sort p),
     p_status := patched_nn (pu_status u) (p_status p)\<rparr>"

definition post_null_column :: "post_update \<Rightarrow> bool" where
  "post_null_column u \<longleftrightarrow> null_patch (pu_name u) \<or> null_patch (pu_code u) \<or> null_patch (pu_sort u) \<or>
     null_patch (pu_status u)"

definition post_repo_update :: "int \<Rightarrow> post_update \<Rightarrow> db \<Rightarrow> exn + post option \<times> db" where
  "post_repo_update i u d =
     (case get_post d i of
        None \<Rightarrow> Inr (None, d)
      | Some p \<Rightarrow>
          (let p' = apply_post_update u p
           in if post_null_column u then Inl (IntegrityErr ''NOT NULL'')
              else if \<exists>y \<in> set (rows (posts d)). p_id y \<noteq> i \<and> p_code y = p_code p'
              then Inl (IntegrityErr ''uq_posts_code'')
              else Inr (Some p',
                d\<lparr>posts := update_where (\<lambda>y. p_id y = i) (apply_post_update u) (posts d)\<rparr>)))"

text \<open>The foreign key of \<^verbatim>\<open>user_posts\<close> cascades.\<close>

definition post_repo_delete :: "int \<Rightarrow> db \<Rightarrow> bool \<times> db" where
  "post_repo_delete i d =
     (if get_post d i = None then (False, d)
      else (True, d\<lparr>posts := delete_where (\<lambda>y. p_id y = i) (posts d),
             user_posts := filter (\<lambda>p. snd p \<noteq> i) (user_posts d)\<rparr>))"

definition post_existing_ids :: "db \<Rightarrow> int list \<Rightarrow> int set" where
  "post_existing_ids d ids = set (filter (\<lambda>i. get_post d i \<noteq> None) ids)"

definition existing_codes :: "db \<Rightarrow> string list \<Rightarrow> string set" where
  "existing_codes d codes = set (filter (\<lambda>c. c \<in> set codes) (map p_code (rows (posts d))))"

fun bulk_create :: "post_create list \<Rightarrow> int \<Rightarrow> db \<Rightarrow> exn + db" where
  "bulk_create [] now d = Inr d"
| "bulk_create (c # cs) now d =
     (case post_repo_create c now d of Inl e \<Rightarrow> Inl e | Inr (x, d') \<Rightarrow> bulk_create cs now d')"

definition list_for_export :: "db \<Rightarrow> int \<Rightarrow> post list" where
  "list_for_export d limit = take (nat limit) (sort_key (\<lambda>p. (p_sort p, p_id p)) (rows (posts d)))"

section \<open>Service\<close>

definition post_list :: "db \<Rightarrow> post_query \<Rightarrow> int \<Rightarrow> int \<Rightarrow> exn + post page_result" where
  "post_list d q page sz =
     bind_res (resolve_sort (pq_order_by q) (pq_order q) post_sort_allowed post_sort_default (Some ''id''))
       (\<lambda>ob. Inr (make_page page sz (order_rows post_col ob (filter (post_filters q) (rows (posts d))))))"

definition post_get :: "db \<Rightarrow> int \<Rightarrow> exn + post" where
  "post_get d i = (case get_post d i of None \<Rightarrow> Inl post_not_found | Some p \<Rightarrow> Inr p)"

definition post_create_op :: "post_create \<Rightarrow> int \<Rightarrow> db \<Rightarrow> exn + post \<times> db" where
  "post_create_op c now d =
     (if find_post_by_code d (pc_code c) \<noteq> None then Inl post_duplicate else post_repo_create c now d)"

definition post_code_taken :: "db \<Rightarrow> post \<Rightarrow> post_update \<Rightarrow> bool" where
  "post_code_taken d p u =
     (case pu_code u of
        Assign (Some c) \<Rightarrow> c \<noteq> p_code p \<and> find_post_by_code d c \<noteq> None
      | _ \<Rightarrow> False)"

definition post_update_op :: "int \<Rightarrow> post_update \<Rightarrow> db \<Rightarrow> exn + post \<times> db" where
  "post_update_op i u d =
     (case get_post d i of
        None \<Rightarrow> Inl post_not_found
      | Some p \<Rightarrow>
          if post_code_taken d p u then Inl post_duplicate
          else bind_res (post_repo_update i u d) (\<lambda>(row, d').
            case row of None \<Rightarrow> Inl post_not_found | Some p' \<Rightarrow> Inr (p', d')))"

definition post_delete_op :: "int \<Rightarrow> db \<Rightarrow> exn + unit \<times> db" where
  "post_delete_op i d =
     (case post_repo_delete i d of (ok, d') \<Rightarrow> if ok then Inr ((), d') else Inl post_not_found)"

section \<open>Import and export\<close>

text \<open>The headers are the UTF-8 bytes of the four Chinese column titles.\<close>

definition hdr_name :: string where
  "hdr_name = [CHR 0xE5, CHR 0xB2, CHR 0x97, CHR 0xE4, CHR 0xBD, CHR 0x8D,
     CHR 0xE5, CHR 0x90, CHR 0x8D, CHR 0xE7, CHR 0xA7, CHR 0xB0]"
definition hdr_code :: string where
  "hdr_code = [CHR 0xE5, CHR 0xB2, CHR 0x97, CHR 0xE4, CHR 0xBD, CHR 0x8D,
     CHR 0xE7, CHR 0xBC, CHR 0x96, CHR 0xE7, CHR 0xA0, CHR 0x81]"
definition hdr_sort :: string where
  "hdr_sort = [CHR 0xE6, CHR 0x98, CHR 0xBE, CHR 0xE7, CHR 0xA4, CHR 0xBA,
     CHR 0xE9, CHR 0xA1, CHR 0xBA, CHR 0xE5, CHR 0xBA, CHR 0x8F]"
definition hdr_status :: string where
  "hdr_status = [CHR 0xE7, CHR 0x8A, CHR 0xB6, CHR 0xE6, CHR 0x80, CHR 0x81]"

definition post_columns :: "excel_column list" where
  "post_columns =
     [\<lparr>ec_field = ''name'', ec_header = hdr_name, ec_required = True\<rparr>,
      \<lparr>ec_field = ''code'', ec_header = hdr_code, ec_required = True\<rparr>,
      \<lparr>ec_field = ''sort_order'', ec_header = hdr_sort, ec_required = False\<rparr>,
      \<lparr>ec_field = ''status'', ec_header = hdr_status, ec_required = False\<rparr>]"

definition status_str :: "status \<Rightarrow> string" where
  "status_str s = (case s of Active \<Rightarrow> ''active'' | Disabled \<Rightarrow> ''disabled'')"

definition status_of :: "string \<Rightarrow> status option" where
  "status_of s = (if s = ''active'' then Some Active else if s = ''disabled'' then Some Disabled else None)"

definition clean_text :: "string option \<Rightarrow> bool" where
  "clean_text v =
     (case v of None \<Rightarrow> False
      | Some s \<Rightarrow> 1 \<le> length s \<and> length s \<le> 64 \<and> list_all (\<lambda>c. \<not> illegal_char c) s)"

definition sort_field :: "(string \<Rightarrow> int option) \<Rightarrow> string option \<Rightarrow> int option" where
  "sort_field to_int v =
     (case v of None \<Rightarrow> Some 0
      | Some s \<Rightarrow> (case to_int s of None \<Rightarrow> None
                   | Some n \<Rightarrow> if 0 \<le> n \<and> n \<le> 999999 then Some n else None))"

definition status_field :: "string option \<Rightarrow> status option" where
  "status_field v = (case v of None \<Rightarrow> Some Active | Some s \<Rightarrow> status_of s)"

definition post_validate ::
    "(string \<Rightarrow> int option) \<Rightarrow> (string \<times> string) list \<Rightarrow> string list + post_create" where
  "post_validate to_int data =
     (let name = map_of data ''name''; code = map_of data ''code'';
          sort = sort_field to_int (map_of data ''sort_order'');
          st = status_field (map_of data ''status'');
          errs = (if clean_text name then [] else [''name'']) @ (if clean_text code then [] else [''code'']) @
            (if sort = None then [''sort_order''] else []) @ (if st = None then [''status''] else [])
      in if errs \<noteq> [] then Inl errs
         else Inr \<lparr>pc_name = the name, pc_code = the code, pc_sort = the sort, pc_status = the st\<rparr>)"

fun file_duplicates :: "string list \<Rightarrow> (int \<times> post_create) list \<Rightarrow> row_error list" where
  "file_duplicates seen [] = []"
| "file_duplicates seen ((i, c) # ps) =
     (if pc_code c \<in> set seen
      then \<lparr>er_row = i, er_column = Some hdr_code, er_code = ''DUPLICATE_IN_FILE''\<rparr> # file_duplicates seen ps
      else file_duplicates (pc_code c # seen) ps)"

definition db_duplicates :: "db \<Rightarrow> (int \<times> post_create) list \<Rightarrow> row_error list" where
  "db_duplicates d ps =
     (let existing = existing_codes d (map (\<lambda>p. pc_code (snd p)) ps)
      in concat (map (\<lambda>(i, c). if pc_code c \<in> existing
           then [\<lparr>er_row = i, er_column = Some hdr_code, er_code = ''DB_DUPLICATE''\<rparr>] else []) ps))"

record import_summary =
  is_imported :: nat
  is_errors :: "row_error list"

definition import_posts ::
    "(string \<Rightarrow> int option) \<Rightarrow> excel_limits \<Rightarrow> int \<Rightarrow> excel_file \<Rightarrow> db \<Rightarrow> exn + import_summary \<times> db" where
  "import_posts to_int L now f d =
     (case excel_parse (post_validate to_int) post_columns (L\<lparr>xl_rows := excel_max_rows\<rparr>) f of
        None \<Rightarrow> Inl import_too_large
      | Some res \<Rightarrow>
          (let errors = ir_errors res @ file_duplicates [] (ir_rows res) @ db_duplicates d (ir_rows res)
           in if errors \<noteq> [] then Inr (\<lparr>is_imported = 0, is_errors = errors\<rparr>, d)
              else (case bulk_create (map snd (ir_rows res)) now d of
                      Inl e \<Rightarrow> Inl e
                    | Inr d' \<Rightarrow> Inr (\<lparr>is_imported = length (ir_rows res), is_errors = []\<rparr>, d'))))"

definition post_fields :: "post \<Rightarrow> string \<Rightarrow> string" where
  "post_fields p f = (if f = ''name'' then p_name p else if f = ''code'' then p_code p
     else if f = ''sort_order'' then int_str (p_sort p) else if f = ''status'' then status_str (p_status p)
     else [])"

text \<open>The rows of the exported sheet.\<close>

definition export_posts :: "db \<Rightarrow> exn + string list list" where
  "export_posts d =
     (let rs = list_for_export d (excel_max_rows + 1)
      in if int (length rs) > excel_max_rows then Inl export_too_large
         else Inr (excel_write post_columns (map post_fields rs)))"

section \<open>Inversion\<close>

lemma find_post_by_code_None_iff:
  "find_post_by_code d c = None \<longleftrightarrow> c \<notin> p_code ` set (rows (posts d))"
  by (auto simp: find_post_by_code_def find_None_iff)

lemma apply_post_update_id [simp]: "p_id (apply_post_update u p) = p_id p"
  by (simp add: apply_post_update_def)

lemma post_repo_create_InrD:
  assumes "post_repo_create c now d = Inr (x, d')"
  shows "x = new_post c now (seq (posts d))" and "d' = d\<lparr>posts := appended x (posts d)\<rparr>"
    and "pc_code c \<notin> p_code ` set (rows (posts d))"
  using assms find_post_by_code_None_iff [of d "pc_code c"]
  by (auto simp: post_repo_create_def insert_row_appended split: if_splits)

lemma post_create_InrD:
  "post_create_op c now d = Inr (x, d') \<Longrightarrow> post_repo_create c now d = Inr (x, d')"
  by (auto simp: post_create_op_def split: if_splits)

lemma post_update_InrD:
  assumes "post_update_op i u d = Inr (x, d')"
  obtains p where "get_post d i = Some p" "x = apply_post_update u p"
    "d' = d\<lparr>posts := update_where (\<lambda>y. p_id y = i) (apply_post_update u) (posts d)\<rparr>"
    "\<forall>y \<in> set (rows (posts d)). p_id y \<noteq> i \<longrightarrow> p_code y \<noteq> p_code x"
proof -
  from assms obtain p where p: "get_post d i = Some p"
    and u: "post_repo_update i u d = Inr (Some x, d')"
    by (auto simp: post_update_op_def bind_res_Inr_iff split: option.splits if_splits)
  show thesis
    by (rule that [OF p]) (use p u in \<open>auto simp: post_repo_update_def Let_def split: if_splits\<close>)
qed

lemma post_delete_InrD:
  assumes "post_delete_op i d = Inr ((), d')"
  shows "get_post d i \<noteq> None"
    and "d' = d\<lparr>posts := delete_where (\<lambda>y. p_id y = i) (posts d),
             user_posts := filter (\<lambda>p. snd p \<noteq> i) (user_posts d)\<rparr>"
  using assms by (auto simp: post_delete_op_def post_repo_delete_def split: if_splits)

interpretation post_crud: crud posts p_id p_code
    "\<lambda>x d d'. \<exists>c now. post_repo_create c now d = Inr (x, d')"
    "\<lambda>i x d d'. \<exists>u. post_update_op i u d = Inr (x, d')"
    "\<lambda>i d d'. post_delete_op i d = Inr ((), d')"
proof
  fix d x d' assume "\<exists>c now. post_repo_create c now d = Inr (x, d')"
  then obtain c now where "post_repo_create c now d = Inr (x, d')" by blast
  note r = post_repo_create_InrD [OF this]
  show "p_id x = seq (posts d) \<and> p_code x \<notin> p_code ` set (rows (posts d)) \<and>
      posts d' = appended x (posts d)"
    using r(3) by (simp add: r(2)) (simp add: r(1) new_post_def)
next
  fix d i x d' assume "\<exists>u. post_update_op i u d = Inr (x, d')"
  then obtain u where "post_update_op i u d = Inr (x, d')" by blast
  then obtain p where "get_post d i = Some p" "x = apply_post_update u p"
    "d' = d\<lparr>posts := update_where (\<lambda>y. p_id y = i) (apply_post_update u) (posts d)\<rparr>"
    "\<forall>y \<in> set (rows (posts d)). p_id y \<noteq> i \<longrightarrow> p_code y \<noteq> p_code x" by (rule post_update_InrD)
  then show "\<exists>f y. (\<forall>z. p_id (f z) = p_id z) \<and> get_row p_id (posts d) i = Some y \<and> x = f y \<and>
      posts d' = update_where (\<lambda>z. p_id z = i) f (posts d) \<and>
      (\<forall>z \<in> set (rows (posts d)). p_id z \<noteq> i \<longrightarrow> p_code z \<noteq> p_code x)"
    by (intro exI [of _ "apply_post_update u"] exI [of _ p]) (simp add: get_post_def)
next
  fix d i d' assume "post_delete_op i d = Inr ((), d')"
  note r = post_delete_InrD [OF this]
  show "get_row p_id (posts d) i \<noteq> None \<and> posts d' = delete_where (\<lambda>z. p_id z = i) (posts d)"
    using r(1) by (simp add: r(2) get_post_def)
qed

end
