(* ===== verification/PostTheorems.thy ===== *)
theory PostTheorems
  imports PostService
begin

text \<open>
  Properties of the post service: the import writes all rows or none, and an export is read back
  by an import up to the escaping of formulas.
\<close>

section \<open>The import\<close>

lemma file_duplicates_Nil_iff:
  "file_duplicates seen ps = [] \<longleftrightarrow>
     distinct (map (\<lambda>p. pc_code (snd p)) ps) \<and> set (map (\<lambda>p. pc_code (snd p)) ps) \<inter> set seen = {}"
  by (induction seen ps rule: file_duplicates.induct) auto

lemma db_duplicates_Nil_iff:
  "db_duplicates d ps = [] \<longleftrightarrow> (\<forall>p \<in> set ps. pc_code (snd p) \<notin> p_code ` set (rows (posts d)))"
proof -
  have "concat (map (\<lambda>(i, c). if P c then [e i] else []) ps) = [] \<longleftrightarrow> (\<forall>p \<in> set ps. \<not> P (snd p))"
    for P :: "post_create \<Rightarrow> bool" and e :: "int \<Rightarrow> row_error" by (induction ps) auto
  moreover have "pc_code (snd p) \<in> existing_codes d (map (\<lambda>p. pc_code (snd p)) ps) \<longleftrightarrow>
      pc_code (snd p) \<in> p_code ` set (rows (posts d))" if "p \<in> set ps" for p
    using that by (auto simp: existing_codes_def)
  ultimately show ?thesis by (simp add: db_duplicates_def Let_def)
qed

fun numbered_posts :: "int \<Rightarrow> int \<Rightarrow> post_create list \<Rightarrow> post list" where
  "numbered_posts now k [] = []"
| "numbered_posts now k (c # cs) = new_post c now k # numbered_posts now (k + 1) cs"

lemma bulk_create_all:
  "distinct (map pc_code cs) \<Longrightarrow> (\<forall>c \<in> set cs. pc_code c \<notin> p_code ` set (rows (posts d))) \<Longrightarrow>
     \<exists>t. bulk_create cs now d = Inr (d\<lparr>posts := t\<rparr>) \<and>
       rows t = rows (posts d) @ numbered_posts now (seq (posts d)) cs"
proof (induction cs arbitrary: d)
  case Nil
  show ?case by (intro exI [of _ "posts d"]) simp
next
  case (Cons c cs)
  let ?x = "new_post c now (seq (posts d))"
  let ?d = "d\<lparr>posts := appended ?x (posts d)\<rparr>"
  have s: "post_repo_create c now d = Inr (?x, ?d)"
    using Cons.prems(2) find_post_by_code_None_iff [of d "pc_code c"]
    by (auto simp: post_repo_create_def insert_row_appended)
  have "\<forall>c' \<in> set cs. pc_code c' \<notin> p_code ` set (rows (posts ?d))"
  proof
    fix c' assume c': "c' \<in> set cs"
    then have "pc_code c' \<noteq> pc_code c" using Cons.prems(1) by (metis distinct.simps(2) image_eqI list.simps(9) set_map)
    with c' Cons.prems(2) show "pc_code c' \<notin> p_code ` set (rows (posts ?d))"
      by (simp add: new_post_def)
  qed
  from Cons.IH [OF _ this] Cons.prems(1) obtain t where "bulk_create cs now ?d = Inr (?d\<lparr>posts := t\<rparr>)"
    "rows t = rows (posts ?d) @ numbered_posts now (seq (posts ?d)) cs" by auto
  then show ?case by (intro exI [of _ t]) (simp add: s)
qed


section \<open>Export and import\<close>

text \<open>How a written sheet is read: text cells as they are, empty ones as \<open>None\<close>.\<close>

definition read_back :: "string list list \<Rightarrow> cell list option list" where
  "read_back rs = map (\<lambda>r. Some (map (\<lambda>c. if c = [] then None else Some c) r)) rs"

definition post_plain :: "post \<Rightarrow> bool" where
  "post_plain p \<longleftrightarrow> plain_cell (p_name p) \<and> length (p_name p) \<le> 64 \<and> plain_cell (p_code p) \<and>
     length (p_code p) \<le> 64 \<and> 0 \<le> p_sort p \<and> p_sort p \<le> 999999"

definition payload_of :: "post \<Rightarrow> post_create" where
  "payload_of p = \<lparr>pc_name = p_name p, pc_code = p_code p, pc_sort = p_sort p, pc_status = p_status p\<rparr>"

definition post_cells :: "post \<Rightarrow> cell list" where
  "post_cells p = [Some (p_name p), Some (p_code p), Some (int_str (p_sort p)), Some (status_str (p_status p))]"

definition post_header :: "cell list" where
  "post_header = [Some hdr_name, Some hdr_code, Some hdr_sort, Some hdr_status]"

lemma post_header_map:
  "header_map 0 post_header hdr_name = Some 0" "header_map 0 post_header hdr_code = Some 1"
  "header_map 0 post_header hdr_sort = Some 2" "header_map 0 post_header hdr_status = Some 3"
  by (simp_all add: post_header_def hdr_name_def hdr_code_def hdr_sort_def hdr_status_def
      py_strip_def strip_by_def py_ws_def)

lemma int_str_nonneg_plain:
  assumes "0 \<le> n"
  shows "plain_cell (int_str n)"
proof -
  have s: "int_str n = nat_str (nat n)" using assms by (simp add: int_str_def)
  have d: "is_digit c" if "c \<in> set (int_str n)" for c using that nat_str_digits by (simp add: s)
  have "\<not> illegal_char c" "\<not> formula_trigger c" if "is_digit c" for c
    using that by (auto simp: is_digit_def digit_val_def illegal_char_def formula_trigger_def Let_def
        split: if_splits)
  with d show ?thesis
    by (auto simp: plain_cell_def list_all_iff)
qed

lemma status_str_plain: "plain_cell (status_str st)" "status_of (status_str st) = Some st"
  by (cases st; simp add: plain_cell_def status_str_def illegal_char_def formula_trigger_def
      py_strip_def strip_by_def py_ws_def status_of_def)+

lemma row_data_post:
  assumes "post_plain p"
  shows "row_data post_columns post_header (post_cells p) =
    [(''name'', p_name p), (''code'', p_code p), (''sort_order'', int_str (p_sort p)),
     (''status'', status_str (p_status p))]"
  using assms int_str_nonneg_plain [of "p_sort p"] status_str_plain(1) [of "p_status p"]
  by (simp add: row_data_def post_columns_def row_cell_def post_header_map post_cells_def
      canonical_in_def post_plain_def plain_cell_def)

lemma post_validate_post:
  assumes "post_plain p" "\<And>n. to_int (int_str n) = Some n"
  shows "post_validate to_int (row_data post_columns post_header (post_cells p)) = Inr (payload_of p)"
  using assms status_str_plain(2) [of "p_status p"]
  by (cases "p_name p"; cases "p_code p")
    (simp_all add: row_data_post post_validate_def Let_def clean_text_def sort_field_def status_field_def
      post_plain_def plain_cell_def payload_of_def)

lemma parse_rows_posts:
  assumes "\<And>n. to_int (int_str n) = Some n"
  shows "\<forall>p \<in> set ps. post_plain p \<Longrightarrow> i + int (length ps) - 2 \<le> limit \<Longrightarrow>
    parse_rows (post_validate to_int) post_columns limit post_header i (map (\<lambda>p. Some (post_cells p)) ps) =
      (zip (map (\<lambda>k. i + int k) [0..<length ps]) (map payload_of ps), [], True)"
proof (induction ps arbitrary: i)
  case (Cons p ps)
  have "zip (map (\<lambda>k. i + int k) [0..<length (p # ps)]) (map payload_of (p # ps)) =
      (i, payload_of p) # zip (map (\<lambda>k. (i + 1) + int k) [0..<length ps]) (map payload_of ps)"
    by (simp add: upt_conv_Cons map_Suc_upt [symmetric] comp_def add.assoc del: upt_Suc)
  moreover have "\<not> list_all (\<lambda>c. c = None) (post_cells p)" by (simp add: post_cells_def)
  ultimately show ?case
    using Cons post_validate_post [of p to_int] assms by simp
qed simp

lemma excel_write_posts:
  assumes "\<forall>p \<in> set ps. post_plain p"
  shows "read_back (excel_write post_columns (map post_fields ps)) =
    Some post_header # map (\<lambda>p. Some (post_cells p)) ps"
proof -
  have "map (\<lambda>c. if c = [] then None else Some c)
      (map (\<lambda>c. canonical_out (post_fields p (ec_field c))) post_columns) = post_cells p" if "post_plain p" for p
    using that int_str_nonneg_plain [of "p_sort p"] status_str_plain(1) [of "p_status p"]
    by (simp add: post_columns_def post_fields_def canonical_out_plain post_plain_def post_cells_def)
      (simp add: plain_cell_def)
  moreover have "map (\<lambda>c. if c = [] then None else Some c) (map ec_header post_columns) = post_header"
    by (simp add: post_columns_def post_header_def hdr_name_def hdr_code_def hdr_sort_def hdr_status_def)
  ultimately show ?thesis using assms by (simp add: read_back_def excel_write_def)
qed

lemma payload_numbered: "map payload_of (numbered_posts now k cs) = cs"
  by (induction now k cs rule: numbered_posts.induct) (simp_all add: payload_of_def new_post_def)

lemma list_for_export_set: "set (list_for_export d n) \<subseteq> set (rows (posts d))"
  by (auto simp: list_for_export_def dest: in_set_takeD)

lemma distinct_export_codes:
  assumes "coded_ok p_id p_code (posts d)"
  shows "distinct (map p_code (list_for_export d n))"
proof -
  have "distinct (map p_code (sort_key (\<lambda>p. (p_sort p, p_id p)) (rows (posts d))))"
    using assms unfolding coded_ok_def by (simp add: distinct_map)
  then show ?thesis unfolding list_for_export_def by (metis distinct_take take_map)
qed

text \<open>
  C20 Exporting all posts of one database and importing the sheet into a database without posts
  recreates every post with the same name, code, sort number and status, in the exported order,
  provided names and codes are plain text (no formula trigger in front, no surrounding blanks, no
  control characters) and the integer parser reads back decimal numerals.
\<close>

theorem post_export_import_roundtrip:
  assumes ok: "coded_ok p_id p_code (posts d)" and plain: "\<forall>p \<in> set (rows (posts d)). post_plain p"
    and ints: "\<And>n. to_int (int_str n) = Some n"
    and ex: "export_posts d = Inr sheet"
    and src: "xf_book f = Sheet (read_back sheet) False" "guard_zip_bomb (L\<lparr>xl_rows := excel_max_rows\<rparr>) f"
    and empty: "rows (posts d0) = []"
  shows "\<exists>d'. import_posts to_int L now f d0 =
      Inr (\<lparr>is_imported = length (rows (posts d)), is_errors = []\<rparr>, d') \<and>
    map payload_of (rows (posts d')) = map payload_of (sort_key (\<lambda>p. (p_sort p, p_id p)) (rows (posts d)))"
proof -
  let ?ps = "list_for_export d (excel_max_rows + 1)"
  have len: "int (length ?ps) \<le> excel_max_rows" and sheet: "sheet = excel_write post_columns (map post_fields ?ps)"
    using ex by (auto simp: export_posts_def Let_def split: if_splits)
  have all: "?ps = sort_key (\<lambda>p. (p_sort p, p_id p)) (rows (posts d))"
    using len by (auto simp: list_for_export_def excel_max_rows_def min_def split: if_splits)
  have pl: "\<forall>p \<in> set ?ps. post_plain p" using plain list_for_export_set by blast
  let ?rows = "zip (map (\<lambda>k. 2 + int k) [0..<length ?ps]) (map payload_of ?ps)"
  have "excel_parse (post_validate to_int) post_columns (L\<lparr>xl_rows := excel_max_rows\<rparr>) f =
      Some \<lparr>ir_rows = ?rows, ir_errors = []\<rparr>"
  proof -
    have "parse_rows (post_validate to_int) post_columns excel_max_rows post_header 2
        (map (\<lambda>p. Some (post_cells p)) ?ps) = (?rows, [], True)"
      by (rule parse_rows_posts [OF ints pl]) (use len in simp)
    moreover have "filter (\<lambda>c. header_map 0 post_header (ec_header c) = None) post_columns = []"
      by (simp add: post_columns_def post_header_map)
    ultimately show ?thesis
      using src by (simp add: excel_parse_def sheet excel_write_posts [OF pl] parse_sheet_def)
  qed
  moreover have snd: "map snd ?rows = map payload_of ?ps" by simp
  moreover have d: "distinct (map pc_code (map payload_of ?ps))"
    using distinct_export_codes [OF ok] by (simp add: payload_of_def comp_def)
  moreover have "distinct (map (\<lambda>p. pc_code (snd p)) ?rows)"
  proof -
    have "map (\<lambda>p. pc_code (snd p)) ?rows = map pc_code (map snd ?rows)" by (simp only: map_map comp_def)
    with d snd show ?thesis by (simp only:)
  qed
  moreover obtain t where t: "bulk_create (map payload_of ?ps) now d0 = Inr (d0\<lparr>posts := t\<rparr>)"
    "rows t = rows (posts d0) @ numbered_posts now (seq (posts d0)) (map payload_of ?ps)"
    using bulk_create_all [OF d, of d0 now] empty by auto
  ultimately have "import_posts to_int L now f d0 =
      Inr (\<lparr>is_imported = length ?ps, is_errors = []\<rparr>, d0\<lparr>posts := t\<rparr>)"
    using empty file_duplicates_Nil_iff [of "[]" ?rows] db_duplicates_Nil_iff [of d0 ?rows]
    by (simp add: import_posts_def Let_def)
  then show ?thesis using t(2) empty all by (simp add: payload_numbered)
qed

definition demo_posts :: "string \<Rightarrow> db" where
  "demo_posts name = empty_db\<lparr>posts := \<lparr>rows = [\<lparr>p_id = 1, p_name = name, p_code = ''ceo'', p_sort = 3,
     p_status = Disabled, p_created = 0\<rparr>], seq = 2\<rparr>\<rparr>"

definition demo_limits :: excel_limits where
  "demo_limits = \<lparr>xl_rows = 10000, xl_bytes = 1000, xl_entries = 5, xl_ratio = 100\<rparr>"

definition demo_file :: "string list list \<Rightarrow> excel_file" where
  "demo_file sheet = \<lparr>xf_zip = Some [(10, 5)], xf_book = Sheet (read_back sheet) False\<rparr>"

lemma demo_posts_plain: "post_plain \<lparr>p_id = 1, p_name = ''boss'', p_code = ''ceo'', p_sort = 3,
     p_status = Disabled, p_created = 0\<rparr>"
  by (simp add: post_plain_def plain_cell_def illegal_char_def formula_trigger_def py_strip_def
      strip_by_def py_ws_def)

theorem post_export_import_roundtrip_witness:
  "case export_posts (demo_posts ''boss'') of
     Inr sheet \<Rightarrow> (\<exists>d'. import_posts py_int demo_limits 7 (demo_file sheet) empty_db =
         Inr (\<lparr>is_imported = 1, is_errors = []\<rparr>, d') \<and>
       map payload_of (rows (posts d')) = map payload_of (rows (posts (demo_posts ''boss''))))
   | Inl e \<Rightarrow> False"
proof -
  obtain sheet where ex: "export_posts (demo_posts ''boss'') = Inr sheet"
    by (simp add: export_posts_def Let_def list_for_export_def demo_posts_def excel_max_rows_def)
  have ok: "coded_ok p_id p_code (posts (demo_posts ''boss''))"
    by (simp add: coded_ok_def table_ok_def demo_posts_def)
  have "\<forall>p \<in> set (rows (posts (demo_posts ''boss''))). post_plain p"
    using demo_posts_plain by (simp add: demo_posts_def)
  moreover have "guard_zip_bomb (demo_limits\<lparr>xl_rows := excel_max_rows\<rparr>) (demo_file sheet)"
    by (simp add: guard_zip_bomb_def demo_limits_def demo_file_def)
  moreover have "xf_book (demo_file sheet) = Sheet (read_back sheet) False" by (simp add: demo_file_def)
  moreover have "rows (posts empty_db) = []" by (simp add: empty_db_def empty_table_def)
  ultimately show ?thesis
    using post_export_import_roundtrip [OF ok, of py_int sheet "demo_file sheet" demo_limits empty_db 7] ex
    by (simp add: demo_posts_def)
qed

lemma formula_export:
  "export_posts (demo_posts ''=A1'') = Inr [[hdr_name, hdr_code, hdr_sort, hdr_status],
      [CHR 0x27 # ''=A1'', ''ceo'', ''3'', ''disabled'']]"
proof -
  have i: "int_str 3 = ''3''" by code_simp
  have out: "canonical_out ''=A1'' = CHR 0x27 # ''=A1''" "canonical_out ''ceo'' = ''ceo''"
    "canonical_out ''3'' = ''3''" "canonical_out ''disabled'' = ''disabled''"
    by (simp_all add: canonical_out_def illegal_char_def formula_trigger_def)
  show ?thesis
    by (simp add: export_posts_def Let_def list_for_export_def demo_posts_def excel_max_rows_def
        excel_write_def post_columns_def post_fields_def out i status_str_def)
qed

lemma formula_import:
  fixes c defines "c \<equiv> \<lparr>pc_name = CHR 0x27 # ''=A1'', pc_code = ''ceo'', pc_sort = 3, pc_status = Disabled\<rparr>"
  shows "import_posts py_int demo_limits 7 (demo_file [[hdr_name, hdr_code, hdr_sort, hdr_status],
      [CHR 0x27 # ''=A1'', ''ceo'', ''3'', ''disabled'']]) empty_db =
      Inr (\<lparr>is_imported = 1, is_errors = []\<rparr>, empty_db\<lparr>posts := appended (new_post c 7 1) empty_table\<rparr>)"
proof -
  let ?cells = "[Some (CHR 0x27 # ''=A1''), Some ''ceo'', Some (int_str 3), Some ''disabled'']"
  have i: "int_str 3 = ''3''" by code_simp
  have hd: "hdr_name \<noteq> []" "hdr_code \<noteq> []" "hdr_sort \<noteq> []" "hdr_status \<noteq> []"
    by (simp_all add: hdr_name_def hdr_code_def hdr_sort_def hdr_status_def)
  have st: "py_strip (CHR 0x27 # ''=A1'') = CHR 0x27 # ''=A1''" "py_strip ''ceo'' = ''ceo''"
    "py_strip ''3'' = ''3''" "py_strip ''disabled'' = ''disabled''"
    by (simp_all add: py_strip_def strip_by_def py_ws_def)
  have p3: "py_int ''3'' = Some 3" using py_int_int_str [of 3] by (simp only: i)
  have "row_data post_columns post_header ?cells = [(''name'', CHR 0x27 # ''=A1''), (''code'', ''ceo''),
      (''sort_order'', ''3''), (''status'', ''disabled'')]"
    by (simp add: row_data_def post_columns_def row_cell_def post_header_map canonical_in_def st i)
  moreover have "post_validate py_int [(''name'', CHR 0x27 # ''=A1''), (''code'', ''ceo''),
      (''sort_order'', ''3''), (''status'', ''disabled'')] = Inr c"
    by (simp add: post_validate_def clean_text_def illegal_char_def sort_field_def status_field_def
        status_of_def p3 c_def)
  moreover have "parse_sheet (post_validate py_int) post_columns excel_max_rows
      [Some post_header, Some ?cells] False =
      (case post_validate py_int (row_data post_columns post_header ?cells) of
         Inl flds \<Rightarrow> \<lparr>ir_rows = [], ir_errors = row_errors post_columns 2 flds\<rparr>
       | Inr x \<Rightarrow> \<lparr>ir_rows = [(2, x)], ir_errors = []\<rparr>)"
    by (simp add: parse_sheet_def post_columns_def post_header_map excel_max_rows_def split: sum.split)
  ultimately show ?thesis
    by (simp add: import_posts_def excel_parse_def guard_zip_bomb_def demo_limits_def demo_file_def
        read_back_def hd post_header_def i db_duplicates_def existing_codes_def empty_db_def
        empty_table_def post_repo_create_def find_post_by_code_def insert_row_def appended_def)
qed

text \<open>
  A name that starts with a formula trigger does not survive an export and an import: the quote
  that the export puts in front is kept.
\<close>

theorem formula_name_not_restored:
  "case export_posts (demo_posts ''=A1'') of
     Inr sheet \<Rightarrow> (case import_posts py_int demo_limits 7 (demo_file sheet) empty_db of
         Inr (s, d') \<Rightarrow> is_errors s = [] \<and> map p_name (rows (posts d')) = [CHR 0x27 # ''=A1'']
       | Inl e \<Rightarrow> False)
   | Inl e \<Rightarrow> False"
  using formula_import by (simp add: formula_export new_post_def empty_db_def empty_table_def)

end
