(* ===== verification/RoleService.thy ===== *)
theory RoleService
  imports Authz Paging Crud
begin

text \<open>
  \<^verbatim>\<open>domains/role/service.py\<close> and the CRUD half of \<^verbatim>\<open>domains/role/repository.py\<close>.  Only a super
  administrator writes \<^verbatim>\<open>data_scope\<close> and \<^verbatim>\<open>status\<close>.  The deletion of a role cascades to its
  bindings.  The unique index is \<^verbatim>\<open>uq_roles_code\<close>; \<open>now\<close> is the database's clock.
\<close>

record role_create =
  rc_name :: string
  rc_code :: string
  rc_scope :: scope_type
  rc_sort :: int
  rc_status :: status

record role_update =
  ru_name :: "string option patch"
  ru_code :: "string option patch"
  ru_scope :: "scope_type option patch"
  ru_sort :: "int option patch"
  ru_status :: "status option patch"

record role_query =
  rq_name :: "string option"
  rq_code :: "string option"
  rq_status :: "status option"
  rq_begin :: "int option"
  rq_end :: "int option"
  rq_order_by :: "string option"
  rq_order :: sort_dir

definition role_not_found :: exn where "role_not_found = AppErr ''role.NOT_FOUND'' 404"
definition role_duplicate :: exn where "role_duplicate = AppErr ''role.CODE_DUPLICATE'' 409"

section \<open>Repository\<close>

definition role_filters :: "role_query \<Rightarrow> role \<Rightarrow> bool" where
  "role_filters q r \<longleftrightarrow> keyword_filter (rq_name q) (r_name r) \<and> keyword_filter (rq_code q) (r_code r) \<and>
     opt_filter (rq_status q) (\<lambda>s. r_status r = s) \<and> opt_filter (rq_begin q) (\<lambda>t. t \<le> r_created r) \<and>
     opt_filter (rq_end q) (\<lambda>t. r_created r \<le> t)"

definition role_col :: "string \<Rightarrow> role \<Rightarrow> col_val" where
  "role_col c r = (if c = ''id'' then VInt (r_id r) else if c = ''sort_order'' then VInt (r_sort r)
     else VInt (r_created r))"

definition role_sort_allowed :: "(string \<times> string) list" where
  "role_sort_allowed = [(''id'', ''id''), (''sort_order'', ''sort_order''), (''created_at'', ''created_at'')]"

definition role_sort_default :: "(string \<times> sort_dir) list" where
  "role_sort_default = [(''sort_order'', Asc), (''id'', Asc)]"

definition get_role :: "db \<Rightarrow> int \<Rightarrow> role option" where
  "get_role d i = get_row r_id (roles d) i"

definition find_role_by_code :: "db \<Rightarrow> string \<Rightarrow> role option" where
  "find_role_by_code d c = find (\<lambda>r. r_code r = c) (rows (roles d))"

definition new_role :: "role_create \<Rightarrow> int \<Rightarrow> int \<Rightarrow> role" where
  "new_role c now i = \<lparr>r_id = i, r_name = rc_name c, r_code = rc_code c, r_scope = rc_scope c,
     r_sort = rc_sort c, r_status = rc_status c, r_created = now\<rparr>"

definition role_repo_create :: "role_create \<Rightarrow> int \<Rightarrow> db \<Rightarrow> exn + role \<times> db" where
  "role_repo_create c now d =
     (if find_role_by_code d (rc_code c) \<noteq> None then Inl (IntegrityErr ''uq_roles_code'')
      else (case insert_row (new_role c now) (roles d) of (x, t) \<Rightarrow> Inr (x, d\<lparr>roles := t\<rparr>)))"

definition apply_role_update :: "role_update \<Rightarrow> role \<Rightarrow> role" where
  "apply_role_update p r = r\<lparr>r_name := patched_nn (ru_name p) (r_name r),
     r_code := patched_nn (ru_code p) (r_code r), r_scope := patched_nn (ru_scope p) (r_scope r),
     r_sort := patched_nn (ru_sort p) (r_sort r), r_status := patched_nn (ru_status p) (r_status r)\<rparr>"

definition role_null_column :: "role_update \<Rightarrow> bool" where
  "role_null_column p \<longleftrightarrow> null_patch (ru_name p) \<or> null_patch (ru_code p) \<or> null_patch (ru_scope p) \<or>
     null_patch (ru_sort p) \<or> null_patch (ru_status p)"

definition role_repo_update :: "int \<Rightarrow> role_update \<Rightarrow> db \<Rightarrow> exn + role option \<times> db" where
  "role_repo_update i p d =
     (case get_role d i of
        None \<Rightarrow> Inr (None, d)
      | Some r \<Rightarrow>
          (let r' = apply_role_update p r
           in if role_null_column p then Inl (IntegrityErr ''NOT NULL'')
              else if \<exists>y \<in> set (rows (roles d)). r_id y \<noteq> i \<and> r_code y = r_code r'
              then Inl (IntegrityErr ''uq_roles_code'')
              else Inr (Some r',
                d\<lparr>roles := update_where (\<lambda>y. r_id y = i) (apply_role_update p) (roles d)\<rparr>)))"

text \<open>The foreign keys of \<^verbatim>\<open>user_roles\<close>, \<^verbatim>\<open>role_depts\<close> and \<^verbatim>\<open>role_menus\<close> cascade.\<close>

definition role_repo_delete :: "int \<Rightarrow> db \<Rightarrow> bool \<times> db" where
  "role_repo_delete i d =
     (if get_role d i = None then (False, d)
      else (True, d\<lparr>roles := delete_where (\<lambda>y. r_id y = i) (roles d),
             user_roles := filter (\<lambda>p. snd p \<noteq> i) (user_roles d),
             role_depts := filter (\<lambda>p. fst p \<noteq> i) (role_depts d),
             role_menus := filter (\<lambda>p. fst p \<noteq> i) (role_menus d)\<rparr>))"

definition role_existing_ids :: "db \<Rightarrow> int list \<Rightarrow> int set" where
  "role_existing_ids d ids = set (filter (\<lambda>i. get_role d i \<noteq> None) ids)"

section \<open>Service\<close>

definition role_list :: "db \<Rightarrow> role_query \<Rightarrow> int \<Rightarrow> int \<Rightarrow> exn + role page_result" where
  "role_list d q page sz =
     bind_res (resolve_sort (rq_order_by q) (rq_order q) role_sort_allowed role_sort_default (Some ''id''))
       (\<lambda>ob. Inr (make_page page sz (order_rows role_col ob (filter (role_filters q) (rows (roles d))))))"

definition role_get :: "db \<Rightarrow> int \<Rightarrow> exn + role" where
  "role_get d i = (case get_role d i of None \<Rightarrow> Inl role_not_found | Some r \<Rightarrow> Inr r)"

definition role_guard_create :: "role_create \<Rightarrow> bool \<Rightarrow> exn + unit" where
  "role_guard_create c super =
     guard (super \<or> rc_scope c = ScopeSelf \<and> rc_status c = Active) forbidden_by_role"

definition role_guard_update :: "role_update \<Rightarrow> bool \<Rightarrow> exn + unit" where
  "role_guard_update p super =
     guard (super \<or> \<not> (is_set (ru_scope p) \<or> is_set (ru_status p))) forbidden_by_role"

definition role_create_op :: "role_create \<Rightarrow> bool \<Rightarrow> int \<Rightarrow> db \<Rightarrow> exn + role \<times> db" where
  "role_create_op c super now d =
     bind_res (role_guard_create c super) (\<lambda>_.
       if find_role_by_code d (rc_code c) \<noteq> None then Inl role_duplicate
       else role_repo_create c now d)"

definition role_code_taken :: "db \<Rightarrow> role \<Rightarrow> role_update \<Rightarrow> bool" where
  "role_code_taken d r p =
     (case ru_code p of
        Assign (Some c) \<Rightarrow> c \<noteq> r_code r \<and> find_role_by_code d c \<noteq> None
      | _ \<Rightarrow> False)"

definition role_update_op :: "int \<Rightarrow> role_update \<Rightarrow> bool \<Rightarrow> db \<Rightarrow> exn + role \<times> db" where
  "role_update_op i p super d =
     bind_res (role_guard_update p super) (\<lambda>_.
     case get_role d i of
       None \<Rightarrow> Inl role_not_found
     | Some r \<Rightarrow>
         if role_code_taken d r p then Inl role_duplicate
         else bind_res (role_repo_update i p d) (\<lambda>(row, d').
           case row of None \<Rightarrow> Inl role_not_found | Some r' \<Rightarrow> Inr (r', d')))"

definition role_delete_op :: "int \<Rightarrow> db \<Rightarrow> exn + unit \<times> db" where
  "role_delete_op i d =
     (case role_repo_delete i d of (ok, d') \<Rightarrow> if ok then Inr ((), d') else Inl role_not_found)"

section \<open>Inversion\<close>

lemma find_role_by_code_None_iff:
  "find_role_by_code d c = None \<longleftrightarrow> c \<notin> r_code ` set (rows (roles d))"
  by (auto simp: find_role_by_code_def find_None_iff)

lemma apply_role_update_id [simp]: "r_id (apply_role_update p r) = r_id r"
  by (simp add: apply_role_update_def)

lemma get_role_SomeD: "get_role d i = Some r \<Longrightarrow> r \<in> set (rows (roles d)) \<and> r_id r = i"
  unfolding get_role_def by (rule get_row_SomeD)

lemma role_create_InrD:
  assumes "role_create_op c super now d = Inr (x, d')"
  shows "x = new_role c now (seq (roles d))" and "d' = d\<lparr>roles := appended x (roles d)\<rparr>"
    and "super \<or> rc_scope c = ScopeSelf \<and> rc_status c = Active"
    and "rc_code c \<notin> r_code ` set (rows (roles d))"
  using assms find_role_by_code_None_iff [of d "rc_code c"]
  by (auto simp: role_create_op_def role_guard_create_def role_repo_create_def insert_row_appended
      bind_res_Inr_iff split: if_splits)

lemma role_update_InrD:
  assumes "role_update_op i p super d = Inr (x, d')"
  obtains r where "get_role d i = Some r" "x = apply_role_update p r"
    "d' = d\<lparr>roles := update_where (\<lambda>y. r_id y = i) (apply_role_update p) (roles d)\<rparr>"
    "super \<or> ru_scope p = Unset \<and> ru_status p = Unset"
    "\<forall>y \<in> set (rows (roles d)). r_id y \<noteq> i \<longrightarrow> r_code y \<noteq> r_code x"
proof -
  from assms obtain r where r: "get_role d i = Some r"
    and g: "super \<or> \<not> (is_set (ru_scope p) \<or> is_set (ru_status p))"
    and u: "role_repo_update i p d = Inr (Some x, d')"
    by (auto simp: role_update_op_def role_guard_update_def bind_res_Inr_iff
        split: option.splits if_splits)
  have unset: "\<not> is_set q \<Longrightarrow> q = Unset" for q :: "'z patch" by (cases q) auto
  show thesis
    using that [OF r] r u g unset [of "ru_scope p"] unset [of "ru_status p"]
    by (auto simp: role_repo_update_def Let_def split: if_splits)
qed

lemma role_delete_InrD:
  assumes "role_delete_op i d = Inr ((), d')"
  shows "get_role d i \<noteq> None"
    and "d' = d\<lparr>roles := delete_where (\<lambda>y. r_id y = i) (roles d),
             user_roles := filter (\<lambda>p. snd p \<noteq> i) (user_roles d),
             role_depts := filter (\<lambda>p. fst p \<noteq> i) (role_depts d),
             role_menus := filter (\<lambda>p. fst p \<noteq> i) (role_menus d)\<rparr>"
  using assms by (auto simp: role_delete_op_def role_repo_delete_def split: if_splits)

interpretation role_crud: crud roles r_id r_code
    "\<lambda>x d d'. \<exists>c super now. role_create_op c super now d = Inr (x, d')"
    "\<lambda>i x d d'. \<exists>p super. role_update_op i p super d = Inr (x, d')"
    "\<lambda>i d d'. role_delete_op i d = Inr ((), d')"
proof
  fix d x d' assume "\<exists>c super now. role_create_op c super now d = Inr (x, d')"
  then obtain c super now where "role_create_op c super now d = Inr (x, d')" by blast
  note r = role_create_InrD [OF this]
  show "r_id x = seq (roles d) \<and> r_code x \<notin> r_code ` set (rows (roles d)) \<and>
      roles d' = appended x (roles d)"
    using r(4) by (simp add: r(2)) (simp add: r(1) new_role_def)
next
  fix d i x d' assume "\<exists>p super. role_update_op i p super d = Inr (x, d')"
  then obtain p super where u: "role_update_op i p super d = Inr (x, d')" by blast
  then obtain r where "get_role d i = Some r" "x = apply_role_update p r"
    "d' = d\<lparr>roles := update_where (\<lambda>y. r_id y = i) (apply_role_update p) (roles d)\<rparr>"
    "\<forall>y \<in> set (rows (roles d)). r_id y \<noteq> i \<longrightarrow> r_code y \<noteq> r_code x"
    by (rule role_update_InrD)
  then show "\<exists>f y. (\<forall>z. r_id (f z) = r_id z) \<and> get_row r_id (roles d) i = Some y \<and> x = f y \<and>
      roles d' = update_where (\<lambda>z. r_id z = i) f (roles d) \<and>
      (\<forall>z \<in> set (rows (roles d)). r_id z \<noteq> i \<longrightarrow> r_code z \<noteq> r_code x)"
    by (intro exI [of _ "apply_role_update p"] exI [of _ r]) (simp add: get_role_def)
next
  fix d i d' assume "role_delete_op i d = Inr ((), d')"
  note r = role_delete_InrD [OF this]
  show "get_row r_id (roles d) i \<noteq> None \<and> roles d' = delete_where (\<lambda>z. r_id z = i) (roles d)"
    using r(1) by (simp add: r(2) get_role_def)
qed

end
