(* ===== verification/UserService.thy ===== *)
theory UserService
  imports DeptService AuthService Crud
begin

text \<open>
  \<^verbatim>\<open>domains/user/service.py\<close> and \<^verbatim>\<open>domains/user/repository.py\<close>.  A user outside the caller's data
  scope is treated as absent; a target department outside it is refused; the last super
  administrator can neither be disabled nor deleted.  The database enforces \<^verbatim>\<open>uq_users_username\<close>,
  the foreign key of \<^verbatim>\<open>dept_id\<close>, RESTRICT for uploaded files and CASCADE for bindings and refresh
  tokens.  Password hashing is the parameter \<open>C\<close> with its salt.
\<close>

record user_create =
  uc_username :: string
  uc_password :: string
  uc_nickname :: string
  uc_dept :: "int option"

record user_update =
  uu_nickname :: "string option patch"
  uu_status :: "status option patch"
  uu_password :: "string option patch"
  uu_dept :: "int option patch"

record user_query =
  uq_username :: "string option"
  uq_status :: "status option"
  uq_dept :: "int option"
  uq_begin :: "int option"
  uq_end :: "int option"
  uq_order_by :: "string option"
  uq_order :: sort_dir

definition user_not_found :: exn where "user_not_found = AppErr ''user.NOT_FOUND'' 404"
definition user_duplicate :: exn where "user_duplicate = AppErr ''user.USERNAME_DUPLICATE'' 409"
definition last_super_admin :: exn where "last_super_admin = AppErr ''user.LAST_SUPER_ADMIN'' 409"

section \<open>Repository\<close>

definition user_filters :: "user_query \<Rightarrow> user \<Rightarrow> bool" where
  "user_filters q u \<longleftrightarrow> keyword_filter (uq_username q) (u_username u) \<and>
     opt_filter (uq_status q) (\<lambda>s. u_status u = s) \<and> opt_filter (uq_dept q) (\<lambda>i. u_dept u = Some i) \<and>
     opt_filter (uq_begin q) (\<lambda>t. t \<le> u_created u) \<and> opt_filter (uq_end q) (\<lambda>t. u_created u \<le> t)"

definition user_col :: "string \<Rightarrow> user \<Rightarrow> col_val" where
  "user_col c u = (if c = ''id'' then VInt (u_id u) else if c = ''username'' then VStr (u_username u)
     else VInt (u_created u))"

definition user_sort_allowed :: "(string \<times> string) list" where
  "user_sort_allowed = [(''id'', ''id''), (''username'', ''username''), (''created_at'', ''created_at'')]"

definition user_sort_default :: "(string \<times> sort_dir) list" where
  "user_sort_default = [(''id'', Asc)]"

definition scoped_filtered :: "db \<Rightarrow> user_query \<Rightarrow> data_scope option \<Rightarrow> user list" where
  "scoped_filtered d q scope =
     (let stmt = (case scope of None \<Rightarrow> rows (users d)
                  | Some s \<Rightarrow> apply_data_scope s u_dept (Some u_id) (rows (users d)))
      in filter (user_filters q) stmt)"

definition count_super_admins :: "db \<Rightarrow> nat" where
  "count_super_admins d = length (filter u_super (rows (users d)))"

definition new_user :: "user_create \<Rightarrow> string \<Rightarrow> int \<Rightarrow> int \<Rightarrow> user" where
  "new_user c pw now i = \<lparr>u_id = i, u_username = uc_username c, u_password_hash = pw,
     u_nickname = uc_nickname c, u_status = Active, u_super = False, u_dept = uc_dept c,
     u_created = now\<rparr>"

definition user_repo_create :: "user_create \<Rightarrow> string \<Rightarrow> int \<Rightarrow> db \<Rightarrow> exn + user \<times> db" where
  "user_repo_create c pw now d =
     (if find_user_by_name d (uc_username c) \<noteq> None then Inl (IntegrityErr ''uq_users_username'')
      else if parent_missing d (uc_dept c) then Inl (IntegrityErr ''users.dept_id'')
      else (case insert_row (new_user c pw now) (users d) of (x, t) \<Rightarrow> Inr (x, d\<lparr>users := t\<rparr>)))"

definition apply_user_update :: "user_update \<Rightarrow> string option \<Rightarrow> user \<Rightarrow> user" where
  "apply_user_update p pw u = u\<lparr>u_nickname := patched_nn (uu_nickname p) (u_nickname u),
     u_status := patched_nn (uu_status p) (u_status u), u_dept := patched (uu_dept p) (u_dept u),
     u_password_hash := (case pw of None \<Rightarrow> u_password_hash u | Some h \<Rightarrow> h)\<rparr>"

definition user_null_column :: "user_update \<Rightarrow> bool" where
  "user_null_column p \<longleftrightarrow> null_patch (uu_nickname p) \<or> null_patch (uu_status p)"

definition user_repo_update ::
    "int \<Rightarrow> user_update \<Rightarrow> string option \<Rightarrow> db \<Rightarrow> exn + user option \<times> db" where
  "user_repo_update i p pw d =
     (case get_user d i of
        None \<Rightarrow> Inr (None, d)
      | Some u \<Rightarrow>
          (let u' = apply_user_update p pw u
           in if user_null_column p then Inl (IntegrityErr ''NOT NULL'')
              else if parent_missing d (u_dept u') then Inl (IntegrityErr ''users.dept_id'')
              else Inr (Some u',
                d\<lparr>users := update_where (\<lambda>y. u_id y = i) (apply_user_update p pw) (users d)\<rparr>)))"

definition user_repo_delete :: "int \<Rightarrow> db \<Rightarrow> exn + bool \<times> db" where
  "user_repo_delete i d =
     (if get_user d i = None then Inr (False, d)
      else if \<exists>f \<in> set (rows (files d)). f_uploader f = i then Inl (IntegrityErr ''fk_files_uploader_id'')
      else Inr (True, d\<lparr>users := delete_where (\<lambda>y. u_id y = i) (users d),
             user_roles := filter (\<lambda>p. fst p \<noteq> i) (user_roles d),
             user_posts := filter (\<lambda>p. fst p \<noteq> i) (user_posts d),
             tokens := delete_where (\<lambda>t. rt_user t = i) (tokens d)\<rparr>))"

section \<open>Service\<close>

definition user_list ::
    "db \<Rightarrow> user_query \<Rightarrow> int \<Rightarrow> int \<Rightarrow> data_scope option \<Rightarrow> exn + user page_result" where
  "user_list d q page sz scope =
     bind_res (resolve_sort (uq_order_by q) (uq_order q) user_sort_allowed user_sort_default (Some ''id''))
       (\<lambda>ob. Inr (make_page page sz (order_rows user_col ob (scoped_filtered d q scope))))"

text \<open>The row of a user the caller may see.\<close>

definition find_visible :: "db \<Rightarrow> int \<Rightarrow> data_scope option \<Rightarrow> exn + user" where
  "find_visible d i scope =
     (case get_user d i of
        None \<Rightarrow> Inl user_not_found
      | Some u \<Rightarrow> if user_hidden scope u then Inl user_not_found else Inr u)"

definition user_get :: "db \<Rightarrow> int \<Rightarrow> data_scope option \<Rightarrow> exn + user" where
  "user_get d i scope = find_visible d i scope"

definition user_create_op ::
    "crypto \<Rightarrow> string \<Rightarrow> user_create \<Rightarrow> data_scope option \<Rightarrow> int \<Rightarrow> db \<Rightarrow> exn + user \<times> db" where
  "user_create_op C salt c scope now d =
     (if out_of_scope scope (uc_dept c) then Inl forbidden_by_scope
      else if find_user_by_name d (uc_username c) \<noteq> None then Inl user_duplicate
      else user_repo_create c (hash_password C salt (uc_password c)) now d)"

definition disabling :: "user_update \<Rightarrow> bool" where
  "disabling p \<longleftrightarrow> (case uu_status p of Assign (Some s) \<Rightarrow> s \<noteq> Active | _ \<Rightarrow> False)"

definition new_password_hash :: "crypto \<Rightarrow> string \<Rightarrow> user_update \<Rightarrow> string option" where
  "new_password_hash C salt p =
     (case uu_password p of Assign (Some w) \<Rightarrow> Some (hash_password C salt w) | _ \<Rightarrow> None)"

definition user_update_op ::
    "crypto \<Rightarrow> string \<Rightarrow> int \<Rightarrow> user_update \<Rightarrow> data_scope option \<Rightarrow> db \<Rightarrow> exn + user \<times> db" where
  "user_update_op C salt i p scope d =
     bind_res (find_visible d i scope) (\<lambda>u.
       if (case uu_dept p of Unset \<Rightarrow> False | Assign t \<Rightarrow> out_of_scope scope t)
       then Inl forbidden_by_scope
       else if disabling p \<and> u_super u \<and> count_super_admins d \<le> 1 then Inl last_super_admin
       else bind_res (user_repo_update i p (new_password_hash C salt p) d) (\<lambda>(row, d').
         case row of None \<Rightarrow> Inl user_not_found | Some u' \<Rightarrow> Inr (u', d')))"

definition user_delete_op :: "int \<Rightarrow> data_scope option \<Rightarrow> db \<Rightarrow> exn + unit \<times> db" where
  "user_delete_op i scope d =
     bind_res (find_visible d i scope) (\<lambda>u.
       if u_super u \<and> count_super_admins d \<le> 1 then Inl last_super_admin
       else bind_res (user_repo_delete i d) (\<lambda>(_, d'). Inr ((), d')))"

section \<open>Inversion\<close>

lemma find_user_by_name_None_iff:
  "find_user_by_name d n = None \<longleftrightarrow> n \<notin> u_username ` set (rows (users d))"
  by (auto simp: find_user_by_name_def find_None_iff)

lemma apply_user_update_keeps [simp]:
  "u_id (apply_user_update p pw u) = u_id u" "u_username (apply_user_update p pw u) = u_username u"
  "u_super (apply_user_update p pw u) = u_super u"
  by (simp_all add: apply_user_update_def)

lemma find_visible_InrD:
  "find_visible d i scope = Inr u \<Longrightarrow> get_user d i = Some u \<and> \<not> user_hidden scope u"
  by (auto simp: find_visible_def split: option.splits if_splits)

lemma user_create_InrD:
  assumes "user_create_op C salt c scope now d = Inr (x, d')"
  shows "x = new_user c (hash_password C salt (uc_password c)) now (seq (users d))"
    and "d' = d\<lparr>users := appended x (users d)\<rparr>"
    and "\<not> out_of_scope scope (uc_dept c)" and "\<not> parent_missing d (uc_dept c)"
    and "uc_username c \<notin> u_username ` set (rows (users d))"
  using assms find_user_by_name_None_iff [of d "uc_username c"]
  by (auto simp: user_create_op_def user_repo_create_def insert_row_appended split: if_splits)

lemma user_update_InrD:
  assumes "user_update_op C salt i p scope d = Inr (x, d')"
  obtains u where "get_user d i = Some u" "\<not> user_hidden scope u"
    "x = apply_user_update p (new_password_hash C salt p) u"
    "d' = d\<lparr>users := update_where (\<lambda>y. u_id y = i) (apply_user_update p (new_password_hash C salt p)) (users d)\<rparr>"
    "\<And>t. uu_dept p = Assign t \<Longrightarrow> \<not> out_of_scope scope t"
    "\<not> (disabling p \<and> u_super u \<and> count_super_admins d \<le> 1)" "\<not> parent_missing d (u_dept x)"
proof -
  from assms obtain u where v: "find_visible d i scope = Inr u"
    and s: "\<not> (case uu_dept p of Unset \<Rightarrow> False | Assign t \<Rightarrow> out_of_scope scope t)"
    and l: "\<not> (disabling p \<and> u_super u \<and> count_super_admins d \<le> 1)"
    and r: "user_repo_update i p (new_password_hash C salt p) d = Inr (Some x, d')"
    by (auto simp: user_update_op_def bind_res_Inr_iff split: if_splits option.splits)
  from find_visible_InrD [OF v] have u: "get_user d i = Some u" "\<not> user_hidden scope u" by simp_all
  have s': "\<And>t. uu_dept p = Assign t \<Longrightarrow> \<not> out_of_scope scope t" using s by simp
  show thesis
    by (rule that [OF u _ _ s' l]) (use r u in \<open>auto simp: user_repo_update_def Let_def split: if_splits\<close>)
qed

lemma user_delete_InrD:
  assumes "user_delete_op i scope d = Inr ((), d')"
  obtains u where "get_user d i = Some u" "\<not> user_hidden scope u"
    "\<not> (u_super u \<and> count_super_admins d \<le> 1)"
    "\<forall>f \<in> set (rows (files d)). f_uploader f \<noteq> i"
    "d' = d\<lparr>users := delete_where (\<lambda>y. u_id y = i) (users d),
       user_roles := filter (\<lambda>p. fst p \<noteq> i) (user_roles d),
       user_posts := filter (\<lambda>p. fst p \<noteq> i) (user_posts d),
       tokens := delete_where (\<lambda>t. rt_user t = i) (tokens d)\<rparr>"
proof -
  from assms obtain u where v: "find_visible d i scope = Inr u"
    and l: "\<not> (u_super u \<and> count_super_admins d \<le> 1)"
    and r: "\<exists>b. user_repo_delete i d = Inr (b, d')"
    by (auto simp: user_delete_op_def bind_res_Inr_iff split: if_splits)
  from find_visible_InrD [OF v] have u: "get_user d i = Some u" "\<not> user_hidden scope u" by simp_all
  show thesis
    using that [OF u l] u r by (auto simp: user_repo_delete_def split: if_splits)
qed

interpretation user_crud: crud users u_id u_username
    "\<lambda>x d d'. \<exists>C salt c scope now. user_create_op C salt c scope now d = Inr (x, d')"
    "\<lambda>i x d d'. \<exists>C salt p scope. user_update_op C salt i p scope d = Inr (x, d')"
    "\<lambda>i d d'. \<exists>scope. user_delete_op i scope d = Inr ((), d')"
proof
  fix d x d' assume "\<exists>C salt c scope now. user_create_op C salt c scope now d = Inr (x, d')"
  then obtain C salt c scope now where "user_create_op C salt c scope now d = Inr (x, d')" by blast
  note r = user_create_InrD [OF this]
  show "u_id x = seq (users d) \<and> u_username x \<notin> u_username ` set (rows (users d)) \<and>
      users d' = appended x (users d)"
    using r(5) by (simp add: r(2)) (simp add: r(1) new_user_def)
next
  fix d i x d'
  assume ok: "coded_ok u_id u_username (users d)"
    and "\<exists>C salt p scope. user_update_op C salt i p scope d = Inr (x, d')"
  then obtain C salt p scope where u: "user_update_op C salt i p scope d = Inr (x, d')" by blast
  let ?f = "apply_user_update p (new_password_hash C salt p)"
  from u obtain r where r: "get_user d i = Some r" "x = ?f r"
    "d' = d\<lparr>users := update_where (\<lambda>y. u_id y = i) ?f (users d)\<rparr>" by (rule user_update_InrD)
  from code_kept [OF ok r(1) [unfolded get_user_def], of x] r(2)
  have "\<And>z. z \<in> set (rows (users d)) \<Longrightarrow> u_id z \<noteq> i \<Longrightarrow> u_username z \<noteq> u_username x" by simp
  with r show "\<exists>f y. (\<forall>z. u_id (f z) = u_id z) \<and> get_row u_id (users d) i = Some y \<and> x = f y \<and>
      users d' = update_where (\<lambda>z. u_id z = i) f (users d) \<and>
      (\<forall>z \<in> set (rows (users d)). u_id z \<noteq> i \<longrightarrow> u_username z \<noteq> u_username x)"
    by (intro exI [of _ ?f] exI [of _ r]) (simp add: get_user_def)
next
  fix d i d' assume "\<exists>scope. user_delete_op i scope d = Inr ((), d')"
  then obtain scope where "user_delete_op i scope d = Inr ((), d')" by blast
  then show "get_row u_id (users d) i \<noteq> None \<and> users d' = delete_where (\<lambda>z. u_id z = i) (users d)"
    by (rule user_delete_InrD) (simp add: get_user_def)
qed

end
