(* ===== verification/AuditEvents.thy ===== *)
theory AuditEvents
  imports Schema PyText
begin

text \<open>
  \<^verbatim>\<open>audit/events.py\<close> (redaction of metadata), \<^verbatim>\<open>audit/emit.py\<close> (\<^verbatim>\<open>emit_rbac_write\<close>) and
  \<^verbatim>\<open>core/rbac_audit.py\<close> (\<^verbatim>\<open>audited_write\<close>).  A success event is written in the transaction of the
  operation, a failure event into the buffer of the request, which is flushed after the response;
  the model returns that buffer.  A sink that loses an event is logged and ignored by the code and
  is not modelled.
\<close>

section \<open>Redaction\<close>

definition deny_keys :: "string list" where
  "deny_keys = [''authorization'', ''password'', ''passwd'', ''token'', ''cookie'', ''secret'',
     ''api_key'', ''apikey'', ''credential'']"

fun py_contains :: "string \<Rightarrow> string \<Rightarrow> bool" where
  "py_contains sub [] \<longleftrightarrow> sub = []"
| "py_contains sub (c # cs) \<longleftrightarrow> starts_with sub (c # cs) \<or> py_contains sub cs"

definition denied_key :: "string \<Rightarrow> bool" where
  "denied_key key \<longleftrightarrow> (\<exists>bad \<in> set deny_keys. py_contains bad (py_lower key))"

fun redact_value :: "json \<Rightarrow> json \<times> bool"
  and redact_dict :: "(string \<times> json) list \<Rightarrow> (string \<times> json) list \<times> bool"
  and redact_list :: "json list \<Rightarrow> json list \<times> bool" where
  "redact_value (JObj kvs) = (case redact_dict kvs of (kvs', r) \<Rightarrow> (JObj kvs', r))"
| "redact_value (JList vs) = (case redact_list vs of (vs', r) \<Rightarrow> (JList vs', r))"
| "redact_value JNull = (JNull, False)"
| "redact_value (JBool b) = (JBool b, False)"
| "redact_value (JNum n) = (JNum n, False)"
| "redact_value (JStr s) = (JStr s, False)"
| "redact_dict [] = ([], False)"
| "redact_dict ((k, v) # kvs) =
     (case redact_dict kvs of (kvs', r) \<Rightarrow>
        if denied_key k then (kvs', True)
        else (case redact_value v of (v', r') \<Rightarrow> ((k, v') # kvs', r' \<or> r)))"
| "redact_list [] = ([], False)"
| "redact_list (v # vs) =
     (case redact_value v of (v', r) \<Rightarrow> (case redact_list vs of (vs', r') \<Rightarrow> (v' # vs', r \<or> r')))"

definition redact_metadata :: "(string \<times> json) list option \<Rightarrow> (string \<times> json) list \<times> bool" where
  "redact_metadata raw = (case raw of None \<Rightarrow> ([], False) | Some kvs \<Rightarrow> redact_dict kvs)"

text \<open>All keys of a value, at every depth, and the value without the entries under denied keys.\<close>

fun json_keys :: "json \<Rightarrow> string list"
  and dict_keys :: "(string \<times> json) list \<Rightarrow> string list"
  and list_keys :: "json list \<Rightarrow> string list" where
  "json_keys (JObj kvs) = dict_keys kvs"
| "json_keys (JList vs) = list_keys vs"
| "json_keys _ = []"
| "dict_keys [] = []"
| "dict_keys ((k, v) # kvs) = k # json_keys v @ dict_keys kvs"
| "list_keys [] = []"
| "list_keys (v # vs) = json_keys v @ list_keys vs"

lemma redact_clean:
  "\<forall>k \<in> set (json_keys (fst (redact_value v))). \<not> denied_key k"
  "\<forall>k \<in> set (dict_keys (fst (redact_dict kvs))). \<not> denied_key k"
  "\<forall>k \<in> set (list_keys (fst (redact_list vs))). \<not> denied_key k"
proof (induction v and kvs and vs rule: redact_value_redact_dict_redact_list.induct)
  case (8 k v kvs)
  then show ?case by (cases "redact_value v"; cases "redact_dict kvs") auto
next
  case (10 v vs)
  then show ?case by (cases "redact_value v"; cases "redact_list vs") auto
qed (auto split: prod.splits)

lemma redact_flag:
  "snd (redact_value v) \<longleftrightarrow> (\<exists>k \<in> set (json_keys v). denied_key k)"
  "snd (redact_dict kvs) \<longleftrightarrow> (\<exists>k \<in> set (dict_keys kvs). denied_key k)"
  "snd (redact_list vs) \<longleftrightarrow> (\<exists>k \<in> set (list_keys vs). denied_key k)"
proof (induction v and kvs and vs rule: redact_value_redact_dict_redact_list.induct)
  case (8 k v kvs)
  then show ?case by (cases "redact_value v"; cases "redact_dict kvs") auto
next
  case (10 v vs)
  then show ?case by (cases "redact_value v"; cases "redact_list vs") auto
qed (auto split: prod.splits)

lemma redact_id:
  "\<forall>k \<in> set (json_keys v). \<not> denied_key k \<Longrightarrow> redact_value v = (v, False)"
  "\<forall>k \<in> set (dict_keys kvs). \<not> denied_key k \<Longrightarrow> redact_dict kvs = (kvs, False)"
  "\<forall>k \<in> set (list_keys vs). \<not> denied_key k \<Longrightarrow> redact_list vs = (vs, False)"
proof (induction v and kvs and vs rule: redact_value_redact_dict_redact_list.induct)
  case (10 v vs)
  then have v: "redact_value v = (v, False)" by simp
  have "redact_list vs = (vs, False)" using "10.IH"(2) [OF v [symmetric]] "10.prems" by simp
  with v show ?case by simp
qed auto

section \<open>RBAC write events\<close>

definition rbac_event ::
    "int \<Rightarrow> string \<Rightarrow> string \<Rightarrow> int option \<Rightarrow> string option \<Rightarrow> string \<Rightarrow> int \<Rightarrow> string option \<Rightarrow> audit_event" where
  "rbac_event actor action tt target display st http err =
     \<lparr>ev_type = ''rbac_write'', ev_action = action, ev_actor = Some actor, ev_target = target,
      ev_display = display, ev_status = st, ev_http = Some http, ev_error = err, ev_risk = ''medium'',
      ev_ttype = Some tt\<rparr>"

definition record_committed :: "audit_event \<Rightarrow> db \<Rightarrow> db" where
  "record_committed e d = d\<lparr>audit_rows := audit_rows d @ [e]\<rparr>"

text \<open>
  \<open>op\<close> is the service call; \<open>id_of\<close> and \<open>display\<close> read the returned resource.  The result is what
  escapes, the database after the transaction, and the buffered events.
\<close>

definition audited_write ::
    "int \<Rightarrow> string \<Rightarrow> string \<Rightarrow> int option \<Rightarrow> ('a \<Rightarrow> int option) \<Rightarrow> ('a \<Rightarrow> string option) \<Rightarrow> int
      \<Rightarrow> (db \<Rightarrow> exn + 'a \<times> db) \<Rightarrow> db \<Rightarrow> (exn + 'a) \<times> db \<times> audit_event list" where
  "audited_write actor action tt target id_of display success_status op d =
     (case op d of
        Inl (AppErr code st) \<Rightarrow>
          (Inl (AppErr code st), d, [rbac_event actor action tt target None ''failure'' st (Some code)])
      | Inl (IntegrityErr c) \<Rightarrow>
          (Inl (IntegrityErr c), d,
           [rbac_event actor action tt target None ''failure'' 409 (Some ''framework.CONFLICT'')])
      | Inl (RuntimeErr m) \<Rightarrow> (Inl (RuntimeErr m), d, [])
      | Inr (x, d') \<Rightarrow>
          (Inr x, record_committed (rbac_event actor action tt
             (case target of Some t \<Rightarrow> Some t | None \<Rightarrow> id_of x) (display x) ''success'' success_status None) d', []))"

text \<open>Whatever happens, at most one event is written, and the data changes on success only.\<close>

lemma audited_write_result: "fst (audited_write actor action tt target id_of display st op d) =
    (case op d of Inl e \<Rightarrow> Inl e | Inr (x, d') \<Rightarrow> Inr x)"
  by (auto simp: audited_write_def split: sum.splits exn.splits)

lemma audited_write_db: "fst (snd (audited_write actor action tt target id_of display st op d)) =
    (case op d of Inl e \<Rightarrow> d
     | Inr (x, d') \<Rightarrow> record_committed (rbac_event actor action tt
         (case target of Some t \<Rightarrow> Some t | None \<Rightarrow> id_of x) (display x) ''success'' st None) d')"
  by (auto simp: audited_write_def split: sum.splits exn.splits)

end
