(* ===== verification/Bindings.thy ===== *)
theory Bindings
  imports RoleService PostService MenuService UserService AuditEvents
begin

text \<open>
  \<^verbatim>\<open>domains/rbac_binding/service.py\<close> and the \<^verbatim>\<open>set_*\<close> methods of the repositories: the bindings of
  a user to roles and posts, of a role to menus and departments, replaced as a whole.  The four
  association tables satisfy the locale \<open>binding_store\<close>.  The locks that serialise writers are no
  state of the model, and the foreign keys cannot fail because every key is checked before.
\<close>

section \<open>Association tables\<close>

definition replace_links :: "int \<Rightarrow> int list \<Rightarrow> (int \<times> int) list \<Rightarrow> (int \<times> int) list" where
  "replace_links a bs links = filter (\<lambda>p. fst p \<noteq> a) links @ map (Pair a) (dedupe bs)"

definition links_of :: "(int \<times> int) list \<Rightarrow> int \<Rightarrow> int list" where
  "links_of links a = sort (map snd (filter (\<lambda>p. fst p = a) links))"

definition repo_set_user_roles :: "int \<Rightarrow> int list \<Rightarrow> db \<Rightarrow> db" where
  "repo_set_user_roles a bs d = d\<lparr>user_roles := replace_links a bs (user_roles d)\<rparr>"
definition repo_set_user_posts :: "int \<Rightarrow> int list \<Rightarrow> db \<Rightarrow> db" where
  "repo_set_user_posts a bs d = d\<lparr>user_posts := replace_links a bs (user_posts d)\<rparr>"
definition repo_set_role_menus :: "int \<Rightarrow> int list \<Rightarrow> db \<Rightarrow> db" where
  "repo_set_role_menus a bs d = d\<lparr>role_menus := replace_links a bs (role_menus d)\<rparr>"
definition repo_set_role_depts :: "int \<Rightarrow> int list \<Rightarrow> db \<Rightarrow> db" where
  "repo_set_role_depts a bs d = d\<lparr>role_depts := replace_links a bs (role_depts d)\<rparr>"

definition list_role_ids_for_user :: "db \<Rightarrow> int \<Rightarrow> int list" where
  "list_role_ids_for_user d a = links_of (user_roles d) a"
definition list_post_ids_for_user :: "db \<Rightarrow> int \<Rightarrow> int list" where
  "list_post_ids_for_user d a = links_of (user_posts d) a"
definition list_menu_ids_for_role :: "db \<Rightarrow> int \<Rightarrow> int list" where
  "list_menu_ids_for_role d a = links_of (role_menus d) a"

section \<open>The interface of an association table\<close>

locale binding_store =
  fixes links :: "db \<Rightarrow> (int \<times> int) list"
    and replace :: "int \<Rightarrow> int list \<Rightarrow> db \<Rightarrow> db"
  assumes links_replace: "links (replace a bs d) = replace_links a bs (links d)"
begin

lemma mem_replace:
  "p \<in> set (links (replace a bs d)) \<longleftrightarrow> (if fst p = a then snd p \<in> set bs else p \<in> set (links d))"
  by (cases p) (auto simp: links_replace replace_links_def)

lemma lookup_same: "links_of (links (replace a bs d)) a = sort (dedupe bs)"
  by (simp add: links_replace replace_links_def links_of_def comp_def)

lemma lookup_other: "b \<noteq> a \<Longrightarrow> links_of (links (replace a bs d)) b = links_of (links d) b"
proof -
  assume "b \<noteq> a"
  then have "filter (\<lambda>p. fst p = b) (replace_links a bs xs) = filter (\<lambda>p. fst p = b) xs" for xs
    by (auto simp: replace_links_def filter_empty_conv intro: filter_cong)
  then show ?thesis by (simp add: links_of_def links_replace)
qed

lemma distinct_replace: "distinct (links d) \<Longrightarrow> distinct (links (replace a bs d))"
  by (auto simp: links_replace replace_links_def distinct_map inj_on_def)

lemma last_replace_wins: "links (replace a bs (replace a cs d)) = links (replace a bs d)"
  by (simp add: links_replace replace_links_def comp_def)

end

interpretation user_role_store: binding_store user_roles repo_set_user_roles
  by unfold_locales (simp add: repo_set_user_roles_def)
interpretation user_post_store: binding_store user_posts repo_set_user_posts
  by unfold_locales (simp add: repo_set_user_posts_def)
interpretation role_menu_store: binding_store role_menus repo_set_role_menus
  by unfold_locales (simp add: repo_set_role_menus_def)
interpretation role_dept_store: binding_store role_depts repo_set_role_depts
  by unfold_locales (simp add: repo_set_role_depts_def)

section \<open>Guards of the service\<close>

record actor =
  ac_user :: int
  ac_is_super :: bool

definition role_ids_invalid :: exn where "role_ids_invalid = AppErr ''rbac_binding.ROLE_IDS_INVALID'' 422"
definition post_ids_invalid :: exn where "post_ids_invalid = AppErr ''rbac_binding.POST_IDS_INVALID'' 422"
definition menu_ids_invalid :: exn where "menu_ids_invalid = AppErr ''rbac_binding.MENU_IDS_INVALID'' 422"
definition dept_ids_invalid :: exn where "dept_ids_invalid = AppErr ''rbac_binding.DEPT_IDS_INVALID'' 422"

definition require_super_admin :: "actor \<Rightarrow> exn + unit" where
  "require_super_admin op = guard (ac_is_super op) forbidden_by_role"

definition require_role :: "db \<Rightarrow> int \<Rightarrow> exn + role" where
  "require_role d i = (case get_role d i of None \<Rightarrow> Inl role_not_found | Some r \<Rightarrow> Inr r)"

definition require_ids_exist :: "(int list \<Rightarrow> int set) \<Rightarrow> int list \<Rightarrow> exn \<Rightarrow> exn + unit" where
  "require_ids_exist lookup ids e =
     (if ids = [] then Inr ()
      else (let existing = lookup ids; missing = filter (\<lambda>i. i \<notin> existing) ids
            in if missing \<noteq> [] then Inl e else Inr ()))"

section \<open>Operations\<close>

text \<open>The bodies; \<open>audited_binding\<close> adds the event, with what the body returns for display.\<close>

definition set_user_roles_body ::
    "int \<Rightarrow> int list \<Rightarrow> actor \<Rightarrow> data_scope option \<Rightarrow> db \<Rightarrow> exn + (int list \<times> string) \<times> db" where
  "set_user_roles_body uid ids op scope d =
     bind_res (require_super_admin op) (\<lambda>_.
     bind_res (find_visible d uid scope) (\<lambda>u.
     bind_res (require_ids_exist (role_existing_ids d) (dedupe ids) role_ids_invalid) (\<lambda>_.
       Inr ((dedupe ids, u_username u), repo_set_user_roles uid (dedupe ids) d))))"

definition set_user_posts_body ::
    "int \<Rightarrow> int list \<Rightarrow> actor \<Rightarrow> data_scope option \<Rightarrow> db \<Rightarrow> exn + (int list \<times> string) \<times> db" where
  "set_user_posts_body uid ids op scope d =
     bind_res (find_visible d uid scope) (\<lambda>u.
     bind_res (require_ids_exist (post_existing_ids d) (dedupe ids) post_ids_invalid) (\<lambda>_.
       Inr ((dedupe ids, u_username u), repo_set_user_posts uid (dedupe ids) d)))"

definition set_role_menus_body ::
    "int \<Rightarrow> int list \<Rightarrow> actor \<Rightarrow> db \<Rightarrow> exn + (int list \<times> string) \<times> db" where
  "set_role_menus_body rid ids op d =
     bind_res (require_super_admin op) (\<lambda>_.
     bind_res (require_role d rid) (\<lambda>r.
     bind_res (require_ids_exist (menu_existing_ids d) (dedupe ids) menu_ids_invalid) (\<lambda>_.
       Inr ((dedupe ids, r_code r), repo_set_role_menus rid (dedupe ids) d))))"

definition set_role_depts_body ::
    "int \<Rightarrow> int list \<Rightarrow> actor \<Rightarrow> db \<Rightarrow> exn + (int list \<times> string) \<times> db" where
  "set_role_depts_body rid ids op d =
     bind_res (require_super_admin op) (\<lambda>_.
     bind_res (require_role d rid) (\<lambda>r.
     bind_res (require_ids_exist (dept_existing_ids d) (dedupe ids) dept_ids_invalid) (\<lambda>_.
       Inr ((dedupe ids, r_code r), repo_set_role_depts rid (dedupe ids) d))))"

definition audited_binding ::
    "actor \<Rightarrow> string \<Rightarrow> string \<Rightarrow> int \<Rightarrow> (db \<Rightarrow> exn + (int list \<times> string) \<times> db) \<Rightarrow> db
      \<Rightarrow> (exn + int list) \<times> db \<times> audit_event list" where
  "audited_binding op action tt target body d =
     (case body d of
        Inl (AppErr code st) \<Rightarrow>
          (Inl (AppErr code st), d,
           [rbac_event (ac_user op) action tt (Some target) None ''failure'' st (Some code)])
      | Inl e \<Rightarrow> (Inl e, d, [])
      | Inr ((ids, name), d') \<Rightarrow>
          (Inr ids, record_committed (rbac_event (ac_user op) action tt (Some target) (Some name)
             ''success'' 200 None) d', []))"

definition set_user_roles ::
    "int \<Rightarrow> int list \<Rightarrow> actor \<Rightarrow> data_scope option \<Rightarrow> db \<Rightarrow> (exn + int list) \<times> db \<times> audit_event list" where
  "set_user_roles uid ids op scope =
     audited_binding op ''system:user:bind_roles'' ''user'' uid (set_user_roles_body uid ids op scope)"

definition set_user_posts ::
    "int \<Rightarrow> int list \<Rightarrow> actor \<Rightarrow> data_scope option \<Rightarrow> db \<Rightarrow> (exn + int list) \<times> db \<times> audit_event list" where
  "set_user_posts uid ids op scope =
     audited_binding op ''system:user:bind_posts'' ''user'' uid (set_user_posts_body uid ids op scope)"

definition set_role_menus ::
    "int \<Rightarrow> int list \<Rightarrow> actor \<Rightarrow> db \<Rightarrow> (exn + int list) \<times> db \<times> audit_event list" where
  "set_role_menus rid ids op =
     audited_binding op ''system:role:bind_menus'' ''role'' rid (set_role_menus_body rid ids op)"

definition set_role_depts ::
    "int \<Rightarrow> int list \<Rightarrow> actor \<Rightarrow> db \<Rightarrow> (exn + int list) \<times> db \<times> audit_event list" where
  "set_role_depts rid ids op =
     audited_binding op ''system:role:bind_depts'' ''role'' rid (set_role_depts_body rid ids op)"

definition get_user_roles :: "db \<Rightarrow> int \<Rightarrow> data_scope option \<Rightarrow> exn + int list" where
  "get_user_roles d uid scope =
     bind_res (find_visible d uid scope) (\<lambda>_. Inr (list_role_ids_for_user d uid))"

definition get_user_posts :: "db \<Rightarrow> int \<Rightarrow> data_scope option \<Rightarrow> exn + int list" where
  "get_user_posts d uid scope =
     bind_res (find_visible d uid scope) (\<lambda>_. Inr (list_post_ids_for_user d uid))"

definition get_role_menus :: "db \<Rightarrow> int \<Rightarrow> exn + int list" where
  "get_role_menus d rid = bind_res (require_role d rid) (\<lambda>_. Inr (list_menu_ids_for_role d rid))"

definition get_role_depts :: "db \<Rightarrow> int \<Rightarrow> data_scope option \<Rightarrow> exn + int list" where
  "get_role_depts d rid scope =
     bind_res (require_role d rid) (\<lambda>_.
       let dept_ids = sorted_list_of_set (list_custom_dept_ids_for_role d rid)
       in if list_all (\<lambda>i. \<not> out_of_scope scope (Some i)) dept_ids then Inr dept_ids
          else Inl forbidden_by_scope)"

section \<open>Facts\<close>

lemma require_ids_exist_Inr_iff:
  "require_ids_exist lookup ids e = Inr u \<longleftrightarrow> (\<forall>i \<in> set ids. i \<in> lookup ids)"
  by (auto simp: require_ids_exist_def Let_def filter_empty_conv)

lemma existing_ids_iff:
  "i \<in> role_existing_ids d ids \<longleftrightarrow> i \<in> set ids \<and> get_role d i \<noteq> None"
  "i \<in> post_existing_ids d ids \<longleftrightarrow> i \<in> set ids \<and> get_post d i \<noteq> None"
  "i \<in> menu_existing_ids d ids \<longleftrightarrow> i \<in> set ids \<and> get_menu d i \<noteq> None"
  "i \<in> dept_existing_ids d ids \<longleftrightarrow> i \<in> set ids \<and> get_dept d i \<noteq> None"
  by (auto simp: role_existing_ids_def post_existing_ids_def menu_existing_ids_def dept_existing_ids_def)

lemma audited_binding_Inr:
  assumes "audited_binding op action tt target body d = (Inr ids, d', evs)"
  obtains name d1 where "body d = Inr ((ids, name), d1)"
    "d' = record_committed (rbac_event (ac_user op) action tt (Some target) (Some name) ''success'' 200 None) d1"
    "evs = []"
  using assms by (auto simp: audited_binding_def split: sum.splits exn.splits)

lemma audited_binding_Inl:
  "audited_binding op action tt target body d = (Inl e, d', evs) \<Longrightarrow> d' = d \<and> body d = Inl e"
  by (auto simp: audited_binding_def split: sum.splits exn.splits)

end
