(* ===== verification/AccessTheorems.thy ===== *)
theory AccessTheorems
  imports Bindings DeptTheorems MenuTheorems PostTheorems
begin

text \<open>
  Properties that span the administrative services: who can change what a user may do.  A
  \<open>delegate_step\<close> is one successful administrative write of a caller who is not a super
  administrator (or a binding request of such a caller, whatever its outcome).
\<close>

section \<open>Writes of delegated administrators\<close>

inductive delegate_step :: "db \<Rightarrow> db \<Rightarrow> bool" where
  role_created: "role_create_op rc False now d = Inr (x, d') \<Longrightarrow> delegate_step d d'"
| role_updated: "role_update_op i ru False d = Inr (x, d') \<Longrightarrow> delegate_step d d'"
| role_deleted: "role_delete_op i d = Inr ((), d') \<Longrightarrow> delegate_step d d'"
| menu_created: "menu_create_op mc False d = Inr (y, d') \<Longrightarrow> delegate_step d d'"
| menu_updated: "menu_update_op i mu False d = Inr (y, d') \<Longrightarrow> delegate_step d d'"
| menu_deleted: "menu_delete_op i d = Inr ((), d') \<Longrightarrow> delegate_step d d'"
| user_created: "user_create_op C salt uc scope now d = Inr (u, d') \<Longrightarrow> delegate_step d d'"
| user_updated: "user_update_op C salt i uu scope d = Inr (u, d') \<Longrightarrow> delegate_step d d'"
| user_deleted: "user_delete_op i scope d = Inr ((), d') \<Longrightarrow> delegate_step d d'"
| dept_write: "dept_step d d' \<Longrightarrow> delegate_step d d'"
| post_created: "post_create_op pc now d = Inr (p, d') \<Longrightarrow> delegate_step d d'"
| post_updated: "post_update_op i pu d = Inr (p, d') \<Longrightarrow> delegate_step d d'"
| post_deleted: "post_delete_op i d = Inr ((), d') \<Longrightarrow> delegate_step d d'"
| posts_imported: "import_posts to_int L now f d = Inr (s, d') \<Longrightarrow> delegate_step d d'"
| posts_bound: "set_user_posts i ids op scope d = (r, d', evs) \<Longrightarrow> delegate_step d d'"
| roles_bound: "\<not> ac_is_super op \<Longrightarrow> set_user_roles i ids op scope d = (r, d', evs) \<Longrightarrow> delegate_step d d'"
| menus_bound: "\<not> ac_is_super op \<Longrightarrow> set_role_menus i ids op d = (r, d', evs) \<Longrightarrow> delegate_step d d'"
| depts_bound: "\<not> ac_is_super op \<Longrightarrow> set_role_depts i ids op d = (r, d', evs) \<Longrightarrow> delegate_step d d'"

text \<open>The bindings refer to keys that the tables have handed out (the foreign keys).\<close>

definition links_ok :: "db \<Rightarrow> bool" where
  "links_ok d \<longleftrightarrow> (\<forall>p \<in> set (user_roles d). snd p < seq (roles d)) \<and>
     (\<forall>p \<in> set (role_menus d). snd p < seq (menus d))"

definition super_ids :: "db \<Rightarrow> int set" where
  "super_ids d = u_id ` {u \<in> set (rows (users d)). u_super u}"

text \<open>
  \<open>d'\<close> grants no more than \<open>d\<close>: no new link, and every linked active role or menu was active, with
  the same permission, before.
\<close>

definition grants_within :: "db \<Rightarrow> db \<Rightarrow> bool" where
  "grants_within d' d \<longleftrightarrow>
     set (user_roles d') \<subseteq> set (user_roles d) \<and> set (role_menus d') \<subseteq> set (role_menus d) \<and>
     (\<forall>r' \<in> set (rows (roles d')). r_status r' = Active \<and> r_id r' \<in> snd ` set (user_roles d) \<longrightarrow>
        (\<exists>r \<in> set (rows (roles d)). r_id r = r_id r' \<and> r_status r = Active)) \<and>
     (\<forall>m' \<in> set (rows (menus d')). m_status m' = Active \<and> m_id m' \<in> snd ` set (role_menus d) \<longrightarrow>
        (\<exists>m \<in> set (rows (menus d)). m_id m = m_id m' \<and> m_perms m = m_perms m' \<and> m_status m = Active)) \<and>
     super_ids d' \<subseteq> super_ids d \<and> seq (roles d) \<le> seq (roles d') \<and> seq (menus d) \<le> seq (menus d')"

lemma grants_within_perms:
  assumes "grants_within d' d"
  shows "list_perms_for_user d' uid \<subseteq> list_perms_for_user d uid"
proof
  fix perm assume "perm \<in> list_perms_for_user d' uid"
  then obtain r' m' where p: "perm \<noteq> []" "r' \<in> set (rows (roles d'))" "m' \<in> set (rows (menus d'))"
    "(uid, r_id r') \<in> set (user_roles d')" "r_status r' = Active"
    "(r_id r', m_id m') \<in> set (role_menus d')" "m_status m' = Active" "m_perms m' = Some perm"
    by (auto simp: perms_for_user_iff)
  from assms p(4,6) have l: "(uid, r_id r') \<in> set (user_roles d)" "(r_id r', m_id m') \<in> set (role_menus d)"
    by (auto simp: grants_within_def)
  then have "r_id r' \<in> snd ` set (user_roles d)" "m_id m' \<in> snd ` set (role_menus d)" by force+
  then obtain r m where "r \<in> set (rows (roles d))" "r_id r = r_id r'" "r_status r = Active"
    "m \<in> set (rows (menus d))" "m_id m = m_id m'" "m_perms m = m_perms m'" "m_status m = Active"
    using assms p(2,3,5,7) unfolding grants_within_def by blast
  with l p show "perm \<in> list_perms_for_user d uid" unfolding perms_for_user_iff by metis
qed

lemma grants_within_links: "grants_within d' d \<Longrightarrow> links_ok d \<Longrightarrow> links_ok d'"
  unfolding grants_within_def links_ok_def by (meson in_mono order.strict_trans2)

lemma grants_within_refl [simp]: "grants_within d d"
  by (auto simp: grants_within_def)

text \<open>A write that leaves roles, menus, bindings and the super administrators alone.\<close>

lemma grants_within_same:
  assumes "roles d' = roles d" "menus d' = menus d" "user_roles d' = user_roles d"
    "role_menus d' = role_menus d" "super_ids d' \<subseteq> super_ids d"
  shows "grants_within d' d"
  using assms by (auto simp: grants_within_def)

section \<open>One lemma per service\<close>

lemma role_writes_within:
  assumes "links_ok d"
  shows "role_create_op rc False now d = Inr (x, d') \<Longrightarrow> grants_within d' d"
    and "role_update_op i ru False d = Inr (x, d') \<Longrightarrow> grants_within d' d"
    and "role_delete_op i d = Inr ((), d') \<Longrightarrow> grants_within d' d"
proof -
  assume c: "role_create_op rc False now d = Inr (x, d')"
  note r = role_create_InrD [OF c]
  have "seq (roles d) \<notin> snd ` set (user_roles d)" using assms by (auto simp: links_ok_def)
  then have "r_id x \<notin> snd ` set (user_roles d)" by (simp add: r(1) new_role_def)
  then show "grants_within d' d" unfolding r(2) by (auto simp: grants_within_def super_ids_def)
next
  assume "role_update_op i ru False d = Inr (x, d')"
  then show "grants_within d' d"
  proof (rule role_update_InrD)
    fix r assume d': "d' = d\<lparr>roles := update_where (\<lambda>y. r_id y = i) (apply_role_update ru) (roles d)\<rparr>"
      and "False \<or> ru_scope ru = Unset \<and> ru_status ru = Unset"
    then have "\<And>y. r_status (apply_role_update ru y) = r_status y" by (simp add: apply_role_update_def)
    then show ?thesis
      unfolding d' by (auto simp: grants_within_def mem_update_where rows_update_where super_ids_def split: if_splits)
  qed
next
  assume "role_delete_op i d = Inr ((), d')"
  then show "grants_within d' d"
    using role_delete_InrD(2) [of i d d'] by (auto simp: grants_within_def rows_delete_where super_ids_def)
qed

lemma menu_writes_within:
  assumes "links_ok d"
  shows "menu_create_op mc False d = Inr (x, d') \<Longrightarrow> grants_within d' d"
    and "menu_update_op i mu False d = Inr (x, d') \<Longrightarrow> grants_within d' d"
    and "menu_delete_op i d = Inr ((), d') \<Longrightarrow> grants_within d' d"
proof -
  assume c: "menu_create_op mc False d = Inr (x, d')"
  note r = menu_create_InrD [OF c]
  have "seq (menus d) \<notin> snd ` set (role_menus d)" using assms by (auto simp: links_ok_def)
  then have "m_id x \<notin> snd ` set (role_menus d)" by (simp add: r(1) new_menu_def)
  then show "grants_within d' d" unfolding r(2) by (auto simp: grants_within_def super_ids_def)
next
  assume "menu_update_op i mu False d = Inr (x, d')"
  then show "grants_within d' d"
  proof (rule menu_update_InrD)
    assume d': "d' = d\<lparr>menus := update_where (\<lambda>y. m_id y = i) (apply_menu_update mu) (menus d)\<rparr>"
      and "False \<or> mu_perms mu = Unset \<and> mu_type mu = Unset \<and> mu_status mu = Unset"
    then have "\<And>y. m_status (apply_menu_update mu y) = m_status y"
      "\<And>y. m_perms (apply_menu_update mu y) = m_perms y" by (simp_all add: apply_menu_update_def)
    then show ?thesis
      unfolding d' by (auto simp: grants_within_def mem_update_where rows_update_where super_ids_def split: if_splits)
  qed
next
  assume "menu_delete_op i d = Inr ((), d')"
  then show "grants_within d' d"
    using menu_delete_InrD(3) [of i d d'] by (auto simp: grants_within_def rows_delete_where super_ids_def)
qed

lemma user_writes_within:
  shows "user_create_op C salt uc scope now d = Inr (u, d') \<Longrightarrow> grants_within d' d"
    and "user_update_op C salt i uu scope d = Inr (u, d') \<Longrightarrow> grants_within d' d"
    and "user_delete_op i scope d = Inr ((), d') \<Longrightarrow> grants_within d' d"
proof -
  assume c: "user_create_op C salt uc scope now d = Inr (u, d')"
  note r = user_create_InrD [OF c]
  have "\<not> u_super u" by (simp add: r(1) new_user_def)
  then have "super_ids d' = super_ids d" unfolding r(2) by (auto simp: super_ids_def)
  then show "grants_within d' d" by (intro grants_within_same) (simp_all add: r(2))
next
  assume "user_update_op C salt i uu scope d = Inr (u, d')"
  then show "grants_within d' d"
  proof (rule user_update_InrD)
    let ?f = "apply_user_update uu (new_password_hash C salt uu)"
    assume d': "d' = d\<lparr>users := update_where (\<lambda>y. u_id y = i) ?f (users d)\<rparr>"
    have "super_ids d' \<subseteq> super_ids d"
      unfolding d' super_ids_def by (auto simp: mem_update_where split: if_splits)
    then show ?thesis by (intro grants_within_same) (simp_all add: d')
  qed
next
  assume "user_delete_op i scope d = Inr ((), d')"
  then show "grants_within d' d"
    by (rule user_delete_InrD) (auto simp: grants_within_def rows_delete_where super_ids_def)
qed

lemma dept_write_within: "dept_step d d' \<Longrightarrow> grants_within d' d"
proof (induction rule: dept_step.cases)
  case (create c scope e x e')
  then show ?case using dept_create_InrD(2) [of c scope e x e'] by (intro grants_within_same) (simp_all add: super_ids_def)
next
  case (update i p scope e x e')
  then show ?case by (auto elim!: dept_update_InrD intro!: grants_within_same simp: super_ids_def)
next
  case (delete i scope e u e')
  then have d': "e' = e\<lparr>depts := delete_where (\<lambda>y. d_id y = i) (depts e),
             role_depts := filter (\<lambda>p. snd p \<noteq> i) (role_depts e),
             users := update_where (\<lambda>u. u_dept u = Some i) (\<lambda>u. u\<lparr>u_dept := None\<rparr>) (users e)\<rparr>"
    using dept_delete_InrD(4) [of i scope e e'] by simp
  have "super_ids e' \<subseteq> super_ids e"
    unfolding d' super_ids_def by (auto simp: mem_update_where split: if_splits)
  with delete show ?case by (intro grants_within_same) (simp_all add: d')
qed

lemma bulk_create_frame:
  "bulk_create cs now d = Inr d' \<Longrightarrow> d' = d\<lparr>posts := posts d'\<rparr>"
proof (induction cs now d rule: bulk_create.induct)
  case (2 c cs now d)
  then obtain x e where c: "post_repo_create c now d = Inr (x, e)" and b: "bulk_create cs now e = Inr d'"
    by (auto split: sum.splits)
  have "e = d\<lparr>posts := posts e\<rparr>" by (simp add: post_repo_create_InrD(2) [OF c])
  moreover have "d' = e\<lparr>posts := posts d'\<rparr>" by (rule "2.IH" [OF c refl b])
  ultimately show ?case by (metis db.update_convs(5) db.surjective)
qed simp

lemma post_writes_within:
  shows "post_create_op pc now d = Inr (p, d') \<Longrightarrow> grants_within d' d"
    and "post_update_op i pu d = Inr (p, d') \<Longrightarrow> grants_within d' d"
    and "post_delete_op i d = Inr ((), d') \<Longrightarrow> grants_within d' d"
    and "import_posts to_int L now f d = Inr (s, d') \<Longrightarrow> grants_within d' d"
proof -
  assume "post_create_op pc now d = Inr (p, d')"
  from post_repo_create_InrD(2) [OF post_create_InrD [OF this]]
  show "grants_within d' d" by (intro grants_within_same) (simp_all add: super_ids_def)
next
  assume "post_update_op i pu d = Inr (p, d')"
  then show "grants_within d' d"
    by (rule post_update_InrD) (intro grants_within_same, simp_all add: super_ids_def)
next
  assume "post_delete_op i d = Inr ((), d')"
  from post_delete_InrD(2) [OF this]
  show "grants_within d' d" by (intro grants_within_same) (simp_all add: super_ids_def)
next
  assume "import_posts to_int L now f d = Inr (s, d')"
  then consider "d' = d" | cs where "bulk_create cs now d = Inr d'"
    by (auto simp: import_posts_def Let_def split: option.splits if_splits sum.splits)
  then show "grants_within d' d"
  proof cases
    case 2
    show ?thesis
      by (subst bulk_create_frame [OF 2]) (intro grants_within_same, simp_all add: super_ids_def)
  qed simp
qed

lemma bindings_within:
  shows "set_user_posts i ids op scope d = (r, d', evs) \<Longrightarrow> grants_within d' d"
    and "\<not> ac_is_super op \<Longrightarrow> set_user_roles i ids op scope d = (r, d', evs) \<Longrightarrow> grants_within d' d"
    and "\<not> ac_is_super op \<Longrightarrow> set_role_menus i ids op d = (r, d', evs) \<Longrightarrow> grants_within d' d"
    and "\<not> ac_is_super op \<Longrightarrow> set_role_depts i ids op d = (r, d', evs) \<Longrightarrow> grants_within d' d"
proof -
  assume "set_user_posts i ids op scope d = (r, d', evs)"
  then show "grants_within d' d"
    by (intro grants_within_same)
      (auto simp: set_user_posts_def audited_binding_def set_user_posts_body_def bind_res_Inr_iff
        repo_set_user_posts_def record_committed_def super_ids_def split: sum.splits exn.splits prod.splits)
qed (auto simp: set_user_roles_def set_role_menus_def set_role_depts_def audited_binding_def
    set_user_roles_body_def set_role_menus_body_def set_role_depts_body_def require_super_admin_def
    forbidden_by_role_def)

lemma delegate_step_within:
  "delegate_step d d' \<Longrightarrow> links_ok d \<Longrightarrow> grants_within d' d"
  by (induction rule: delegate_step.induct)
    (rule role_writes_within menu_writes_within user_writes_within dept_write_within
      post_writes_within bindings_within; assumption)+

text \<open>
  However many administrative writes callers without the super administrator flag make (roles,
  menus, users, departments, posts, imports, bindings), no user obtains a permission string by
  them, and no new super administrator appears.
\<close>

theorem delegates_grant_nothing:
  assumes "delegate_step\<^sup>*\<^sup>* d d'" and "links_ok d"
  shows "list_perms_for_user d' uid \<subseteq> list_perms_for_user d uid \<and> super_ids d' \<subseteq> super_ids d"
proof -
  from assms have "links_ok d' \<and> list_perms_for_user d' uid \<subseteq> list_perms_for_user d uid \<and>
      super_ids d' \<subseteq> super_ids d"
  proof (induction rule: rtranclp_induct)
    case (step e e')
    then have w: "grants_within e' e" by (intro delegate_step_within) simp_all
    from grants_within_perms [OF w, of uid] grants_within_links [OF w] step
    show ?case using w by (auto simp: grants_within_def)
  qed simp
  then show ?thesis by simp
qed


definition demo_new_role :: role_create where
  "demo_new_role = \<lparr>rc_name = ''auditor'', rc_code = ''auditor'', rc_scope = ScopeSelf, rc_sort = 0,
     rc_status = Active\<rparr>"

text \<open>User 1 of \<open>demo_org\<close> creates a role, then removes the role 5.\<close>

theorem delegates_grant_nothing_witness:
  "\<exists>d'. delegate_step\<^sup>*\<^sup>* demo_org d' \<and>
     list_perms_for_user d' 1 \<subseteq> list_perms_for_user demo_org 1 \<and> super_ids d' \<subseteq> super_ids demo_org"
proof -
  let ?a = "role_create_op demo_new_role False 0 demo_org"
  let ?d1 = "demo_org\<lparr>roles := appended (new_role demo_new_role 0 6) (roles demo_org)\<rparr>"
  have a: "?a = Inr (new_role demo_new_role 0 6, ?d1)"
    by (simp add: role_create_op_def role_guard_create_def role_repo_create_def find_role_by_code_def
        demo_org_def demo_role_def demo_new_role_def int_str_def nat_str.simps digit_char_def
        insert_row_appended)
  have b: "role_delete_op 5 ?d1 = Inr ((), snd (role_repo_delete 5 ?d1))"
    by (simp add: role_delete_op_def role_repo_delete_def get_role_def get_row_def demo_org_def demo_role_def)
  from role_created [OF a] role_deleted [OF b]
  have s: "delegate_step\<^sup>*\<^sup>* demo_org (snd (role_repo_delete 5 ?d1))" by simp
  have l: "links_ok demo_org" by (simp add: links_ok_def demo_org_def)
  show ?thesis using delegates_grant_nothing [OF s l, of 1] s by blast
qed

end
