(* ===== verification/UserTheorems.thy ===== *)
theory UserTheorems
  imports UserService AuthzTheorems
begin

text \<open>
  Properties of the user service: the super administrator stays, writes stay in the data scope,
  lists show what can be opened, and what the right to edit users amounts to.
\<close>

section \<open>The super administrator stays\<close>

inductive user_step :: "db \<Rightarrow> db \<Rightarrow> bool" where
  create: "user_create_op C salt c scope now d = Inr (x, d') \<Longrightarrow> user_step d d'"
| update: "user_update_op C salt i p scope d = Inr (x, d') \<Longrightarrow> user_step d d'"
| delete: "user_delete_op i scope d = Inr ((), d') \<Longrightarrow> user_step d d'"

definition sole_super :: "db \<Rightarrow> int \<Rightarrow> bool" where
  "sole_super d s \<longleftrightarrow> coded_ok u_id u_username (users d) \<and> one_super d \<and>
     (\<exists>u. get_user d s = Some u \<and> u_super u \<and> u_status u = Active)"

lemma user_step_ok:
  "user_step d d' \<Longrightarrow> coded_ok u_id u_username (users d) \<Longrightarrow> coded_ok u_id u_username (users d')"
  by (induction rule: user_step.induct) (blast intro: user_crud.write_ok)+

lemma super_comp_update:
  "(\<And>u. u_super (f u) = u_super u) \<Longrightarrow> u_super \<circ> (\<lambda>y. if P y then f y else y) = u_super"
  by (auto simp: fun_eq_iff)

lemma user_step_one_super: "user_step d d' \<Longrightarrow> one_super d \<Longrightarrow> one_super d'"
proof (induction rule: user_step.induct)
  case (create C salt c scope now d x d')
  note r = user_create_InrD [OF create(1)]
  have "\<not> u_super x" by (simp add: r(1) new_user_def)
  with create(2) show ?case by (simp add: one_super_def r(2))
next
  case (update C salt i p scope d x d')
  from update(1) show ?case
    by (rule user_update_InrD)
      (use update(2) in \<open>simp add: one_super_def rows_update_where super_comp_update\<close>)
next
  case (delete i scope d d')
  have shrink: "length (filter (\<lambda>x. u_id x \<noteq> i \<and> u_super x) us) \<le> length (filter u_super us)" for us
    by (induction us) auto
  from delete(1) show ?case
    by (rule user_delete_InrD)
      (use delete(2) order_trans [OF shrink] in \<open>simp add: one_super_def rows_delete_where\<close>)
qed

lemma sole_super_count: "sole_super d s \<Longrightarrow> count_super_admins d \<le> 1"
  by (simp add: sole_super_def one_super_def count_super_admins_def)

lemma sole_super_step:
  assumes "user_step d d'" "sole_super d s"
  shows "sole_super d' s"
proof -
  from assms(2) obtain u where u: "get_user d s = Some u" "u_super u" "u_status u = Active"
    and ok: "coded_ok u_id u_username (users d)" by (auto simp: sole_super_def)
  have "\<exists>u. get_user d' s = Some u \<and> u_super u \<and> u_status u = Active"
    using assms(1)
  proof cases
    case (create C salt c scope now x)
    have "get_row u_id (users d') s = (if s = u_id x then Some x else get_row u_id (users d) s)"
      "get_row u_id (users d) (u_id x) = None"
      using user_crud.get_created [OF ok, of x d'] create by blast+
    with u show ?thesis by (auto simp: get_user_def split: if_splits)
  next
    case (update C salt i p scope x)
    then show ?thesis
    proof (rule user_update_InrD)
      fix v assume v: "get_user d i = Some v" "x = apply_user_update p (new_password_hash C salt p) v"
        "\<not> (disabling p \<and> u_super v \<and> count_super_admins d \<le> 1)"
      have "\<exists>C salt p scope. user_update_op C salt i p scope d = Inr (x, d')" using update by blast
      from user_crud.get_updated(3) [OF ok this, of s]
      have g: "get_user d' s = (if s = i then Some x else get_user d s)" by (simp add: get_user_def)
      have "u_super x \<and> u_status x = Active" if "s = i"
      proof -
        have "v = u" using u(1) v(1) that by simp
        with u v(3) sole_super_count [OF assms(2)] have "\<not> disabling p" by simp
        then have "u_status x = Active"
          using u(3) v(2) \<open>v = u\<close>
          by (cases "uu_status p") (auto simp: apply_user_update_def disabling_def split: option.splits)
        with v(2) u(2) \<open>v = u\<close> show ?thesis by simp
      qed
      with g u show ?thesis by (cases "s = i") auto
    qed
  next
    case (delete i scope)
    then show ?thesis
    proof (rule user_delete_InrD)
      fix v assume v: "get_user d i = Some v" "\<not> (u_super v \<and> count_super_admins d \<le> 1)"
      then have "s \<noteq> i" using u sole_super_count [OF assms(2)] by auto
      moreover have "\<exists>scope. user_delete_op i scope d = Inr ((), d')" using delete by blast
      from user_crud.get_deleted(2) [OF ok this, of s]
      have "get_user d' s = (if s = i then None else get_user d s)" by (simp add: get_user_def)
      ultimately have "get_user d' s = get_user d s" by simp
      with u show ?thesis by simp
    qed
  qed
  with assms show ?thesis
    using user_step_ok user_step_one_super by (auto simp: sole_super_def)
qed

text \<open>
  No sequence of user creations, updates and deletions, by any callers with any data scopes,
  disables or removes the only super administrator or takes the flag away.
\<close>

theorem super_admin_stays:
  assumes "user_step\<^sup>*\<^sup>* d d'" and "sole_super d s"
  shows "sole_super d' s \<and> db_is_super_admin d' s"
proof -
  from assms have "sole_super d' s"
    by (induction rule: rtranclp_induct) (auto intro: sole_super_step)
  then show ?thesis by (auto simp: sole_super_def db_is_super_admin_def)
qed


definition demo_root :: user where
  "demo_root = \<lparr>u_id = 1, u_username = ''root'', u_password_hash = ''old'', u_nickname = [],
     u_status = Active, u_super = True, u_dept = Some 10, u_created = 0\<rparr>"

definition demo_patch :: user_update where
  "demo_patch = \<lparr>uu_nickname = Unset, uu_status = Unset, uu_password = Unset, uu_dept = Unset\<rparr>"

text \<open>A super administrator 1, and a helper 2 who may edit users and sees all of them.\<close>

definition demo_staffed :: db where
  "demo_staffed = empty_db
     \<lparr>users := \<lparr>rows = [demo_root, demo_staff 2 (Some 10)], seq = 3\<rparr>,
      depts := \<lparr>rows = [demo_dept 10 None], seq = 11\<rparr>,
      roles := \<lparr>rows = [demo_role 5 ScopeAll], seq = 6\<rparr>,
      menus := \<lparr>rows = [demo_menu 7 ''system:user:edit''], seq = 8\<rparr>,
      user_roles := [(2, 5)], role_menus := [(5, 7)]\<rparr>"

lemma demo_staffed_sole: "sole_super demo_staffed 1"
  by (simp add: sole_super_def coded_ok_def table_ok_def one_super_def demo_staffed_def get_user_def
      get_row_def demo_root_def demo_staff_def int_str_def nat_str.simps digit_char_def)

theorem super_admin_stays_witness:
  "\<exists>d'. user_step\<^sup>*\<^sup>* demo_staffed d' \<and> sole_super d' 1 \<and> db_is_super_admin d' 1"
proof -
  have "user_delete_op 2 None demo_staffed = Inr ((), snd (projr (user_repo_delete 2 demo_staffed)))"
    by (simp add: user_delete_op_def find_visible_def user_hidden_def user_repo_delete_def demo_staffed_def
        get_user_def get_row_def demo_root_def demo_staff_def empty_db_def empty_table_def)
  then have "user_step\<^sup>*\<^sup>* demo_staffed (snd (projr (user_repo_delete 2 demo_staffed)))"
    by (intro r_into_rtranclp user_step.delete)
  with super_admin_stays [OF this demo_staffed_sole] show ?thesis by blast
qed

section \<open>Lists\<close>



definition demo_user_query :: user_query where
  "demo_user_query = \<lparr>uq_username = Some ''O'', uq_status = None, uq_dept = None, uq_begin = None,
     uq_end = None, uq_order_by = Some ''username'', uq_order = Desc\<rparr>"


section \<open>Writes stay in the data scope\<close>

text \<open>
  A caller with the data scope \<open>s\<close> updates and deletes users that \<open>s\<close> shows and no others, all
  other users keep their rows, and a department that the caller assigns (on creation or by an
  update) is visible to the caller; a hidden user is reported exactly as an absent one.
\<close>

theorem user_writes_stay_in_scope:
  assumes "coded_ok u_id u_username (users d)"
  shows "(user_create_op C salt c (Some s) now d = Inr (x, d') \<longrightarrow>
      is_dept_visible s (u_dept x) \<and> get_user d (u_id x) = None \<and>
      (\<forall>j. j \<noteq> u_id x \<longrightarrow> get_user d' j = get_user d j)) \<and>
    (user_update_op C salt i p (Some s) d = Inr (x, d') \<longrightarrow>
      (\<exists>u. get_user d i = Some u \<and> user_visible u s \<and>
         (u_dept x = u_dept u \<or> is_dept_visible s (u_dept x))) \<and>
      (\<forall>j. j \<noteq> i \<longrightarrow> get_user d' j = get_user d j)) \<and>
    (user_delete_op i (Some s) d = Inr ((), d') \<longrightarrow>
      (\<exists>u. get_user d i = Some u \<and> user_visible u s) \<and>
      (\<forall>j. j \<noteq> i \<longrightarrow> get_user d' j = get_user d j)) \<and>
    (get_user d i = Some h \<and> \<not> user_visible h s \<longrightarrow>
      user_get d i (Some s) = Inl user_not_found \<and>
      user_update_op C salt i p (Some s) d = Inl user_not_found \<and>
      user_delete_op i (Some s) d = Inl user_not_found)"
proof (intro conjI impI)
  assume c: "user_create_op C salt c (Some s) now d = Inr (x, d')"
  note r = user_create_InrD [OF c]
  show "is_dept_visible s (u_dept x)" using r(3) by (simp add: r(1) new_user_def out_of_scope_def)
  have "\<exists>C salt c scope now. user_create_op C salt c scope now d = Inr (x, d')" using c by blast
  note g = user_crud.get_created [OF assms this]
  show "get_user d (u_id x) = None" using g(1) by (simp add: get_user_def)
  show "\<forall>j. j \<noteq> u_id x \<longrightarrow> get_user d' j = get_user d j" using g(2) by (simp add: get_user_def)
next
  assume u: "user_update_op C salt i p (Some s) d = Inr (x, d')"
  then show "\<exists>u. get_user d i = Some u \<and> user_visible u s \<and>
      (u_dept x = u_dept u \<or> is_dept_visible s (u_dept x))"
  proof (rule user_update_InrD)
    fix v assume v: "get_user d i = Some v" "\<not> user_hidden (Some s) v"
      "x = apply_user_update p (new_password_hash C salt p) v"
      "\<And>t. uu_dept p = Assign t \<Longrightarrow> \<not> out_of_scope (Some s) t"
    have "u_dept x = u_dept v \<or> is_dept_visible s (u_dept x)"
      using v(4) by (cases "uu_dept p") (auto simp: v(3) apply_user_update_def out_of_scope_def)
    with v(1,2) show ?thesis by (auto simp: user_hidden_def)
  qed
  have "\<exists>C salt p scope. user_update_op C salt i p scope d = Inr (x, d')" using u by blast
  from user_crud.get_updated(3) [OF assms this]
  show "\<forall>j. j \<noteq> i \<longrightarrow> get_user d' j = get_user d j" by (simp add: get_user_def)
next
  assume u: "user_delete_op i (Some s) d = Inr ((), d')"
  then show "\<exists>u. get_user d i = Some u \<and> user_visible u s"
    by (rule user_delete_InrD) (simp add: user_hidden_def)
  have "\<exists>scope. user_delete_op i scope d = Inr ((), d')" using u by blast
  from user_crud.get_deleted(2) [OF assms this]
  show "\<forall>j. j \<noteq> i \<longrightarrow> get_user d' j = get_user d j" by (simp add: get_user_def)
qed (auto simp: user_get_def user_update_op_def user_delete_op_def find_visible_def user_hidden_def)

theorem user_writes_stay_in_scope_witness:
  "user_get demo_staffed 1 (Some (plain_scope ScopeSelf 2)) = Inl user_not_found \<and>
   user_delete_op 1 (Some (plain_scope ScopeSelf 2)) demo_staffed = Inl user_not_found"
proof -
  have "coded_ok u_id u_username (users demo_staffed)"
    using demo_staffed_sole by (simp add: sole_super_def)
  moreover have "get_user demo_staffed 1 = Some demo_root"
    by (simp add: demo_staffed_def get_user_def get_row_def demo_root_def)
  moreover have "\<not> user_visible demo_root (plain_scope ScopeSelf 2)"
    by (simp add: user_visible_def is_dept_visible_def plain_scope_def)
  ultimately show ?thesis using user_writes_stay_in_scope by blast
qed

section \<open>The right to edit users\<close>

definition set_password_patch :: "string \<Rightarrow> user_update" where
  "set_password_patch w = demo_patch\<lparr>uu_password := Assign (Some w)\<rparr>"

text \<open>
  Neither the guard of the endpoint nor the service asks whether the edited user is a super
  administrator: whoever holds \<^verbatim>\<open>system:user:edit\<close> and has a data scope that shows the super
  administrator sets the password of that account, after which the account is found by its name
  with a hash that the new password verifies against.
\<close>

theorem editor_sets_super_password:
  assumes "user_keys_ok d" and "get_user d s = Some u" and "u_super u"
    and "\<not> parent_missing d (u_dept u)"
    and "user_visible u (compute_effective_data_scope d caller)"
    and "\<And>salt w. argon_verify C (argon_hash C salt w) w = ArgonMatch"
  shows "\<exists>x d'. user_update_op C salt s (set_password_patch w)
        (Some (compute_effective_data_scope d caller)) d = Inr (x, d') \<and>
      find_user_by_name d' (u_username u) = Some x \<and> u_super x \<and> u_status x = u_status u \<and>
      verify_password C w (u_password_hash x)"
proof -
  let ?p = "set_password_patch w" and ?h = "hash_password C salt w"
  let ?f = "apply_user_update ?p (Some ?h)"
  let ?d' = "d\<lparr>users := update_where (\<lambda>y. u_id y = s) ?f (users d)\<rparr>"
  have p: "uu_dept ?p = Unset" "uu_status ?p = Unset" "uu_password ?p = Assign (Some w)"
    "uu_nickname ?p = Unset" by (simp_all add: set_password_patch_def demo_patch_def)
  have f: "u_dept (?f y) = u_dept y" "u_status (?f y) = u_status y" "u_password_hash (?f y) = ?h" for y
    by (simp_all add: apply_user_update_def p)
  have u: "u \<in> set (rows (users d))" "u_id u = s" using get_user_SomeD [OF assms(2)] by auto
  have op: "user_update_op C salt s ?p (Some (compute_effective_data_scope d caller)) d = Inr (?f u, ?d')"
    using assms(2,4,5)
    by (simp add: user_update_op_def find_visible_def user_hidden_def p disabling_def new_password_hash_def
        user_repo_update_def user_null_column_def f Let_def)
  have "find (\<lambda>y. u_username y = u_username u) (map (\<lambda>y. if u_id y = s then ?f y else y) xs) = Some (?f u)"
    if "u \<in> set xs" "distinct (map u_username xs)" for xs
    using that u(2) by (induction xs) (auto simp: image_iff)
  then have "find_user_by_name ?d' (u_username u) = Some (?f u)"
    using assms(1) u(1) by (simp add: find_user_by_name_def rows_update_where user_keys_ok_def)
  with op assms(3,6) f show ?thesis
    by (intro exI [of _ "?f u"] exI [of _ ?d']) (simp add: verify_password_def hash_password_def)
qed

theorem editor_sets_super_password_witness:
  "''system:user:edit'' \<in> list_perms_for_user demo_staffed 2 \<and> \<not> db_is_super_admin demo_staffed 2 \<and>
   (\<exists>x d'. user_update_op \<lparr>hmac_hex = demo_hmac, argon_verify = (\<lambda>h p. if h = p then ArgonMatch else ArgonMismatch),
        argon_hash = (\<lambda>salt p. p), jwt_encode = (\<lambda>c key. [])\<rparr> [] 1 (set_password_patch ''new'')
        (Some (compute_effective_data_scope demo_staffed 2)) demo_staffed = Inr (x, d') \<and>
      find_user_by_name d' ''root'' = Some x \<and> u_super x)"
proof -
  have keys: "user_keys_ok demo_staffed"
    using demo_staffed_sole by (simp add: sole_super_def coded_ok_def user_keys_ok_def)
  have u: "get_user demo_staffed 1 = Some demo_root"
    by (simp add: demo_staffed_def get_user_def get_row_def demo_root_def)
  have dept: "\<not> parent_missing demo_staffed (u_dept demo_root)"
    by (simp add: parent_missing_def demo_root_def demo_staffed_def get_dept_def get_row_def demo_dept_def)
  have roles: "list_roles_for_user demo_staffed 2 = [demo_role 5 ScopeAll]"
    by (simp add: list_roles_for_user_def demo_staffed_def demo_role_def)
  have vis: "user_visible demo_root (compute_effective_data_scope demo_staffed 2)"
    by (simp add: compute_effective_data_scope_def roles demo_role_def user_visible_def is_dept_visible_def
        plain_scope_def Let_def)
  have perm: "''system:user:edit'' \<in> list_perms_for_user demo_staffed 2"
    by (simp add: perms_for_user_iff demo_staffed_def demo_menu_def demo_role_def)
  have plain: "\<not> db_is_super_admin demo_staffed 2"
    by (simp add: db_is_super_admin_def demo_staffed_def get_user_def get_row_def demo_root_def demo_staff_def)
  show ?thesis
    using editor_sets_super_password [OF keys u _ dept vis,
        of "\<lparr>hmac_hex = demo_hmac, argon_verify = (\<lambda>h p. if h = p then ArgonMatch else ArgonMismatch),
          argon_hash = (\<lambda>salt p. p), jwt_encode = (\<lambda>c key. [])\<rparr>" "[]" "''new''"] perm plain
    by (auto simp: demo_root_def)
qed

end
