(* ===== verification/BindingTheorems.thy ===== *)
theory BindingTheorems
  imports Bindings AuthzTheorems
begin

text \<open>
  Properties of the bindings and of the audit trail: a binding replaces exactly one user's or role's
  links and thereby decides the permissions; every committed binding is audited in its own
  transaction; redaction removes what lies under a denied key and nothing else.
\<close>

section \<open>Bindings\<close>

lemma set_user_roles_InrD:
  assumes "set_user_roles uid ids op scope d = (Inr out, d', evs)"
  obtains u where "ac_is_super op" "get_user d uid = Some u" "\<not> user_hidden scope u"
    "\<forall>i \<in> set ids. get_role d i \<noteq> None" "out = dedupe ids" "evs = []"
    "d' = record_committed (rbac_event (ac_user op) ''system:user:bind_roles'' ''user'' (Some uid)
       (Some (u_username u)) ''success'' 200 None) (repo_set_user_roles uid (dedupe ids) d)"
proof -
  from assms obtain name d1 where b: "set_user_roles_body uid ids op scope d = Inr ((out, name), d1)"
    "d' = record_committed (rbac_event (ac_user op) ''system:user:bind_roles'' ''user'' (Some uid) (Some name)
       ''success'' 200 None) d1" "evs = []"
    unfolding set_user_roles_def by (rule audited_binding_Inr)
  from b(1) obtain u where u: "ac_is_super op" "find_visible d uid scope = Inr u"
    "require_ids_exist (role_existing_ids d) (dedupe ids) role_ids_invalid = Inr ()"
    "out = dedupe ids" "name = u_username u" "d1 = repo_set_user_roles uid (dedupe ids) d"
    by (auto simp: set_user_roles_body_def bind_res_Inr_iff require_super_admin_def)
  have "\<forall>i \<in> set ids. get_role d i \<noteq> None"
    using u(3) by (simp add: require_ids_exist_Inr_iff existing_ids_iff)
  with find_visible_InrD [OF u(2)] that [OF u(1) _ _ this u(4) b(3)] b(2) u(5,6) show thesis by simp
qed

lemma set_role_menus_InrD:
  assumes "set_role_menus rid ids op d = (Inr out, d', evs)"
  obtains r where "ac_is_super op" "get_role d rid = Some r"
    "\<forall>i \<in> set ids. get_menu d i \<noteq> None" "out = dedupe ids" "evs = []"
    "d' = record_committed (rbac_event (ac_user op) ''system:role:bind_menus'' ''role'' (Some rid)
       (Some (r_code r)) ''success'' 200 None) (repo_set_role_menus rid (dedupe ids) d)"
proof -
  from assms obtain name d1 where b: "set_role_menus_body rid ids op d = Inr ((out, name), d1)"
    "d' = record_committed (rbac_event (ac_user op) ''system:role:bind_menus'' ''role'' (Some rid) (Some name)
       ''success'' 200 None) d1" "evs = []"
    unfolding set_role_menus_def by (rule audited_binding_Inr)
  from b(1) obtain r where r: "ac_is_super op" "require_role d rid = Inr r"
    "require_ids_exist (menu_existing_ids d) (dedupe ids) menu_ids_invalid = Inr ()"
    "out = dedupe ids" "name = r_code r" "d1 = repo_set_role_menus rid (dedupe ids) d"
    by (auto simp: set_role_menus_body_def bind_res_Inr_iff require_super_admin_def)
  have g: "get_role d rid = Some r" using r(2) by (simp add: require_role_def split: option.splits)
  have "\<forall>i \<in> set ids. get_menu d i \<noteq> None"
    using r(3) by (simp add: require_ids_exist_Inr_iff existing_ids_iff)
  from that [OF r(1) g this r(4) b(3)] b(2) r(5,6) show thesis by simp
qed

lemma frame_user_roles:
  "rows (roles (record_committed e (repo_set_user_roles a bs d))) = rows (roles d)"
  "rows (menus (record_committed e (repo_set_user_roles a bs d))) = rows (menus d)"
  "role_menus (record_committed e (repo_set_user_roles a bs d)) = role_menus d"
  "user_roles (record_committed e (repo_set_user_roles a bs d)) = user_roles (repo_set_user_roles a bs d)"
  "users (record_committed e (repo_set_user_roles a bs d)) = users d"
  "audit_rows (record_committed e (repo_set_user_roles a bs d)) = audit_rows d @ [e]"
  by (simp_all add: record_committed_def repo_set_user_roles_def)

text \<open>
  When the roles of a user are set, the caller is a super administrator, every given role
  exists, and afterwards the user has exactly these roles and exactly the permissions of those of
  them that are active (through active menus); all other users keep their roles and permissions.
  The success event is the last row of the audit table, written with the change.
\<close>

theorem role_binding_decides_permissions:
  assumes "set_user_roles uid ids op scope d = (Inr out, d', evs)"
  shows "ac_is_super op \<and> set ids \<subseteq> r_id ` set (rows (roles d)) \<and> out = dedupe ids \<and>
    get_user_roles d' uid scope = Inr (sort (dedupe ids)) \<and>
    list_perms_for_user d' uid =
      {p. p \<noteq> [] \<and> (\<exists>r \<in> set (rows (roles d)). \<exists>m \<in> set (rows (menus d)). r_id r \<in> set ids \<and>
         r_status r = Active \<and> (r_id r, m_id m) \<in> set (role_menus d) \<and> m_status m = Active \<and>
         m_perms m = Some p)} \<and>
    (\<forall>v. v \<noteq> uid \<longrightarrow> list_role_ids_for_user d' v = list_role_ids_for_user d v \<and>
       list_perms_for_user d' v = list_perms_for_user d v) \<and>
    evs = [] \<and> (\<exists>e. audit_rows d' = audit_rows d @ [e] \<and> ev_status e = ''success'' \<and>
       ev_actor e = Some (ac_user op) \<and> ev_target e = Some uid)"
  using assms
proof (rule set_user_roles_InrD)
  fix u :: user
  let ?e = "rbac_event (ac_user op) ''system:user:bind_roles'' ''user'' (Some uid) (Some (u_username u)) ''success'' 200 None"
  assume h: "ac_is_super op" "get_user d uid = Some u" "\<not> user_hidden scope u"
    "\<forall>i \<in> set ids. get_role d i \<noteq> None" "out = dedupe ids" "evs = []"
    and d': "d' = record_committed ?e (repo_set_user_roles uid (dedupe ids) d)"
  note frame = frame_user_roles [of ?e uid "dedupe ids" d, folded d']
  have ids: "set ids \<subseteq> r_id ` set (rows (roles d))"
    using h(4) get_row_exists_iff [of r_id "roles d"] by (auto simp: get_role_def)
  have links: "p \<in> set (user_roles d') \<longleftrightarrow> (if fst p = uid then snd p \<in> set ids else p \<in> set (user_roles d))" for p
    by (simp add: frame(4) user_role_store.mem_replace)
  have same: "list_role_ids_for_user d' uid = sort (dedupe ids)"
    by (simp add: list_role_ids_for_user_def frame(4) user_role_store.lookup_same)
  have "find_visible d' uid scope = Inr u"
    using h(2,3) by (simp add: find_visible_def get_user_def frame(5))
  then have "get_user_roles d' uid scope = Inr (sort (dedupe ids))" by (simp add: get_user_roles_def same)
  moreover have "list_role_ids_for_user d' v = list_role_ids_for_user d v" if "v \<noteq> uid" for v
    using that by (simp add: list_role_ids_for_user_def frame(4) user_role_store.lookup_other)
  moreover have "list_perms_for_user d' v = list_perms_for_user d v" if "v \<noteq> uid" for v
    using that by (intro set_eqI) (simp add: perms_for_user_iff links frame(1-3))
  moreover have "list_perms_for_user d' uid =
      {p. p \<noteq> [] \<and> (\<exists>r \<in> set (rows (roles d)). \<exists>m \<in> set (rows (menus d)). r_id r \<in> set ids \<and>
         r_status r = Active \<and> (r_id r, m_id m) \<in> set (role_menus d) \<and> m_status m = Active \<and>
         m_perms m = Some p)}"
    by (intro set_eqI) (simp add: perms_for_user_iff links frame(1-3))
  ultimately show ?thesis using h ids frame(6) by (auto simp: rbac_event_def)
qed

definition demo_super_actor :: actor where
  "demo_super_actor = \<lparr>ac_user = 9, ac_is_super = True\<rparr>"

theorem role_binding_decides_permissions_witness:
  "\<exists>d'. set_user_roles 2 [5, 5] demo_super_actor None demo_org = (Inr [5], d', []) \<and>
     get_user_roles d' 2 None = Inr [5] \<and> ''system:user:list'' \<in> list_perms_for_user d' 2"
proof -
  have "get_user demo_org 2 = Some (demo_staff 2 (Some 11))" "get_role demo_org 5 = Some (demo_role 5 ScopeSelfDeptAndBelow)"
    by (simp_all add: get_user_def get_role_def get_row_def demo_org_def demo_staff_def demo_role_def)
  then obtain d' where op: "set_user_roles 2 [5, 5] demo_super_actor None demo_org = (Inr [5], d', [])"
    by (simp add: set_user_roles_def audited_binding_def set_user_roles_body_def require_super_admin_def
        demo_super_actor_def find_visible_def user_hidden_def require_ids_exist_def role_existing_ids_def)
  note t = role_binding_decides_permissions [OF op]
  have "''system:user:list'' \<in> list_perms_for_user d' 2"
    using t by (simp add: demo_org_def demo_role_def demo_menu_def)
  with t op show ?thesis by auto
qed

text \<open>
  When the menus of a role are set, each menu exists, the role carries exactly these menus
  afterwards, other roles keep theirs, and setting them again makes the earlier setting immaterial
  (the last write wins); a refused or failed binding leaves the database as it was and buffers
  one failure event with the error code.
\<close>

theorem menu_binding_replaces:
  shows "(set_role_menus rid ids op d = (Inr out, d', evs) \<longrightarrow>
      ac_is_super op \<and> set ids \<subseteq> m_id ` set (rows (menus d)) \<and>
      get_role_menus d' rid = Inr (sort (dedupe ids)) \<and>
      (\<forall>r. r \<noteq> rid \<longrightarrow> list_menu_ids_for_role d' r = list_menu_ids_for_role d r) \<and>
      (set_role_menus rid ids2 op d' = (Inr out2, d2, evs2) \<longrightarrow>
         (\<exists>d3. set_role_menus rid ids2 op d = (Inr out2, d3, evs2) \<and> role_menus d3 = role_menus d2))) \<and>
    (set_role_menus rid ids op d = (Inl (AppErr code st), d', evs) \<longrightarrow>
      d' = d \<and> (\<exists>e. evs = [e] \<and> ev_status e = ''failure'' \<and> ev_error e = Some code))"
proof (intro conjI impI)
  assume op1: "set_role_menus rid ids op d = (Inr out, d', evs)"
  then show "ac_is_super op" by (rule set_role_menus_InrD)
  from op1 obtain r e where h: "get_role d rid = Some r" "\<forall>i \<in> set ids. get_menu d i \<noteq> None"
    "d' = record_committed e (repo_set_role_menus rid (dedupe ids) d)" by (rule set_role_menus_InrD) auto
  show "set ids \<subseteq> m_id ` set (rows (menus d))"
    using h(2) get_row_exists_iff [of m_id "menus d"] by (auto simp: get_menu_def)
  have rm: "role_menus d' = role_menus (repo_set_role_menus rid (dedupe ids) d)"
    and same: "get_role d' i = get_role d i" "get_menu d' i = get_menu d i" for i
    by (simp_all add: h(3) record_committed_def repo_set_role_menus_def get_role_def get_menu_def)
  show "get_role_menus d' rid = Inr (sort (dedupe ids))"
    by (simp add: get_role_menus_def require_role_def same h(1) list_menu_ids_for_role_def rm
        role_menu_store.lookup_same)
  show "\<forall>r. r \<noteq> rid \<longrightarrow> list_menu_ids_for_role d' r = list_menu_ids_for_role d r"
    by (simp add: list_menu_ids_for_role_def rm role_menu_store.lookup_other)
  assume "set_role_menus rid ids2 op d' = (Inr out2, d2, evs2)"
  then obtain e2 where k: "ac_is_super op" "\<forall>i \<in> set ids2. get_menu d' i \<noteq> None" "out2 = dedupe ids2" "evs2 = []"
    "d2 = record_committed e2 (repo_set_role_menus rid (dedupe ids2) d')" by (rule set_role_menus_InrD) auto
  have "require_ids_exist (menu_existing_ids d) (dedupe ids2) menu_ids_invalid = Inr ()"
    using k(2) same by (simp add: require_ids_exist_Inr_iff existing_ids_iff)
  then have "\<exists>d3. set_role_menus rid ids2 op d = (Inr out2, d3, evs2) \<and>
      role_menus d3 = replace_links rid (dedupe ids2) (role_menus d)"
    using k h(1) by (simp add: set_role_menus_def audited_binding_def set_role_menus_body_def
        require_super_admin_def require_role_def record_committed_def repo_set_role_menus_def)
  moreover have "role_menus d2 = replace_links rid (dedupe ids2) (role_menus d)"
    using role_menu_store.last_replace_wins [of rid "dedupe ids2" "dedupe ids" d]
    by (simp add: k(5) record_committed_def repo_set_role_menus_def rm)
  ultimately show "\<exists>d3. set_role_menus rid ids2 op d = (Inr out2, d3, evs2) \<and> role_menus d3 = role_menus d2"
    by simp
next
  assume "set_role_menus rid ids op d = (Inl (AppErr code st), d', evs)"
  then show "d' = d" "\<exists>e. evs = [e] \<and> ev_status e = ''failure'' \<and> ev_error e = Some code"
    by (auto simp: set_role_menus_def audited_binding_def rbac_event_def split: sum.splits exn.splits)
qed

theorem menu_binding_replaces_witness:
  "\<exists>d' d2. set_role_menus 5 [7] demo_super_actor demo_org = (Inr [7], d', []) \<and>
     get_role_menus d' 5 = Inr [7] \<and> set_role_menus 5 [] demo_super_actor d' = (Inr [], d2, []) \<and>
     (\<exists>d3. set_role_menus 5 [] demo_super_actor demo_org = (Inr [], d3, []) \<and> role_menus d3 = role_menus d2)"
proof -
  have g: "get_role demo_org 5 = Some (demo_role 5 ScopeSelfDeptAndBelow)"
    "get_menu demo_org 7 = Some (demo_menu 7 ''system:user:list'')"
    by (simp_all add: get_role_def get_menu_def get_row_def demo_org_def demo_role_def demo_menu_def)
  note defs = set_role_menus_def audited_binding_def set_role_menus_body_def require_super_admin_def
    demo_super_actor_def require_role_def require_ids_exist_def menu_existing_ids_def
  from g obtain d' where op: "set_role_menus 5 [7] demo_super_actor demo_org = (Inr [7], d', [])"
    and r: "get_role d' 5 = get_role demo_org 5"
    by (simp add: defs record_committed_def repo_set_role_menus_def get_role_def)
  from r g obtain d2 where op2: "set_role_menus 5 [] demo_super_actor d' = (Inr [], d2, [])"
    by (simp add: defs)
  from menu_binding_replaces [of 5 "[7]" demo_super_actor demo_org "[7]" d' "[]" "[]" "[]" d2 "[]"] op op2
  show ?thesis by auto
qed

section \<open>Redaction\<close>

datatype json_step = Key string | Index nat

text \<open>The value at a path; a path that does not fit has none.\<close>

fun json_at :: "json_step list \<Rightarrow> json \<Rightarrow> json option" where
  "json_at [] v = Some v"
| "json_at (Key k # p) (JObj kvs) = (case map_of kvs k of None \<Rightarrow> None | Some v \<Rightarrow> json_at p v)"
| "json_at (Index i # p) (JList vs) = (if i < length vs then json_at p (vs ! i) else None)"
| "json_at (s # p) v = None"

fun path_keys :: "json_step list \<Rightarrow> string list" where
  "path_keys [] = []"
| "path_keys (Key k # p) = k # path_keys p"
| "path_keys (Index i # p) = path_keys p"

definition redacted :: "json \<Rightarrow> json" where
  "redacted v = fst (redact_value v)"

lemma redact_list_map: "fst (redact_list vs) = map redacted vs"
  by (induction vs) (auto simp: redacted_def split: prod.splits)

lemma map_of_redact_dict:
  "map_of (fst (redact_dict kvs)) k = (if denied_key k then None else map_option redacted (map_of kvs k))"
  by (induction kvs) (auto simp: redacted_def [abs_def] split: prod.splits)

lemma redacted_simps:
  "redacted (JObj kvs) = JObj (fst (redact_dict kvs))" "redacted (JList vs) = JList (map redacted vs)"
  "redacted JNull = JNull" "redacted (JBool b) = JBool b" "redacted (JNum n) = JNum n"
  "redacted (JStr s) = JStr s"
  using redact_list_map [of vs] by (auto simp: redacted_def [abs_def] split: prod.splits)

text \<open>
  After redaction the metadata of an audit event has, at every path and every depth, no value if
  a key on the path contains (in any case) one of the denied words, and the redacted form of the
  original value otherwise; the flag of the event says whether any key was denied.
\<close>

theorem redaction_by_path:
  "json_at p (JObj (fst (redact_metadata (Some kvs)))) =
     (if list_ex denied_key (path_keys p) then None else map_option redacted (json_at p (JObj kvs))) \<and>
   snd (redact_metadata (Some kvs)) = list_ex denied_key (dict_keys kvs)"
proof -
  have "json_at p (redacted v) =
      (if list_ex denied_key (path_keys p) then None else map_option redacted (json_at p v))" for v
  proof (induction p v rule: json_at.induct)
    case (2 k p kvs)
    then show ?case by (cases "map_of kvs k") (auto simp: redacted_simps map_of_redact_dict)
  qed (auto simp: redacted_simps)
  from this [of "JObj kvs"] show ?thesis
    by (simp add: redact_metadata_def redacted_simps redact_flag(2) Bex_set)
qed

end
