(* ===== verification/ConfigService.thy ===== *)
theory ConfigService
  imports Schema Paging Crud
begin

text \<open>
  \<^verbatim>\<open>domains/config\<close> (operational parameters) and \<^verbatim>\<open>domains/notice\<close> (notices), two flat tables with
  their repositories and services.  A parameter is read by its unique key on every request, with no
  cache in between; a built-in one cannot be deleted.  Neither PATCH payload changes the key.
\<close>

section \<open>Parameters\<close>

record config_create =
  cc_name :: string
  cc_key :: string
  cc_value :: string
  cc_builtin :: bool
  cc_remark :: "string option"

record config_update =
  cu_name :: "string option patch"
  cu_value :: "string option patch"
  cu_builtin :: "bool option patch"
  cu_remark :: "string option patch"

record config_value =
  cv_key :: string
  cv_value :: string

definition config_not_found :: exn where "config_not_found = AppErr ''config.NOT_FOUND'' 404"
definition config_duplicate :: exn where "config_duplicate = AppErr ''config.KEY_DUPLICATE'' 409"
definition config_builtin :: exn where "config_builtin = AppErr ''config.BUILTIN_READONLY'' 409"

definition config_filters :: "string option \<Rightarrow> config \<Rightarrow> bool" where
  "config_filters keyword r = any_keyword keyword [cf_key r, cf_name r]"

definition config_rows :: "db \<Rightarrow> string option \<Rightarrow> config list" where
  "config_rows d keyword = sort_key cf_id (filter (config_filters keyword) (rows (configs d)))"

definition get_config :: "db \<Rightarrow> int \<Rightarrow> config option" where
  "get_config d i = get_row cf_id (configs d) i"

definition find_config_by_key :: "db \<Rightarrow> string \<Rightarrow> config option" where
  "find_config_by_key d k = find (\<lambda>r. cf_key r = k) (rows (configs d))"

definition new_config :: "config_create \<Rightarrow> int \<Rightarrow> config" where
  "new_config c i = \<lparr>cf_id = i, cf_name = cc_name c, cf_key = cc_key c, cf_value = cc_value c,
     cf_builtin = cc_builtin c, cf_remark = cc_remark c\<rparr>"

definition config_repo_create :: "config_create \<Rightarrow> db \<Rightarrow> exn + config \<times> db" where
  "config_repo_create c d =
     (if find_config_by_key d (cc_key c) \<noteq> None then Inl (IntegrityErr ''uq_configs_key'')
      else (case insert_row (new_config c) (configs d) of (x, t) \<Rightarrow> Inr (x, d\<lparr>configs := t\<rparr>)))"

definition apply_config_update :: "config_update \<Rightarrow> config \<Rightarrow> config" where
  "apply_config_update p r = r\<lparr>cf_name := patched_nn (cu_name p) (cf_name r),
     cf_value := patched_nn (cu_value p) (cf_value r),
     cf_builtin := patched_nn (cu_builtin p) (cf_builtin r),
     cf_remark := patched (cu_remark p) (cf_remark r)\<rparr>"

definition config_null_column :: "config_update \<Rightarrow> bool" where
  "config_null_column p \<longleftrightarrow> null_patch (cu_name p) \<or> null_patch (cu_value p) \<or> null_patch (cu_builtin p)"

definition config_repo_update :: "int \<Rightarrow> config_update \<Rightarrow> db \<Rightarrow> exn + config option \<times> db" where
  "config_repo_update i p d =
     (case get_config d i of
        None \<Rightarrow> Inr (None, d)
      | Some r \<Rightarrow>
          if config_null_column p then Inl (IntegrityErr ''NOT NULL'')
          else Inr (Some (apply_config_update p r),
            d\<lparr>configs := update_where (\<lambda>y. cf_id y = i) (apply_config_update p) (configs d)\<rparr>))"

definition config_repo_delete :: "int \<Rightarrow> db \<Rightarrow> bool \<times> db" where
  "config_repo_delete i d =
     (if get_config d i = None then (False, d)
      else (True, d\<lparr>configs := delete_where (\<lambda>y. cf_id y = i) (configs d)\<rparr>))"

definition config_list :: "db \<Rightarrow> string option \<Rightarrow> int \<Rightarrow> int \<Rightarrow> config page_result" where
  "config_list d keyword page sz = make_page page sz (config_rows d keyword)"

definition config_get :: "db \<Rightarrow> int \<Rightarrow> exn + config" where
  "config_get d i = (case get_config d i of None \<Rightarrow> Inl config_not_found | Some r \<Rightarrow> Inr r)"

definition config_get_value :: "db \<Rightarrow> string \<Rightarrow> exn + config_value" where
  "config_get_value d k =
     (case find_config_by_key d k of
        None \<Rightarrow> Inl config_not_found
      | Some r \<Rightarrow> Inr \<lparr>cv_key = cf_key r, cv_value = cf_value r\<rparr>)"

definition config_create_op :: "config_create \<Rightarrow> db \<Rightarrow> exn + config \<times> db" where
  "config_create_op c d =
     (if find_config_by_key d (cc_key c) \<noteq> None then Inl config_duplicate else config_repo_create c d)"

definition config_update_op :: "int \<Rightarrow> config_update \<Rightarrow> db \<Rightarrow> exn + config \<times> db" where
  "config_update_op i p d =
     bind_res (config_repo_update i p d) (\<lambda>(row, d').
       case row of None \<Rightarrow> Inl config_not_found | Some r \<Rightarrow> Inr (r, d'))"

definition config_delete_op :: "int \<Rightarrow> db \<Rightarrow> exn + unit \<times> db" where
  "config_delete_op i d =
     (case get_config d i of
        None \<Rightarrow> Inl config_not_found
      | Some r \<Rightarrow> if cf_builtin r then Inl config_builtin else Inr ((), snd (config_repo_delete i d)))"

subsection \<open>Inversion\<close>

lemma find_config_by_key_None_iff:
  "find_config_by_key d k = None \<longleftrightarrow> k \<notin> cf_key ` set (rows (configs d))"
  by (auto simp: find_config_by_key_def find_None_iff)

lemma apply_config_update_keeps [simp]:
  "cf_id (apply_config_update p r) = cf_id r" "cf_key (apply_config_update p r) = cf_key r"
  by (simp_all add: apply_config_update_def)

lemma config_create_InrD:
  assumes "config_create_op c d = Inr (x, d')"
  shows "x = new_config c (seq (configs d))" and "d' = d\<lparr>configs := appended x (configs d)\<rparr>"
    and "cc_key c \<notin> cf_key ` set (rows (configs d))"
  using assms find_config_by_key_None_iff [of d "cc_key c"]
  by (auto simp: config_create_op_def config_repo_create_def insert_row_appended split: if_splits)

lemma config_update_InrD:
  assumes "config_update_op i p d = Inr (x, d')"
  obtains r where "get_config d i = Some r" "x = apply_config_update p r"
    "d' = d\<lparr>configs := update_where (\<lambda>y. cf_id y = i) (apply_config_update p) (configs d)\<rparr>"
  using assms
  by (auto simp: config_update_op_def config_repo_update_def bind_res_Inr_iff split: option.splits if_splits)

lemma config_delete_InrD:
  assumes "config_delete_op i d = Inr ((), d')"
  shows "\<exists>r. get_config d i = Some r \<and> \<not> cf_builtin r"
    and "d' = d\<lparr>configs := delete_where (\<lambda>y. cf_id y = i) (configs d)\<rparr>"
  using assms by (auto simp: config_delete_op_def config_repo_delete_def split: option.splits if_splits)

interpretation config_crud: crud configs cf_id cf_key
    "\<lambda>x d d'. \<exists>c. config_create_op c d = Inr (x, d')"
    "\<lambda>i x d d'. \<exists>p. config_update_op i p d = Inr (x, d')"
    "\<lambda>i d d'. config_delete_op i d = Inr ((), d')"
proof
  fix d x d' assume "\<exists>c. config_create_op c d = Inr (x, d')"
  then obtain c where "config_create_op c d = Inr (x, d')" by blast
  note r = config_create_InrD [OF this]
  show "cf_id x = seq (configs d) \<and> cf_key x \<notin> cf_key ` set (rows (configs d)) \<and>
      configs d' = appended x (configs d)"
    using r(3) by (simp add: r(2)) (simp add: r(1) new_config_def)
next
  fix d i x d'
  assume ok: "coded_ok cf_id cf_key (configs d)" and "\<exists>p. config_update_op i p d = Inr (x, d')"
  then obtain p where "config_update_op i p d = Inr (x, d')" by blast
  then obtain r where r: "get_row cf_id (configs d) i = Some r" "x = apply_config_update p r"
    "d' = d\<lparr>configs := update_where (\<lambda>y. cf_id y = i) (apply_config_update p) (configs d)\<rparr>"
    by (rule config_update_InrD) (simp add: get_config_def)
  with code_kept [OF ok r(1), of x]
  show "\<exists>f y. (\<forall>z. cf_id (f z) = cf_id z) \<and> get_row cf_id (configs d) i = Some y \<and> x = f y \<and>
      configs d' = update_where (\<lambda>z. cf_id z = i) f (configs d) \<and>
      (\<forall>z \<in> set (rows (configs d)). cf_id z \<noteq> i \<longrightarrow> cf_key z \<noteq> cf_key x)"
    by (intro exI [of _ "apply_config_update p"] exI [of _ r]) simp
next
  fix d i d' assume "config_delete_op i d = Inr ((), d')"
  note r = config_delete_InrD [OF this]
  show "get_row cf_id (configs d) i \<noteq> None \<and> configs d' = delete_where (\<lambda>z. cf_id z = i) (configs d)"
    using r(1) by (auto simp: r(2) get_config_def)
qed

section \<open>Notices\<close>

record notice_create =
  nc_title :: string
  nc_type :: notice_type
  nc_content :: string
  nc_status :: status
  nc_remark :: "string option"

record notice_update =
  nu_title :: "string option patch"
  nu_type :: "notice_type option patch"
  nu_content :: "string option patch"
  nu_status :: "status option patch"
  nu_remark :: "string option patch"

definition notice_not_found :: exn where "notice_not_found = AppErr ''notice.NOT_FOUND'' 404"

definition notice_filters :: "notice_type option \<Rightarrow> status option \<Rightarrow> notice \<Rightarrow> bool" where
  "notice_filters ty st r \<longleftrightarrow> opt_filter ty (\<lambda>t. n_type r = t) \<and> opt_filter st (\<lambda>s. n_status r = s)"

text \<open>Newest first.\<close>

definition notice_rows :: "db \<Rightarrow> notice_type option \<Rightarrow> status option \<Rightarrow> notice list" where
  "notice_rows d ty st = rev (sort_key n_id (filter (notice_filters ty st) (rows (notices d))))"

definition get_notice :: "db \<Rightarrow> int \<Rightarrow> notice option" where
  "get_notice d i = get_row n_id (notices d) i"

definition new_notice :: "notice_create \<Rightarrow> int \<Rightarrow> notice" where
  "new_notice c i = \<lparr>n_id = i, n_title = nc_title c, n_type = nc_type c, n_content = nc_content c,
     n_status = nc_status c, n_remark = nc_remark c\<rparr>"

definition notice_repo_create :: "notice_create \<Rightarrow> db \<Rightarrow> notice \<times> db" where
  "notice_repo_create c d =
     (case insert_row (new_notice c) (notices d) of (x, t) \<Rightarrow> (x, d\<lparr>notices := t\<rparr>))"

definition apply_notice_update :: "notice_update \<Rightarrow> notice \<Rightarrow> notice" where
  "apply_notice_update p r = r\<lparr>n_title := patched_nn (nu_title p) (n_title r),
     n_type := patched_nn (nu_type p) (n_type r), n_content := patched_nn (nu_content p) (n_content r),
     n_status := patched_nn (nu_status p) (n_status r), n_remark := patched (nu_remark p) (n_remark r)\<rparr>"

definition notice_null_column :: "notice_update \<Rightarrow> bool" where
  "notice_null_column p \<longleftrightarrow> null_patch (nu_title p) \<or> null_patch (nu_type p) \<or> null_patch (nu_content p) \<or>
     null_patch (nu_status p)"

definition notice_repo_update :: "int \<Rightarrow> notice_update \<Rightarrow> db \<Rightarrow> exn + notice option \<times> db" where
  "notice_repo_update i p d =
     (case get_notice d i of
        None \<Rightarrow> Inr (None, d)
      | Some r \<Rightarrow>
          if notice_null_column p then Inl (IntegrityErr ''NOT NULL'')
          else Inr (Some (apply_notice_update p r),
            d\<lparr>notices := update_where (\<lambda>y. n_id y = i) (apply_notice_update p) (notices d)\<rparr>))"

definition notice_repo_delete :: "int \<Rightarrow> db \<Rightarrow> bool \<times> db" where
  "notice_repo_delete i d =
     (if get_notice d i = None then (False, d)
      else (True, d\<lparr>notices := delete_where (\<lambda>y. n_id y = i) (notices d)\<rparr>))"

definition notice_list ::
    "db \<Rightarrow> notice_type option \<Rightarrow> status option \<Rightarrow> int \<Rightarrow> int \<Rightarrow> notice page_result" where
  "notice_list d ty st page sz = make_page page sz (notice_rows d ty st)"

definition notice_get :: "db \<Rightarrow> int \<Rightarrow> exn + notice" where
  "notice_get d i = (case get_notice d i of None \<Rightarrow> Inl notice_not_found | Some r \<Rightarrow> Inr r)"

definition notice_create_op :: "notice_create \<Rightarrow> db \<Rightarrow> exn + notice \<times> db" where
  "notice_create_op c d = Inr (notice_repo_create c d)"

definition notice_update_op :: "int \<Rightarrow> notice_update \<Rightarrow> db \<Rightarrow> exn + notice \<times> db" where
  "notice_update_op i p d =
     bind_res (notice_repo_update i p d) (\<lambda>(row, d').
       case row of None \<Rightarrow> Inl notice_not_found | Some r \<Rightarrow> Inr (r, d'))"

definition notice_delete_op :: "int \<Rightarrow> db \<Rightarrow> exn + unit \<times> db" where
  "notice_delete_op i d =
     (case notice_repo_delete i d of (ok, d') \<Rightarrow> if ok then Inr ((), d') else Inl notice_not_found)"

lemma apply_notice_update_id [simp]: "n_id (apply_notice_update p r) = n_id r"
  by (simp add: apply_notice_update_def)

lemma notice_update_InrD:
  assumes "notice_update_op i p d = Inr (x, d')"
  obtains r where "get_notice d i = Some r" "x = apply_notice_update p r"
    "d' = d\<lparr>notices := update_where (\<lambda>y. n_id y = i) (apply_notice_update p) (notices d)\<rparr>"
  using assms
  by (auto simp: notice_update_op_def notice_repo_update_def bind_res_Inr_iff split: option.splits if_splits)

text \<open>A table without a unique column: the key takes its place.\<close>

interpretation notice_crud: crud notices n_id n_id
    "\<lambda>x d d'. \<exists>c. notice_create_op c d = Inr (x, d')"
    "\<lambda>i x d d'. \<exists>p. notice_update_op i p d = Inr (x, d')"
    "\<lambda>i d d'. notice_delete_op i d = Inr ((), d')"
proof
  fix d x d' assume "coded_ok n_id n_id (notices d)" "\<exists>c. notice_create_op c d = Inr (x, d')"
  then show "n_id x = seq (notices d) \<and> n_id x \<notin> n_id ` set (rows (notices d)) \<and>
      notices d' = appended x (notices d)"
    by (fastforce simp: notice_create_op_def notice_repo_create_def insert_row_appended new_notice_def
        coded_ok_def table_ok_def)
next
  fix d i x d'
  assume ok: "coded_ok n_id n_id (notices d)" and "\<exists>p. notice_update_op i p d = Inr (x, d')"
  then obtain p where "notice_update_op i p d = Inr (x, d')" by blast
  then obtain r where r: "get_row n_id (notices d) i = Some r" "x = apply_notice_update p r"
    "d' = d\<lparr>notices := update_where (\<lambda>y. n_id y = i) (apply_notice_update p) (notices d)\<rparr>"
    by (rule notice_update_InrD) (simp add: get_notice_def)
  with code_kept [OF ok r(1), of x]
  show "\<exists>f y. (\<forall>z. n_id (f z) = n_id z) \<and> get_row n_id (notices d) i = Some y \<and> x = f y \<and>
      notices d' = update_where (\<lambda>z. n_id z = i) f (notices d) \<and>
      (\<forall>z \<in> set (rows (notices d)). n_id z \<noteq> i \<longrightarrow> n_id z \<noteq> n_id x)"
    by (intro exI [of _ "apply_notice_update p"] exI [of _ r]) simp
next
  fix d i d' assume "notice_delete_op i d = Inr ((), d')"
  then show "get_row n_id (notices d) i \<noteq> None \<and> notices d' = delete_where (\<lambda>z. n_id z = i) (notices d)"
    by (auto simp: notice_delete_op_def notice_repo_delete_def get_notice_def split: if_splits)
qed

end
