(* ===== verification/DictService.thy ===== *)
theory DictService
  imports Schema Paging Crud
begin

text \<open>
  \<^verbatim>\<open>domains/dict\<close>: dictionary types and their data.  A type is unique by its string and is deleted
  only when it is neither built in nor has data; the values of one type are unique, and at most one
  of its data is the default (a unique index over a generated column stands behind the service,
  which clears the other defaults first).
\<close>

record dict_type_create =
  tc_name :: string
  tc_type :: string
  tc_status :: status
  tc_builtin :: bool
  tc_remark :: "string option"

record dict_type_update =
  tu_name :: "string option patch"
  tu_status :: "status option patch"
  tu_builtin :: "bool option patch"
  tu_remark :: "string option patch"

record dict_data_create =
  ddc_type :: int
  ddc_label :: string
  ddc_value :: string
  ddc_sort :: int
  ddc_status :: status
  ddc_default :: bool
  ddc_css :: "string option"
  ddc_remark :: "string option"

record dict_data_update =
  ddu_label :: "string option patch"
  ddu_value :: "string option patch"
  ddu_sort :: "int option patch"
  ddu_status :: "status option patch"
  ddu_default :: "bool option patch"
  ddu_css :: "string option patch"
  ddu_remark :: "string option patch"

definition dict_type_not_found :: exn where "dict_type_not_found = AppErr ''dict.TYPE_NOT_FOUND'' 404"
definition dict_type_duplicate :: exn where "dict_type_duplicate = AppErr ''dict.TYPE_DUPLICATE'' 409"
definition dict_type_has_data :: exn where "dict_type_has_data = AppErr ''dict.TYPE_HAS_DATA'' 409"
definition dict_type_builtin :: exn where "dict_type_builtin = AppErr ''dict.TYPE_BUILTIN_READONLY'' 409"
definition dict_data_not_found :: exn where "dict_data_not_found = AppErr ''dict.DATA_NOT_FOUND'' 404"

section \<open>Repository: types\<close>

definition dict_type_filters :: "string option \<Rightarrow> dict_type \<Rightarrow> bool" where
  "dict_type_filters keyword r = any_keyword keyword [dt_name r, dt_type r]"

definition dict_type_rows :: "db \<Rightarrow> string option \<Rightarrow> dict_type list" where
  "dict_type_rows d keyword = sort_key dt_id (filter (dict_type_filters keyword) (rows (dict_types d)))"

definition get_dict_type :: "db \<Rightarrow> int \<Rightarrow> dict_type option" where
  "get_dict_type d i = get_row dt_id (dict_types d) i"

definition find_type_by_type :: "db \<Rightarrow> string \<Rightarrow> dict_type option" where
  "find_type_by_type d s = find (\<lambda>r. dt_type r = s) (rows (dict_types d))"

definition new_dict_type :: "dict_type_create \<Rightarrow> int \<Rightarrow> dict_type" where
  "new_dict_type c i = \<lparr>dt_id = i, dt_name = tc_name c, dt_type = tc_type c, dt_status = tc_status c,
     dt_builtin = tc_builtin c, dt_remark = tc_remark c\<rparr>"

definition dict_repo_create_type :: "dict_type_create \<Rightarrow> db \<Rightarrow> exn + dict_type \<times> db" where
  "dict_repo_create_type c d =
     (if find_type_by_type d (tc_type c) \<noteq> None then Inl (IntegrityErr ''uq_dict_types_type'')
      else (case insert_row (new_dict_type c) (dict_types d) of (x, t) \<Rightarrow> Inr (x, d\<lparr>dict_types := t\<rparr>)))"

definition apply_dict_type_update :: "dict_type_update \<Rightarrow> dict_type \<Rightarrow> dict_type" where
  "apply_dict_type_update p r = r\<lparr>dt_name := patched_nn (tu_name p) (dt_name r),
     dt_status := patched_nn (tu_status p) (dt_status r),
     dt_builtin := patched_nn (tu_builtin p) (dt_builtin r),
     dt_remark := patched (tu_remark p) (dt_remark r)\<rparr>"

definition dict_type_null_column :: "dict_type_update \<Rightarrow> bool" where
  "dict_type_null_column p \<longleftrightarrow> null_patch (tu_name p) \<or> null_patch (tu_status p) \<or> null_patch (tu_builtin p)"

definition dict_repo_update_type :: "int \<Rightarrow> dict_type_update \<Rightarrow> db \<Rightarrow> exn + dict_type option \<times> db" where
  "dict_repo_update_type i p d =
     (case get_dict_type d i of
        None \<Rightarrow> Inr (None, d)
      | Some r \<Rightarrow>
          if dict_type_null_column p then Inl (IntegrityErr ''NOT NULL'')
          else Inr (Some (apply_dict_type_update p r),
            d\<lparr>dict_types := update_where (\<lambda>y. dt_id y = i) (apply_dict_type_update p) (dict_types d)\<rparr>))"

definition count_data_for_type :: "db \<Rightarrow> int \<Rightarrow> nat" where
  "count_data_for_type d i = length (filter (\<lambda>x. dd_type x = i) (rows (dict_datas d)))"

text \<open>The foreign key of \<^verbatim>\<open>dict_data\<close> restricts.\<close>

definition dict_repo_delete_type :: "int \<Rightarrow> db \<Rightarrow> exn + bool \<times> db" where
  "dict_repo_delete_type i d =
     (if get_dict_type d i = None then Inr (False, d)
      else if count_data_for_type d i > 0 then Inl (IntegrityErr ''fk_dict_data_type_id'')
      else Inr (True, d\<lparr>dict_types := delete_where (\<lambda>y. dt_id y = i) (dict_types d)\<rparr>))"

section \<open>Repository: data\<close>

definition dict_data_order :: "dict_data list \<Rightarrow> dict_data list" where
  "dict_data_order = sort_key (\<lambda>x. (dd_sort x, dd_id x))"

definition dict_data_rows :: "db \<Rightarrow> int option \<Rightarrow> dict_data list" where
  "dict_data_rows d ty =
     sort_key (\<lambda>x. (dd_type x, dd_sort x, dd_id x))
       (filter (\<lambda>x. opt_filter ty (\<lambda>i. dd_type x = i)) (rows (dict_datas d)))"

definition get_dict_data :: "db \<Rightarrow> int \<Rightarrow> dict_data option" where
  "get_dict_data d i = get_row dd_id (dict_datas d) i"

definition repo_list_data_by_type :: "db \<Rightarrow> string \<Rightarrow> bool \<Rightarrow> dict_data list" where
  "repo_list_data_by_type d s enabled_only =
     (case find_type_by_type d s of
        None \<Rightarrow> []
      | Some t \<Rightarrow>
          if enabled_only \<and> dt_status t \<noteq> Active then []
          else dict_data_order (filter (\<lambda>x. dd_type x = dt_id t \<and> (enabled_only \<longrightarrow> dd_status x = Active))
                 (rows (dict_datas d))))"

definition clear_other_defaults :: "int \<Rightarrow> int option \<Rightarrow> db \<Rightarrow> db" where
  "clear_other_defaults ty except d =
     d\<lparr>dict_datas := update_where (\<lambda>x. dd_type x = ty \<and> dd_default x \<and>
          (case except of None \<Rightarrow> True | Some i \<Rightarrow> dd_id x \<noteq> i))
        (\<lambda>x. x\<lparr>dd_default := False\<rparr>) (dict_datas d)\<rparr>"

definition new_dict_data :: "dict_data_create \<Rightarrow> int \<Rightarrow> dict_data" where
  "new_dict_data c i = \<lparr>dd_id = i, dd_type = ddc_type c, dd_label = ddc_label c, dd_value = ddc_value c,
     dd_sort = ddc_sort c, dd_status = ddc_status c, dd_default = ddc_default c, dd_css = ddc_css c,
     dd_remark = ddc_remark c\<rparr>"

text \<open>The constraints of the table, for the row \<open>x\<close> against the other rows \<open>ys\<close>.\<close>

definition dict_data_conflict :: "db \<Rightarrow> dict_data \<Rightarrow> dict_data list \<Rightarrow> string option" where
  "dict_data_conflict d x ys =
     (if list_ex (\<lambda>y. dd_type y = dd_type x \<and> dd_value y = dd_value x) ys
      then Some ''uq_dict_data_type_value''
      else if dd_default x \<and> list_ex (\<lambda>y. dd_type y = dd_type x \<and> dd_default y) ys
      then Some ''uq_dict_data_one_default_per_type''
      else if get_dict_type d (dd_type x) = None then Some ''fk_dict_data_type_id'' else None)"

definition dict_repo_create_data :: "dict_data_create \<Rightarrow> db \<Rightarrow> exn + dict_data \<times> db" where
  "dict_repo_create_data c d =
     (case insert_row (new_dict_data c) (dict_datas d) of (x, t) \<Rightarrow>
        case dict_data_conflict d x (rows (dict_datas d)) of
          Some con \<Rightarrow> Inl (IntegrityErr con)
        | None \<Rightarrow> Inr (x, d\<lparr>dict_datas := t\<rparr>))"

definition apply_dict_data_update :: "dict_data_update \<Rightarrow> dict_data \<Rightarrow> dict_data" where
  "apply_dict_data_update p x = x\<lparr>dd_label := patched_nn (ddu_label p) (dd_label x),
     dd_value := patched_nn (ddu_value p) (dd_value x), dd_sort := patched_nn (ddu_sort p) (dd_sort x),
     dd_status := patched_nn (ddu_status p) (dd_status x),
     dd_default := patched_nn (ddu_default p) (dd_default x), dd_css := patched (ddu_css p) (dd_css x),
     dd_remark := patched (ddu_remark p) (dd_remark x)\<rparr>"

definition dict_data_null_column :: "dict_data_update \<Rightarrow> bool" where
  "dict_data_null_column p \<longleftrightarrow> null_patch (ddu_label p) \<or> null_patch (ddu_value p) \<or>
     null_patch (ddu_sort p) \<or> null_patch (ddu_status p) \<or> null_patch (ddu_default p)"

definition dict_repo_update_data :: "int \<Rightarrow> dict_data_update \<Rightarrow> db \<Rightarrow> exn + dict_data option \<times> db" where
  "dict_repo_update_data i p d =
     (case get_dict_data d i of
        None \<Rightarrow> Inr (None, d)
      | Some x \<Rightarrow>
          (let x' = apply_dict_data_update p x
           in if dict_data_null_column p then Inl (IntegrityErr ''NOT NULL'')
              else (case dict_data_conflict d x' (filter (\<lambda>y. dd_id y \<noteq> i) (rows (dict_datas d))) of
                      Some con \<Rightarrow> Inl (IntegrityErr con)
                    | None \<Rightarrow> Inr (Some x', d\<lparr>dict_datas :=
                        update_where (\<lambda>y. dd_id y = i) (apply_dict_data_update p) (dict_datas d)\<rparr>))))"

definition dict_repo_delete_data :: "int \<Rightarrow> db \<Rightarrow> bool \<times> db" where
  "dict_repo_delete_data i d =
     (if get_dict_data d i = None then (False, d)
      else (True, d\<lparr>dict_datas := delete_where (\<lambda>y. dd_id y = i) (dict_datas d)\<rparr>))"

section \<open>Service\<close>

definition dict_list_types :: "db \<Rightarrow> string option \<Rightarrow> int \<Rightarrow> int \<Rightarrow> dict_type page_result" where
  "dict_list_types d keyword page sz = make_page page sz (dict_type_rows d keyword)"

definition dict_get_type :: "db \<Rightarrow> int \<Rightarrow> exn + dict_type" where
  "dict_get_type d i = (case get_dict_type d i of None \<Rightarrow> Inl dict_type_not_found | Some r \<Rightarrow> Inr r)"

definition dict_create_type :: "dict_type_create \<Rightarrow> db \<Rightarrow> exn + dict_type \<times> db" where
  "dict_create_type c d =
     (if find_type_by_type d (tc_type c) \<noteq> None then Inl dict_type_duplicate
      else dict_repo_create_type c d)"

definition dict_update_type :: "int \<Rightarrow> dict_type_update \<Rightarrow> db \<Rightarrow> exn + dict_type \<times> db" where
  "dict_update_type i p d =
     bind_res (dict_repo_update_type i p d) (\<lambda>(row, d').
       case row of None \<Rightarrow> Inl dict_type_not_found | Some r \<Rightarrow> Inr (r, d'))"

definition dict_delete_type :: "int \<Rightarrow> db \<Rightarrow> exn + unit \<times> db" where
  "dict_delete_type i d =
     (case get_dict_type d i of
        None \<Rightarrow> Inl dict_type_not_found
      | Some r \<Rightarrow>
          if dt_builtin r then Inl dict_type_builtin
          else if count_data_for_type d i > 0 then Inl dict_type_has_data
          else bind_res (dict_repo_delete_type i d) (\<lambda>(_, d'). Inr ((), d')))"

definition dict_list_data :: "db \<Rightarrow> int option \<Rightarrow> int \<Rightarrow> int \<Rightarrow> dict_data page_result" where
  "dict_list_data d ty page sz = make_page page sz (dict_data_rows d ty)"

definition dict_get_data :: "db \<Rightarrow> int \<Rightarrow> exn + dict_data" where
  "dict_get_data d i = (case get_dict_data d i of None \<Rightarrow> Inl dict_data_not_found | Some x \<Rightarrow> Inr x)"

definition list_data_by_type :: "db \<Rightarrow> string \<Rightarrow> dict_data list" where
  "list_data_by_type d s = repo_list_data_by_type d s True"

definition dict_create_data :: "dict_data_create \<Rightarrow> db \<Rightarrow> exn + dict_data \<times> db" where
  "dict_create_data c d =
     (if get_dict_type d (ddc_type c) = None then Inl dict_type_not_found
      else dict_repo_create_data c (if ddc_default c then clear_other_defaults (ddc_type c) None d else d))"

definition dict_update_data :: "int \<Rightarrow> dict_data_update \<Rightarrow> db \<Rightarrow> exn + dict_data \<times> db" where
  "dict_update_data i p d =
     (case get_dict_data d i of
        None \<Rightarrow> Inl dict_data_not_found
      | Some x \<Rightarrow>
          bind_res (dict_repo_update_data i p
              (if ddu_default p = Assign (Some True) then clear_other_defaults (dd_type x) (Some i) d else d))
            (\<lambda>(row, d'). case row of None \<Rightarrow> Inl dict_data_not_found | Some x' \<Rightarrow> Inr (x', d')))"

definition dict_delete_data :: "int \<Rightarrow> db \<Rightarrow> exn + unit \<times> db" where
  "dict_delete_data i d =
     (case dict_repo_delete_data i d of (ok, d') \<Rightarrow> if ok then Inr ((), d') else Inl dict_data_not_found)"

section \<open>Types as a CRUD table\<close>

lemma find_type_by_type_None_iff:
  "find_type_by_type d s = None \<longleftrightarrow> s \<notin> dt_type ` set (rows (dict_types d))"
  by (auto simp: find_type_by_type_def find_None_iff)

lemma apply_dict_type_update_keeps [simp]:
  "dt_id (apply_dict_type_update p r) = dt_id r" "dt_type (apply_dict_type_update p r) = dt_type r"
  by (simp_all add: apply_dict_type_update_def)

lemma dict_create_type_InrD:
  assumes "dict_create_type c d = Inr (x, d')"
  shows "x = new_dict_type c (seq (dict_types d))" and "d' = d\<lparr>dict_types := appended x (dict_types d)\<rparr>"
    and "tc_type c \<notin> dt_type ` set (rows (dict_types d))"
  using assms find_type_by_type_None_iff [of d "tc_type c"]
  by (auto simp: dict_create_type_def dict_repo_create_type_def insert_row_appended split: if_splits)

lemma dict_update_type_InrD:
  assumes "dict_update_type i p d = Inr (x, d')"
  obtains r where "get_dict_type d i = Some r" "x = apply_dict_type_update p r"
    "d' = d\<lparr>dict_types := update_where (\<lambda>y. dt_id y = i) (apply_dict_type_update p) (dict_types d)\<rparr>"
  using assms
  by (auto simp: dict_update_type_def dict_repo_update_type_def bind_res_Inr_iff split: option.splits if_splits)

lemma dict_delete_type_InrD:
  assumes "dict_delete_type i d = Inr ((), d')"
  shows "\<exists>r. get_dict_type d i = Some r \<and> \<not> dt_builtin r" and "count_data_for_type d i = 0"
    and "d' = d\<lparr>dict_types := delete_where (\<lambda>y. dt_id y = i) (dict_types d)\<rparr>"
  using assms
  by (auto simp: dict_delete_type_def dict_repo_delete_type_def bind_res_Inr_iff split: option.splits if_splits)

interpretation dict_type_crud: crud dict_types dt_id dt_type
    "\<lambda>x d d'. \<exists>c. dict_create_type c d = Inr (x, d')"
    "\<lambda>i x d d'. \<exists>p. dict_update_type i p d = Inr (x, d')"
    "\<lambda>i d d'. dict_delete_type i d = Inr ((), d')"
proof
  fix d x d' assume "\<exists>c. dict_create_type c d = Inr (x, d')"
  then obtain c where "dict_create_type c d = Inr (x, d')" by blast
  note r = dict_create_type_InrD [OF this]
  show "dt_id x = seq (dict_types d) \<and> dt_type x \<notin> dt_type ` set (rows (dict_types d)) \<and>
      dict_types d' = appended x (dict_types d)"
    using r(3) by (simp add: r(2)) (simp add: r(1) new_dict_type_def)
next
  fix d i x d'
  assume ok: "coded_ok dt_id dt_type (dict_types d)" and "\<exists>p. dict_update_type i p d = Inr (x, d')"
  then obtain p where "dict_update_type i p d = Inr (x, d')" by blast
  then obtain r where r: "get_row dt_id (dict_types d) i = Some r" "x = apply_dict_type_update p r"
    "d' = d\<lparr>dict_types := update_where (\<lambda>y. dt_id y = i) (apply_dict_type_update p) (dict_types d)\<rparr>"
    by (rule dict_update_type_InrD) (simp add: get_dict_type_def)
  with code_kept [OF ok r(1), of x]
  show "\<exists>f y. (\<forall>z. dt_id (f z) = dt_id z) \<and> get_row dt_id (dict_types d) i = Some y \<and> x = f y \<and>
      dict_types d' = update_where (\<lambda>z. dt_id z = i) f (dict_types d) \<and>
      (\<forall>z \<in> set (rows (dict_types d)). dt_id z \<noteq> i \<longrightarrow> dt_type z \<noteq> dt_type x)"
    by (intro exI [of _ "apply_dict_type_update p"] exI [of _ r]) simp
next
  fix d i d' assume "dict_delete_type i d = Inr ((), d')"
  note r = dict_delete_type_InrD [OF this]
  show "get_row dt_id (dict_types d) i \<noteq> None \<and> dict_types d' = delete_where (\<lambda>z. dt_id z = i) (dict_types d)"
    using r(1) by (auto simp: r(3) get_dict_type_def)
qed

end
