(* ===== verification/CatalogTheorems.thy ===== *)
theory CatalogTheorems
  imports ConfigService DictService
begin

text \<open>
  Properties of the catalogues: the invariant of the two dictionary tables, the single default of a
  dictionary type, and reading a parameter after writes.
\<close>

section \<open>Dictionaries\<close>

definition dd_code :: "dict_data \<Rightarrow> int \<times> string" where
  "dd_code x = (dd_type x, dd_value x)"

definition one_default :: "dict_data list \<Rightarrow> bool" where
  "one_default xs \<longleftrightarrow>
     (\<forall>x \<in> set xs. \<forall>y \<in> set xs. dd_default x \<and> dd_default y \<and> dd_type x = dd_type y \<longrightarrow> x = y)"

definition dict_ok :: "db \<Rightarrow> bool" where
  "dict_ok d \<longleftrightarrow> coded_ok dt_id dt_type (dict_types d) \<and> coded_ok dd_id dd_code (dict_datas d) \<and>
     dd_type ` set (rows (dict_datas d)) \<subseteq> dt_id ` set (rows (dict_types d)) \<and>
     one_default (rows (dict_datas d))"

inductive dict_step :: "db \<Rightarrow> db \<Rightarrow> bool" where
  create_type: "dict_create_type c d = Inr (t, d') \<Longrightarrow> dict_step d d'"
| update_type: "dict_update_type i p d = Inr (t, d') \<Longrightarrow> dict_step d d'"
| delete_type: "dict_delete_type i d = Inr ((), d') \<Longrightarrow> dict_step d d'"
| create_data: "dict_create_data k d = Inr (x, d') \<Longrightarrow> dict_step d d'"
| update_data: "dict_update_data i q d = Inr (x, d') \<Longrightarrow> dict_step d d'"
| delete_data: "dict_delete_data i d = Inr ((), d') \<Longrightarrow> dict_step d d'"

lemma dict_data_conflict_None:
  "dict_data_conflict d x ys = None \<longleftrightarrow> (\<forall>y \<in> set ys. dd_code y \<noteq> dd_code x) \<and>
     (dd_default x \<longrightarrow> (\<forall>y \<in> set ys. dd_type y = dd_type x \<longrightarrow> \<not> dd_default y)) \<and>
     dd_type x \<in> dt_id ` set (rows (dict_types d))"
proof -
  have "(get_dict_type d (dd_type x) = None) = (dd_type x \<notin> dt_id ` set (rows (dict_types d)))"
    unfolding get_dict_type_def get_row_None_iff by force
  moreover have "list_ex (\<lambda>y. dd_type y = dd_type x \<and> dd_value y = dd_value x) ys \<longleftrightarrow>
      \<not> (\<forall>y \<in> set ys. dd_code y \<noteq> dd_code x)"
    by (auto simp: list_ex_iff dd_code_def)
  ultimately show ?thesis by (simp add: dict_data_conflict_def list_ex_iff)
qed

lemma clear_defaults_ok:
  assumes "dict_ok d"
  shows "dict_ok (clear_other_defaults ty except d)"
proof -
  let ?p = "\<lambda>x. dd_type x = ty \<and> dd_default x \<and> (case except of None \<Rightarrow> True | Some i \<Rightarrow> dd_id x \<noteq> i)"
  let ?f = "\<lambda>x. x\<lparr>dd_default := False\<rparr>"
  let ?t = "update_where ?p ?f (dict_datas d)"
  have keys: "map dd_id (rows ?t) = map dd_id (rows (dict_datas d))"
    "map dd_code (rows ?t) = map dd_code (rows (dict_datas d))"
    "map dd_type (rows ?t) = map dd_type (rows (dict_datas d))"
    by (simp_all add: rows_update_where dd_code_def)
  have "coded_ok dd_id dd_code ?t"
    using assms table_ok_update [of dd_id "dict_datas d" ?f ?p] keys(2)
    by (simp add: dict_ok_def coded_ok_def)
  moreover have "dd_type ` set (rows ?t) = dd_type ` set (rows (dict_datas d))"
    using keys(3) by (metis list.set_map)
  moreover have "one_default (rows ?t)"
    using assms by (auto simp: dict_ok_def one_default_def mem_update_where split: if_splits)
  ultimately show ?thesis using assms by (simp add: dict_ok_def clear_other_defaults_def)
qed

lemma dict_create_data_InrD:
  assumes "dict_create_data c d = Inr (x, d')"
  obtains e where "e = (if ddc_default c then clear_other_defaults (ddc_type c) None d else d)"
    "x = new_dict_data c (seq (dict_datas e))" "d' = e\<lparr>dict_datas := appended x (dict_datas e)\<rparr>"
    "dict_data_conflict e x (rows (dict_datas e)) = None"
  using assms
  by (auto simp: dict_create_data_def dict_repo_create_data_def insert_row_appended
      split: if_splits option.splits)

lemma dict_update_data_InrD:
  assumes "dict_update_data i p d = Inr (x', d')"
  obtains x0 x e where "get_dict_data d i = Some x0"
    "e = (if ddu_default p = Assign (Some True) then clear_other_defaults (dd_type x0) (Some i) d else d)"
    "get_dict_data e i = Some x" "x' = apply_dict_data_update p x"
    "d' = e\<lparr>dict_datas := update_where (\<lambda>y. dd_id y = i) (apply_dict_data_update p) (dict_datas e)\<rparr>"
    "dict_data_conflict e x' (filter (\<lambda>y. dd_id y \<noteq> i) (rows (dict_datas e))) = None"
proof -
  from assms obtain x0 where x0: "get_dict_data d i = Some x0"
    by (auto simp: dict_update_data_def split: option.splits)
  let ?e = "if ddu_default p = Assign (Some True) then clear_other_defaults (dd_type x0) (Some i) d else d"
  have "dict_repo_update_data i p ?e = Inr (Some x', d')"
    using assms x0 by (auto simp: dict_update_data_def bind_res_Inr_iff split: option.splits if_splits)
  then show thesis
    using that [OF x0 refl]
    by (auto simp: dict_repo_update_data_def Let_def split: option.splits if_splits)
qed

lemma apply_dict_data_update_keeps [simp]:
  "dd_id (apply_dict_data_update p x) = dd_id x" "dd_type (apply_dict_data_update p x) = dd_type x"
  by (simp_all add: apply_dict_data_update_def)

lemma one_default_append:
  "one_default xs \<Longrightarrow> (dd_default x \<longrightarrow> (\<forall>y \<in> set xs. dd_type y = dd_type x \<longrightarrow> \<not> dd_default y)) \<Longrightarrow>
     one_default (xs @ [x])"
  by (auto simp: one_default_def)

lemma dict_create_data_ok:
  assumes "dict_ok d" and "dict_create_data c d = Inr (x, d')"
  shows "dict_ok d'"
  using assms(2)
proof (rule dict_create_data_InrD)
  fix e assume e: "e = (if ddc_default c then clear_other_defaults (ddc_type c) None d else d)"
    and x: "x = new_dict_data c (seq (dict_datas e))"
    and d': "d' = e\<lparr>dict_datas := appended x (dict_datas e)\<rparr>"
    and n: "dict_data_conflict e x (rows (dict_datas e)) = None"
  have ok: "dict_ok e" using e clear_defaults_ok [OF assms(1)] assms(1) by simp
  have key: "dd_id x = seq (dict_datas e)" by (simp add: x new_dict_data_def)
  have code: "\<forall>y \<in> set (rows (dict_datas e)). dd_code y \<noteq> dd_code x"
    and dflt: "dd_default x \<longrightarrow> (\<forall>y \<in> set (rows (dict_datas e)). dd_type y = dd_type x \<longrightarrow> \<not> dd_default y)"
    and ty: "dd_type x \<in> dt_id ` set (rows (dict_types e))"
    using n by (simp_all add: dict_data_conflict_None)
  have "coded_ok dd_id dd_code (appended x (dict_datas e))"
    using ok code key by (intro coded_ok_appended) (auto simp: dict_ok_def image_iff)
  moreover have "one_default (rows (dict_datas e) @ [x])"
    using ok one_default_append [OF _ dflt] by (simp add: dict_ok_def)
  ultimately show ?thesis using ok ty by (simp add: dict_ok_def d')
qed

lemma dict_update_data_ok:
  assumes "dict_ok d" and "dict_update_data i p d = Inr (x', d')"
  shows "dict_ok d'"
  using assms(2)
proof (rule dict_update_data_InrD)
  fix x0 x e
  assume e: "e = (if ddu_default p = Assign (Some True) then clear_other_defaults (dd_type x0) (Some i) d else d)"
    and x: "get_dict_data e i = Some x" "x' = apply_dict_data_update p x"
    and d': "d' = e\<lparr>dict_datas := update_where (\<lambda>y. dd_id y = i) (apply_dict_data_update p) (dict_datas e)\<rparr>"
    and n: "dict_data_conflict e x' (filter (\<lambda>y. dd_id y \<noteq> i) (rows (dict_datas e))) = None"
  let ?t = "update_where (\<lambda>y. dd_id y = i) (apply_dict_data_update p) (dict_datas e)"
  have ok: "dict_ok e" using e clear_defaults_ok [OF assms(1)] assms(1) by simp
  have xi: "y = x" if "y \<in> set (rows (dict_datas e))" "dd_id y = i" for y
    using ok x(1) that get_row_Some_iff [of dd_id "dict_datas e" i y]
    by (simp add: dict_ok_def coded_ok_def get_dict_data_def)
  have code: "\<forall>z \<in> set (rows (dict_datas e)). dd_id z \<noteq> i \<longrightarrow> dd_code z \<noteq> dd_code x'"
    and dflt: "dd_default x' \<longrightarrow> (\<forall>y \<in> set (rows (dict_datas e)). dd_id y \<noteq> i \<longrightarrow>
        dd_type y = dd_type x' \<longrightarrow> \<not> dd_default y)"
    using n by (auto simp: dict_data_conflict_None)
  have "coded_ok dd_id dd_code ?t"
    using ok x code by (intro coded_ok_updated [where y = x]) (auto simp: dict_ok_def get_dict_data_def)
  moreover have "map dd_type (rows ?t) = map dd_type (rows (dict_datas e))"
    by (simp add: rows_update_where)
  then have "dd_type ` set (rows ?t) = dd_type ` set (rows (dict_datas e))" by (metis list.set_map)
  moreover have "one_default (rows ?t)"
    unfolding one_default_def mem_update_where
  proof (intro ballI impI)
    fix a b assume ab: "a \<in> set (rows ?t)" "b \<in> set (rows ?t)" "dd_default a \<and> dd_default b \<and> dd_type a = dd_type b"
    then have m: "a \<in> set (rows (dict_datas e)) \<and> dd_id a \<noteq> i \<or> a = x'"
      "b \<in> set (rows (dict_datas e)) \<and> dd_id b \<noteq> i \<or> b = x'"
      using xi x(2) by (auto simp: mem_update_where split: if_splits)
    then show "a = b" using ab(3) dflt ok by (auto simp: dict_ok_def one_default_def)
  qed
  ultimately show ?thesis using ok by (simp add: dict_ok_def d')
qed

lemma one_default_subset: "one_default xs \<Longrightarrow> set ys \<subseteq> set xs \<Longrightarrow> one_default ys"
  by (auto simp: one_default_def)

lemma dict_delete_data_ok:
  assumes "dict_ok d" and "dict_delete_data i d = Inr ((), d')"
  shows "dict_ok d'"
proof -
  from assms(2) have "d' = d\<lparr>dict_datas := delete_where (\<lambda>y. dd_id y = i) (dict_datas d)\<rparr>"
    by (auto simp: dict_delete_data_def dict_repo_delete_data_def split: if_splits)
  with assms(1) show ?thesis
    by (auto simp: dict_ok_def coded_ok_deleted rows_delete_where intro: one_default_subset)
qed

lemma dict_type_write_ok:
  assumes "dict_ok d"
  shows "dict_create_type c d = Inr (t, d') \<Longrightarrow> dict_ok d'"
    and "dict_update_type i p d = Inr (t, d') \<Longrightarrow> dict_ok d'"
    and "dict_delete_type i d = Inr ((), d') \<Longrightarrow> dict_ok d'"
proof -
  have ok: "coded_ok dt_id dt_type (dict_types d)" using assms by (simp add: dict_ok_def)
  note w = dict_type_crud.write_ok [OF ok]
  {
    assume c: "dict_create_type c d = Inr (t, d')"
    then have "coded_ok dt_id dt_type (dict_types d')" using w by blast
    with assms dict_create_type_InrD(2) [OF c] show "dict_ok d'" by (auto simp: dict_ok_def)
  }
  {
    assume u: "dict_update_type i p d = Inr (t, d')"
    then have "coded_ok dt_id dt_type (dict_types d')" using w by blast
    moreover have "map dt_id (rows (dict_types d')) = map dt_id (rows (dict_types d)) \<and> dict_datas d' = dict_datas d"
      using u by (rule dict_update_type_InrD) (simp add: rows_update_where)
    then have "dt_id ` set (rows (dict_types d')) = dt_id ` set (rows (dict_types d))" "dict_datas d' = dict_datas d"
      by (metis list.set_map)+
    ultimately show "dict_ok d'" using assms by (simp add: dict_ok_def)
  }
  assume r: "dict_delete_type i d = Inr ((), d')"
  then have "coded_ok dt_id dt_type (dict_types d')" using w by blast
  with assms dict_delete_type_InrD(2,3) [OF r] show "dict_ok d'"
    by (auto simp: dict_ok_def rows_delete_where count_data_for_type_def filter_empty_conv)
qed

lemma dict_step_ok: "dict_step d d' \<Longrightarrow> dict_ok d \<Longrightarrow> dict_ok d'"
  by (induction rule: dict_step.induct)
    (rule dict_type_write_ok dict_create_data_ok dict_update_data_ok dict_delete_data_ok; assumption)+

text \<open>
  Sequences of dictionary operations keep the two tables consistent: unique types, unique values
  within a type, every entry of an existing type, and at most one default entry per type; what a
  client reads for a type string are exactly the active entries of that type while it is active.
\<close>

theorem dict_tables_invariant:
  assumes "dict_step\<^sup>*\<^sup>* d d'" and "dict_ok d"
  shows "dict_ok d' \<and>
    set (list_data_by_type d' s) = {x \<in> set (rows (dict_datas d')). dd_status x = Active \<and>
       (\<exists>t \<in> set (rows (dict_types d')). dt_id t = dd_type x \<and> dt_type t = s \<and> dt_status t = Active)}"
proof -
  from assms have ok: "dict_ok d'"
    by (induction rule: rtranclp_induct) (auto intro: dict_step_ok)
  have find: "find_type_by_type d' s = Some t \<longleftrightarrow> t \<in> set (rows (dict_types d')) \<and> dt_type t = s" for t
  proof
    show "find_type_by_type d' s = Some t \<Longrightarrow> t \<in> set (rows (dict_types d')) \<and> dt_type t = s"
      by (auto simp: find_type_by_type_def find_Some_iff)
    assume t: "t \<in> set (rows (dict_types d')) \<and> dt_type t = s"
    then obtain t' where f: "find_type_by_type d' s = Some t'"
      using find_type_by_type_None_iff [of d' s] by (cases "find_type_by_type d' s") auto
    then have "t' \<in> set (rows (dict_types d'))" "dt_type t' = s"
      by (auto simp: find_type_by_type_def find_Some_iff)
    with t ok have "t' = t" by (auto simp: dict_ok_def coded_ok_def distinct_map inj_on_def)
    with f show "find_type_by_type d' s = Some t" by simp
  qed
  have "set (list_data_by_type d' s) = {x \<in> set (rows (dict_datas d')). dd_status x = Active \<and>
      (\<exists>t \<in> set (rows (dict_types d')). dt_id t = dd_type x \<and> dt_type t = s \<and> dt_status t = Active)}"
  proof (cases "find_type_by_type d' s")
    case (Some t)
    from find [of t] Some have t: "t \<in> set (rows (dict_types d'))" "dt_type t = s" by auto
    have "dt_id t' = i \<and> dt_type t' = s \<longleftrightarrow> t' = t \<and> dt_id t = i" if "t' \<in> set (rows (dict_types d'))" for t' i
      using find [of t'] Some that t by auto
    then have "(\<exists>t' \<in> set (rows (dict_types d')). dt_id t' = i \<and> dt_type t' = s \<and> dt_status t' = Active) \<longleftrightarrow>
        dt_id t = i \<and> dt_status t = Active" for i
      using t by blast
    then show ?thesis
      using Some by (auto simp: list_data_by_type_def repo_list_data_by_type_def dict_data_order_def)
  next
    case None
    with find have "\<forall>t \<in> set (rows (dict_types d')). dt_type t \<noteq> s" by auto
    with None show ?thesis by (auto simp: list_data_by_type_def repo_list_data_by_type_def)
  qed
  with ok show ?thesis by simp
qed

lemma cleared_defaults:
  assumes "y \<in> set (rows (dict_datas (clear_other_defaults ty except d)))" "dd_type y = ty"
    "except \<noteq> Some (dd_id y)"
  shows "\<not> dd_default y"
proof -
  let ?p = "\<lambda>x. dd_type x = ty \<and> dd_default x \<and> (case except of None \<Rightarrow> True | Some i \<Rightarrow> dd_id x \<noteq> i)"
  have "dict_datas (clear_other_defaults ty except d) =
      update_where ?p (\<lambda>x. x\<lparr>dd_default := False\<rparr>) (dict_datas d)"
    by (simp add: clear_other_defaults_def)
  then have "\<exists>z \<in> set (rows (dict_datas d)). y = (if ?p z then z\<lparr>dd_default := False\<rparr> else z)"
    using assms(1) by (simp only: mem_update_where)
  then obtain z where z: "y = (if ?p z then z\<lparr>dd_default := False\<rparr> else z)" by (elim bexE)
  show "\<not> dd_default y"
  proof (cases "?p z")
    case True
    then have "y = z\<lparr>dd_default := False\<rparr>" by (rule trans [OF z if_P])
    then show ?thesis by simp
  next
    case False
    then have "y = z" by (rule trans [OF z if_not_P])
    with False assms(2,3) show ?thesis by (cases except) auto
  qed
qed

lemma default_after_create:
  assumes "dict_ok d" "dict_create_data c d = Inr (x, d')" "ddc_default c"
  shows "{y \<in> set (rows (dict_datas d')). dd_type y = dd_type x \<and> dd_default y} = {x}"
proof -
  from assms(2,3) have "x \<in> set (rows (dict_datas d'))" "dd_default x"
    by (auto elim!: dict_create_data_InrD simp: new_dict_data_def)
  moreover have "one_default (rows (dict_datas d'))"
    using dict_create_data_ok [OF assms(1,2)] by (simp add: dict_ok_def)
  ultimately show ?thesis by (auto simp: one_default_def)
qed

lemma default_after_update:
  assumes "dict_ok d" "dict_update_data i p d = Inr (x, d')" "ddu_default p = Assign (Some True)"
  shows "{y \<in> set (rows (dict_datas d')). dd_type y = dd_type x \<and> dd_default y} = {x}"
proof -
  from assms(2) have "x \<in> set (rows (dict_datas d')) \<and> dd_default x"
  proof (rule dict_update_data_InrD)
    fix e y assume y: "get_dict_data e i = Some y" and x: "x = apply_dict_data_update p y"
      and d': "d' = e\<lparr>dict_datas := update_where (\<lambda>y. dd_id y = i) (apply_dict_data_update p) (dict_datas e)\<rparr>"
    have "y \<in> set (rows (dict_datas e)) \<and> dd_id y = i"
      using y get_row_SomeD [of dd_id "dict_datas e" i y] by (simp add: get_dict_data_def)
    moreover have "dd_default x" using x assms(3) by (simp add: apply_dict_data_update_def)
    ultimately show ?thesis unfolding d' using x by (auto simp: mem_update_where)
  qed
  moreover have "one_default (rows (dict_datas d'))"
    using dict_update_data_ok [OF assms(1,2)] by (simp add: dict_ok_def)
  ultimately show ?thesis by (auto simp: one_default_def)
qed

definition default_index :: string where "default_index = ''uq_dict_data_one_default_per_type''"

lemma conflict_default_index:
  assumes "dict_data_conflict d x ys = Some default_index"
  shows "dd_default x \<and> (\<exists>y \<in> set ys. dd_type y = dd_type x \<and> dd_default y)"
  using assms by (auto simp: dict_data_conflict_def default_index_def list_ex_iff split: if_splits)

lemma create_no_default_conflict: "dict_create_data c d \<noteq> Inl (IntegrityErr default_index)"
proof
  define e where "e = (if ddc_default c then clear_other_defaults (ddc_type c) None d else d)"
  assume "dict_create_data c d = Inl (IntegrityErr default_index)"
  then have "dict_repo_create_data c e = Inl (IntegrityErr default_index)"
    unfolding dict_create_data_def dict_type_not_found_def e_def
    by (cases "get_dict_type d (ddc_type c)") simp_all
  then have "dict_data_conflict e (new_dict_data c (seq (dict_datas e))) (rows (dict_datas e)) = Some default_index"
    by (simp add: dict_repo_create_data_def insert_row_def split: option.splits)
  from conflict_default_index [OF this] obtain y where y: "ddc_default c" "y \<in> set (rows (dict_datas e))"
    "dd_type y = ddc_type c" "dd_default y" by (auto simp: new_dict_data_def)
  then have "e = clear_other_defaults (ddc_type c) None d" by (simp add: e_def)
  with cleared_defaults [of y "ddc_type c" None d] y show False by simp
qed

lemma update_no_default_conflict:
  assumes "dict_ok d"
  shows "dict_update_data i p d \<noteq> Inl (IntegrityErr default_index)"
proof
  assume f: "dict_update_data i p d = Inl (IntegrityErr default_index)"
  then obtain x0 where x0: "get_dict_data d i = Some x0"
    by (cases "get_dict_data d i") (simp_all add: dict_update_data_def dict_data_not_found_def)
  let ?c = "ddu_default p = Assign (Some True)"
  define e where "e = (if ?c then clear_other_defaults (dd_type x0) (Some i) d else d)"
  have ok: "dict_ok e" using clear_defaults_ok [OF assms] assms by (simp add: e_def)
  have "dict_repo_update_data i p e = Inl (IntegrityErr default_index)"
    using f x0 unfolding dict_update_data_def e_def [symmetric]
    by (auto simp: e_def [symmetric] bind_res_Inl_iff dict_data_not_found_def split: option.splits)
  then obtain x where x: "get_dict_data e i = Some x"
    and con: "dict_data_conflict e (apply_dict_data_update p x)
        (filter (\<lambda>y. dd_id y \<noteq> i) (rows (dict_datas e))) = Some default_index"
    by (cases "get_dict_data e i")
      (simp_all add: dict_repo_update_data_def Let_def default_index_def split: option.splits if_splits)
  from conflict_default_index [OF con] obtain y where y: "y \<in> set (rows (dict_datas e))" "dd_id y \<noteq> i"
    "dd_type y = dd_type x" "dd_default y" and dx: "dd_default (apply_dict_data_update p x)" by auto
  have x_in: "x \<in> set (rows (dict_datas e))" "dd_id x = i"
    using get_row_SomeD [of dd_id "dict_datas e" i x] x by (simp_all add: get_dict_data_def)
  show False
  proof (cases ?c)
    case True
    then obtain z where z: "z \<in> set (rows (dict_datas d))" "dd_id z = i" "dd_type z = dd_type x"
      using x_in by (auto simp: e_def clear_other_defaults_def mem_update_where split: if_splits)
    then have "z = x0"
      using x0 assms get_row_Some_iff [of dd_id "dict_datas d" i z]
      by (simp add: get_dict_data_def dict_ok_def coded_ok_def)
    with z True cleared_defaults [of y "dd_type x0" "Some i" d] y show False by (simp add: e_def)
  next
    case False
    then have "dd_default x"
      using dx by (cases "(ddu_default p, dd_default x)" rule: patched_nn.cases)
        (auto simp: apply_dict_data_update_def)
    with ok x_in y show False by (auto simp: dict_ok_def one_default_def)
  qed
qed

text \<open>
  Creating an entry as default, or making one the default, leaves this entry as the only default
  of its type; in a consistent database the unique index behind the service never fires.
\<close>

theorem default_entry_moves:
  assumes "dict_ok d"
  shows "(dict_create_data c d = Inr (x, d') \<and> ddc_default c \<longrightarrow>
      {y \<in> set (rows (dict_datas d')). dd_type y = dd_type x \<and> dd_default y} = {x}) \<and>
    (dict_update_data i p d = Inr (x, d') \<and> ddu_default p = Assign (Some True) \<longrightarrow>
      {y \<in> set (rows (dict_datas d')). dd_type y = dd_type x \<and> dd_default y} = {x}) \<and>
    dict_create_data c d \<noteq> Inl (IntegrityErr default_index) \<and>
    dict_update_data i p d \<noteq> Inl (IntegrityErr default_index)"
  using default_after_create [OF assms, of c x d'] default_after_update [OF assms, of i p x d']
    create_no_default_conflict [of c d] update_no_default_conflict [OF assms, of i p] by simp


definition demo_type :: dict_type_create where
  "demo_type = \<lparr>tc_name = ''sex'', tc_type = ''sys_sex'', tc_status = Active, tc_builtin = False,
     tc_remark = None\<rparr>"

definition demo_data :: "string \<Rightarrow> dict_data_create" where
  "demo_data v = \<lparr>ddc_type = 1, ddc_label = v, ddc_value = v, ddc_sort = 0, ddc_status = Active,
     ddc_default = True, ddc_css = None, ddc_remark = None\<rparr>"

text \<open>A type with two entries, each created as default.\<close>

definition demo_dict :: db where
  "demo_dict = snd (projr (dict_create_data (demo_data ''m'')
     (snd (projr (dict_create_type demo_type empty_db)))))"

lemma demo_dict_eq:
  "demo_dict = empty_db\<lparr>dict_types := \<lparr>rows = [new_dict_type demo_type 1], seq = 2\<rparr>,
     dict_datas := \<lparr>rows = [new_dict_data (demo_data ''m'') 1], seq = 2\<rparr>\<rparr>"
  by (simp add: demo_dict_def dict_create_type_def dict_repo_create_type_def find_type_by_type_def
      dict_create_data_def dict_repo_create_data_def dict_data_conflict_def insert_row_def
      clear_other_defaults_def update_where_def get_dict_type_def get_row_def empty_db_def empty_table_def
      new_dict_type_def demo_type_def demo_data_def new_dict_data_def)

lemma demo_second_entry:
  "\<exists>x d'. dict_create_data (demo_data ''f'') demo_dict = Inr (x, d') \<and> dd_id x = 2"
  by (simp add: demo_dict_eq dict_create_data_def dict_repo_create_data_def dict_data_conflict_def
      insert_row_def clear_other_defaults_def update_where_def get_dict_type_def get_row_def
      new_dict_type_def demo_type_def demo_data_def new_dict_data_def)

lemma empty_dict_ok: "dict_ok empty_db"
  by (simp add: dict_ok_def coded_ok_def table_ok_def one_default_def empty_db_def empty_table_def)

lemma demo_dict_ok: "dict_ok demo_dict"
  by (simp add: demo_dict_eq dict_ok_def coded_ok_def table_ok_def one_default_def new_dict_type_def
      new_dict_data_def demo_data_def)

theorem dict_tables_invariant_witness:
  "\<exists>d'. dict_step\<^sup>*\<^sup>* demo_dict d' \<and> dict_ok d' \<and> length (rows (dict_datas d')) = 2 \<and>
     set (list_data_by_type d' ''sys_sex'') = {x \<in> set (rows (dict_datas d')). dd_status x = Active \<and>
       (\<exists>t \<in> set (rows (dict_types d')). dt_id t = dd_type x \<and> dt_type t = ''sys_sex'' \<and> dt_status t = Active)}"
proof -
  from demo_second_entry obtain x d' where c: "dict_create_data (demo_data ''f'') demo_dict = Inr (x, d')" by blast
  from c have "length (rows (dict_datas d')) = 2"
    by (rule dict_create_data_InrD) (simp add: demo_dict_eq clear_other_defaults_def update_where_def demo_data_def)
  moreover have s: "dict_step\<^sup>*\<^sup>* demo_dict d'" using create_data [OF c] by (rule r_into_rtranclp)
  ultimately show ?thesis using dict_tables_invariant [OF s demo_dict_ok] by blast
qed

theorem default_entry_moves_witness:
  "\<exists>x d'. dict_create_data (demo_data ''f'') demo_dict = Inr (x, d') \<and> dd_id x = 2 \<and>
     {y \<in> set (rows (dict_datas d')). dd_type y = dd_type x \<and> dd_default y} = {x}"
proof -
  have "ddc_default (demo_data ''f'')" by (simp add: demo_data_def)
  with demo_second_entry default_entry_moves [OF demo_dict_ok, of "demo_data ''f''"] show ?thesis by blast
qed

section \<open>Parameters\<close>

lemma config_row_by_key:
  assumes "coded_ok cf_id cf_key (configs d)" "get_config d i = Some r"
  shows "find_config_by_key d (cf_key r) = Some r"
    and "\<forall>y \<in> set (rows (configs d)). cf_id y = i \<longleftrightarrow> cf_key y = cf_key r"
proof -
  have r: "r \<in> set (rows (configs d))" "cf_id r = i"
    using get_row_SomeD [of cf_id "configs d" i r] assms(2) by (simp_all add: get_config_def)
  show same: "\<forall>y \<in> set (rows (configs d)). cf_id y = i \<longleftrightarrow> cf_key y = cf_key r"
    using assms(1) r by (auto simp: coded_ok_def table_ok_def distinct_map inj_on_def)
  obtain q where q: "find_config_by_key d (cf_key r) = Some q"
    using find_config_by_key_None_iff [of d "cf_key r"] r(1) by (cases "find_config_by_key d (cf_key r)") auto
  then have "q \<in> set (rows (configs d))" "cf_key q = cf_key r"
    by (auto simp: find_config_by_key_def find_Some_iff)
  with r assms(1) have "q = r" by (auto simp: coded_ok_def distinct_map inj_on_def)
  with q show "find_config_by_key d (cf_key r) = Some r" by simp
qed

lemma config_value_after_create:
  assumes "config_create_op c d = Inr (x, d')"
  shows "config_get_value d (cc_key c) = Inl config_not_found"
    and "config_get_value d' k =
      (if k = cc_key c then Inr \<lparr>cv_key = k, cv_value = cc_value c\<rparr> else config_get_value d k)"
proof -
  note r = config_create_InrD [OF assms]
  have k: "cf_key x = cc_key c" "cf_value x = cc_value c" by (simp_all add: r(1) new_config_def)
  show "config_get_value d (cc_key c) = Inl config_not_found"
    using r(3) find_config_by_key_None_iff [of d "cc_key c"] by (simp add: config_get_value_def)
  have "cf_key x \<notin> cf_key ` set (rows (configs d))" using r(3) k by simp
  from find_code_appended [OF this, of k]
  have "find_config_by_key d' k = (if k = cf_key x then Some x else find_config_by_key d k)"
    by (simp add: find_config_by_key_def r(2))
  with k show "config_get_value d' k =
      (if k = cc_key c then Inr \<lparr>cv_key = k, cv_value = cc_value c\<rparr> else config_get_value d k)"
    by (simp add: config_get_value_def)
qed

lemma config_value_after_update:
  assumes ok: "coded_ok cf_id cf_key (configs d)" and u: "config_update_op i p d = Inr (x, d')"
  shows "\<exists>r. config_get d i = Inr r \<and> cf_key x = cf_key r"
    and "config_get_value d' k =
      (if k = cf_key x then Inr \<lparr>cv_key = k, cv_value = cf_value x\<rparr> else config_get_value d k)"
proof -
  from u obtain r where r: "get_config d i = Some r" "x = apply_config_update p r"
    "d' = d\<lparr>configs := update_where (\<lambda>y. cf_id y = i) (apply_config_update p) (configs d)\<rparr>"
    by (rule config_update_InrD)
  then show "\<exists>r. config_get d i = Inr r \<and> cf_key x = cf_key r" by (simp add: config_get_def)
  note key = config_row_by_key [OF ok r(1)]
  have i: "cf_id r = i" using get_row_SomeD [of cf_id "configs d" i r] r(1) by (simp add: get_config_def)
  have f: "find_config_by_key d' k = map_option (\<lambda>y. if cf_id y = i then apply_config_update p y else y)
      (find_config_by_key d k)"
    using find_code_updated [of cf_key "apply_config_update p" k "\<lambda>y. cf_id y = i" "rows (configs d)"]
    by (simp add: find_config_by_key_def r(3) rows_update_where)
  show "config_get_value d' k =
      (if k = cf_key x then Inr \<lparr>cv_key = k, cv_value = cf_value x\<rparr> else config_get_value d k)"
  proof (cases "find_config_by_key d k")
    case None
    then have "k \<noteq> cf_key x" using key(1) r(2) by auto
    with None f show ?thesis by (simp add: config_get_value_def)
  next
    case (Some y)
    then have y: "y \<in> set (rows (configs d))" "cf_key y = k"
      by (auto simp: find_config_by_key_def find_Some_iff)
    have "y = r" if "k = cf_key r" using Some key(1) that by simp
    with Some f y key(2) r(2) i show ?thesis by (auto simp: config_get_value_def)
  qed
qed

lemma config_value_after_delete:
  assumes ok: "coded_ok cf_id cf_key (configs d)" and u: "config_delete_op i d = Inr ((), d')"
  shows "\<exists>r. config_get d i = Inr r \<and> \<not> cf_builtin r \<and> (\<forall>k. config_get_value d' k =
    (if k = cf_key r then Inl config_not_found else config_get_value d k))"
proof -
  note r = config_delete_InrD [OF u]
  from r(1) obtain q where q: "get_config d i = Some q" "\<not> cf_builtin q" by blast
  from find_code_deleted [OF config_row_by_key(2) [OF ok q(1)]]
  have "find_config_by_key d' k = (if k = cf_key q then None else find_config_by_key d k)" for k
    by (simp add: find_config_by_key_def r(2) rows_delete_where)
  with q show ?thesis by (intro exI [of _ q]) (simp add: config_get_def config_get_value_def)
qed

text \<open>
  A parameter read by its key gives the value of the last write: the created one, the updated
  one, nothing after a deletion; writes to one parameter leave the values under all other keys as
  they are, keys never change, and a built-in parameter is not deleted.
\<close>

theorem config_value_is_last_write:
  assumes "coded_ok cf_id cf_key (configs d)"
  shows "(config_create_op c d = Inr (x, d') \<longrightarrow>
      config_get_value d (cc_key c) = Inl config_not_found \<and>
      (\<forall>k. config_get_value d' k =
         (if k = cc_key c then Inr \<lparr>cv_key = k, cv_value = cc_value c\<rparr> else config_get_value d k))) \<and>
    (config_update_op i p d = Inr (x, d') \<longrightarrow>
      (\<exists>r. config_get d i = Inr r \<and> cf_key x = cf_key r) \<and>
      (\<forall>k. config_get_value d' k =
         (if k = cf_key x then Inr \<lparr>cv_key = k, cv_value = cf_value x\<rparr> else config_get_value d k))) \<and>
    (config_delete_op i d = Inr ((), d') \<longrightarrow>
      (\<exists>r. config_get d i = Inr r \<and> \<not> cf_builtin r \<and>
         (\<forall>k. config_get_value d' k =
            (if k = cf_key r then Inl config_not_found else config_get_value d k))))"
  using config_value_after_create [of c d x d'] config_value_after_update [OF assms, of i p x d']
    config_value_after_delete [OF assms, of i d'] by simp

definition demo_config :: "string \<Rightarrow> string \<Rightarrow> config_create" where
  "demo_config k v = \<lparr>cc_name = k, cc_key = k, cc_value = v, cc_builtin = False, cc_remark = None\<rparr>"

theorem config_value_is_last_write_witness:
  "\<exists>x d'. config_create_op (demo_config ''a'' ''1'') empty_db = Inr (x, d') \<and>
     config_get_value d' ''a'' = Inr \<lparr>cv_key = ''a'', cv_value = ''1''\<rparr>"
proof -
  have ok: "coded_ok cf_id cf_key (configs empty_db)"
    by (simp add: coded_ok_def table_ok_def empty_db_def empty_table_def)
  obtain x d' where c: "config_create_op (demo_config ''a'' ''1'') empty_db = Inr (x, d')"
    by (simp add: config_create_op_def config_repo_create_def find_config_by_key_def insert_row_def
        empty_db_def empty_table_def)
  with config_value_is_last_write [OF ok, of "demo_config ''a'' ''1''" x d'] show ?thesis
    by (auto simp: demo_config_def)
qed

end
