(* ===== verification/Regex.thy ===== *)
theory Regex
  imports PyText
begin

text \<open>
  The part of Python's \<^verbatim>\<open>re\<close> module that the program uses: a backtracking matcher as the list of
  the rests after every way to match, in the order in which \<^verbatim>\<open>re\<close> tries them (alternatives from
  left to right, repetition greedily).  The first rest is the match that \<^verbatim>\<open>re\<close> reports.
\<close>

datatype regex = Eps | Cls "char \<Rightarrow> bool" | Cat regex regex | Alt regex regex | Rep regex

text \<open>Repetition; an iteration that consumes nothing ends it, so \<open>length s\<close> rounds suffice.\<close>

fun rep_matches :: "nat \<Rightarrow> (string \<Rightarrow> string list) \<Rightarrow> string \<Rightarrow> string list" where
  "rep_matches 0 m s = [s]"
| "rep_matches (Suc n) m s =
     concat (map (rep_matches n m) (filter (\<lambda>t. length t < length s) (m s))) @ [s]"

fun re_rests :: "regex \<Rightarrow> string \<Rightarrow> string list" where
  "re_rests Eps s = [s]"
| "re_rests (Cls p) [] = []"
| "re_rests (Cls p) (c # cs) = (if p c then [cs] else [])"
| "re_rests (Cat a b) s = concat (map (re_rests b) (re_rests a s))"
| "re_rests (Alt a b) s = re_rests a s @ re_rests b s"
| "re_rests (Rep a) s = rep_matches (length s) (re_rests a) s"

definition re_opt :: "regex \<Rightarrow> regex" where "re_opt a = Alt a Eps"
definition re_plus :: "regex \<Rightarrow> regex" where "re_plus a = Cat a (Rep a)"

text \<open>A literal word under the flag \<^verbatim>\<open>IGNORECASE\<close>.\<close>

fun re_word :: "string \<Rightarrow> regex" where
  "re_word [] = Eps"
| "re_word (c # cs) = Cat (Cls (\<lambda>x. lower_char x = lower_char c)) (re_word cs)"

text \<open>\<^verbatim>\<open>re.match\<close> and \<^verbatim>\<open>re.search\<close>, as tests.\<close>

definition re_prefix :: "regex \<Rightarrow> string \<Rightarrow> bool" where
  "re_prefix r s \<longleftrightarrow> re_rests r s \<noteq> []"

fun re_search :: "regex \<Rightarrow> string \<Rightarrow> bool" where
  "re_search r [] = re_prefix r []"
| "re_search r (c # cs) = (re_prefix r (c # cs) \<or> re_search r cs)"

text \<open>\<^verbatim>\<open>pattern.sub(new, s)\<close> for patterns that do not match the empty string.\<close>

function re_sub :: "regex \<Rightarrow> string \<Rightarrow> string \<Rightarrow> string" where
  "re_sub r new s =
     (case re_rests r s of
        t # _ \<Rightarrow> if length t < length s then new @ re_sub r new t
                 else (case s of [] \<Rightarrow> [] | c # cs \<Rightarrow> c # re_sub r new cs)
      | [] \<Rightarrow> (case s of [] \<Rightarrow> [] | c # cs \<Rightarrow> c # re_sub r new cs))"
  by pat_completeness auto
termination by (relation "measure (\<lambda>(r, new, s). length s)") auto

declare re_sub.simps [simp del]

section \<open>Facts\<close>

lemma re_rests_Cat_iff:
  "u \<in> set (re_rests (Cat a b) s) \<longleftrightarrow> (\<exists>t \<in> set (re_rests a s). u \<in> set (re_rests b t))"
  by auto

lemma re_word_self: "re_rests (re_word w) (w @ s) = [s]"
  by (induction w) auto

text \<open>Greedy repetition of a character class takes the longest run first.\<close>

lemma rep_class_all:
  assumes "list_all p w" "s = [] \<or> \<not> p (hd s)" "length w \<le> n"
  shows "hd (rep_matches n (re_rests (Cls p)) (w @ s)) = s \<and> rep_matches n (re_rests (Cls p)) (w @ s) \<noteq> []"
  using assms
proof (induction w arbitrary: n)
  case Nil
  then show ?case by (cases n; cases s) auto
next
  case (Cons c w)
  then obtain k where "n = Suc k" by (cases n) auto
  with Cons show ?case by (auto simp: hd_append)
qed

end
