(* ===== verification/TaskRegistry.thy ===== *)
theory TaskRegistry
  imports Schema RefreshTokens Regex Decimal
begin

text \<open>
  \<^verbatim>\<open>domains/scheduled_task/registry.py\<close>: the handlers that a task may name, their parameter
  schemas and what they do.  A handler runs in transactions of its own on the database; pydantic's
  message for rejected parameters and the text of exceptions are arguments.
\<close>

datatype handler_result =
    HandlerReturns "string option"
  | HandlerRaises (raised_type: string) (raised_text: string)

record handler_env =
  he_now :: int
  he_validation_text :: string

record handler_spec =
  hs_key :: string
  hs_schema :: "((string \<times> json) list \<Rightarrow> (string \<times> json) list option) option"
  hs_manual :: bool
  hs_run :: "handler_env \<Rightarrow> (string \<times> json) list \<Rightarrow> db \<Rightarrow> handler_result \<times> db"

type_synonym registry = "handler_spec list"

definition registry_get :: "registry \<Rightarrow> string \<Rightarrow> handler_spec option" where
  "registry_get reg key = find (\<lambda>s. hs_key s = key) reg"

text \<open>\<open>None\<close> is the \<^verbatim>\<open>ValueError\<close> of a key registered twice.\<close>

definition registry_register :: "handler_spec \<Rightarrow> registry \<Rightarrow> registry option" where
  "registry_register s reg = (if registry_get reg (hs_key s) \<noteq> None then None else Some (reg @ [s]))"

text \<open>\<open>None\<close> is \<^verbatim>\<open>HandlerParamsError\<close>.\<close>

definition validate_params :: "handler_spec \<Rightarrow> (string \<times> json) list \<Rightarrow> (string \<times> json) list option" where
  "validate_params s params =
     (case hs_schema s of
        None \<Rightarrow> if params \<noteq> [] then None else Some []
      | Some model \<Rightarrow> model params)"

section \<open>The built-in handlers\<close>

definition noop_handler :: "handler_env \<Rightarrow> (string \<times> json) list \<Rightarrow> db \<Rightarrow> handler_result \<times> db" where
  "noop_handler env params d = (HandlerReturns (Some ''ok''), d)"

definition echo_params :: "(string \<times> json) list \<Rightarrow> (string \<times> json) list option" where
  "echo_params params =
     (case map_of params ''message'' of
        Some (JStr m) \<Rightarrow> Some [(''message'', JStr m)]
      | _ \<Rightarrow> None)"

definition echo_handler :: "handler_env \<Rightarrow> (string \<times> json) list \<Rightarrow> db \<Rightarrow> handler_result \<times> db" where
  "echo_handler env params d =
     (case map_of params ''message'' of
        Some (JStr m) \<Rightarrow> (HandlerReturns (Some m), d)
      | _ \<Rightarrow> (HandlerRaises ''ValidationError'' (he_validation_text env), d))"

definition cleanup_handler :: "handler_env \<Rightarrow> (string \<times> json) list \<Rightarrow> db \<Rightarrow> handler_result \<times> db" where
  "cleanup_handler env params d =
     (case delete_expired (he_now env) d of
        (n, d') \<Rightarrow> (HandlerReturns (Some (''deleted '' @ int_str (int n) @ '' expired refresh tokens'')), d'))"

definition job_registry :: registry where
  "job_registry =
     [\<lparr>hs_key = ''noop'', hs_schema = None, hs_manual = True, hs_run = noop_handler\<rparr>,
      \<lparr>hs_key = ''echo'', hs_schema = Some echo_params, hs_manual = True, hs_run = echo_handler\<rparr>,
      \<lparr>hs_key = ''cleanup_expired_refresh_tokens'', hs_schema = None, hs_manual = True,
       hs_run = cleanup_handler\<rparr>]"

end
