(* ===== verification/Cron.thy ===== *)
theory Cron
  imports PyText Prelude
begin

text \<open>
  \<^verbatim>\<open>domains/scheduled_task/cron.py\<close>: the checks of a cron expression, the conversion of its
  day-of-week field, and the last scheduled instant that is not in the future.  The library's
  \<^verbatim>\<open>CronTrigger\<close> is the parameter \<open>cron_lib\<close>: \<open>make_trigger\<close> builds a trigger from the five fields
  (\<open>None\<close> when it raises), \<open>fire_after\<close> is \<^verbatim>\<open>get_next_fire_time\<close>, which gives the least fire time at
  or after an instant (its first argument only matters for the spring and autumn clock changes);
  \<open>tz_ok\<close> says whether \<^verbatim>\<open>ZoneInfo\<close> knows a zone.  Instants are UTC microseconds.
\<close>

record 't cron_lib =
  tz_ok :: "string \<Rightarrow> bool"
  make_trigger :: "string list \<Rightarrow> string \<Rightarrow> 't option"
  fire_after :: "'t \<Rightarrow> int \<Rightarrow> int option"

text \<open>The results are sums; \<open>()\<close> on the left is \<^verbatim>\<open>CronValidationError\<close>.\<close>

definition cron_dow_names :: "(string \<times> string) list" where
  "cron_dow_names = [(''0'', ''sun''), (''1'', ''mon''), (''2'', ''tue''), (''3'', ''wed''),
     (''4'', ''thu''), (''5'', ''fri''), (''6'', ''sat''), (''7'', ''sun'')]"

definition dow_name :: "string \<Rightarrow> string option" where
  "dow_name v = map_of cron_dow_names (py_strip v)"

definition dow_token :: "string \<Rightarrow> string option" where
  "dow_token token =
     (if CHR ''-'' \<in> set token
      then (case py_partition CHR ''-'' token of (lo, _, hi) \<Rightarrow>
        (case dow_name lo of None \<Rightarrow> None | Some a \<Rightarrow>
          (case dow_name hi of None \<Rightarrow> None | Some b \<Rightarrow> Some (a @ ''-'' @ b))))
      else dow_name token)"

fun join_with :: "string \<Rightarrow> string list \<Rightarrow> string" where
  "join_with sep [] = []"
| "join_with sep [x] = x"
| "join_with sep (x # y # ys) = x @ sep @ join_with sep (y # ys)"

fun all_some :: "'a option list \<Rightarrow> 'a list option" where
  "all_some [] = Some []"
| "all_some (x # xs) = (case x of None \<Rightarrow> None | Some y \<Rightarrow> map_option (Cons y) (all_some xs))"

definition convert_dow_to_names :: "string \<Rightarrow> string option" where
  "convert_dow_to_names f =
     (if CHR ''/'' \<in> set f then None
      else if f = ''*'' then Some f
      else map_option (join_with '','') (all_some (map dow_token (py_split_on CHR '','' f))))"

definition quartz_token :: "char \<Rightarrow> bool" where
  "quartz_token c \<longleftrightarrow> c \<in> set ''?LW#''"

definition build_cron_trigger :: "'t cron_lib \<Rightarrow> string \<Rightarrow> string \<Rightarrow> 't option" where
  "build_cron_trigger lib expr timezone =
     (let cleaned = py_strip expr
      in case py_split cleaned of
           [minute, hour, day, month, dow] \<Rightarrow>
             if list_ex quartz_token cleaned then None
             else if \<not> tz_ok lib timezone then None
             else (case convert_dow_to_names dow of
                     None \<Rightarrow> None
                   | Some names \<Rightarrow> make_trigger lib [minute, hour, day, month, names] timezone)
         | _ \<Rightarrow> None)"

definition validate_cron :: "'t cron_lib \<Rightarrow> string \<Rightarrow> string \<Rightarrow> bool" where
  "validate_cron lib expr timezone \<longleftrightarrow> build_cron_trigger lib expr timezone \<noteq> None"

definition next_run_after :: "'t cron_lib \<Rightarrow> string \<Rightarrow> string \<Rightarrow> int \<Rightarrow> int option option" where
  "next_run_after lib expr timezone now =
     map_option (\<lambda>t. fire_after lib t now) (build_cron_trigger lib expr timezone)"

text \<open>
  The loop of \<^verbatim>\<open>scheduled_tick_at\<close>.  The outer \<open>None\<close> is fuel exhausted; \<open>tick_fuel\<close> is enough when
  fire times are not before the instant asked for.
\<close>

fun tick_loop :: "(int \<Rightarrow> int option) \<Rightarrow> int \<Rightarrow> nat \<Rightarrow> int option \<Rightarrow> int option \<Rightarrow> int option option" where
  "tick_loop fire now 0 tick prev = None"
| "tick_loop fire now (Suc n) tick prev =
     (case tick of
        None \<Rightarrow> Some prev
      | Some t \<Rightarrow> if t \<le> now then tick_loop fire now n (fire (t + 1)) (Some t) else Some prev)"

definition tick_fuel :: "int \<Rightarrow> nat" where
  "tick_fuel lookback_seconds = nat (secs lookback_seconds) + 2"

definition scheduled_tick_at ::
    "'t cron_lib \<Rightarrow> string \<Rightarrow> string \<Rightarrow> int \<Rightarrow> int \<Rightarrow> int option option" where
  "scheduled_tick_at lib expr timezone now lookback_seconds =
     (case build_cron_trigger lib expr timezone of
        None \<Rightarrow> None
      | Some t \<Rightarrow>
          (case tick_loop (fire_after lib t) now (tick_fuel lookback_seconds)
                  (fire_after lib t (now - secs lookback_seconds)) None of
             None \<Rightarrow> None
           | Some p \<Rightarrow> Some p))"

section \<open>The contract of the library\<close>

text \<open>
  \<open>F\<close> is the set of fire times of a trigger: \<open>fire_after\<close> gives the least of them at or after an
  instant.
\<close>

definition fires_at :: "(int \<Rightarrow> int option) \<Rightarrow> int set \<Rightarrow> bool" where
  "fires_at fire F \<longleftrightarrow> (\<forall>t. case fire t of
       Some u \<Rightarrow> u \<in> F \<and> t \<le> u \<and> (\<forall>v \<in> F. t \<le> v \<longrightarrow> u \<le> v)
     | None \<Rightarrow> \<forall>v \<in> F. v < t)"

lemma fire_Some: "fires_at fire F \<Longrightarrow> fire t = Some u \<Longrightarrow> u \<in> F \<and> t \<le> u \<and> (\<forall>v \<in> F. t \<le> v \<longrightarrow> u \<le> v)"
  unfolding fires_at_def by (drule spec [of _ t]) simp

lemma fire_None: "fires_at fire F \<Longrightarrow> fire t = None \<Longrightarrow> \<forall>v \<in> F. v < t"
  unfolding fires_at_def by (drule spec [of _ t]) simp

lemma tick_loop_enough:
  assumes fires: "fires_at fire F"
    and "case tick of None \<Rightarrow> True | Some t \<Rightarrow> now - t + 1 < int n" "0 < n"
  shows "tick_loop fire now n tick prev \<noteq> None"
  using assms(2-)
proof (induction n arbitrary: tick prev)
  case (Suc n)
  show ?case
  proof (cases tick)
    case (Some t)
    show ?thesis
    proof (cases "t \<le> now")
      case True
      have n: "0 < n" using Suc.prems True Some by simp
      have "case fire (t + 1) of None \<Rightarrow> True | Some u \<Rightarrow> now - u + 1 < int n"
      proof (cases "fire (t + 1)")
        case (Some u)
        then have "t + 1 \<le> u" using fire_Some [OF fires] by blast
        then show ?thesis using Suc.prems \<open>tick = Some t\<close> Some by simp
      qed simp
      from Suc.IH [OF this n] show ?thesis using Some True by simp
    qed (simp add: Some)
  qed simp
qed simp

text \<open>
  The loop started at the first fire time at or after \<open>a\<close> ends with the last one up to \<open>now\<close>, and
  with \<open>prev\<close> when there is none.
\<close>

lemma tick_loop_result:
  assumes fires: "fires_at fire F" and "tick_loop fire now n (fire a) prev = Some r"
  shows "(\<forall>v \<in> F. a \<le> v \<longrightarrow> now < v) \<and> r = prev \<or>
    (\<exists>u \<in> F. r = Some u \<and> a \<le> u \<and> u \<le> now \<and> (\<forall>v \<in> F. v \<le> now \<longrightarrow> v \<le> u))"
  using assms(2)
proof (induction n arbitrary: a prev)
  case (Suc n)
  show ?case
  proof (cases "fire a")
    case None
    with fire_None [OF fires None] Suc.prems show ?thesis by auto
  next
    case (Some t)
    note t = fire_Some [OF fires Some]
    show ?thesis
    proof (cases "t \<le> now")
      case False
      then have "\<forall>v \<in> F. a \<le> v \<longrightarrow> now < v" using t by force
      moreover have "r = prev" using Suc.prems Some False by simp
      ultimately show ?thesis by simp
    next
      case True
      then have "tick_loop fire now n (fire (t + 1)) (Some t) = Some r" using Suc.prems Some by simp
      from Suc.IH [OF this] show ?thesis
      proof
        assume h: "(\<forall>v \<in> F. t + 1 \<le> v \<longrightarrow> now < v) \<and> r = Some t"
        have "\<forall>v \<in> F. v \<le> now \<longrightarrow> v \<le> t" using h by force
        then show ?thesis using h t True by blast
      next
        assume "\<exists>u \<in> F. r = Some u \<and> t + 1 \<le> u \<and> u \<le> now \<and> (\<forall>v \<in> F. v \<le> now \<longrightarrow> v \<le> u)"
        then show ?thesis using t by force
      qed
    qed
  qed
qed simp

lemma tick_loop_last:
  assumes fires: "fires_at fire F" and "0 \<le> lookback"
  shows "tick_loop fire now (nat lookback + 2) (fire (now - lookback)) None =
    Some (if \<exists>v \<in> F. now - lookback \<le> v \<and> v \<le> now then Some (Max {v \<in> F. now - lookback \<le> v \<and> v \<le> now})
          else None)"
proof -
  have "case fire (now - lookback) of None \<Rightarrow> True | Some t \<Rightarrow> now - t + 1 < int (nat lookback + 2)"
    using fire_Some [OF fires, of "now - lookback"] assms(2) by (auto split: option.splits)
  from tick_loop_enough [OF fires this, of None] obtain r
    where r: "tick_loop fire now (nat lookback + 2) (fire (now - lookback)) None = Some r" by auto
  have fin: "finite {v \<in> F. now - lookback \<le> v \<and> v \<le> now}"
    by (rule finite_subset [of _ "{now - lookback..now}"]) auto
  from tick_loop_result [OF fires r] show ?thesis
  proof
    assume "(\<forall>v \<in> F. now - lookback \<le> v \<longrightarrow> now < v) \<and> r = None"
    then show ?thesis using r by force
  next
    assume "\<exists>u \<in> F. r = Some u \<and> now - lookback \<le> u \<and> u \<le> now \<and> (\<forall>v \<in> F. v \<le> now \<longrightarrow> v \<le> u)"
    then obtain u where u: "u \<in> F" "r = Some u" "now - lookback \<le> u" "u \<le> now"
      "\<forall>v \<in> F. v \<le> now \<longrightarrow> v \<le> u" by blast
    then have "Max {v \<in> F. now - lookback \<le> v \<and> v \<le> now} = u"
      using fin by (intro Max_eqI) auto
    with u r show ?thesis by auto
  qed
qed

section \<open>Days of the week\<close>

lemma join_with_split:
  "sep \<notin> \<Union> (set ` set xs) \<Longrightarrow> xs \<noteq> [] \<Longrightarrow> py_split_on sep (join_with [sep] xs) = xs"
proof (induction "[sep]" xs rule: join_with.induct)
  case (2 x)
  then show ?case by (induction x) auto
next
  case (3 x y ys)
  have "py_split_on sep (x @ sep # t) = x # py_split_on sep t" if "sep \<notin> set x" for t
    using that by (induction x) auto
  with 3 show ?case by simp
qed simp

end
