(* ===== verification/Executor.thy ===== *)
theory Executor
  imports TaskRegistry Cron
begin

text \<open>
  \<^verbatim>\<open>domains/scheduled_task/executor.py\<close>: one execution of a task, as three steps with transactions of
  their own: \<open>claim_once\<close> writes the log that claims the execution, \<open>invoke\<close> runs the handler
  outside of any of them, \<open>finish\<close> writes the outcome back.  The lock row and \<^verbatim>\<open>FOR UPDATE\<close> make
  the claims of one task run one after the other, so a claim is one step of the database; the
  retries after a deadlock repeat that step and are not modelled.

  \<open>column_time\<close> is what a DATETIME column keeps of an instant: MySQL rounds to whole seconds.  Clock
  readings, the drawn UUID, the worker's name, whether the timeout strikes, and Python's conversion
  of a duration from float seconds to \<^verbatim>\<open>int\<close> milliseconds are arguments, and so are the two Chinese
  messages.
\<close>

definition column_time :: "int \<Rightarrow> int" where
  "column_time t = ((t + 500000) div 1000000) * 1000000"

record 't exec_env =
  xe_registry :: registry
  xe_cron :: "'t cron_lib"
  xe_worker :: string
  xe_millis :: "int \<Rightarrow> int"
  xe_offline_text :: "string \<Rightarrow> string"
  xe_timeout_text :: "int \<Rightarrow> string"

section \<open>Redaction\<close>

definition ci :: "char \<Rightarrow> char \<Rightarrow> bool" where
  "ci c x \<longleftrightarrow> lower_char x = c"

definition alnum_ci :: "char \<Rightarrow> bool" where
  "alnum_ci x \<longleftrightarrow> (let n = (of_char (lower_char x) :: nat) in 97 \<le> n \<and> n \<le> 122 \<or> 48 \<le> n \<and> n \<le> 57)"

definition alpha_ci :: "char \<Rightarrow> bool" where
  "alpha_ci x \<longleftrightarrow> (let n = (of_char (lower_char x) :: nat) in 97 \<le> n \<and> n \<le> 122)"

text \<open>The words of the first alternative of \<^verbatim>\<open>_SECRET_PATTERN\<close>, in its order.\<close>

definition secret_words :: regex where
  "secret_words =
     Alt (re_word ''password'') (Alt (re_word ''passwd'') (Alt (re_word ''pwd'') (Alt (re_word ''token'')
      (Alt (re_word ''secret'') (Alt (Cat (re_word ''api'')
        (Cat (re_opt (Cls (\<lambda>c. c = CHR ''_'' \<or> c = CHR ''-''))) (re_word ''key'')))
       (re_word ''authorization''))))))"

definition secret_pattern :: regex where
  "secret_pattern =
     Alt (Cat secret_words (Cat (Rep (Cls py_ws)) (Cat (Cls (\<lambda>c. c = CHR ''='' \<or> c = CHR '':''))
            (Cat (Rep (Cls py_ws)) (re_plus (Cls (\<lambda>c. \<not> py_ws c)))))))
         (Cat (Cls alpha_ci) (Cat (Rep (Cls (\<lambda>c. alnum_ci c \<or> c \<in> set ''+.-'')))
            (Cat (re_word ''://'') (Cat (re_plus (Cls (\<lambda>c. \<not> (py_ws c \<or> c = CHR '':'' \<or> c = CHR ''/''))))
              (Cat (Cls (\<lambda>c. c = CHR '':'')) (Cat (re_plus (Cls (\<lambda>c. \<not> (py_ws c \<or> c = CHR ''@''))))
                (Cls (\<lambda>c. c = CHR ''@''))))))))"

definition redact_text :: "string \<Rightarrow> string" where
  "redact_text s = re_sub secret_pattern ''***REDACTED***'' s"

section \<open>Repository\<close>

definition get_task :: "db \<Rightarrow> int \<Rightarrow> scheduled_task option" where
  "get_task d i = get_row st_id (sched_tasks d) i"

definition get_log :: "db \<Rightarrow> int \<Rightarrow> task_log option" where
  "get_log d i = get_row tl_id (task_logs d) i"

definition count_running :: "db \<Rightarrow> int \<Rightarrow> int \<Rightarrow> nat" where
  "count_running d i since =
     length (filter (\<lambda>l. tl_task l = Some i \<and> tl_status l = LogRunning \<and>
        (case tl_started l of None \<Rightarrow> False | Some t \<Rightarrow> since \<le> t)) (rows (task_logs d)))"

text \<open>The generated column behind the unique index of scheduled claims.\<close>

definition claim_key :: "task_log \<Rightarrow> (int \<times> int) option" where
  "claim_key l =
     (if tl_trigger l = TrigSchedule
      then (case (tl_task l, tl_scheduled l) of (Some i, Some t) \<Rightarrow> Some (i, t) | _ \<Rightarrow> None)
      else None)"

definition claim_index :: string where "claim_index = ''uq_scheduled_task_logs_schedule_claim''"

definition create_log :: "(int \<Rightarrow> task_log) \<Rightarrow> db \<Rightarrow> exn + task_log \<times> db" where
  "create_log mk d =
     (case insert_row mk (task_logs d) of (l, t) \<Rightarrow>
        if tl_trigger l = TrigSchedule \<and> tl_scheduled l = None
        then Inl (RuntimeErr ''ck_scheduled_task_logs_schedule_at'')
        else if list_ex (\<lambda>x. tl_exec x = tl_exec l) (rows (task_logs d))
        then Inl (IntegrityErr ''execution_id'')
        else if claim_key l \<noteq> None \<and> list_ex (\<lambda>x. claim_key x = claim_key l) (rows (task_logs d))
        then Inl (IntegrityErr claim_index)
        else Inr (l, d\<lparr>task_logs := t\<rparr>))"

definition mark_task_last_run :: "int \<Rightarrow> log_status \<Rightarrow> int \<Rightarrow> db \<Rightarrow> db" where
  "mark_task_last_run i st now d =
     d\<lparr>sched_tasks := update_where (\<lambda>x. st_id x = i)
        (\<lambda>x. x\<lparr>st_last_run := Some (column_time now), st_last_status := Some st\<rparr>) (sched_tasks d)\<rparr>"

section \<open>Claim\<close>

definition default_stale_seconds :: int where "default_stale_seconds = 3600"
definition manual_run_max_timeout :: int where "manual_run_max_timeout = 300"

text \<open>\<^verbatim>\<open>timeout_seconds or default\<close>: zero counts as absent.\<close>

definition or_default :: "int option \<Rightarrow> int \<Rightarrow> int" where
  "or_default v dflt = (case v of None \<Rightarrow> dflt | Some n \<Rightarrow> if n = 0 then dflt else n)"

definition whole_minute :: "int \<Rightarrow> int" where
  "whole_minute t = (t div 60000000) * 60000000"

text \<open>The claim key of a scheduled run.\<close>

definition claim_tick :: "'t exec_env \<Rightarrow> scheduled_task \<Rightarrow> int \<Rightarrow> int" where
  "claim_tick env task now =
     (case scheduled_tick_at (xe_cron env) (st_cron task) (st_tz task) now (st_grace task + 60) of
        Some (Some t) \<Rightarrow> t
      | _ \<Rightarrow> whole_minute now)"

record claim_result =
  cr_log :: int
  cr_handler :: string
  cr_params :: "(string \<times> json) list"
  cr_timeout :: "int option"
  cr_skipped :: bool

definition claim_log ::
    "'t exec_env \<Rightarrow> scheduled_task \<Rightarrow> trigger_type \<Rightarrow> int option \<Rightarrow> int option \<Rightarrow> int \<Rightarrow> int \<Rightarrow> bool \<Rightarrow> int \<Rightarrow> task_log" where
  "claim_log env task trigger scheduled actor_id exec_id now skip i =
     \<lparr>tl_id = i, tl_task = Some (st_id task), tl_exec = exec_id, tl_trigger = trigger,
      tl_scheduled = map_option column_time scheduled, tl_handler = st_handler task,
      tl_params = st_params task, tl_status = (if skip then LogSkipped else LogRunning),
      tl_started = (if skip then None else Some (column_time now)),
      tl_finished = (if skip then Some (column_time now) else None), tl_duration = None,
      tl_error = None, tl_message = None, tl_summary = None, tl_worker = Some (xe_worker env),
      tl_actor = actor_id\<rparr>"

text \<open>\<open>Inr (None, d)\<close>: the task is gone, or another worker holds the claim.\<close>

definition claim_once ::
    "'t exec_env \<Rightarrow> int \<Rightarrow> trigger_type \<Rightarrow> int option \<Rightarrow> int option \<Rightarrow> int \<Rightarrow> int \<Rightarrow> db
      \<Rightarrow> exn + claim_result option \<times> db" where
  "claim_once env i trigger scheduled actor_id exec_id now d =
     (case get_task d i of
        None \<Rightarrow> Inr (None, d)
      | Some task \<Rightarrow>
          (let scheduled' = (if trigger = TrigSchedule \<and> scheduled = None
                 then Some (claim_tick env task now) else scheduled);
               since = now - secs (or_default (st_timeout task) default_stale_seconds);
               skip = (\<not> st_concurrent task \<and> count_running d i since > 0)
           in case create_log (claim_log env task trigger scheduled' actor_id exec_id now skip) d of
                Inl (IntegrityErr c) \<Rightarrow> if c = claim_index then Inr (None, d) else Inl (IntegrityErr c)
              | Inl e \<Rightarrow> Inl e
              | Inr (l, d') \<Rightarrow>
                  Inr (Some \<lparr>cr_log = tl_id l, cr_handler = st_handler task, cr_params = st_params task,
                         cr_timeout = st_timeout task, cr_skipped = skip\<rparr>, d')))"

section \<open>Invoke and finish\<close>

definition err_msg_max :: nat where "err_msg_max = 1024"
definition summary_max :: nat where "summary_max = 1024"

record outcome =
  oc_status :: log_status
  oc_error :: "string option"
  oc_message :: "string option"
  oc_summary :: "string option"

definition failed_outcome :: "string \<Rightarrow> string \<Rightarrow> outcome" where
  "failed_outcome code message =
     \<lparr>oc_status = LogFailure, oc_error = Some code, oc_message = Some message, oc_summary = None\<rparr>"

definition handler_outcome :: "handler_result \<Rightarrow> outcome" where
  "handler_outcome res =
     (case res of
        HandlerRaises ty txt \<Rightarrow> failed_outcome ty (take err_msg_max (redact_text txt))
      | HandlerReturns s \<Rightarrow>
          \<lparr>oc_status = LogSuccess, oc_error = None, oc_message = None,
           oc_summary = (case s of None \<Rightarrow> None
                         | Some w \<Rightarrow> if w = [] then None else Some (take summary_max (redact_text w)))\<rparr>)"

text \<open>
  \<open>strikes\<close>: the handler takes longer than the effective timeout, if there is one; its transaction
  is then rolled back.
\<close>

definition invoke ::
    "'t exec_env \<Rightarrow> handler_env \<Rightarrow> bool \<Rightarrow> string \<Rightarrow> (string \<times> json) list \<Rightarrow> int option \<Rightarrow> db \<Rightarrow> outcome \<times> db" where
  "invoke env henv strikes key params timeout d =
     (case registry_get (xe_registry env) key of
        None \<Rightarrow> (failed_outcome ''scheduled_task.HANDLER_NOT_REGISTERED'' (xe_offline_text env key), d)
      | Some spec \<Rightarrow>
          (case (timeout, strikes) of
             (Some n, True) \<Rightarrow> (failed_outcome ''scheduled_task.TIMEOUT'' (xe_timeout_text env n), d)
           | _ \<Rightarrow> (case hs_run spec henv params d of (res, d') \<Rightarrow> (handler_outcome res, d'))))"

definition finished_log :: "'t exec_env \<Rightarrow> outcome \<Rightarrow> int \<Rightarrow> task_log \<Rightarrow> task_log" where
  "finished_log env out now l =
     l\<lparr>tl_status := oc_status out, tl_finished := Some (column_time now), tl_error := oc_error out,
       tl_message := oc_message out, tl_summary := oc_summary out,
       tl_duration := (case tl_started l of None \<Rightarrow> tl_duration l | Some t \<Rightarrow> Some (xe_millis env (now - t)))\<rparr>"

definition finish :: "'t exec_env \<Rightarrow> int \<Rightarrow> int \<Rightarrow> outcome \<Rightarrow> int \<Rightarrow> db \<Rightarrow> db" where
  "finish env log_id i out now d =
     (let d1 = d\<lparr>task_logs := update_where (\<lambda>l. tl_id l = log_id) (finished_log env out now) (task_logs d)\<rparr>
      in if get_task d i = None then d1 else mark_task_last_run i (oc_status out) now d1)"

section \<open>One run\<close>

record execution_outcome =
  eo_exec :: int
  eo_status :: log_status
  eo_log :: int

definition effective_timeout :: "trigger_type \<Rightarrow> int option \<Rightarrow> int option" where
  "effective_timeout trigger timeout =
     (if trigger = TrigManual
      then Some (min (or_default timeout manual_run_max_timeout) manual_run_max_timeout) else timeout)"

text \<open>
  A run without interference between its steps: \<open>now\<close> is the time of the claim, \<open>done_at\<close> that of
  the end.  \<open>Inr (None, d)\<close>: the task is gone or the claim is taken.
\<close>

definition run ::
    "'t exec_env \<Rightarrow> handler_env \<Rightarrow> bool \<Rightarrow> int \<Rightarrow> trigger_type \<Rightarrow> int option \<Rightarrow> int option \<Rightarrow> int \<Rightarrow> int \<Rightarrow> int \<Rightarrow> db
      \<Rightarrow> exn + execution_outcome option \<times> db" where
  "run env henv strikes i trigger scheduled actor_id exec_id now done_at d =
     bind_res (claim_once env i trigger scheduled actor_id exec_id now d) (\<lambda>(claim, d1).
       case claim of
         None \<Rightarrow> Inr (None, d1)
       | Some c \<Rightarrow>
           if cr_skipped c then Inr (Some \<lparr>eo_exec = exec_id, eo_status = LogSkipped, eo_log = cr_log c\<rparr>, d1)
           else (case invoke env henv strikes (cr_handler c) (cr_params c)
                        (effective_timeout trigger (cr_timeout c)) d1 of
                   (out, d2) \<Rightarrow>
                     Inr (Some \<lparr>eo_exec = exec_id, eo_status = oc_status out, eo_log = cr_log c\<rparr>,
                          finish env (cr_log c) i out done_at d2)))"

end
