(* ===== verification/TaskService.thy ===== *)
theory TaskService
  imports Executor Paging Crud
begin

text \<open>
  \<^verbatim>\<open>domains/scheduled_task/service.py\<close>: the administration of scheduled tasks.  A task is stored only
  with a registered handler, parameters that its schema accepts and a cron expression that the
  trigger accepts; \<open>manual_run\<close> is one run of the executor and the log read back.
\<close>

record task_create =
  kc_name :: string
  kc_handler :: string
  kc_params :: "(string \<times> json) list"
  kc_cron :: string
  kc_tz :: string
  kc_status :: task_status
  kc_concurrent :: bool
  kc_grace :: int
  kc_timeout :: "int option"
  kc_remark :: "string option"

text \<open>
  A field that the code tests with \<^verbatim>\<open>is not None\<close> is an option, the two nullable columns, tested with
  \<^verbatim>\<open>model_fields_set\<close>, are patches.
\<close>

record task_update =
  ku_name :: "string option"
  ku_handler :: "string option"
  ku_params :: "(string \<times> json) list option"
  ku_cron :: "string option"
  ku_tz :: "string option"
  ku_status :: "task_status option"
  ku_concurrent :: "bool option"
  ku_grace :: "int option"
  ku_timeout :: "int option patch"
  ku_remark :: "string option patch"

definition task_not_found :: exn where "task_not_found = AppErr ''scheduled_task.NOT_FOUND'' 404"
definition task_duplicate :: exn where "task_duplicate = AppErr ''scheduled_task.NAME_DUPLICATE'' 409"
definition handler_unknown :: exn where "handler_unknown = AppErr ''scheduled_task.HANDLER_UNKNOWN'' 422"
definition params_invalid :: exn where "params_invalid = AppErr ''scheduled_task.PARAMS_INVALID'' 422"
definition cron_invalid :: exn where "cron_invalid = AppErr ''scheduled_task.CRON_INVALID'' 422"
definition manual_not_allowed :: exn where "manual_not_allowed = AppErr ''scheduled_task.MANUAL_NOT_ALLOWED'' 409"
definition log_not_found :: exn where "log_not_found = AppErr ''scheduled_task.LOG_NOT_FOUND'' 404"
definition handler_offline :: exn where "handler_offline = AppErr ''scheduled_task.HANDLER_OFFLINE'' 409"
definition run_conflict :: exn where "run_conflict = AppErr ''scheduled_task.RUN_CONFLICT'' 409"

section \<open>Checks\<close>

definition require_handler :: "registry \<Rightarrow> string \<Rightarrow> exn + handler_spec" where
  "require_handler reg key =
     (case registry_get reg key of None \<Rightarrow> Inl handler_unknown | Some s \<Rightarrow> Inr s)"

definition check_params :: "handler_spec \<Rightarrow> (string \<times> json) list \<Rightarrow> exn + (string \<times> json) list" where
  "check_params s params =
     (case validate_params s params of None \<Rightarrow> Inl params_invalid | Some ps \<Rightarrow> Inr ps)"

definition check_cron :: "'t cron_lib \<Rightarrow> string \<Rightarrow> string \<Rightarrow> exn + unit" where
  "check_cron lib expr tz = guard (validate_cron lib expr tz) cron_invalid"

section \<open>Repository\<close>

definition find_task_by_name :: "db \<Rightarrow> string \<Rightarrow> scheduled_task option" where
  "find_task_by_name d n = find (\<lambda>x. st_name x = n) (rows (sched_tasks d))"

definition task_rows :: "db \<Rightarrow> task_status option \<Rightarrow> string option \<Rightarrow> scheduled_task list" where
  "task_rows d st key =
     rev (sort_key st_id (filter (\<lambda>x. opt_filter st (\<lambda>s. st_status x = s) \<and>
       opt_filter key (\<lambda>k. st_handler x = k)) (rows (sched_tasks d))))"

definition log_rows :: "db \<Rightarrow> int option \<Rightarrow> log_status option \<Rightarrow> task_log list" where
  "log_rows d i st =
     rev (sort_key tl_id (filter (\<lambda>l. opt_filter i (\<lambda>k. tl_task l = Some k) \<and>
       opt_filter st (\<lambda>s. tl_status l = s)) (rows (task_logs d))))"

definition list_enabled :: "db \<Rightarrow> scheduled_task list" where
  "list_enabled d = filter (\<lambda>x. st_status x = TaskEnabled) (rows (sched_tasks d))"

definition new_task :: "task_create \<Rightarrow> (string \<times> json) list \<Rightarrow> int \<Rightarrow> scheduled_task" where
  "new_task c params i = \<lparr>st_id = i, st_name = kc_name c, st_handler = kc_handler c, st_params = params,
     st_cron = kc_cron c, st_tz = kc_tz c, st_status = kc_status c, st_concurrent = kc_concurrent c,
     st_grace = kc_grace c, st_timeout = kc_timeout c, st_last_run = None, st_last_status = None,
     st_remark = kc_remark c\<rparr>"

definition task_repo_create :: "(int \<Rightarrow> scheduled_task) \<Rightarrow> db \<Rightarrow> exn + scheduled_task \<times> db" where
  "task_repo_create mk d =
     (case insert_row mk (sched_tasks d) of (x, t) \<Rightarrow>
        if find_task_by_name d (st_name x) \<noteq> None then Inl (IntegrityErr ''uq_scheduled_tasks_name'')
        else Inr (x, d\<lparr>sched_tasks := t\<rparr>))"

text \<open>Flushing changed attributes of the row \<open>i\<close>.\<close>

definition task_flush :: "int \<Rightarrow> (scheduled_task \<Rightarrow> scheduled_task) \<Rightarrow> scheduled_task \<Rightarrow> db \<Rightarrow> exn + scheduled_task \<times> db" where
  "task_flush i f x d =
     (if \<exists>y \<in> set (rows (sched_tasks d)). st_id y \<noteq> i \<and> st_name y = st_name (f x)
      then Inl (IntegrityErr ''uq_scheduled_tasks_name'')
      else Inr (f x, d\<lparr>sched_tasks := update_where (\<lambda>y. st_id y = i) f (sched_tasks d)\<rparr>))"

text \<open>The logs of a deleted task stay, with a NULL task.\<close>

definition task_repo_delete :: "int \<Rightarrow> db \<Rightarrow> db" where
  "task_repo_delete i d =
     d\<lparr>sched_tasks := delete_where (\<lambda>y. st_id y = i) (sched_tasks d),
       task_logs := update_where (\<lambda>l. tl_task l = Some i) (\<lambda>l. l\<lparr>tl_task := None\<rparr>) (task_logs d)\<rparr>"

section \<open>Service\<close>

record handler_info =
  hi_key :: string
  hi_manual :: bool

text \<open>The specs in the order of their keys.\<close>

definition list_handlers :: "registry \<Rightarrow> handler_info list" where
  "list_handlers reg =
     map (\<lambda>s. \<lparr>hi_key = hs_key s, hi_manual = hs_manual s\<rparr>) (sort_key (\<lambda>s. str_code (hs_key s)) reg)"

definition task_list :: "db \<Rightarrow> task_status option \<Rightarrow> string option \<Rightarrow> int \<Rightarrow> int \<Rightarrow> scheduled_task page_result" where
  "task_list d st key page sz = make_page page sz (task_rows d st key)"

definition log_list :: "db \<Rightarrow> int option \<Rightarrow> log_status option \<Rightarrow> int \<Rightarrow> int \<Rightarrow> task_log page_result" where
  "log_list d i st page sz = make_page page sz (log_rows d i st)"

text \<open>The task and the next instant at which it runs, for one that is enabled.\<close>

definition task_read :: "'t cron_lib \<Rightarrow> int \<Rightarrow> scheduled_task \<Rightarrow> scheduled_task \<times> int option" where
  "task_read lib now x =
     (x, if st_status x = TaskEnabled
         then (case next_run_after lib (st_cron x) (st_tz x) now of None \<Rightarrow> None | Some t \<Rightarrow> t)
         else None)"

definition task_get :: "'t cron_lib \<Rightarrow> int \<Rightarrow> db \<Rightarrow> int \<Rightarrow> exn + scheduled_task \<times> int option" where
  "task_get lib now d i =
     (case get_task d i of None \<Rightarrow> Inl task_not_found | Some x \<Rightarrow> Inr (task_read lib now x))"

definition task_create_op ::
    "registry \<Rightarrow> 't cron_lib \<Rightarrow> task_create \<Rightarrow> db \<Rightarrow> exn + scheduled_task \<times> db" where
  "task_create_op reg lib c d =
     bind_res (require_handler reg (kc_handler c)) (\<lambda>s.
     bind_res (check_params s (kc_params c)) (\<lambda>params.
     bind_res (check_cron lib (kc_cron c) (kc_tz c)) (\<lambda>_.
       if find_task_by_name d (kc_name c) \<noteq> None then Inl task_duplicate
       else task_repo_create (new_task c params) d)))"

definition or_else :: "'a option \<Rightarrow> 'a \<Rightarrow> 'a" where
  "or_else v dflt = (case v of None \<Rightarrow> dflt | Some x \<Rightarrow> x)"

text \<open>The new handler and parameters; the new cron expression and zone.\<close>

definition updated_handler ::
    "registry \<Rightarrow> task_update \<Rightarrow> scheduled_task \<Rightarrow> exn + string \<times> (string \<times> json) list" where
  "updated_handler reg p x =
     (if ku_handler p \<noteq> None \<or> ku_params p \<noteq> None
      then (let key = or_else (ku_handler p) (st_handler x)
            in bind_res (require_handler reg key) (\<lambda>s.
               bind_res (check_params s (or_else (ku_params p) (st_params x))) (\<lambda>params.
                 Inr (key, params))))
      else Inr (st_handler x, st_params x))"

definition updated_cron :: "'t cron_lib \<Rightarrow> task_update \<Rightarrow> scheduled_task \<Rightarrow> exn + string \<times> string" where
  "updated_cron lib p x =
     (if ku_cron p \<noteq> None \<or> ku_tz p \<noteq> None
      then (let expr = or_else (ku_cron p) (st_cron x); tz = or_else (ku_tz p) (st_tz x)
            in bind_res (check_cron lib expr tz) (\<lambda>_. Inr (expr, tz)))
      else Inr (st_cron x, st_tz x))"

definition apply_task_update ::
    "task_update \<Rightarrow> string \<times> (string \<times> json) list \<Rightarrow> string \<times> string \<Rightarrow> scheduled_task \<Rightarrow> scheduled_task" where
  "apply_task_update p hp ct x = x\<lparr>st_handler := fst hp, st_params := snd hp, st_cron := fst ct,
     st_tz := snd ct, st_name := or_else (ku_name p) (st_name x),
     st_status := or_else (ku_status p) (st_status x),
     st_concurrent := or_else (ku_concurrent p) (st_concurrent x),
     st_grace := or_else (ku_grace p) (st_grace x),
     st_timeout := patched (ku_timeout p) (st_timeout x),
     st_remark := patched (ku_remark p) (st_remark x)\<rparr>"

definition task_name_taken :: "db \<Rightarrow> task_update \<Rightarrow> scheduled_task \<Rightarrow> bool" where
  "task_name_taken d p x =
     (case ku_name p of None \<Rightarrow> False | Some n \<Rightarrow> n \<noteq> st_name x \<and> find_task_by_name d n \<noteq> None)"

definition task_update_op ::
    "registry \<Rightarrow> 't cron_lib \<Rightarrow> int \<Rightarrow> task_update \<Rightarrow> db \<Rightarrow> exn + scheduled_task \<times> db" where
  "task_update_op reg lib i p d =
     (case get_task d i of
        None \<Rightarrow> Inl task_not_found
      | Some x \<Rightarrow>
          bind_res (updated_handler reg p x) (\<lambda>hp.
          bind_res (updated_cron lib p x) (\<lambda>ct.
            if task_name_taken d p x then Inl task_duplicate
            else task_flush i (apply_task_update p hp ct) x d)))"

definition task_delete_op :: "int \<Rightarrow> db \<Rightarrow> exn + unit \<times> db" where
  "task_delete_op i d =
     (case get_task d i of None \<Rightarrow> Inl task_not_found | Some x \<Rightarrow> Inr ((), task_repo_delete i d))"

text \<open>
  The executor commits its own transactions: the second component is the database whatever the
  request ends with.
\<close>

definition manual_run ::
    "'t exec_env \<Rightarrow> handler_env \<Rightarrow> bool \<Rightarrow> int \<Rightarrow> int option \<Rightarrow> int \<Rightarrow> int \<Rightarrow> int \<Rightarrow> db \<Rightarrow> (exn + task_log) \<times> db" where
  "manual_run env henv strikes i actor_id exec_id now done_at d =
     (case get_task d i of
        None \<Rightarrow> (Inl task_not_found, d)
      | Some x \<Rightarrow>
          (case registry_get (xe_registry env) (st_handler x) of
             None \<Rightarrow> (Inl handler_offline, d)
           | Some s \<Rightarrow>
               if \<not> hs_manual s then (Inl manual_not_allowed, d)
               else (case run env henv strikes i TrigManual None actor_id exec_id now done_at d of
                       Inl e \<Rightarrow> (Inl e, d)
                     | Inr (None, d') \<Rightarrow> (Inl run_conflict, d')
                     | Inr (Some out, d') \<Rightarrow>
                         (case get_log d' (eo_log out) of
                            None \<Rightarrow> (Inl log_not_found, d')
                          | Some l \<Rightarrow> (Inr l, d')))))"

section \<open>Tasks as a CRUD table\<close>

lemma find_task_by_name_None_iff:
  "find_task_by_name d n = None \<longleftrightarrow> n \<notin> st_name ` set (rows (sched_tasks d))"
  by (auto simp: find_task_by_name_def find_None_iff)

lemma apply_task_update_id [simp]: "st_id (apply_task_update p hp ct x) = st_id x"
  by (simp add: apply_task_update_def)

lemma task_create_InrD:
  assumes "task_create_op reg lib c d = Inr (x, d')"
  obtains s params where "registry_get reg (kc_handler c) = Some s"
    "validate_params s (kc_params c) = Some params" "validate_cron lib (kc_cron c) (kc_tz c)"
    "x = new_task c params (seq (sched_tasks d))" "d' = d\<lparr>sched_tasks := appended x (sched_tasks d)\<rparr>"
    "kc_name c \<notin> st_name ` set (rows (sched_tasks d))"
proof -
  from assms obtain s params where s: "require_handler reg (kc_handler c) = Inr s"
    "check_params s (kc_params c) = Inr params" "check_cron lib (kc_cron c) (kc_tz c) = Inr ()"
    and n: "find_task_by_name d (kc_name c) = None" and r: "task_repo_create (new_task c params) d = Inr (x, d')"
    by (auto simp: task_create_op_def bind_res_Inr_iff split: if_splits)
  show thesis
    by (rule that [of s params])
      (use s n r in \<open>auto simp: require_handler_def check_params_def check_cron_def task_repo_create_def
         insert_row_appended find_task_by_name_None_iff split: option.splits if_splits\<close>)
qed

lemma task_update_InrD:
  assumes "task_update_op reg lib i p d = Inr (y, d')"
  obtains x hp ct where "get_task d i = Some x" "updated_handler reg p x = Inr hp"
    "updated_cron lib p x = Inr ct" "y = apply_task_update p hp ct x"
    "d' = d\<lparr>sched_tasks := update_where (\<lambda>z. st_id z = i) (apply_task_update p hp ct) (sched_tasks d)\<rparr>"
    "\<forall>z \<in> set (rows (sched_tasks d)). st_id z \<noteq> i \<longrightarrow> st_name z \<noteq> st_name y"
proof -
  from assms obtain x hp ct where x: "get_task d i = Some x" "updated_handler reg p x = Inr hp"
    "updated_cron lib p x = Inr ct" and f: "task_flush i (apply_task_update p hp ct) x d = Inr (y, d')"
    by (auto simp: task_update_op_def bind_res_Inr_iff split: option.splits if_splits)
  show thesis
    by (rule that [OF x]) (use f in \<open>auto simp: task_flush_def split: if_splits\<close>)
qed

interpretation task_crud: crud sched_tasks st_id st_name
    "\<lambda>x d d'. \<exists>reg lib c. task_create_op reg (lib :: 't cron_lib) c d = Inr (x, d')"
    "\<lambda>i x d d'. \<exists>reg lib p. task_update_op reg (lib :: 't cron_lib) i p d = Inr (x, d')"
    "\<lambda>i d d'. task_delete_op i d = Inr ((), d')"
proof
  fix d x d' assume "\<exists>reg lib c. task_create_op reg (lib :: 't cron_lib) c d = Inr (x, d')"
  then obtain reg and lib :: "'t cron_lib" and c where "task_create_op reg lib c d = Inr (x, d')" by blast
  then show "st_id x = seq (sched_tasks d) \<and> st_name x \<notin> st_name ` set (rows (sched_tasks d)) \<and>
      sched_tasks d' = appended x (sched_tasks d)"
    by (rule task_create_InrD) (simp, simp add: new_task_def)
next
  fix d i x d' assume "\<exists>reg lib p. task_update_op reg (lib :: 't cron_lib) i p d = Inr (x, d')"
  then obtain reg and lib :: "'t cron_lib" and p where "task_update_op reg lib i p d = Inr (x, d')" by blast
  then obtain y hp ct where "get_task d i = Some y" "x = apply_task_update p hp ct y"
    "d' = d\<lparr>sched_tasks := update_where (\<lambda>z. st_id z = i) (apply_task_update p hp ct) (sched_tasks d)\<rparr>"
    "\<forall>z \<in> set (rows (sched_tasks d)). st_id z \<noteq> i \<longrightarrow> st_name z \<noteq> st_name x" by (rule task_update_InrD)
  then show "\<exists>f y. (\<forall>z. st_id (f z) = st_id z) \<and> get_row st_id (sched_tasks d) i = Some y \<and> x = f y \<and>
      sched_tasks d' = update_where (\<lambda>z. st_id z = i) f (sched_tasks d) \<and>
      (\<forall>z \<in> set (rows (sched_tasks d)). st_id z \<noteq> i \<longrightarrow> st_name z \<noteq> st_name x)"
    by (intro exI [of _ "apply_task_update p hp ct"] exI [of _ y]) (simp add: get_task_def)
next
  fix d i d' assume "task_delete_op i d = Inr ((), d')"
  then show "get_row st_id (sched_tasks d) i \<noteq> None \<and>
      sched_tasks d' = delete_where (\<lambda>z. st_id z = i) (sched_tasks d)"
    by (auto simp: task_delete_op_def task_repo_delete_def get_task_def split: option.splits)
qed

end
