(* ===== verification/TaskTheorems.thy ===== *)
theory TaskTheorems
  imports TaskService
begin

text \<open>
  Properties of the scheduler's executor: the tick that claims a scheduled run, one run per tick,
  no overlapping runs, and the outcome of a run.
\<close>

section \<open>The tick of a claim\<close>

text \<open>
  C22 The loop that looks for the last scheduled instant ends: for an expression that the library
  accepts, with fire times \<open>F\<close>, it yields the greatest fire time in the window before \<open>now\<close>, and
  nothing when the window has none; a rejected expression is an error.
\<close>

theorem cron_tick_is_last_fire:
  assumes "0 \<le> lookback"
    and "\<And>t. build_cron_trigger lib expr tz = Some t \<Longrightarrow> fires_at (fire_after lib t) F"
  shows "scheduled_tick_at lib expr tz now lookback =
    (if validate_cron lib expr tz
     then Some (if \<exists>v \<in> F. now - secs lookback \<le> v \<and> v \<le> now
                then Some (Max {v \<in> F. now - secs lookback \<le> v \<and> v \<le> now}) else None)
     else None)"
proof (cases "build_cron_trigger lib expr tz")
  case (Some t)
  have "0 \<le> secs lookback" using assms(1) by (simp add: secs_def)
  from tick_loop_last [OF assms(2) [OF Some] this, of now] Some show ?thesis
    by (simp add: scheduled_tick_at_def tick_fuel_def validate_cron_def)
qed (simp add: scheduled_tick_at_def validate_cron_def)

text \<open>A library whose only trigger fires every minute.\<close>

definition minute_lib :: "unit cron_lib" where
  "minute_lib = \<lparr>tz_ok = (\<lambda>tz. tz = ''UTC''), make_trigger = (\<lambda>fs tz. if fs = replicate 5 ''*'' then Some () else None),
     fire_after = (\<lambda>u t. Some (- ((- t) div 60000000) * 60000000))\<rparr>"

lemma minute_fires: "fires_at (fire_after minute_lib u) (range (\<lambda>k. k * 60000000))"
  unfolding fires_at_def
proof
  fix t :: int
  define q where "q = (- t) div 60000000"
  define r where "r = (- t) mod 60000000"
  have d: "q * 60000000 + r = - t" unfolding q_def r_def by (rule div_mult_mod_eq)
  have m: "0 \<le> r" "r < 60000000" by (simp_all add: r_def)
  have a: "- q * 60000000 \<in> range (\<lambda>k. k * 60000000)" by (rule rangeI)
  have b: "t \<le> - q * 60000000" using d m by simp
  have c: "- q * 60000000 \<le> k * 60000000" if "t \<le> k * 60000000" for k
  proof -
    have "- q < k + 1" using d m that by linarith
    then show ?thesis by simp
  qed
  have f: "fire_after minute_lib u t = Some (- q * 60000000)" by (simp add: minute_lib_def q_def)
  show "case fire_after minute_lib u t of
      Some u \<Rightarrow> u \<in> range (\<lambda>k. k * 60000000) \<and> t \<le> u \<and> (\<forall>v \<in> range (\<lambda>k. k * 60000000). t \<le> v \<longrightarrow> u \<le> v)
    | None \<Rightarrow> \<forall>v \<in> range (\<lambda>k. k * 60000000). v < t"
    unfolding f option.case using a b c by blast
qed

lemma minute_expr: "build_cron_trigger minute_lib ''* * * * *'' ''UTC'' = Some ()"
  by code_simp

theorem cron_tick_is_last_fire_witness:
  "scheduled_tick_at minute_lib ''* * * * *'' ''UTC'' 125000000 300 = Some (Some 120000000)"
proof -
  let ?F = "range (\<lambda>k. k * 60000000 :: int)"
  have "scheduled_tick_at minute_lib ''* * * * *'' ''UTC'' 125000000 300 =
    (if validate_cron minute_lib ''* * * * *'' ''UTC''
     then Some (if \<exists>v \<in> ?F. 125000000 - secs 300 \<le> v \<and> v \<le> 125000000
                then Some (Max {v \<in> ?F. 125000000 - secs 300 \<le> v \<and> v \<le> 125000000}) else None)
     else None)"
    by (rule cron_tick_is_last_fire) (simp_all add: minute_fires)
  moreover have "Max {v \<in> ?F. 125000000 - secs 300 \<le> v \<and> v \<le> 125000000} = 120000000"
  proof (rule Max_eqI)
    show "finite {v \<in> ?F. 125000000 - secs 300 \<le> v \<and> v \<le> 125000000}"
      by (rule finite_subset [of _ "{125000000 - secs 300..125000000}"]) auto
    show "120000000 \<in> {v \<in> ?F. 125000000 - secs 300 \<le> v \<and> v \<le> 125000000}"
      by (auto simp: secs_def image_iff intro: exI [of _ 2])
  qed (auto simp: secs_def)
  moreover have "\<exists>v \<in> ?F. 125000000 - secs 300 \<le> v \<and> v \<le> 125000000"
    by (rule bexI [of _ 120000000]) (auto simp: secs_def image_iff intro: exI [of _ 2])
  ultimately show ?thesis by (simp add: validate_cron_def minute_expr)
qed


section \<open>Steps of workers and administrators\<close>

text \<open>
  The transactions of any number of workers and administrators, in any order.  \<open>elsewhere\<close> is a
  transaction that touches neither tasks nor logs, as the built-in handlers are.
\<close>

inductive sched_step :: "registry \<Rightarrow> 't cron_lib \<Rightarrow> db \<Rightarrow> db \<Rightarrow> bool" for reg lib where
  claim: "xe_cron env = lib \<Longrightarrow> claim_once env i tr sch a ex now d = Inr (r, d') \<Longrightarrow> sched_step reg lib d d'"
| finish: "xe_cron env = lib \<Longrightarrow> oc_status out \<in> {LogSuccess, LogFailure} \<Longrightarrow> d' = finish env lg i out now d \<Longrightarrow> sched_step reg lib d d'"
| create: "task_create_op reg lib c d = Inr (x, d') \<Longrightarrow> sched_step reg lib d d'"
| update: "task_update_op reg lib i p d = Inr (x, d') \<Longrightarrow> sched_step reg lib d d'"
| delete: "task_delete_op i d = Inr ((), d') \<Longrightarrow> sched_step reg lib d d'"
| elsewhere: "sched_tasks d' = sched_tasks d \<Longrightarrow> task_logs d' = task_logs d \<Longrightarrow> sched_step reg lib d d'"

lemma create_log_InrD:
  assumes "create_log mk d = Inr (l, d')"
  shows "l = mk (seq (task_logs d))" and "d' = d\<lparr>task_logs := appended l (task_logs d)\<rparr>"
    and "tl_exec l \<notin> tl_exec ` set (rows (task_logs d))"
    and "claim_key l \<noteq> None \<Longrightarrow> \<forall>x \<in> set (rows (task_logs d)). claim_key x \<noteq> claim_key l"
  using assms
  by (auto simp: create_log_def insert_row_appended list_ex_iff split: if_splits)

lemma claim_once_cases:
  assumes "claim_once env i tr sch a ex now d = Inr (r, d')"
  obtains (none) "r = None" "d' = d"
  | (some) task l skip sch' where "get_task d i = Some task"
      "skip = (\<not> st_concurrent task \<and>
         count_running d i (now - secs (or_default (st_timeout task) default_stale_seconds)) > 0)"
      "sch' = (if tr = TrigSchedule \<and> sch = None then Some (claim_tick env task now) else sch)"
      "l = claim_log env task tr sch' a ex now skip (seq (task_logs d))"
      "create_log (claim_log env task tr sch' a ex now skip) d = Inr (l, d')"
      "r = Some \<lparr>cr_log = tl_id l, cr_handler = st_handler task, cr_params = st_params task,
         cr_timeout = st_timeout task, cr_skipped = skip\<rparr>"
proof (cases "get_task d i")
  case None
  with assms none show thesis by (simp add: claim_once_def)
next
  case (Some task)
  define skip where "skip = (\<not> st_concurrent task \<and>
     count_running d i (now - secs (or_default (st_timeout task) default_stale_seconds)) > 0)"
  define sch' where "sch' = (if tr = TrigSchedule \<and> sch = None then Some (claim_tick env task now) else sch)"
  let ?mk = "claim_log env task tr sch' a ex now skip"
  have c: "claim_once env i tr sch a ex now d =
      (case create_log ?mk d of
         Inl (IntegrityErr c) \<Rightarrow> if c = claim_index then Inr (None, d) else Inl (IntegrityErr c)
       | Inl e \<Rightarrow> Inl e
       | Inr (l, d') \<Rightarrow> Inr (Some \<lparr>cr_log = tl_id l, cr_handler = st_handler task,
           cr_params = st_params task, cr_timeout = st_timeout task, cr_skipped = skip\<rparr>, d'))"
    using Some by (simp add: claim_once_def skip_def sch'_def Let_def cong: sum.case_cong exn.case_cong)
  show thesis
  proof (cases "create_log ?mk d")
    case (Inl e)
    with assms c none show thesis by (cases e) (auto split: if_splits)
  next
    case (Inr p)
    then obtain l e where p: "create_log ?mk d = Inr (l, e)" by (cases p) auto
    have "l = ?mk (seq (task_logs d))" using create_log_InrD(1) [OF p] .
    with assms c p some [OF Some skip_def sch'_def] show thesis by simp
  qed
qed

lemma claim_log_simps [simp]:
  "tl_id (claim_log env task tr sch a ex now skip k) = k"
  "tl_task (claim_log env task tr sch a ex now skip k) = Some (st_id task)"
  "tl_exec (claim_log env task tr sch a ex now skip k) = ex"
  "tl_trigger (claim_log env task tr sch a ex now skip k) = tr"
  "tl_scheduled (claim_log env task tr sch a ex now skip k) = map_option column_time sch"
  "tl_status (claim_log env task tr sch a ex now skip k) = (if skip then LogSkipped else LogRunning)"
  "tl_started (claim_log env task tr sch a ex now skip k) = (if skip then None else Some (column_time now))"
  by (simp_all add: claim_log_def)

lemma finish_simps [simp]:
  "task_logs (finish env lg i out now d) =
     update_where (\<lambda>l. tl_id l = lg) (finished_log env out now) (task_logs d)"
  "map st_id (rows (sched_tasks (finish env lg i out now d))) = map st_id (rows (sched_tasks d))"
  "seq (sched_tasks (finish env lg i out now d)) = seq (sched_tasks d)"
  by (simp_all add: finish_def Let_def mark_task_last_run_def rows_update_where)

lemma finished_log_simps [simp]:
  "tl_id (finished_log env out now l) = tl_id l" "tl_exec (finished_log env out now l) = tl_exec l"
  "tl_task (finished_log env out now l) = tl_task l" "tl_trigger (finished_log env out now l) = tl_trigger l"
  "tl_scheduled (finished_log env out now l) = tl_scheduled l" "tl_started (finished_log env out now l) = tl_started l"
  "tl_status (finished_log env out now l) = oc_status out"
  by (simp_all add: finished_log_def)

lemma finished_claim_key [simp]: "claim_key (finished_log env out now l) = claim_key l"
  by (simp add: claim_key_def)

section \<open>A claimed tick stays claimed\<close>

text \<open>Some log holds the claim, or the task is gone for good.\<close>

definition claimed :: "int \<Rightarrow> int \<Rightarrow> db \<Rightarrow> bool" where
  "claimed i t d \<longleftrightarrow> table_ok st_id (sched_tasks d) \<and> i < seq (sched_tasks d) \<and>
     ((\<exists>l \<in> set (rows (task_logs d)). claim_key l = Some (i, t)) \<or> get_task d i = None)"

lemma claim_tasks_same:
  assumes "claim_once env i tr sch a ex now d = Inr (r, d')"
  shows "sched_tasks d' = sched_tasks d" and "set (rows (task_logs d)) \<subseteq> set (rows (task_logs d'))"
proof -
  from assms have "sched_tasks d' = sched_tasks d \<and> set (rows (task_logs d)) \<subseteq> set (rows (task_logs d'))"
  proof (cases rule: claim_once_cases)
    case (some task l skip sch')
    show ?thesis by (simp add: create_log_InrD(2) [OF some(5)]) blast
  qed simp
  then show "sched_tasks d' = sched_tasks d" "set (rows (task_logs d)) \<subseteq> set (rows (task_logs d'))" by auto
qed

lemma get_task_None_iff: "get_task d i = None \<longleftrightarrow> i \<notin> st_id ` set (rows (sched_tasks d))"
  by (auto simp: get_task_def get_row_None_iff)

lemma claimed_keys:
  assumes c: "claimed i t d" and ids: "map st_id (rows (sched_tasks d')) = map st_id (rows (sched_tasks d))"
    and n: "seq (sched_tasks d') = seq (sched_tasks d)"
    and l: "\<And>l. l \<in> set (rows (task_logs d)) \<Longrightarrow> claim_key l = Some (i, t) \<Longrightarrow>
       \<exists>l' \<in> set (rows (task_logs d')). claim_key l' = Some (i, t)"
  shows "claimed i t d'"
proof -
  have s: "st_id ` set (rows (sched_tasks d')) = st_id ` set (rows (sched_tasks d))"
    using ids by (metis list.set_map)
  have "k < seq (sched_tasks d')" if "k \<in> st_id ` set (rows (sched_tasks d'))" for k
    using that c n unfolding s by (auto simp: claimed_def table_ok_def)
  moreover have "distinct (map st_id (rows (sched_tasks d')))"
    using c unfolding ids by (simp add: claimed_def table_ok_def)
  ultimately have "table_ok st_id (sched_tasks d')" by (auto simp: table_ok_def)
  moreover have "get_task d' i = None \<longleftrightarrow> get_task d i = None" by (simp only: get_task_None_iff s)
  ultimately show ?thesis using c n l by (auto simp: claimed_def)
qed

lemma claimed_update:
  assumes c: "claimed i t d" and u: "task_update_op reg lib j p d = Inr (x, d')"
  shows "claimed i t d'"
proof -
  from u obtain hp ct where d': "d' = d\<lparr>sched_tasks :=
      update_where (\<lambda>z. st_id z = j) (apply_task_update p hp ct) (sched_tasks d)\<rparr>" by (rule task_update_InrD)
  show ?thesis
    by (rule claimed_keys [OF c]) (auto simp: d' rows_update_where)
qed

lemma claimed_create:
  assumes c: "claimed i t d" and u: "task_create_op reg lib a d = Inr (x, d')"
  shows "claimed i t d'"
proof -
  from u obtain params where x: "x = new_task a params (seq (sched_tasks d))"
    and d': "d' = d\<lparr>sched_tasks := appended x (sched_tasks d)\<rparr>" by (rule task_create_InrD)
  have id: "st_id x = seq (sched_tasks d)" by (simp add: x new_task_def)
  have "get_task d' i = get_task d i"
    using c get_row_appended [of st_id "sched_tasks d" x i] id by (simp add: get_task_def d' claimed_def)
  moreover have "table_ok st_id (appended x (sched_tasks d))"
    using c table_ok_append [of st_id "sched_tasks d" x] id by (simp add: claimed_def appended_def)
  ultimately show ?thesis using c by (auto simp: claimed_def d')
qed

lemma claimed_delete:
  assumes c: "claimed i t d" and u: "task_delete_op j d = Inr ((), d')"
  shows "claimed i t d'"
proof -
  have d': "d' = task_repo_delete j d" using u by (auto simp: task_delete_op_def split: option.splits)
  have ok: "table_ok st_id (sched_tasks d')" "i < seq (sched_tasks d')"
    using c by (simp_all add: claimed_def d' task_repo_delete_def table_ok_delete rows_delete_where)
  have g: "get_task d' i = (if i = j then None else get_task d i)"
    using get_row_deleted [of st_id j "sched_tasks d" i] by (simp add: get_task_def d' task_repo_delete_def)
  have l: "\<exists>l' \<in> set (rows (task_logs d')). claim_key l' = Some (i, t)"
    if "l \<in> set (rows (task_logs d))" "claim_key l = Some (i, t)" "i \<noteq> j" for l
  proof (rule bexI [of _ l])
    have "tl_task l = Some i" using that(2) by (auto simp: claim_key_def split: if_splits option.splits)
    then show "l \<in> set (rows (task_logs d'))"
      using that(1,3) by (auto simp: d' task_repo_delete_def rows_update_where image_iff intro!: bexI [of _ l])
  qed (rule that(2))
  show ?thesis using c ok g l by (auto simp: claimed_def)
qed

lemma claimed_finish:
  assumes c: "claimed i t d"
  shows "claimed i t (finish env lg j out now d)"
proof (rule claimed_keys [OF c])
  fix l assume "l \<in> set (rows (task_logs d))" "claim_key l = Some (i, t)"
  then show "\<exists>l' \<in> set (rows (task_logs (finish env lg j out now d))). claim_key l' = Some (i, t)"
    by (intro bexI [of _ "if tl_id l = lg then finished_log env out now l else l"])
      (auto simp: rows_update_where)
qed simp_all

lemma claimed_step:
  assumes "sched_step reg lib d d'" "claimed i t d"
  shows "claimed i t d'"
  using assms(1)
proof cases
  case (claim env j tr sch a ex now r)
  from claim_tasks_same [OF claim(2)] show ?thesis
    by (intro claimed_keys [OF assms(2)]) auto
next
  case (finish env out lg j now)
  show ?thesis unfolding finish(3) by (rule claimed_finish [OF assms(2)])
next
  case (create a x)
  then show ?thesis by (rule claimed_create [OF assms(2)])
next
  case (update j p x)
  then show ?thesis by (rule claimed_update [OF assms(2)])
next
  case (delete j)
  then show ?thesis by (rule claimed_delete [OF assms(2)])
next
  case elsewhere
  then show ?thesis by (intro claimed_keys [OF assms(2)]) auto
qed

lemma claimed_steps: "(sched_step reg lib)\<^sup>*\<^sup>* d d' \<Longrightarrow> claimed i t d \<Longrightarrow> claimed i t d'"
  by (induction rule: rtranclp_induct) (auto intro: claimed_step)

lemma claim_claims:
  assumes "claim_once env i TrigSchedule None a ex now d = Inr (Some c, d')" "table_ok st_id (sched_tasks d)"
  obtains task where "get_task d i = Some task" "claimed i (column_time (claim_tick env task now)) d'"
  using assms(1)
proof (cases rule: claim_once_cases)
  case (some task l skip sch')
  have i: "st_id task = i" "task \<in> set (rows (sched_tasks d))"
    using get_row_SomeD [of st_id "sched_tasks d" i task] some(1) by (auto simp: get_task_def)
  note d' = create_log_InrD(2) [OF some(5)]
  have "claim_key l = Some (i, column_time (claim_tick env task now))"
    using some(3,4) i by (simp add: claim_key_def)
  then have "claimed i (column_time (claim_tick env task now)) d'"
    using assms(2) i by (auto simp: claimed_def d' table_ok_def)
  with some(1) show thesis by (rule that)
qed simp

lemma claimed_claim_fails:
  assumes c: "claimed i t d"
    and tick: "\<And>task. get_task d i = Some task \<Longrightarrow> column_time (claim_tick env task now) = t"
  shows "claim_once env i TrigSchedule None a ex now d \<in> {Inr (None, d), Inl (IntegrityErr ''execution_id'')}"
proof (cases "get_task d i")
  case None
  then show ?thesis by (simp add: claim_once_def)
next
  case (Some task)
  with c obtain l where l: "l \<in> set (rows (task_logs d))" "claim_key l = Some (i, t)"
    by (auto simp: claimed_def)
  have i: "st_id task = i" using get_row_SomeD [of st_id "sched_tasks d" i task] Some by (simp add: get_task_def)
  define skip where "skip = (\<not> st_concurrent task \<and>
     count_running d i (now - secs (or_default (st_timeout task) default_stale_seconds)) > 0)"
  let ?mk = "claim_log env task TrigSchedule (Some (claim_tick env task now)) a ex now skip"
  have k: "claim_key (?mk n) = Some (i, t)" for n
    using tick [OF Some] i by (simp add: claim_key_def)
  have "list_ex (\<lambda>x. claim_key x = Some (i, t)) (rows (task_logs d))"
    using l by (auto simp: list_ex_iff)
  then have "create_log ?mk d \<in> {Inl (IntegrityErr ''execution_id''), Inl (IntegrityErr claim_index)}"
    using k by (simp add: create_log_def insert_row_def)
  then show ?thesis
    using Some by (auto simp: claim_once_def skip_def Let_def claim_index_def)
qed

text \<open>\<open>u\<close> is the last fire time up to \<open>now\<close>, and the worker looks back far enough to find it.\<close>

definition last_fire :: "'t cron_lib \<Rightarrow> scheduled_task \<Rightarrow> int \<Rightarrow> int \<Rightarrow> bool" where
  "last_fire lib task now u \<longleftrightarrow> (\<exists>trig F. build_cron_trigger lib (st_cron task) (st_tz task) = Some trig \<and>
     fires_at (fire_after lib trig) F \<and> u \<in> F \<and> now - secs (st_grace task + 60) \<le> u \<and> u \<le> now \<and>
     (\<forall>v \<in> F. v \<le> now \<longrightarrow> v \<le> u))"

lemma claim_tick_last_fire:
  assumes "last_fire (xe_cron env) task now u"
  shows "claim_tick env task now = u"
proof -
  from assms obtain trig F where t: "build_cron_trigger (xe_cron env) (st_cron task) (st_tz task) = Some trig"
    and f: "fires_at (fire_after (xe_cron env) trig) F"
    and u: "u \<in> F" "now - secs (st_grace task + 60) \<le> u" "u \<le> now" "\<forall>v \<in> F. v \<le> now \<longrightarrow> v \<le> u"
    unfolding last_fire_def by blast
  have "0 \<le> secs (st_grace task + 60)" using u by simp
  moreover have "Max {v \<in> F. now - secs (st_grace task + 60) \<le> v \<and> v \<le> now} = u"
    using u by (intro Max_eqI) (auto intro: finite_subset [of _ "{now - secs (st_grace task + 60)..now}"])
  ultimately have "tick_loop (fire_after (xe_cron env) trig) now (tick_fuel (st_grace task + 60))
      (fire_after (xe_cron env) trig (now - secs (st_grace task + 60))) None = Some (Some u)"
    using tick_loop_last [OF f, of "secs (st_grace task + 60)" now] u by (auto simp: tick_fuel_def)
  then show ?thesis by (simp add: claim_tick_def scheduled_tick_at_def t)
qed

text \<open>
  C23 A fire time of a task is run at most once: after one worker has claimed the fire time \<open>u\<close>, any
  worker whose last fire time is still \<open>u\<close> gets nothing, runs no handler and leaves the database as
  it is, whatever claims, completions and changes of tasks came in between.
\<close>

theorem tick_runs_once:
  assumes "claim_once env1 i TrigSchedule None a1 ex1 now1 d = Inr (Some c, d1)"
    and "table_ok st_id (sched_tasks d)"
    and "(sched_step reg lib)\<^sup>*\<^sup>* d1 d2"
    and "xe_cron env1 = lib" "xe_cron env2 = lib"
    and "\<And>task. get_task d i = Some task \<Longrightarrow> last_fire lib task now1 u"
    and "\<And>task. get_task d2 i = Some task \<Longrightarrow> last_fire lib task now2 u"
  shows "run env2 henv strikes i TrigSchedule None a2 ex2 now2 done2 d2
    \<in> {Inr (None, d2), Inl (IntegrityErr ''execution_id'')}"
proof -
  obtain task where t: "get_task d i = Some task" "claimed i (column_time (claim_tick env1 task now1)) d1"
    using claim_claims [OF assms(1,2)] .
  have "claim_tick env1 task now1 = u" using claim_tick_last_fire assms(4,6) t(1) by blast
  then have "claimed i (column_time u) d2" using claimed_steps [OF assms(3) t(2)] by simp
  from claimed_claim_fails [OF this, of env2 now2 a2 ex2] claim_tick_last_fire assms(5,7)
  have "claim_once env2 i TrigSchedule None a2 ex2 now2 d2
      \<in> {Inr (None, d2), Inl (IntegrityErr ''execution_id'')}" by blast
  then show ?thesis by (auto simp: run_def)
qed

section \<open>Runs of a task that allows no overlap\<close>

text \<open>What every step keeps of the tasks and of one log.\<close>

definition tasks_from :: "int \<Rightarrow> db \<Rightarrow> bool" where
  "tasks_from i d \<longleftrightarrow> table_ok st_id (sched_tasks d) \<and> i < seq (sched_tasks d)"

lemma task_crud_write:
  assumes "tasks_from i d" "(\<exists>reg lib a x. task_create_op reg lib a d = Inr (x, d')) \<or>
     (\<exists>reg lib j p x. task_update_op reg lib j p d = Inr (x, d')) \<or> (\<exists>j. task_delete_op j d = Inr ((), d'))"
  shows "tasks_from i d' \<and> (get_task d i = None \<longrightarrow> get_task d' i = None)"
  using assms(2)
proof (elim disjE exE)
  fix reg lib a x assume "task_create_op reg lib a d = Inr (x, d')"
  then obtain params where x: "x = new_task a params (seq (sched_tasks d))"
    and d': "d' = d\<lparr>sched_tasks := appended x (sched_tasks d)\<rparr>" by (rule task_create_InrD)
  have id: "st_id x = seq (sched_tasks d)" by (simp add: x new_task_def)
  then show ?thesis
    using assms(1) get_row_appended [of st_id "sched_tasks d" x i] table_ok_append [of st_id "sched_tasks d" x]
    by (simp add: tasks_from_def get_task_def d' appended_def)
next
  fix reg lib j p x assume "task_update_op reg lib j p d = Inr (x, d')"
  then obtain hp ct where d': "d' = d\<lparr>sched_tasks :=
      update_where (\<lambda>z. st_id z = j) (apply_task_update p hp ct) (sched_tasks d)\<rparr>" by (rule task_update_InrD)
  show ?thesis
    using assms(1) get_row_updated [of st_id "apply_task_update p hp ct" j "sched_tasks d" i]
      table_ok_update [of st_id "sched_tasks d" "apply_task_update p hp ct"]
    by (auto simp: tasks_from_def get_task_def d' rows_update_where)
next
  fix j assume "task_delete_op j d = Inr ((), d')"
  then have d': "d' = task_repo_delete j d" by (auto simp: task_delete_op_def split: option.splits)
  show ?thesis
    using assms(1) get_row_deleted [of st_id j "sched_tasks d" i]
    by (simp add: tasks_from_def get_task_def d' task_repo_delete_def table_ok_delete rows_delete_where)
qed

lemma finish_tasks:
  "get_task (finish env lg j out now d) i = map_option (\<lambda>x. if i = j then
     x\<lparr>st_last_run := Some (column_time now), st_last_status := Some (oc_status out)\<rparr> else x) (get_task d i)"
  using get_row_updated [of st_id
      "\<lambda>x. x\<lparr>st_last_run := Some (column_time now), st_last_status := Some (oc_status out)\<rparr>" j "sched_tasks d" i]
  by (auto simp: finish_def get_task_def mark_task_last_run_def Let_def option.map_ident)

lemma step_tasks:
  assumes "sched_step reg lib d d'" "tasks_from i d"
  shows "tasks_from i d' \<and> (get_task d i = None \<longrightarrow> get_task d' i = None)"
  using assms(1)
proof cases
  case (claim env j tr sch a ex now r)
  from claim_tasks_same [OF claim(2)] assms(2) show ?thesis by (simp add: tasks_from_def get_task_def)
next
  case (finish env out lg j now)
  have "table_ok st_id (sched_tasks d')"
    using assms(2) by (auto simp: finish(3) tasks_from_def finish_def mark_task_last_run_def Let_def
        intro!: table_ok_update)
  then show ?thesis using assms(2) finish_tasks [of env lg j out now d i]
    by (simp add: tasks_from_def finish(3))
next
  case (create a x)
  then show ?thesis using task_crud_write [OF assms(2)] by blast
next
  case (update j p x)
  then show ?thesis using task_crud_write [OF assms(2)] by blast
next
  case (delete j)
  then show ?thesis using task_crud_write [OF assms(2)] by blast
next
  case elsewhere
  then show ?thesis using assms(2) by (simp add: tasks_from_def get_task_def)
qed

text \<open>The log \<open>k\<close> of the task \<open>i\<close> started at \<open>t\<close>; the task may be deleted meanwhile.\<close>

definition started_log :: "int \<Rightarrow> int \<Rightarrow> int \<Rightarrow> db \<Rightarrow> bool" where
  "started_log k i t d \<longleftrightarrow> table_ok tl_id (task_logs d) \<and> tasks_from i d \<and>
     (\<exists>l. get_log d k = Some l \<and> tl_started l = Some t \<and> (tl_task l = Some i \<or> get_task d i = None))"

lemma started_log_kept:
  assumes s: "started_log k i t d" and st: "sched_step reg lib d d'"
    and ok: "table_ok tl_id (task_logs d')"
    and l: "\<And>l. get_log d k = Some l \<Longrightarrow> \<exists>l'. get_log d' k = Some l' \<and> tl_started l' = tl_started l \<and>
      (tl_task l = Some i \<longrightarrow> tl_task l' = Some i \<or> get_task d' i = None)"
  shows "started_log k i t d'"
  using s step_tasks [OF st, of i] ok l unfolding started_log_def by metis

lemma get_log_updated:
  "task_logs d' = update_where p f (task_logs d) \<Longrightarrow> (\<And>x. tl_id (f x) = tl_id x) \<Longrightarrow>
     get_log d' k = map_option (\<lambda>x. if p x then f x else x) (get_log d k)"
  unfolding get_log_def get_row_def by (simp add: rows_update_where find_code_updated)

lemma created_log:
  assumes "create_log mk d = Inr (l, d')" "table_ok tl_id (task_logs d)" "tl_id l = seq (task_logs d)"
  shows "table_ok tl_id (task_logs d')"
    and "get_log d' k = (if k = tl_id l then Some l else get_log d k)"
  using create_log_InrD(2) [OF assms(1)] get_row_appended [of tl_id "task_logs d" l k]
    table_ok_append [of tl_id "task_logs d" l] assms(2,3)
  by (simp_all add: get_log_def appended_def)

lemma get_log_seq: "table_ok tl_id (task_logs d) \<Longrightarrow> get_log d (seq (task_logs d)) = None"
  by (auto simp: get_log_def get_row_None_iff table_ok_def)

lemma started_log_step:
  assumes st: "sched_step reg lib d d'" and s: "started_log k i t d"
  shows "started_log k i t d'"
  using st
proof cases
  have ok: "table_ok tl_id (task_logs d)" using s by (simp add: started_log_def)
  case (claim env j tr sch a ex now r)
  from claim(2) show ?thesis
  proof (cases rule: claim_once_cases)
    case none
    with s show ?thesis by simp
  next
    case (some task l skip sch')
    have "tl_id l = seq (task_logs d)" using some(4) by simp
    note c = created_log [OF some(5) ok this]
    show ?thesis
      by (rule started_log_kept [OF s st c(1)])
        (use c(2) get_log_seq [OF ok] \<open>tl_id l = seq (task_logs d)\<close> in auto)
  qed
next
  case (finish env out lg j now)
  have l: "get_log d' k = map_option (\<lambda>x. if tl_id x = lg then finished_log env out now x else x) (get_log d k)"
    by (rule get_log_updated) (simp_all add: finish(3))
  have "table_ok tl_id (task_logs d')" using s by (auto simp: finish(3) started_log_def intro!: table_ok_update)
  then show ?thesis by (rule started_log_kept [OF s st]) (simp add: l)
next
  case (create a x)
  then have l: "task_logs d' = task_logs d" by (elim task_create_InrD) simp
  show ?thesis by (rule started_log_kept [OF s st]) (use s l in \<open>simp_all add: started_log_def get_log_def\<close>)
next
  case (update j p x)
  then have l: "task_logs d' = task_logs d" by (elim task_update_InrD) simp
  show ?thesis by (rule started_log_kept [OF s st]) (use s l in \<open>simp_all add: started_log_def get_log_def\<close>)
next
  case (delete j)
  then have d': "d' = task_repo_delete j d" by (auto simp: task_delete_op_def split: option.splits)
  have l: "get_log d' k = map_option (\<lambda>x. if tl_task x = Some j then x\<lparr>tl_task := None\<rparr> else x) (get_log d k)"
    by (rule get_log_updated) (simp_all add: d' task_repo_delete_def)
  have g: "get_task d' j = None"
    using get_row_deleted [of st_id j "sched_tasks d" j] by (simp add: get_task_def d' task_repo_delete_def)
  have "table_ok tl_id (task_logs d')"
    using s by (auto simp: d' task_repo_delete_def started_log_def intro!: table_ok_update)
  then show ?thesis by (rule started_log_kept [OF s st]) (auto simp: l g)
next
  case elsewhere
  show ?thesis
    by (rule started_log_kept [OF s st]) (use s elsewhere in \<open>simp_all add: started_log_def get_log_def\<close>)
qed

lemma started_log_steps:
  "(sched_step reg lib)\<^sup>*\<^sup>* d d' \<Longrightarrow> started_log k i t d \<Longrightarrow> started_log k i t d'"
  by (induction rule: rtranclp_induct) (auto intro: started_log_step)

lemma claim_starts:
  assumes "claim_once env i tr sch a ex now d = Inr (Some c, d')" "\<not> cr_skipped c"
    and "table_ok st_id (sched_tasks d)" "table_ok tl_id (task_logs d)"
  shows "started_log (cr_log c) i (column_time now) d'"
  using assms(1)
proof (cases rule: claim_once_cases)
  case (some task l skip sch')
  have i: "st_id task = i" "task \<in> set (rows (sched_tasks d))"
    using get_row_SomeD [of st_id "sched_tasks d" i task] some(1) by (auto simp: get_task_def)
  have l: "tl_id l = seq (task_logs d)" using some(4) by simp
  note c = created_log [OF some(5) assms(4) l]
  have "sched_tasks d' = sched_tasks d" by (rule claim_tasks_same [OF assms(1)])
  moreover have "i < seq (sched_tasks d)" using assms(3) i by (auto simp: table_ok_def)
  ultimately show ?thesis
    using some(6) assms(2,3) c i some(4) by (simp add: started_log_def tasks_from_def)
qed simp

lemma column_time_near: "t - 500000 \<le> column_time t" "column_time t \<le> t + 500000"
proof -
  define q where "q = (t + 500000) div 1000000"
  have "q * 1000000 + (t + 500000) mod 1000000 = t + 500000"
    unfolding q_def by (rule div_mult_mod_eq)
  moreover have "0 \<le> (t + 500000) mod 1000000" "(t + 500000) mod 1000000 < 1000000" by simp_all
  ultimately show "t - 500000 \<le> column_time t" "column_time t \<le> t + 500000"
    unfolding column_time_def q_def [symmetric] by linarith+
qed

text \<open>
  C24 Runs of a task that allows no overlap do not overlap: while the log of a run is still marked
  running, and for as long as the task's timeout (one hour without one; half a second less, for the
  rounding of stored times), every further run of the task, scheduled or manual and by any worker, is
  recorded as skipped.
\<close>

theorem runs_do_not_overlap:
  assumes "claim_once env1 i tr1 sch1 a1 ex1 now1 d = Inr (Some c, d1)" "\<not> cr_skipped c"
    and "table_ok st_id (sched_tasks d)" "table_ok tl_id (task_logs d)"
    and "(sched_step reg lib)\<^sup>*\<^sup>* d1 d2"
    and "get_log d2 (cr_log c) = Some l" "tl_status l = LogRunning"
    and "get_task d2 i = Some task" "\<not> st_concurrent task"
    and "now2 + 500000 \<le> now1 + secs (or_default (st_timeout task) default_stale_seconds)"
    and "run env2 henv strikes i tr2 sch2 a2 ex2 now2 done2 d2 = Inr (Some out, d3)"
  shows "eo_status out = LogSkipped \<and> sched_tasks d3 = sched_tasks d2"
proof -
  have "started_log (cr_log c) i (column_time now1) d2"
    using started_log_steps [OF assms(5)] claim_starts [OF assms(1-4)] by blast
  then have l: "tl_started l = Some (column_time now1)" "tl_task l = Some i" "l \<in> set (rows (task_logs d2))"
    using assms(6,8) get_row_SomeD [of tl_id "task_logs d2" "cr_log c" l]
    by (auto simp: started_log_def get_log_def)
  let ?since = "now2 - secs (or_default (st_timeout task) default_stale_seconds)"
  have "?since \<le> column_time now1" using assms(10) column_time_near(1) [of now1] by linarith
  then have n: "count_running d2 i ?since > 0"
    using l assms(7) by (auto simp: count_running_def filter_empty_conv)
  have skip: "cr_skipped c2" if "claim_once env2 i tr2 sch2 a2 ex2 now2 d2 = Inr (Some c2, d4)" for c2 d4
    using that
  proof (cases rule: claim_once_cases)
    case (some task' l' skip sch')
    then show ?thesis using assms(8,9) n by simp
  qed simp
  show ?thesis
  proof (cases "claim_once env2 i tr2 sch2 a2 ex2 now2 d2")
    case (Inr p)
    obtain r d4 where p: "p = (r, d4)" by (cases p)
    obtain c2 where r: "r = Some c2" using assms(11) Inr p by (cases r) (simp_all add: run_def)
    note e = Inr [unfolded p r]
    show ?thesis using assms(11) skip [OF e] claim_tasks_same(1) [OF e] by (auto simp: run_def e)
  qed (use assms(11) in \<open>simp add: run_def\<close>)
qed

section \<open>A run ends with its outcome on record\<close>

text \<open>The handlers leave tasks and logs alone.\<close>

definition leaves_schedule :: "registry \<Rightarrow> bool" where
  "leaves_schedule reg \<longleftrightarrow> (\<forall>s \<in> set reg. \<forall>env ps d.
     sched_tasks (snd (hs_run s env ps d)) = sched_tasks d \<and> task_logs (snd (hs_run s env ps d)) = task_logs d)"

lemma built_in_leave_schedule: "leaves_schedule job_registry"
  by (auto simp: leaves_schedule_def job_registry_def noop_handler_def echo_handler_def cleanup_handler_def
      delete_expired_def Let_def split: option.splits json.splits prod.splits)

lemma invoke_leaves_schedule:
  assumes "leaves_schedule (xe_registry env)" "invoke env henv strikes key ps tmo d = (out, d')"
  shows "sched_tasks d' = sched_tasks d" "task_logs d' = task_logs d"
    and "oc_status out \<in> {LogSuccess, LogFailure}"
proof -
  have r: "s \<in> set (xe_registry env)" if "registry_get (xe_registry env) key = Some s" for s
    using that by (auto simp: registry_get_def find_Some_iff)
  from assms show "sched_tasks d' = sched_tasks d" "task_logs d' = task_logs d"
    by (auto simp: invoke_def leaves_schedule_def dest!: r split: option.splits prod.splits bool.splits)
      (metis snd_conv)+
  from assms(2) show "oc_status out \<in> {LogSuccess, LogFailure}"
    by (auto simp: invoke_def failed_outcome_def handler_outcome_def
        split: option.splits prod.splits bool.splits handler_result.splits)
qed

text \<open>A claim that nothing stands in the way of.\<close>

lemma free_claim:
  assumes "get_task d i = Some task" "\<forall>x \<in> set (rows (task_logs d)). tl_exec x \<noteq> ex" "tr \<noteq> TrigSchedule"
    and skip: "skip = (\<not> st_concurrent task \<and>
     count_running d i (now - secs (or_default (st_timeout task) default_stale_seconds)) > 0)"
    and l: "l = claim_log env task tr sch a ex now skip (seq (task_logs d))"
  shows "claim_once env i tr sch a ex now d =
    Inr (Some \<lparr>cr_log = tl_id l, cr_handler = st_handler task, cr_params = st_params task,
       cr_timeout = st_timeout task, cr_skipped = skip\<rparr>, d\<lparr>task_logs := appended l (task_logs d)\<rparr>)"
proof -
  have "create_log (claim_log env task tr sch a ex now skip) d = Inr (l, d\<lparr>task_logs := appended l (task_logs d)\<rparr>)"
    using assms(2,3) by (auto simp: create_log_def insert_row_appended l claim_key_def list_ex_iff)
  then show ?thesis
    using assms(1,3) by (simp add: claim_once_def Let_def skip [symmetric])
qed

lemma finish_log:
  "get_log (finish env lg j out now d) k =
     map_option (\<lambda>x. if tl_id x = lg then finished_log env out now x else x) (get_log d k)"
  by (rule get_log_updated) simp_all

lemma manual_run_result:
  assumes logs: "table_ok tl_id (task_logs d)"
    and fresh: "\<forall>x \<in> set (rows (task_logs d)). tl_exec x \<noteq> ex"
    and task: "get_task d i = Some task"
    and reg: "registry_get (xe_registry env) (st_handler task) = Some s" "hs_manual s"
    and quiet: "leaves_schedule (xe_registry env)"
    and skip: "skip = (\<not> st_concurrent task \<and>
      count_running d i (now - secs (or_default (st_timeout task) default_stale_seconds)) > 0)"
    and l: "l = claim_log env task TrigManual None a ex now skip (seq (task_logs d))"
    and d1: "d1 = d\<lparr>task_logs := appended l (task_logs d)\<rparr>"
    and inv: "invoke env henv strikes (st_handler task) (st_params task)
        (effective_timeout TrigManual (st_timeout task)) d1 = (out, d2)"
    and d': "d' = (if skip then d1 else finish env (tl_id l) i out done_at d2)"
    and l': "l' = (if skip then l else finished_log env out done_at l)"
  shows "manual_run env henv strikes i a ex now done_at d = (Inr l', d')"
    and "get_log d' k = (if k = tl_id l then Some l' else get_log d k)"
proof -
  have id: "tl_id l = seq (task_logs d)" by (simp add: l)
  have log: "get_log d1 k = (if k = tl_id l then Some l else get_log d k)" for k
    using get_row_appended [of tl_id "task_logs d" l k] logs id by (simp add: get_log_def d1)
  have claim: "claim_once env i TrigManual None a ex now d =
      Inr (Some \<lparr>cr_log = tl_id l, cr_handler = st_handler task, cr_params = st_params task,
        cr_timeout = st_timeout task, cr_skipped = skip\<rparr>, d1)"
    unfolding d1 by (rule free_claim [OF task fresh]) (simp_all add: skip l)
  have same: "get_log d2 k = get_log d1 k" for k
    using invoke_leaves_schedule(2) [OF quiet inv] by (simp add: get_log_def)
  have ids: "tl_id x = k" if "get_log d k = Some x" for x k
    using get_row_SomeD [of tl_id "task_logs d" k x] that by (simp add: get_log_def)
  show g: "get_log d' k = (if k = tl_id l then Some l' else get_log d k)" for k
    using log [of k] same [of k] ids [of k] by (cases "get_log d k") (auto simp: d' l' finish_log)
  show "manual_run env henv strikes i a ex now done_at d = (Inr l', d')"
    using g [of "tl_id l"] by (simp add: manual_run_def task reg run_def claim inv d' l' split: if_splits)
qed


section \<open>Stored tasks can run\<close>

definition runnable :: "registry \<Rightarrow> 't cron_lib \<Rightarrow> scheduled_task \<Rightarrow> bool" where
  "runnable reg lib x \<longleftrightarrow> validate_cron lib (st_cron x) (st_tz x) \<and>
     (case registry_get reg (st_handler x) of
        None \<Rightarrow> False | Some s \<Rightarrow> validate_params s (st_params x) = Some (st_params x))"

text \<open>Validated parameters are valid.\<close>

lemma registry_get_mem: "registry_get reg key = Some s \<Longrightarrow> s \<in> set reg \<and> hs_key s = key"
  by (auto simp: registry_get_def find_Some_iff)

lemma echo_params_again: "echo_params ps = Some qs \<Longrightarrow> echo_params qs = Some qs"
  by (auto simp: echo_params_def split: option.splits json.splits)

lemma built_in_params_again:
  assumes "registry_get job_registry key = Some s" "validate_params s ps = Some qs"
  shows "validate_params s qs = Some qs"
proof -
  have "s \<in> set job_registry" using registry_get_mem [OF assms(1)] by simp
  then have "hs_schema s = None \<or> hs_schema s = Some echo_params" by (auto simp: job_registry_def)
  with assms(2) echo_params_again show ?thesis by (auto simp: validate_params_def split: if_splits)
qed

lemma runnable_created:
  assumes "task_create_op job_registry lib c d = Inr (x, d')"
  shows "runnable job_registry lib x"
  using assms by (rule task_create_InrD)
    (simp add: runnable_def new_task_def, rule built_in_params_again, assumption+)

lemma runnable_updated:
  assumes hp: "updated_handler job_registry p x = Inr hp" and ct: "updated_cron lib p x = Inr ct"
    and x: "runnable job_registry lib x"
  shows "runnable job_registry lib (apply_task_update p hp ct x)"
proof -
  have "case registry_get job_registry (fst hp) of
      None \<Rightarrow> False | Some s \<Rightarrow> validate_params s (snd hp) = Some (snd hp)"
    using hp x built_in_params_again
    by (auto simp: updated_handler_def require_handler_def check_params_def runnable_def Let_def bind_res_Inr_iff
        split: if_splits option.splits)
  moreover have "validate_cron lib (fst ct) (snd ct)"
    using ct x by (auto simp: updated_cron_def check_cron_def runnable_def Let_def bind_res_Inr_iff split: if_splits)
  ultimately show ?thesis by (simp add: runnable_def apply_task_update_def split: option.splits)
qed

definition tasks_ok :: "registry \<Rightarrow> 't cron_lib \<Rightarrow> db \<Rightarrow> bool" where
  "tasks_ok reg lib d \<longleftrightarrow> coded_ok st_id st_name (sched_tasks d) \<and> table_ok tl_id (task_logs d) \<and>
     (\<forall>x \<in> set (rows (sched_tasks d)). runnable reg lib x)"

lemma tasks_ok_write:
  fixes lib :: "'t cron_lib"
  assumes ok: "tasks_ok job_registry lib d"
    and w: "task_create_op job_registry lib c d = Inr (x, d') \<or> task_update_op job_registry lib j p d = Inr (x, d')
      \<or> task_delete_op j d = Inr ((), d')"
  shows "tasks_ok job_registry lib d'"
proof -
  have k: "coded_ok st_id st_name (sched_tasks d)" using ok by (simp add: tasks_ok_def)
  have "coded_ok st_id st_name (sched_tasks d')"
    by (rule task_crud.write_ok [where ?'t = 't, OF k]) (use w in blast)
  moreover from w have "table_ok tl_id (task_logs d') \<and> (\<forall>y \<in> set (rows (sched_tasks d')). runnable job_registry lib y)"
  proof (elim disjE)
    assume c: "task_create_op job_registry lib c d = Inr (x, d')"
    then have "d' = d\<lparr>sched_tasks := appended x (sched_tasks d)\<rparr>" by (rule task_create_InrD)
    with ok runnable_created [OF c] show ?thesis by (auto simp: tasks_ok_def)
  next
    assume "task_update_op job_registry lib j p d = Inr (x, d')"
    then obtain y hp ct where y: "get_task d j = Some y" "updated_handler job_registry p y = Inr hp"
      "updated_cron lib p y = Inr ct" and d': "d' = d\<lparr>sched_tasks :=
        update_where (\<lambda>z. st_id z = j) (apply_task_update p hp ct) (sched_tasks d)\<rparr>" by (rule task_update_InrD)
    have same: "z = y" if "z \<in> set (rows (sched_tasks d))" "st_id z = j" for z
      using that y(1) k get_row_Some_iff [of st_id "sched_tasks d" j z] by (simp add: get_task_def coded_ok_def)
    have "y \<in> set (rows (sched_tasks d))"
      using y(1) get_row_SomeD [of st_id "sched_tasks d" j y] by (simp add: get_task_def)
    then have "runnable job_registry lib (apply_task_update p hp ct y)"
      using runnable_updated [OF y(2,3)] ok by (simp add: tasks_ok_def)
    then show ?thesis using ok same by (auto simp: tasks_ok_def d' ball_update_where)
  next
    assume "task_delete_op j d = Inr ((), d')"
    then have "d' = task_repo_delete j d" by (auto simp: task_delete_op_def split: option.splits)
    then show ?thesis using ok
      by (auto simp: tasks_ok_def task_repo_delete_def rows_delete_where intro!: table_ok_update)
  qed
  ultimately show ?thesis by (simp add: tasks_ok_def)
qed

lemma runnable_marked [simp]:
  "runnable reg lib (x\<lparr>st_last_run := a, st_last_status := b\<rparr>) = runnable reg lib x"
  by (simp add: runnable_def split: option.splits)

lemma tasks_ok_finish:
  assumes "tasks_ok reg lib d"
  shows "tasks_ok reg lib (finish env lg j out now d)"
proof -
  let ?f = "\<lambda>x. x\<lparr>st_last_run := Some (column_time now), st_last_status := Some (oc_status out)\<rparr>"
  let ?t = "update_where (\<lambda>x. st_id x = j) ?f (sched_tasks d)"
  have "table_ok st_id ?t" using assms by (auto simp: tasks_ok_def coded_ok_def intro!: table_ok_update)
  moreover have "map st_name (rows ?t) = map st_name (rows (sched_tasks d))" by (simp add: rows_update_where)
  ultimately have "coded_ok st_id st_name ?t" using assms by (simp add: tasks_ok_def coded_ok_def)
  moreover have "\<forall>x \<in> set (rows ?t). runnable reg lib x"
    unfolding ball_update_where using assms by (simp add: tasks_ok_def)
  moreover have "table_ok tl_id (task_logs (finish env lg j out now d))"
    using assms by (auto simp: tasks_ok_def intro!: table_ok_update)
  moreover have "sched_tasks (finish env lg j out now d) \<in> {?t, sched_tasks d}"
    by (simp add: finish_def mark_task_last_run_def Let_def)
  ultimately show ?thesis using assms by (auto simp: tasks_ok_def)
qed

lemma tasks_ok_step:
  assumes "sched_step job_registry lib d d'" "tasks_ok job_registry lib d"
  shows "tasks_ok job_registry lib d'"
  using assms(1)
proof cases
  case (claim env j tr sch a ex now r)
  from claim(2) have "table_ok tl_id (task_logs d')"
  proof (cases rule: claim_once_cases)
    case none
    with assms(2) show ?thesis by (simp add: tasks_ok_def)
  next
    case (some task l skip sch')
    with assms(2) created_log(1) [OF some(5)] show ?thesis by (simp add: tasks_ok_def)
  qed
  then show ?thesis using claim_tasks_same(1) [OF claim(2)] assms(2) by (simp add: tasks_ok_def)
next
  case (finish env out lg j now)
  show ?thesis unfolding finish(3) by (rule tasks_ok_finish [OF assms(2)])
next
  case elsewhere
  then show ?thesis using assms(2) by (simp add: tasks_ok_def)
qed (use assms(2) tasks_ok_write in blast)+

lemma tasks_ok_steps:
  "(sched_step job_registry lib)\<^sup>*\<^sup>* d d' \<Longrightarrow> tasks_ok job_registry lib d \<Longrightarrow> tasks_ok job_registry lib d'"
  by (induction rule: rtranclp_induct) (auto intro: tasks_ok_step)

text \<open>Without a timeout, a built-in handler with accepted parameters succeeds.\<close>

lemma built_in_succeeds:
  assumes "xe_registry env = job_registry" "runnable job_registry lib x"
    and "invoke env henv False (st_handler x) (st_params x) tmo d = (out, d')"
  shows "oc_status out = LogSuccess"
proof -
  from assms(2) obtain s where s: "registry_get job_registry (st_handler x) = Some s"
    "validate_params s (st_params x) = Some (st_params x)" by (auto simp: runnable_def split: option.splits)
  have "s \<in> set job_registry" using registry_get_mem [OF s(1)] by simp
  then have "\<exists>w. fst (hs_run s henv (st_params x) d) = HandlerReturns w"
    using s(2) by (auto simp: job_registry_def validate_params_def noop_handler_def echo_params_def
        echo_handler_def cleanup_handler_def split: option.splits json.splits prod.splits)
  then show ?thesis using assms(1,3) s(1)
    by (auto simp: invoke_def handler_outcome_def split: prod.splits option.splits)
qed

text \<open>
  C26 Starting without tasks and logs, every stored task can be run whatever was created, changed,
  deleted, claimed and finished: its cron expression is accepted, its handler is registered and
  accepts its parameters, and a manual run that meets no timeout ends in success, or is skipped for
  a run in progress.
\<close>

theorem stored_tasks_run:
  assumes "sched_tasks d0 = empty_table" "task_logs d0 = empty_table"
    and steps: "(sched_step job_registry lib)\<^sup>*\<^sup>* d0 d"
    and task: "get_task d i = Some task"
    and env: "xe_registry env = job_registry"
    and fresh: "\<forall>x \<in> set (rows (task_logs d)). tl_exec x \<noteq> ex"
  shows "runnable job_registry lib task \<and>
    (\<exists>l d'. manual_run env henv False i a ex now done_at d = (Inr l, d') \<and> get_log d' (tl_id l) = Some l \<and>
       tl_status l \<in> {LogSuccess, LogSkipped})"
proof
  have "tasks_ok job_registry lib d0" using assms(1,2) by (simp add: tasks_ok_def coded_ok_def table_ok_def empty_table_def)
  with tasks_ok_steps [OF steps] have ok: "tasks_ok job_registry lib d" by simp
  then show run: "runnable job_registry lib task"
    using task get_row_SomeD [of st_id "sched_tasks d" i task] by (simp add: tasks_ok_def get_task_def)
  then obtain s where s: "registry_get (xe_registry env) (st_handler task) = Some s"
    by (auto simp: runnable_def env split: option.splits)
  have m: "hs_manual s" using registry_get_mem [OF s] by (auto simp: env job_registry_def)
  have logs: "table_ok tl_id (task_logs d)" using ok by (simp add: tasks_ok_def)
  have quiet: "leaves_schedule (xe_registry env)" using built_in_leave_schedule by (simp add: env)
  define skip where "skip \<longleftrightarrow> \<not> st_concurrent task \<and>
     count_running d i (now - secs (or_default (st_timeout task) default_stale_seconds)) > 0"
  define l where "l = claim_log env task TrigManual None a ex now skip (seq (task_logs d))"
  obtain out d2 where inv: "invoke env henv False (st_handler task) (st_params task)
      (effective_timeout TrigManual (st_timeout task)) (d\<lparr>task_logs := appended l (task_logs d)\<rparr>) = (out, d2)"
    by fastforce
  define l' where "l' = (if skip then l else finished_log env out done_at l)"
  note r = manual_run_result [OF logs fresh task s m quiet skip_def l_def refl inv refl l'_def]
  have "oc_status out = LogSuccess" by (rule built_in_succeeds [OF env run inv])
  then show "\<exists>l d'. manual_run env henv False i a ex now done_at d = (Inr l, d') \<and> get_log d' (tl_id l) = Some l \<and>
       tl_status l \<in> {LogSuccess, LogSkipped}"
    by (intro exI [of _ l']) (use r in \<open>auto simp: l'_def l_def\<close>)
qed

section \<open>Concrete runs\<close>

definition minute_env :: "unit exec_env" where
  "minute_env = \<lparr>xe_registry = job_registry, xe_cron = minute_lib, xe_worker = ''w'', xe_millis = (\<lambda>t. t div 1000),
     xe_offline_text = (\<lambda>k. k), xe_timeout_text = (\<lambda>n. ''timeout'')\<rparr>"

definition minute_handlers :: handler_env where
  "minute_handlers = \<lparr>he_now = 125000000, he_validation_text = ''invalid''\<rparr>"

definition minute_task :: scheduled_task where
  "minute_task = \<lparr>st_id = 1, st_name = ''t'', st_handler = ''noop'', st_params = [], st_cron = ''* * * * *'',
     st_tz = ''UTC'', st_status = TaskEnabled, st_concurrent = False, st_grace = 30, st_timeout = None,
     st_last_run = None, st_last_status = None, st_remark = None\<rparr>"

definition minute_create :: task_create where
  "minute_create = \<lparr>kc_name = ''t'', kc_handler = ''noop'', kc_params = [], kc_cron = ''* * * * *'',
     kc_tz = ''UTC'', kc_status = TaskEnabled, kc_concurrent = False, kc_grace = 30, kc_timeout = None,
     kc_remark = None\<rparr>"

definition minute_db :: db where
  "minute_db = empty_db\<lparr>sched_tasks := \<lparr>rows = [minute_task], seq = 2\<rparr>\<rparr>"

lemma minute_db_simps:
  "get_task minute_db i = (if i = 1 then Some minute_task else None)"
  "rows (task_logs minute_db) = []" "sched_tasks minute_db = \<lparr>rows = [minute_task], seq = 2\<rparr>"
  "task_logs minute_db = empty_table"
  by (simp_all add: minute_db_def get_task_def get_row_def empty_db_def empty_table_def minute_task_def)

lemma minute_db_ok: "table_ok st_id (sched_tasks minute_db)" "table_ok tl_id (task_logs minute_db)"
  by (simp_all add: minute_db_simps table_ok_def minute_task_def empty_table_def)

lemma minute_noop: "registry_get job_registry ''noop'' =
    Some \<lparr>hs_key = ''noop'', hs_schema = None, hs_manual = True, hs_run = noop_handler\<rparr>"
  by (simp add: registry_get_def job_registry_def)

lemma minute_created: "task_create_op job_registry minute_lib minute_create empty_db = Inr (minute_task, minute_db)"
  by (simp add: task_create_op_def minute_create_def require_handler_def minute_noop check_params_def
      validate_params_def check_cron_def guard_def validate_cron_def minute_expr find_task_by_name_def
      task_repo_create_def insert_row_def new_task_def minute_task_def minute_db_def empty_db_def empty_table_def)

theorem stored_tasks_run_witness:
  "runnable job_registry minute_lib minute_task"
proof -
  have s: "(sched_step job_registry minute_lib)\<^sup>*\<^sup>* empty_db minute_db"
    using sched_step.create [OF minute_created] by blast
  have t: "get_task minute_db 1 = Some minute_task" by (simp add: minute_db_simps)
  show ?thesis
    using stored_tasks_run [OF _ _ s t, of minute_env 5] minute_db_simps
    by (simp add: empty_db_def minute_env_def)
qed


lemma minute_last_fire:
  assumes "120000000 \<le> now" "now < 180000000"
  shows "last_fire minute_lib minute_task now 120000000"
proof -
  have "v \<le> 120000000" if "v \<in> range (\<lambda>k. k * 60000000 :: int)" "v \<le> now" for v
  proof -
    from that obtain k where k: "v = k * 60000000" by blast
    then have "k < 3" using that(2) assms(2) by linarith
    then show ?thesis using k by simp
  qed
  moreover have "120000000 \<in> range (\<lambda>k. k * 60000000 :: int)" by (auto simp: image_iff intro: exI [of _ 2])
  moreover have "now - secs (st_grace minute_task + 60) \<le> 120000000"
    using assms(2) by (simp add: minute_task_def secs_def)
  ultimately show ?thesis unfolding last_fire_def
    using minute_fires [of "()"] minute_expr assms(1)
    by (intro exI [of _ "()"] exI [of _ "range (\<lambda>k. k * 60000000 :: int)"]) (simp add: minute_task_def)
qed

theorem tick_runs_once_witness:
  "\<exists>c d1. claim_once minute_env 1 TrigSchedule None None 7 125000000 minute_db = Inr (Some c, d1) \<and>
     run minute_env minute_handlers False 1 TrigSchedule None None 8 130000000 131000000 d1
       \<in> {Inr (None, d1), Inl (IntegrityErr ''execution_id'')}"
proof -
  obtain c d1 where c: "claim_once minute_env 1 TrigSchedule None None 7 125000000 minute_db = Inr (Some c, d1)"
    by (simp add: claim_once_def minute_db_simps create_log_def insert_row_def empty_table_def Let_def)
  have e: "xe_cron minute_env = minute_lib" by (simp add: minute_env_def)
  have s: "(sched_step job_registry minute_lib)\<^sup>*\<^sup>* d1 d1" by simp
  have t: "last_fire minute_lib task n 120000000"
    if "get_task minute_db 1 = Some task \<or> get_task d1 1 = Some task" "n \<in> {125000000, 130000000}" for task n
    using that minute_last_fire [of n] claim_tasks_same(1) [OF c]
    by (auto simp: minute_db_simps(1)) (simp_all add: get_task_def minute_db_simps get_row_def minute_task_def)
  have "run minute_env minute_handlers False 1 TrigSchedule None None 8 130000000 131000000 d1
       \<in> {Inr (None, d1), Inl (IntegrityErr ''execution_id'')}"
    by (rule tick_runs_once [OF c minute_db_ok(1) s e e]) (use t in auto)
  with c show ?thesis by blast
qed

theorem runs_do_not_overlap_witness:
  "\<exists>c d1 out d3. claim_once minute_env 1 TrigManual None None 7 125000000 minute_db = Inr (Some c, d1) \<and>
     run minute_env minute_handlers False 1 TrigManual None None 8 130000000 131000000 d1 = Inr (Some out, d3) \<and>
     eo_status out = LogSkipped"
proof -
  define l where "l = claim_log minute_env minute_task TrigManual None None 7 125000000 False 1"
  define d1 where "d1 = minute_db\<lparr>task_logs := \<lparr>rows = [l], seq = 2\<rparr>\<rparr>"
  have n: "count_running minute_db i t = 0" for i t by (simp add: count_running_def minute_db_simps empty_table_def)
  define c where "c = \<lparr>cr_log = 1, cr_handler = ''noop'', cr_params = [], cr_timeout = None, cr_skipped = False\<rparr>"
  have c: "claim_once minute_env 1 TrigManual None None 7 125000000 minute_db = Inr (Some c, d1)"
    unfolding c_def by (simp add: claim_once_def minute_db_simps create_log_def insert_row_def empty_table_def Let_def n l_def d1_def
        claim_key_def) (simp add: minute_task_def)
  have t: "get_task d1 1 = Some minute_task" by (simp add: d1_def minute_db_def get_task_def get_row_def minute_task_def)
  have s: "(sched_step job_registry minute_lib)\<^sup>*\<^sup>* d1 d1" by simp
  have g: "get_log d1 (cr_log c) = Some l" by (simp add: c_def d1_def get_log_def get_row_def l_def)
  have f: "\<forall>x \<in> set (rows (task_logs d1)). tl_exec x \<noteq> 8" by (simp add: d1_def l_def)
  obtain c2 d2 where "claim_once minute_env 1 TrigManual None None 8 130000000 d1 = Inr (Some c2, d2)"
    using free_claim [OF t f _ refl refl, of TrigManual minute_env None None 130000000] by simp
  then have "\<exists>out d3. run minute_env minute_handlers False 1 TrigManual None None 8 130000000 131000000 d1 =
      Inr (Some out, d3)" by (simp add: run_def split: prod.split)
  then obtain out d3 where r: "run minute_env minute_handlers False 1 TrigManual None None 8 130000000 131000000 d1 =
      Inr (Some out, d3)" by blast
  have "eo_status out = LogSkipped \<and> sched_tasks d3 = sched_tasks d1"
    by (rule runs_do_not_overlap [OF c _ minute_db_ok s g _ t _ _ r])
      (simp_all add: c_def l_def minute_task_def secs_def or_default_def default_stale_seconds_def)
  with c r show ?thesis by blast
qed

section \<open>The recorded duration\<close>

text \<open>
  The start that a run records is rounded to the second, up as well as down; the end is not when the
  duration is taken.  A run of two tenths of a second that starts in the second half of a second has a
  negative duration.
\<close>

lemma duration_can_be_negative:
  "\<exists>l d'. manual_run minute_env minute_handlers False 1 None 5 125700000 125900000 minute_db = (Inr l, d') \<and>
     tl_status l = LogSuccess \<and> tl_duration l = Some (- 100)"
proof -
  have t: "get_task minute_db 1 = Some minute_task" by (simp add: minute_db_simps)
  have n: "count_running minute_db i t = 0" for i t by (simp add: count_running_def minute_db_simps empty_table_def)
  have r: "registry_get (xe_registry minute_env) (st_handler minute_task) =
      Some \<lparr>hs_key = ''noop'', hs_schema = None, hs_manual = True, hs_run = noop_handler\<rparr>"
    using minute_noop by (simp add: minute_env_def minute_task_def)
  have q: "leaves_schedule (xe_registry minute_env)" using built_in_leave_schedule by (simp add: minute_env_def)
  have f: "\<forall>x \<in> set (rows (task_logs minute_db)). tl_exec x \<noteq> 5" by (simp add: minute_db_simps empty_table_def)
  define l where "l = claim_log minute_env minute_task TrigManual None None 5 125700000 False 1"
  have inv: "invoke minute_env minute_handlers False (st_handler minute_task) (st_params minute_task) tmo d1 =
      (handler_outcome (HandlerReturns (Some ''ok'')), d1)" for tmo d1
    using r by (simp add: invoke_def noop_handler_def split: option.splits)
  have m: "manual_run minute_env minute_handlers False 1 None 5 125700000 125900000 minute_db =
      (Inr (finished_log minute_env (handler_outcome (HandlerReturns (Some ''ok''))) 125900000 l),
       finish minute_env (tl_id l) 1 (handler_outcome (HandlerReturns (Some ''ok''))) 125900000
         (minute_db\<lparr>task_logs := appended l (task_logs minute_db)\<rparr>))"
    by (rule manual_run_result(1) [OF minute_db_ok(2) f t r _ q _ _ _ inv, where skip = False])
      (simp_all add: n l_def minute_db_simps empty_table_def)
  show ?thesis unfolding m
    by (simp add: handler_outcome_def finished_log_def l_def claim_log_def column_time_def minute_env_def)
qed

end
