(* ===== verification/FileService.thy ===== *)
theory FileService
  imports Schema Paging
begin

text \<open>
  \<^verbatim>\<open>domains/file\<close>: uploads, downloads and soft deletion.  Bytes are characters.  The backend of the
  physical files is the record \<open>storage_backend\<close>, as the service gets it injected; its contract is
  the locale \<open>storage\<close>, which the local file system (\<open>local_storage\<close>) meets.  A stream is a list of
  events: a chunk of bytes, or the exception that ends it (a lost client, a full disk).  The digest
  function and the drawn UUID are arguments; symbolic links under the storage root are not modelled.
\<close>

section \<open>The storage interface\<close>

datatype store_exn = SizeExceeded | PathInvalid | FileMissing | StreamFailed exn

datatype chunk_event = Chunk string | Fails store_exn

record stored_stat =
  ss_size :: int
  ss_sha :: string

record 's storage_backend =
  sb_write :: "string \<Rightarrow> chunk_event list \<Rightarrow> int \<Rightarrow> 's \<Rightarrow> (store_exn + stored_stat) \<times> 's"
  sb_chunks :: "string \<Rightarrow> 's \<Rightarrow> store_exn + string list"
  sb_delete :: "string \<Rightarrow> 's \<Rightarrow> (store_exn + bool) \<times> 's"
  sb_stat :: "string \<Rightarrow> 's \<Rightarrow> store_exn + int option"

section \<open>The local file system\<close>

type_synonym path = "string list"
type_synonym local_fs = "path \<Rightarrow> string option"

definition hex_char :: "char \<Rightarrow> bool" where
  "hex_char c \<longleftrightarrow> (let n = (of_char c :: nat) in 48 \<le> n \<and> n \<le> 57 \<or> 97 \<le> n \<and> n \<le> 102)"

text \<open>\<^verbatim>\<open>$\<close> also matches before a final newline.\<close>

definition object_key_re :: "string \<Rightarrow> bool" where
  "object_key_re k \<longleftrightarrow>
     (let b = (if k \<noteq> [] \<and> last k = CHR 0x0A then butlast k else k) in length b = 32 \<and> list_all hex_char b)"

fun norm_path :: "path \<Rightarrow> path \<Rightarrow> path" where
  "norm_path acc [] = rev acc"
| "norm_path acc (c # cs) =
     (if c = ''..'' then norm_path (tl acc) cs
      else if c = [] \<or> c = ''.'' then norm_path acc cs
      else norm_path (c # acc) cs)"

definition local_resolve :: "path \<Rightarrow> string \<Rightarrow> store_exn + path" where
  "local_resolve root k =
     (if \<not> object_key_re k then Inl PathInvalid
      else (let p = norm_path (rev root) [take 2 k, take 2 (drop 2 k), k]
            in if take (length root) p = root then Inr p else Inl PathInvalid))"

fun write_chunks :: "int \<Rightarrow> string \<Rightarrow> chunk_event list \<Rightarrow> store_exn + string" where
  "write_chunks max_bytes acc [] = Inr acc"
| "write_chunks max_bytes acc (Fails e # es) = Inl e"
| "write_chunks max_bytes acc (Chunk c # es) =
     (if c = [] then write_chunks max_bytes acc es
      else if int (length acc + length c) > max_bytes then Inl SizeExceeded
      else write_chunks max_bytes (acc @ c) es)"

definition local_write ::
    "(string \<Rightarrow> string) \<Rightarrow> path \<Rightarrow> string \<Rightarrow> chunk_event list \<Rightarrow> int \<Rightarrow> local_fs \<Rightarrow> (store_exn + stored_stat) \<times> local_fs" where
  "local_write sha root k es max_bytes fs =
     (case local_resolve root k of
        Inl e \<Rightarrow> (Inl e, fs)
      | Inr p \<Rightarrow>
          (case write_chunks max_bytes [] es of
             Inl e \<Rightarrow> (Inl e, fs(p := None))
           | Inr bytes \<Rightarrow> (Inr \<lparr>ss_size = int (length bytes), ss_sha = sha bytes\<rparr>, fs(p := Some bytes))))"

definition chunk_size :: nat where "chunk_size = 64 * 1024"

function chop :: "nat \<Rightarrow> string \<Rightarrow> string list" where
  "chop n s = (if s = [] \<or> n = 0 then [] else take n s # chop n (drop n s))"
  by pat_completeness auto
termination by (relation "measure (\<lambda>(n, s). length s)") auto

declare chop.simps [simp del]

definition local_chunks :: "path \<Rightarrow> string \<Rightarrow> local_fs \<Rightarrow> store_exn + string list" where
  "local_chunks root k fs =
     (case local_resolve root k of
        Inl e \<Rightarrow> Inl e
      | Inr p \<Rightarrow> (case fs p of None \<Rightarrow> Inl FileMissing | Some bytes \<Rightarrow> Inr (chop chunk_size bytes)))"

definition local_delete :: "path \<Rightarrow> string \<Rightarrow> local_fs \<Rightarrow> (store_exn + bool) \<times> local_fs" where
  "local_delete root k fs =
     (case local_resolve root k of Inl e \<Rightarrow> (Inl e, fs) | Inr p \<Rightarrow> (Inr (fs p \<noteq> None), fs(p := None)))"

definition local_stat :: "path \<Rightarrow> string \<Rightarrow> local_fs \<Rightarrow> store_exn + int option" where
  "local_stat root k fs =
     (case local_resolve root k of
        Inl e \<Rightarrow> Inl e
      | Inr p \<Rightarrow> Inr (map_option (\<lambda>bytes. int (length bytes)) (fs p)))"

definition local_storage :: "(string \<Rightarrow> string) \<Rightarrow> path \<Rightarrow> local_fs storage_backend" where
  "local_storage sha root = \<lparr>sb_write = local_write sha root, sb_chunks = local_chunks root,
     sb_delete = local_delete root, sb_stat = local_stat root\<rparr>"

section \<open>Upload checks\<close>

definition extract_ext :: "string \<Rightarrow> string" where
  "extract_ext name = (if CHR ''.'' \<notin> set name then [] else py_lower (last (py_split_on CHR ''.'' name)))"

definition zip_magic :: string where "zip_magic = [CHR ''P'', CHR ''K'', CHR 0x03, CHR 0x04]"
definition jpeg_magic :: string where "jpeg_magic = [CHR 0xFF, CHR 0xD8, CHR 0xFF]"

definition magic_signatures :: "(string \<times> string list) list" where
  "magic_signatures =
     [(''pdf'', [''%PDF'']),
      (''png'', [[CHR 0x89, CHR ''P'', CHR ''N'', CHR ''G'', CHR 0x0D, CHR 0x0A, CHR 0x1A, CHR 0x0A]]),
      (''jpg'', [jpeg_magic]), (''jpeg'', [jpeg_magic]), (''gif'', [''GIF87a'', ''GIF89a'']),
      (''xlsx'', [zip_magic]), (''docx'', [zip_magic]), (''zip'', [zip_magic])]"

definition magic_peek :: nat where "magic_peek = 8"

definition extension_not_allowed :: exn where "extension_not_allowed = AppErr ''file.EXTENSION_NOT_ALLOWED'' 415"
definition content_type_mismatch :: exn where "content_type_mismatch = AppErr ''file.CONTENT_TYPE_MISMATCH'' 415"
definition size_exceeded :: exn where "size_exceeded = AppErr ''file.SIZE_EXCEEDED'' 413"
definition empty_file :: exn where "empty_file = AppErr ''file.EMPTY_FILE'' 422"
definition file_not_found :: exn where "file_not_found = AppErr ''file.NOT_FOUND'' 404"

definition verify_magic :: "string \<Rightarrow> string \<Rightarrow> exn + unit" where
  "verify_magic ext header =
     (if header = [] then Inr ()
      else (case map_of magic_signatures ext of
              None \<Rightarrow> Inr ()
            | Some sigs \<Rightarrow> guard (sigs = [] \<or> list_ex (\<lambda>s. starts_with s header) sigs) content_type_mismatch))"

text \<open>The generator that checks the first bytes before it lets any through.\<close>

fun verify_and_rechain :: "string \<Rightarrow> string \<Rightarrow> chunk_event list \<Rightarrow> chunk_event list" where
  "verify_and_rechain ext head [] =
     (case verify_magic ext head of
        Inl e \<Rightarrow> [Fails (StreamFailed e)]
      | Inr _ \<Rightarrow> if head = [] then [] else [Chunk head])"
| "verify_and_rechain ext head (Fails e # es) = [Fails e]"
| "verify_and_rechain ext head (Chunk c # es) =
     (if magic_peek \<le> length (head @ c)
      then (case verify_magic ext (head @ c) of
              Inl e \<Rightarrow> [Fails (StreamFailed e)]
            | Inr _ \<Rightarrow> Chunk (head @ c) # es)
      else verify_and_rechain ext (head @ c) es)"

section \<open>Repository\<close>

definition new_file :: "string \<Rightarrow> string \<Rightarrow> string \<Rightarrow> string \<Rightarrow> stored_stat \<Rightarrow> int \<Rightarrow> int \<Rightarrow> file_row" where
  "new_file k backend name ctype st uploader i =
     \<lparr>f_id = i, f_key = k, f_backend = backend, f_name = name, f_ctype = ctype, f_size = ss_size st,
      f_sha = ss_sha st, f_uploader = uploader, f_status = FileActive, f_deleted = None\<rparr>"

definition file_repo_create :: "(int \<Rightarrow> file_row) \<Rightarrow> db \<Rightarrow> exn + file_row \<times> db" where
  "file_repo_create mk d =
     (case insert_row mk (files d) of (r, t) \<Rightarrow>
        if list_ex (\<lambda>x. f_key x = f_key r) (rows (files d)) then Inl (IntegrityErr ''uq_files_object_key'')
        else if get_user d (f_uploader r) = None then Inl (IntegrityErr ''fk_files_uploader_id'')
        else Inr (r, d\<lparr>files := t\<rparr>))"

definition get_active :: "db \<Rightarrow> int \<Rightarrow> file_row option" where
  "get_active d i = find (\<lambda>r. f_id r = i \<and> f_status r = FileActive) (rows (files d))"

definition list_active :: "db \<Rightarrow> file_row list" where
  "list_active d = rev (sort_key f_id (filter (\<lambda>r. f_status r = FileActive) (rows (files d))))"

definition soft_delete :: "int \<Rightarrow> int \<Rightarrow> db \<Rightarrow> file_row option \<times> db" where
  "soft_delete i now d =
     (case get_active d i of
        None \<Rightarrow> (None, d)
      | Some r \<Rightarrow>
          (Some (r\<lparr>f_status := FileDeleted, f_deleted := Some now\<rparr>),
           d\<lparr>files := update_where (\<lambda>x. f_id x = i) (\<lambda>x. x\<lparr>f_status := FileDeleted, f_deleted := Some now\<rparr>)
                       (files d)\<rparr>))"

section \<open>Service\<close>

record file_config =
  fc_max :: int
  fc_allowed :: "string list"
  fc_backend :: string

definition store_raise :: "store_exn \<Rightarrow> exn" where
  "store_raise e = (case e of
     StreamFailed x \<Rightarrow> x | SizeExceeded \<Rightarrow> RuntimeErr ''FileSizeExceeded''
   | PathInvalid \<Rightarrow> RuntimeErr ''StoragePathError'' | FileMissing \<Rightarrow> RuntimeErr ''FileNotFoundError'')"

text \<open>Removing the physical file on the way out of an error \<open>e\<close>.\<close>

definition clean_up ::
    "'s storage_backend \<Rightarrow> string \<Rightarrow> exn \<Rightarrow> db \<Rightarrow> 's \<Rightarrow> (exn + 'a) \<times> db \<times> 's" where
  "clean_up B k e d s =
     (case sb_delete B k s of (Inl x, s') \<Rightarrow> (Inl (store_raise x), d, s') | (Inr _, s') \<Rightarrow> (Inl e, d, s'))"

definition file_upload ::
    "'s storage_backend \<Rightarrow> file_config \<Rightarrow> string \<Rightarrow> string \<Rightarrow> chunk_event list \<Rightarrow> int \<Rightarrow> string \<Rightarrow> db \<Rightarrow> 's
      \<Rightarrow> (exn + file_row) \<times> db \<times> 's" where
  "file_upload B C name ctype stream uploader k d s =
     (let ext = extract_ext name in
      if ext \<notin> set (map py_lower (fc_allowed C)) then (Inl extension_not_allowed, d, s)
      else (case sb_write B k (verify_and_rechain ext [] stream) (fc_max C) s of
              (Inl SizeExceeded, s') \<Rightarrow> (Inl size_exceeded, d, s')
            | (Inl e, s') \<Rightarrow> (Inl (store_raise e), d, s')
            | (Inr st, s') \<Rightarrow>
                if ss_size st = 0 then clean_up B k empty_file d s'
                else (case file_repo_create (new_file k (fc_backend C) (take 255 name) (take 128 ctype) st uploader) d of
                        Inl e \<Rightarrow> clean_up B k e d s'
                      | Inr (r, d') \<Rightarrow> (Inr r, d', s'))))"

definition file_get :: "db \<Rightarrow> int \<Rightarrow> exn + file_row" where
  "file_get d i = (case get_active d i of None \<Rightarrow> Inl file_not_found | Some r \<Rightarrow> Inr r)"

definition file_list :: "db \<Rightarrow> int \<Rightarrow> int \<Rightarrow> file_row page_result" where
  "file_list d page sz = make_page page sz (list_active d)"

text \<open>The metadata and the content as it is streamed.\<close>

definition prepare_download :: "'s storage_backend \<Rightarrow> db \<Rightarrow> 's \<Rightarrow> int \<Rightarrow> exn + file_row \<times> (store_exn + string list)" where
  "prepare_download B d s i =
     (case get_active d i of
        None \<Rightarrow> Inl file_not_found
      | Some r \<Rightarrow>
          (case sb_stat B (f_key r) s of
             Inl e \<Rightarrow> Inl (store_raise e)
           | Inr None \<Rightarrow> Inl file_not_found
           | Inr (Some n) \<Rightarrow> Inr (r, sb_chunks B (f_key r) s)))"

definition file_delete :: "int \<Rightarrow> int \<Rightarrow> db \<Rightarrow> exn + string \<times> db" where
  "file_delete i now d =
     (case soft_delete i now d of (None, _) \<Rightarrow> Inl file_not_found | (Some r, d') \<Rightarrow> Inr (f_key r, d'))"

definition delete_physical :: "'s storage_backend \<Rightarrow> string \<Rightarrow> 's \<Rightarrow> 's" where
  "delete_physical B k s = snd (sb_delete B k s)"

section \<open>Requests\<close>

text \<open>
  The transaction of a request ends when its dependencies are torn down, and the commit may fail.
  The deletion request registers the physical deletion as a background task, which the framework
  runs either after the commit (\<open>commit_first\<close>) or, with the response, before it.
\<close>

definition upload_request ::
    "'s storage_backend \<Rightarrow> file_config \<Rightarrow> string \<Rightarrow> string \<Rightarrow> chunk_event list \<Rightarrow> int \<Rightarrow> string \<Rightarrow> bool \<Rightarrow> db \<Rightarrow> 's \<Rightarrow> db \<times> 's" where
  "upload_request B C name ctype stream uploader k commits d s =
     (case file_upload B C name ctype stream uploader k d s of
        (Inl e, d', s') \<Rightarrow> (d, s')
      | (Inr r, d', s') \<Rightarrow> (if commits then d' else d, s'))"

definition delete_request ::
    "'s storage_backend \<Rightarrow> bool \<Rightarrow> int \<Rightarrow> int \<Rightarrow> bool \<Rightarrow> db \<Rightarrow> 's \<Rightarrow> db \<times> 's" where
  "delete_request B commit_first i now commits d s =
     (case file_delete i now d of
        Inl e \<Rightarrow> (d, s)
      | Inr (k, d') \<Rightarrow>
          if commits then (d', delete_physical B k s)
          else (d, if commit_first then s else delete_physical B k s))"

end
