(* ===== verification/FileTheorems.thy ===== *)
theory FileTheorems
  imports FileService Crud
begin

text \<open>
  The storage contract, its interpretation on the local file system, and the properties of the file
  service.
\<close>

section \<open>Streams of chunks\<close>

lemma write_chunks_plain:
  "int (length acc) \<le> m \<Longrightarrow> write_chunks m acc (map Chunk cs) =
     (if m < int (length acc + length (concat cs)) then Inl SizeExceeded else Inr (acc @ concat cs))"
  by (induction cs arbitrary: acc) auto

lemma starts_with_long_append: "length p \<le> length s \<Longrightarrow> starts_with p (s @ t) = starts_with p s"
  by (simp add: starts_with_def)

lemma signatures_short:
  "map_of magic_signatures ext = Some sigs \<Longrightarrow> s \<in> set sigs \<Longrightarrow> length s \<le> magic_peek"
proof -
  assume "map_of magic_signatures ext = Some sigs" "s \<in> set sigs"
  moreover have "list_all (\<lambda>p. list_all (\<lambda>s. length s \<le> magic_peek) (snd p)) magic_signatures"
    by (simp add: magic_signatures_def magic_peek_def zip_magic_def jpeg_magic_def)
  ultimately show ?thesis by (fastforce simp: list_all_iff dest: map_of_SomeD)
qed

lemma verify_magic_append:
  assumes "magic_peek \<le> length head"
  shows "verify_magic ext (head @ rest) = verify_magic ext head"
proof (cases "map_of magic_signatures ext")
  case (Some sigs)
  have "list_ex (\<lambda>s. starts_with s (head @ rest)) sigs = list_ex (\<lambda>s. starts_with s head) sigs"
  proof -
    have "starts_with s (head @ rest) = starts_with s head" if "s \<in> set sigs" for s
      using starts_with_long_append [of s head] signatures_short [OF Some that] assms by simp
    then show ?thesis by (simp add: list_ex_iff)
  qed
  moreover have "head \<noteq> []" using assms by (auto simp: magic_peek_def)
  ultimately show ?thesis by (simp add: verify_magic_def Some)
qed (use assms in \<open>auto simp: verify_magic_def magic_peek_def\<close>)

text \<open>What is stored depends on the bytes only, not on how they are cut into chunks.\<close>

lemma write_rechained:
  assumes "length head < magic_peek" "int magic_peek \<le> m"
  shows "write_chunks m [] (verify_and_rechain ext head (map Chunk cs)) =
    (case verify_magic ext (head @ concat cs) of
       Inl e \<Rightarrow> Inl (StreamFailed e)
     | Inr _ \<Rightarrow> if m < int (length (head @ concat cs)) then Inl SizeExceeded else Inr (head @ concat cs))"
  using assms(1)
proof (induction cs arbitrary: head)
  case Nil
  then show ?case using assms(2) by (simp add: magic_peek_def split: sum.split)
next
  case (Cons c cs)
  show ?case
  proof (cases "magic_peek \<le> length (head @ c)")
    case True
    then have "verify_magic ext (head @ c @ concat cs) = verify_magic ext (head @ c)"
      using verify_magic_append [of "head @ c"] by simp
    moreover have "head @ c \<noteq> []" using True by (auto simp: magic_peek_def)
    ultimately show ?thesis using True
      by (auto simp: write_chunks_plain split: sum.split)
  next
    case False
    then show ?thesis using Cons.IH [of "head @ c", unfolded append_assoc]
      by (cases "verify_magic ext (head @ c @ concat cs)") simp_all
  qed
qed

lemma chop_concat: "0 < n \<Longrightarrow> concat (chop n s) = s"
  by (induction n s rule: chop.induct) (subst chop.simps, auto)

section \<open>The contract of a storage backend\<close>

locale storage =
  fixes B :: "'s storage_backend"
    and view :: "'s \<Rightarrow> string \<Rightarrow> string option"
    and sha :: "string \<Rightarrow> string"
    and key_ok :: "string \<Rightarrow> bool"
  assumes write_done: "key_ok k \<Longrightarrow> write_chunks m [] es = Inr bytes \<Longrightarrow>
      \<exists>s'. sb_write B k es m s = (Inr \<lparr>ss_size = int (length bytes), ss_sha = sha bytes\<rparr>, s') \<and>
        view s' = (view s)(k := Some bytes)"
    and write_failed: "key_ok k \<Longrightarrow> write_chunks m [] es = Inl e \<Longrightarrow>
      \<exists>s'. sb_write B k es m s = (Inl e, s') \<and> view s' = (view s)(k := None)"
    and delete_law: "key_ok k \<Longrightarrow> \<exists>s'. sb_delete B k s = (Inr (view s k \<noteq> None), s') \<and> view s' = (view s)(k := None)"
    and stat_law: "key_ok k \<Longrightarrow> sb_stat B k s = Inr (map_option (\<lambda>b. int (length b)) (view s k))"
    and chunks_law: "key_ok k \<Longrightarrow> view s k = Some bytes \<Longrightarrow> \<exists>cs. sb_chunks B k s = Inr cs \<and> concat cs = bytes"

section \<open>What the service promises\<close>

text \<open>An upload on the whole content: the checks in order, then the row.\<close>

definition upload_spec ::
    "(string \<Rightarrow> string) \<Rightarrow> file_config \<Rightarrow> string \<Rightarrow> string \<Rightarrow> string \<Rightarrow> int \<Rightarrow> string \<Rightarrow> db \<Rightarrow> exn + file_row \<times> db" where
  "upload_spec sha C name ctype content uploader k d =
     bind_res (guard (extract_ext name \<in> set (map py_lower (fc_allowed C))) extension_not_allowed) (\<lambda>_.
     bind_res (guard (content \<noteq> []) empty_file) (\<lambda>_.
     bind_res (verify_magic (extract_ext name) content) (\<lambda>_.
     bind_res (guard (int (length content) \<le> fc_max C) size_exceeded) (\<lambda>_.
       file_repo_create (new_file k (fc_backend C) (take 255 name) (take 128 ctype)
         \<lparr>ss_size = int (length content), ss_sha = sha content\<rparr> uploader) d))))"

definition files_ok :: "('s \<Rightarrow> string \<Rightarrow> string option) \<Rightarrow> (string \<Rightarrow> string) \<Rightarrow> (string \<Rightarrow> bool) \<Rightarrow> db \<Rightarrow> 's \<Rightarrow> bool" where
  "files_ok view sha key_ok d s \<longleftrightarrow> coded_ok f_id f_key (files d) \<and>
     (\<forall>r \<in> set (rows (files d)). key_ok (f_key r) \<and> (f_status r = FileActive \<longrightarrow>
        (\<exists>bytes. view s (f_key r) = Some bytes \<and> f_size r = int (length bytes) \<and> f_sha r = sha bytes)))"

lemma file_create_InrD:
  assumes "file_repo_create mk d = Inr (r, d')"
  shows "r = mk (seq (files d))" and "d' = d\<lparr>files := appended r (files d)\<rparr>"
    and "f_key r \<notin> f_key ` set (rows (files d))"
  using assms by (auto simp: file_repo_create_def insert_row_appended list_ex_iff split: if_splits)

lemma verify_magic_Inl: "verify_magic ext h = Inl e \<Longrightarrow> e = content_type_mismatch"
  by (auto simp: verify_magic_def split: if_splits option.splits)

context storage begin

lemma cleaned_up:
  assumes "key_ok k"
  shows "\<exists>s'. clean_up B k e d s = (Inl e, d, s') \<and> view s' = (view s)(k := None)"
  using delete_law [OF assms, of s] by (auto simp: clean_up_def)

lemma cleaned_up_res:
  assumes "key_ok k" "clean_up B k e d s = (res, d', s')"
  shows "res = Inl e" "d' = d" "view s' = (view s)(k := None)"
  using delete_law [OF assms(1), of s] assms(2) by (auto simp: clean_up_def)

lemma upload_stream:
  assumes k: "key_ok k" "view s k = None" and u: "file_upload B C name ctype es uploader k d s = (res, d', s')"
  shows "case res of
      Inl e \<Rightarrow> d' = d \<and> view s' = view s
    | Inr r \<Rightarrow> \<exists>bytes. write_chunks (fc_max C) [] (verify_and_rechain (extract_ext name) [] es) = Inr bytes \<and>
        view s' = (view s)(k := Some bytes) \<and>
        file_repo_create (new_file k (fc_backend C) (take 255 name) (take 128 ctype)
          \<lparr>ss_size = int (length bytes), ss_sha = sha bytes\<rparr> uploader) d = Inr (r, d')"
proof (cases "extract_ext name \<in> set (map py_lower (fc_allowed C))")
  case True
  note t = True
  have same: "(view s)(k := None) = view s" using k(2) by (simp add: fun_upd_idem)
  show ?thesis
  proof (cases "write_chunks (fc_max C) [] (verify_and_rechain (extract_ext name) [] es)")
    case (Inl e)
    from write_failed [OF k(1) this, of s] same obtain z
      where "sb_write B k (verify_and_rechain (extract_ext name) [] es) (fc_max C) s = (Inl e, z)"
        "view z = view s" by auto
    with u t show ?thesis by (cases e) (auto simp: file_upload_def Let_def)
  next
    case (Inr bytes)
    from write_done [OF k(1) this, of s] obtain z
      where w: "sb_write B k (verify_and_rechain (extract_ext name) [] es) (fc_max C) s =
          (Inr \<lparr>ss_size = int (length bytes), ss_sha = sha bytes\<rparr>, z)"
        and z: "view z = (view s)(k := Some bytes)" by blast
    have undo: "\<exists>y. clean_up B k e d z = (Inl e :: exn + file_row, d, y) \<and> view y = view s" for e
    proof -
      from cleaned_up [OF k(1), of e d z] obtain y
        where "clean_up B k e d z = (Inl e :: exn + file_row, d, y)" "view y = (view z)(k := None)" by blast
      then show ?thesis using z same by auto
    qed
    let ?mk = "new_file k (fc_backend C) (take 255 name) (take 128 ctype)
      \<lparr>ss_size = int (length bytes), ss_sha = sha bytes\<rparr> uploader"
    show ?thesis
    proof (cases "bytes = []")
      case True
      have "file_upload B C name ctype es uploader k d s = clean_up B k empty_file d z"
        using t w True by (simp add: file_upload_def Let_def)
      with undo [of empty_file] u show ?thesis by auto
    next
      case False
      show ?thesis
      proof (cases "file_repo_create ?mk d")
        case (Inl e)
        have "file_upload B C name ctype es uploader k d s = clean_up B k e d z"
          using t w False Inl by (simp add: file_upload_def Let_def)
        with undo [of e] u show ?thesis by auto
      next
        case c: (Inr p)
        obtain r d2 where p: "p = (r, d2)" by (cases p)
        have "file_upload B C name ctype es uploader k d s = (Inr r, d2, z)"
          using t w False c p by (simp add: file_upload_def Let_def)
        with u z c p Inr show ?thesis by auto
      qed
    qed
  qed
qed (use u in \<open>auto simp: file_upload_def Let_def\<close>)

lemma upload_whole:
  assumes k: "key_ok k" "view s k = None" and m: "int magic_peek \<le> fc_max C"
    and u: "file_upload B C name ctype (map Chunk cs) uploader k d s = (res, d', s')"
  shows "case upload_spec sha C name ctype (concat cs) uploader k d of
      Inl e \<Rightarrow> res = Inl e \<and> d' = d \<and> view s' = view s
    | Inr (r, d1) \<Rightarrow> res = Inr r \<and> d' = d1 \<and> view s' = (view s)(k := Some (concat cs))"
proof (cases "extract_ext name \<in> set (map py_lower (fc_allowed C))")
  case True
  note t = True
  let ?ext = "extract_ext name"
  note w = write_rechained [of "[]" "fc_max C" ?ext cs, simplified append_Nil]
  have w: "write_chunks (fc_max C) [] (verify_and_rechain ?ext [] (map Chunk cs)) =
    (case verify_magic ?ext (concat cs) of
       Inl e \<Rightarrow> Inl (StreamFailed e)
     | Inr _ \<Rightarrow> if fc_max C < int (length (concat cs)) then Inl SizeExceeded else Inr (concat cs))"
    by (rule w) (use m in \<open>simp_all add: magic_peek_def\<close>)
  note us = upload_stream [OF k u]
  show ?thesis
  proof (cases "write_chunks (fc_max C) [] (verify_and_rechain ?ext [] (map Chunk cs))")
    case (Inl e)
    from write_failed [OF k(1) this, of s] obtain z
      where z: "sb_write B k (verify_and_rechain ?ext [] (map Chunk cs)) (fc_max C) s = (Inl e, z)" by blast
    have "\<exists>x. res = Inl x" using u t z by (cases e) (auto simp: file_upload_def Let_def)
    then obtain x where x: "res = Inl x" by blast
    have "concat cs \<noteq> []"
    proof
      assume n: "concat cs = []"
      show False using Inl m unfolding w n by (simp add: verify_magic_def magic_peek_def)
    qed
    moreover have "upload_spec sha C name ctype (concat cs) uploader k d = Inl x"
      using u t z x w Inl \<open>concat cs \<noteq> []\<close>
      by (auto simp: file_upload_def Let_def upload_spec_def store_raise_def
          split: sum.splits if_splits)
    ultimately show ?thesis using us x by simp
  next
    case (Inr bytes)
    then have b: "bytes = concat cs" "verify_magic ?ext (concat cs) = Inr ()" "int (length (concat cs)) \<le> fc_max C"
      using w by (auto split: sum.splits if_splits)
    from write_done [OF k(1) Inr, of s] obtain z
      where z: "sb_write B k (verify_and_rechain ?ext [] (map Chunk cs)) (fc_max C) s =
        (Inr \<lparr>ss_size = int (length bytes), ss_sha = sha bytes\<rparr>, z)" by blast
    let ?mk = "new_file k (fc_backend C) (take 255 name) (take 128 ctype)
      \<lparr>ss_size = int (length bytes), ss_sha = sha bytes\<rparr> uploader"
    have fu: "file_upload B C name ctype (map Chunk cs) uploader k d s =
        (if bytes = [] then clean_up B k empty_file d z
         else case file_repo_create ?mk d of Inl e \<Rightarrow> clean_up B k e d z | Inr (r, d') \<Rightarrow> (Inr r, d', z))"
      using t z by (simp add: file_upload_def Let_def)
    have sp: "upload_spec sha C name ctype (concat cs) uploader k d =
        (if bytes = [] then Inl empty_file else file_repo_create ?mk d)"
      using t b by (simp add: upload_spec_def)
    have out: "res = Inl e" if "file_upload B C name ctype (map Chunk cs) uploader k d s = clean_up B k e d z" for e
      using u that cleaned_up_res(1) [OF k(1), of e d z res d' s'] by simp
    show ?thesis
    proof (cases "bytes = []")
      case True
      with fu out [of empty_file] us sp show ?thesis by simp
    next
      case False
      show ?thesis
      proof (cases "file_repo_create ?mk d")
        case (Inl e)
        with False fu out [of e] us sp show ?thesis by simp
      next
        case c: (Inr p)
        obtain r d2 where p: "p = (r, d2)" by (cases p)
        have "res = Inr r" "d' = d2" using fu False c p u by simp_all
        with us sp False c p Inr b show ?thesis by auto
      qed
    qed
  qed
next
  case False
  then have "file_upload B C name ctype (map Chunk cs) uploader k d s = (Inl extension_not_allowed, d, s)"
    by (simp add: file_upload_def Let_def)
  moreover have "upload_spec sha C name ctype (concat cs) uploader k d = Inl extension_not_allowed"
    using False by (simp add: upload_spec_def)
  ultimately show ?thesis using u by simp
qed

lemma upload_request_ok:
  assumes ok: "files_ok view sha key_ok d s" and k: "key_ok k" "view s k = None"
    and u: "upload_request B C name ctype es uploader k commits d s = (d', s')"
    and fresh: "k \<notin> f_key ` set (rows (files d))"
  shows "files_ok view sha key_ok d' s'"
proof -
  obtain res d1 s1 where f: "file_upload B C name ctype es uploader k d s = (res, d1, s1)"
    by (cases "file_upload B C name ctype es uploader k d s") auto
  have keep: "files_ok view sha key_ok d s1" if "view s1 = (view s)(k := v)" for v
    using ok fresh that by (auto simp: files_ok_def)
  show ?thesis
  proof (cases res)
    case (Inl e)
    then have "d' = d" "s' = s1" using u f by (simp_all add: upload_request_def)
    moreover have "view s1 = (view s)(k := None)" using upload_stream [OF k f] Inl k(2) by (simp add: fun_upd_idem)
    ultimately show ?thesis using keep by simp
  next
    case (Inr r)
    then have d': "d' = (if commits then d1 else d)" "s' = s1" using u f by (simp_all add: upload_request_def)
    from upload_stream [OF k f] Inr obtain bytes where v: "view s1 = (view s)(k := Some bytes)"
      and c: "file_repo_create (new_file k (fc_backend C) (take 255 name) (take 128 ctype)
          \<lparr>ss_size = int (length bytes), ss_sha = sha bytes\<rparr> uploader) d = Inr (r, d1)" by auto
    note r = file_create_InrD [OF c]
    have fr: "f_key r = k" "f_id r = seq (files d)" "f_size r = int (length bytes)" "f_sha r = sha bytes"
      using r(1) by (simp_all add: new_file_def)
    have "coded_ok f_id f_key (files d1)"
      using ok r(3) fr(2) by (simp add: r(2) files_ok_def coded_ok_appended)
    moreover have "\<forall>x \<in> set (rows (files d1)). key_ok (f_key x) \<and> (f_status x = FileActive \<longrightarrow>
        (\<exists>b. view s1 (f_key x) = Some b \<and> f_size x = int (length b) \<and> f_sha x = sha b))"
    proof -
      have "f_key x \<noteq> k" if "x \<in> set (rows (files d))" for x using fresh that by auto
      then show ?thesis using ok fr k(1) v by (auto simp: r(2) files_ok_def)
    qed
    ultimately have "files_ok view sha key_ok d1 s1" by (simp add: files_ok_def)
    then show ?thesis using d' keep [OF v] by simp
  qed
qed

lemma delete_request_ok:
  assumes ok: "files_ok view sha key_ok d s" and u: "delete_request B True i now commits d s = (d', s')"
  shows "files_ok view sha key_ok d' s'"
proof (cases "get_active d i")
  case None
  with u ok show ?thesis by (simp add: delete_request_def file_delete_def soft_delete_def)
next
  case (Some r)
  then have r: "r \<in> set (rows (files d))" "f_id r = i" by (auto simp: get_active_def find_Some_iff)
  let ?f = "\<lambda>x. x\<lparr>f_status := FileDeleted, f_deleted := Some now\<rparr>"
  let ?t = "update_where (\<lambda>x. f_id x = i) ?f (files d)"
  have t: "table_ok f_id (files d)" using ok by (simp add: files_ok_def coded_ok_def)
  have u': "(d', s') = (if commits then (d\<lparr>files := ?t\<rparr>, delete_physical B (f_key r) s) else (d, s))"
    using u Some by (simp add: delete_request_def file_delete_def soft_delete_def split: if_splits)
  show ?thesis
  proof (cases commits)
    case False
    with u' ok show ?thesis by simp
  next
    case True
    have k: "key_ok (f_key r)" using ok r(1) by (simp add: files_ok_def)
    have v: "view s' = (view s)(f_key r := None)"
      using delete_law [OF k, of s] u' True by (auto simp: delete_physical_def)
    have same: "x = r" if "x \<in> set (rows (files d))" "f_id x = i" for x
      using get_row_inj [OF t that(1) r(1)] that(2) r(2) by simp
    have other: "f_key x \<noteq> f_key r" if "x \<in> set (rows (files d))" "f_id x \<noteq> i" for x
      using ok that r by (auto simp: files_ok_def coded_ok_def distinct_map inj_on_def)
    have "map f_key (rows ?t) = map f_key (rows (files d))" by (simp add: rows_update_where)
    then have "coded_ok f_id f_key ?t"
      using ok table_ok_update [OF t, of ?f] by (simp add: files_ok_def coded_ok_def)
    moreover have "\<forall>x \<in> set (rows ?t). key_ok (f_key x) \<and> (f_status x = FileActive \<longrightarrow>
        (\<exists>b. view s' (f_key x) = Some b \<and> f_size x = int (length b) \<and> f_sha x = sha b))"
      unfolding ball_update_where using ok v other by (auto simp: files_ok_def)
    ultimately show ?thesis using u' True by (simp add: files_ok_def)
  qed
qed

lemma active_downloads:
  assumes "files_ok view sha key_ok d s" "get_active d i = Some r"
  shows "\<exists>cs. prepare_download B d s i = Inr (r, Inr cs) \<and>
    f_size r = int (length (concat cs)) \<and> f_sha r = sha (concat cs)"
proof -
  have r: "r \<in> set (rows (files d))" "f_status r = FileActive"
    using assms(2) by (auto simp: get_active_def find_Some_iff)
  with assms(1) obtain b where b: "key_ok (f_key r)" "view s (f_key r) = Some b"
    "f_size r = int (length b)" "f_sha r = sha b" by (auto simp: files_ok_def)
  with stat_law [OF b(1), of s] chunks_law [OF b(1,2)] assms(2) show ?thesis
    by (auto simp: prepare_download_def)
qed

end

section \<open>The local file system meets it\<close>

definition local_view :: "path \<Rightarrow> local_fs \<Rightarrow> string \<Rightarrow> string option" where
  "local_view root fs k = (case local_resolve root k of Inl _ \<Rightarrow> None | Inr p \<Rightarrow> fs p)"

lemma hex_not_dots: "hex_char c \<Longrightarrow> c \<noteq> CHR ''.''"
  by (auto simp: hex_char_def)

lemma object_key_parts:
  assumes "object_key_re k"
  shows "take 2 k \<notin> {[], ''.'', ''..''}" "take 2 (drop 2 k) \<notin> {[], ''.'', ''..''}" "k \<notin> {[], ''.'', ''..''}"
proof -
  define b where "b = (if k \<noteq> [] \<and> last k = CHR 0x0A then butlast k else k)"
  have b: "length b = 32" "list_all hex_char b" using assms by (simp_all add: object_key_re_def b_def Let_def)
  have pre: "\<exists>t. k = b @ t"
    by (cases "k \<noteq> [] \<and> last k = CHR 0x0A") (auto simp: b_def intro: append_butlast_last_id [symmetric])
  have "4 \<le> length b" using b(1) by simp
  then obtain x y z w r where "b = x # y # z # w # r" by (auto simp: Suc_le_length_iff eval_nat_numeral)
  moreover from pre obtain t where "k = b @ t" by blast
  ultimately have k: "k = x # y # z # w # r @ t" "x \<noteq> CHR ''.''" "z \<noteq> CHR ''.''"
    using b(2) hex_not_dots by (auto simp: list_all_iff)
  show "take 2 k \<notin> {[], ''.'', ''..''}" "take 2 (drop 2 k) \<notin> {[], ''.'', ''..''}" "k \<notin> {[], ''.'', ''..''}"
    using k(2,3) by (simp_all add: k(1) numeral_2_eq_2)
qed

lemma local_resolve_ok:
  "object_key_re k \<Longrightarrow> local_resolve root k = Inr (root @ [take 2 k, take 2 (drop 2 k), k])"
  using object_key_parts [of k] by (simp add: local_resolve_def)

lemma local_resolve_Inr:
  "local_resolve root k = Inr p \<Longrightarrow> p = root @ [take 2 k, take 2 (drop 2 k), k]"
  using local_resolve_ok [of k root] by (simp add: local_resolve_def split: if_splits)

lemma local_view_update:
  assumes "local_resolve root k = Inr p"
  shows "local_view root (fs(p := v)) = (local_view root fs)(k := v)"
proof
  fix j
  show "local_view root (fs(p := v)) j = ((local_view root fs)(k := v)) j"
    using assms local_resolve_Inr [OF assms]
    by (cases "local_resolve root j") (auto simp: local_view_def dest: local_resolve_Inr)
qed

interpretation local: storage "local_storage sha root" "local_view root" sha object_key_re
proof
  fix k m es bytes and s :: local_fs
  assume k: "object_key_re k" and w: "write_chunks m [] es = Inr bytes"
  show "\<exists>s'. sb_write (local_storage sha root) k es m s =
      (Inr \<lparr>ss_size = int (length bytes), ss_sha = sha bytes\<rparr>, s') \<and>
      local_view root s' = (local_view root s)(k := Some bytes)"
    using local_view_update [OF local_resolve_ok [OF k, of root]]
    by (simp add: local_storage_def local_write_def local_resolve_ok [OF k] w)
next
  fix k m es e and s :: local_fs
  assume k: "object_key_re k" and w: "write_chunks m [] es = Inl e"
  show "\<exists>s'. sb_write (local_storage sha root) k es m s = (Inl e, s') \<and>
      local_view root s' = (local_view root s)(k := None)"
    using local_view_update [OF local_resolve_ok [OF k, of root]]
    by (simp add: local_storage_def local_write_def local_resolve_ok [OF k] w)
next
  fix k and s :: local_fs
  assume k: "object_key_re k"
  show "\<exists>s'. sb_delete (local_storage sha root) k s = (Inr (local_view root s k \<noteq> None), s') \<and>
      local_view root s' = (local_view root s)(k := None)"
    using local_view_update [OF local_resolve_ok [OF k, of root]]
    by (simp add: local_storage_def local_delete_def local_resolve_ok [OF k] local_view_def)
  show "sb_stat (local_storage sha root) k s = Inr (map_option (\<lambda>b. int (length b)) (local_view root s k))"
    by (simp add: local_storage_def local_stat_def local_resolve_ok [OF k] local_view_def)
  fix bytes assume "local_view root s k = Some bytes"
  then show "\<exists>cs. sb_chunks (local_storage sha root) k s = Inr cs \<and> concat cs = bytes"
    by (simp add: local_storage_def local_chunks_def local_resolve_ok [OF k] local_view_def chop_concat chunk_size_def)
qed

section \<open>Uploads\<close>

text \<open>
  C27 An upload to local storage does what the checks on the whole content say, however the stream is
  cut into chunks: extension, emptiness, leading bytes, size, then the row; a refused upload leaves
  the table and the stored files as they were, an accepted one stores the content under its key and
  leaves every other file alone.
\<close>

theorem upload_matches_spec:
  assumes "object_key_re k" "local_view root fs k = None" "int magic_peek \<le> fc_max C"
    and "file_upload (local_storage sha root) C name ctype (map Chunk cs) uploader k d fs = (res, d', fs')"
  shows "case upload_spec sha C name ctype (concat cs) uploader k d of
      Inl e \<Rightarrow> res = Inl e \<and> d' = d \<and> local_view root fs' = local_view root fs
    | Inr (r, d1) \<Rightarrow> res = Inr r \<and> d' = d1 \<and>
        local_view root fs' = (local_view root fs)(k := Some (concat cs))"
  by (rule local.upload_whole [OF assms])

definition demo_key :: string where "demo_key = replicate 32 CHR ''0''"

definition demo_files :: file_config where
  "demo_files = \<lparr>fc_max = 1024, fc_allowed = [''PNG'', ''txt''], fc_backend = ''local''\<rparr>"

lemma demo_key_ok: "object_key_re demo_key"
  by (simp add: object_key_re_def demo_key_def hex_char_def Let_def list_all_iff)

theorem upload_matches_spec_witness:
  "fst (file_upload (local_storage id []) demo_files ''a.png'' ''t'' (map Chunk [''GI'', ''F''])
     1 demo_key empty_db Map.empty) = Inl content_type_mismatch"
proof -
  obtain res d' fs' where u: "file_upload (local_storage id []) demo_files ''a.png'' ''t''
      (map Chunk [''GI'', ''F'']) 1 demo_key empty_db Map.empty = (res, d', fs')"
    by (metis prod_cases3)
  have spec: "upload_spec id demo_files ''a.png'' ''t'' (concat [''GI'', ''F'']) 1 demo_key empty_db =
      Inl content_type_mismatch" by code_simp
  have "local_view [] Map.empty demo_key = None" by (simp add: local_view_def split: sum.split)
  from upload_matches_spec [OF demo_key_ok this _ u] spec u show ?thesis
    by (simp add: demo_files_def magic_peek_def)
qed

section \<open>Histories\<close>

text \<open>
  Requests in any order, with streams that may fail and commits that may fail; the UUID of an upload
  is fresh.  \<open>elsewhere\<close> is a request that does not write the table.
\<close>

inductive file_step :: "(string \<Rightarrow> string) \<Rightarrow> path \<Rightarrow> file_config \<Rightarrow> bool \<Rightarrow> db \<times> local_fs \<Rightarrow> db \<times> local_fs \<Rightarrow> bool"
  for sha root C commit_first where
  upload: "object_key_re k \<Longrightarrow> local_view root fs k = None \<Longrightarrow> k \<notin> f_key ` set (rows (files d)) \<Longrightarrow>
     upload_request (local_storage sha root) C name ctype es uploader k commits d fs = (d', fs') \<Longrightarrow>
     file_step sha root C commit_first (d, fs) (d', fs')"
| delete: "delete_request (local_storage sha root) commit_first i now commits d fs = (d', fs') \<Longrightarrow>
     file_step sha root C commit_first (d, fs) (d', fs')"
| elsewhere: "files d' = files d \<Longrightarrow> file_step sha root C commit_first (d, fs) (d', fs)"

lemma file_step_ok:
  assumes "file_step sha root C True x y" "files_ok (local_view root) sha object_key_re (fst x) (snd x)"
  shows "files_ok (local_view root) sha object_key_re (fst y) (snd y)"
  using assms(1)
proof cases
  case (upload k fs d name ctype es uploader commits d' fs')
  with assms(2) show ?thesis by (simp add: local.upload_request_ok)
next
  case (delete i now commits d fs d' fs')
  with assms(2) show ?thesis by (simp add: local.delete_request_ok)
next
  case (elsewhere d' d fs)
  with assms(2) show ?thesis by (simp add: files_ok_def)
qed

lemma file_steps_ok:
  "(file_step sha root C True)\<^sup>*\<^sup>* x y \<Longrightarrow> files_ok (local_view root) sha object_key_re (fst x) (snd x) \<Longrightarrow>
     files_ok (local_view root) sha object_key_re (fst y) (snd y)"
  by (induction rule: rtranclp_induct) (auto intro: file_step_ok)


definition demo_uploader :: user where
  "demo_uploader = \<lparr>u_id = 1, u_username = ''u'', u_password_hash = [], u_nickname = ''u'',
     u_status = Active, u_super = False, u_dept = None, u_created = 0\<rparr>"

definition demo_upload_db :: db where
  "demo_upload_db = empty_db\<lparr>users := \<lparr>rows = [demo_uploader], seq = 2\<rparr>\<rparr>"


text \<open>
  With background tasks that run before the commit, a deletion whose commit fails loses the file:
  its row is still listed, its content is gone.
\<close>

theorem early_background_task_loses_file:
  assumes "get_active d i = Some r" "object_key_re (f_key r)"
    and "delete_request (local_storage sha root) False i now False d fs = (d', fs')"
  shows "get_active d' i = Some r \<and> prepare_download (local_storage sha root) d' fs' i = Inl file_not_found"
proof -
  have d: "d' = d" "fs' = delete_physical (local_storage sha root) (f_key r) fs"
    using assms(1,3) by (simp_all add: delete_request_def file_delete_def soft_delete_def)
  have "local_view root fs' (f_key r) = None"
    using local.delete_law [OF assms(2), of sha root fs] by (auto simp: d(2) delete_physical_def)
  with local.stat_law [OF assms(2), of sha root fs'] assms(1) d(1) show ?thesis
    by (simp add: prepare_download_def)
qed

theorem early_background_task_loses_file_witness:
  "\<exists>d' fs'. delete_request (local_storage id []) False 1 7 False
      (empty_db\<lparr>files := \<lparr>rows = [new_file demo_key ''local'' ''a'' ''t'' \<lparr>ss_size = 2, ss_sha = ''hi''\<rparr> 1 1], seq = 2\<rparr>\<rparr>)
      [[''00'', ''00'', demo_key] \<mapsto> ''hi''] = (d', fs') \<and>
    get_active d' 1 \<noteq> None \<and> prepare_download (local_storage id []) d' fs' 1 = Inl file_not_found"
proof -
  let ?r = "new_file demo_key ''local'' ''a'' ''t'' \<lparr>ss_size = 2, ss_sha = ''hi''\<rparr> 1 1"
  let ?d = "empty_db\<lparr>files := \<lparr>rows = [?r], seq = 2\<rparr>\<rparr>"
  let ?fs = "[[''00'', ''00'', demo_key] \<mapsto> ''hi'']"
  obtain d' fs' where u: "delete_request (local_storage id []) False 1 7 False ?d ?fs = (d', fs')" by fastforce
  have a: "get_active ?d 1 = Some ?r" by (simp add: get_active_def new_file_def)
  have "object_key_re (f_key ?r)" using demo_key_ok by (simp add: new_file_def)
  from early_background_task_loses_file [OF a this u] u show ?thesis by auto
qed

end
