(* ===== verification/Idempotency.thy ===== *)
theory Idempotency
  imports Prelude PyText
begin

text \<open>
  \<^verbatim>\<open>core/idempotency.py\<close>: the middleware that answers a repeated POST from its record of the first.
  The store is a map from keys to entries with an expiry, as Redis keeps them; an entry is the
  dictionary that \<^verbatim>\<open>json.dumps\<close> writes and \<^verbatim>\<open>json.loads\<close> reads back, \<open>NotJson\<close> any other bytes.  Every
  call of the store has a flag that says whether Redis answers it.  The digest of a body, and the
  text that \<^verbatim>\<open>JSONResponse\<close> renders from the JSON of a body, are arguments.
\<close>

section \<open>The store\<close>

type_synonym headers = "(string \<times> string) list"

record response =
  rs_status :: int
  rs_body :: string
  rs_headers :: headers

datatype idem_entry = InFlight string | Completed string response | NotJson

type_synonym idem_store = "string \<Rightarrow> (idem_entry \<times> int) option"

definition entry_at :: "int \<Rightarrow> idem_store \<Rightarrow> string \<Rightarrow> idem_entry option" where
  "entry_at now st k =
     (case st k of None \<Rightarrow> None | Some (e, expires) \<Rightarrow> if now < expires then Some e else None)"

definition store_get :: "bool \<Rightarrow> int \<Rightarrow> string \<Rightarrow> idem_store \<Rightarrow> idem_entry option" where
  "store_get up now k st = (if up then entry_at now st k else None)"

definition store_setex :: "bool \<Rightarrow> int \<Rightarrow> string \<Rightarrow> int \<Rightarrow> idem_entry \<Rightarrow> idem_store \<Rightarrow> idem_store" where
  "store_setex up now k ttl e st = (if up then st(k := Some (e, now + secs ttl)) else st)"

definition store_set_nx :: "bool \<Rightarrow> int \<Rightarrow> string \<Rightarrow> int \<Rightarrow> idem_entry \<Rightarrow> idem_store \<Rightarrow> bool \<times> idem_store" where
  "store_set_nx up now k ttl e st =
     (if up \<and> entry_at now st k = None then (True, st(k := Some (e, now + secs ttl))) else (False, st))"

section \<open>The gate\<close>

definition max_idempotency_key_length :: nat where "max_idempotency_key_length = 255"

definition in_flight_code :: string where "in_flight_code = ''framework.IDEMPOTENT_RETRY_IN_FLIGHT''"
definition key_reused_code :: string where "key_reused_code = ''framework.IDEMPOTENCY_KEY_REUSED''"
definition key_invalid_code :: string where "key_invalid_code = ''framework.IDEMPOTENCY_KEY_INVALID''"

text \<open>The body of a problem document is represented by its \<^verbatim>\<open>type\<close>.\<close>

definition problem_response :: "string \<Rightarrow> int \<Rightarrow> response" where
  "problem_response code status = \<lparr>rs_status = status, rs_body = code, rs_headers = []\<rparr>"

datatype gate = PassThrough | Rejected response | ClientKey string

definition idem_gate :: "string \<Rightarrow> bool \<Rightarrow> string option \<Rightarrow> gate" where
  "idem_gate method marked key_header =
     (if method \<noteq> ''POST'' then PassThrough
      else if \<not> marked then PassThrough
      else (case key_header of
              None \<Rightarrow> PassThrough
            | Some k \<Rightarrow>
                if k = [] then PassThrough
                else if length k > max_idempotency_key_length
                then Rejected (problem_response key_invalid_code 400)
                else ClientKey k))"

definition build_cache_key :: "string \<Rightarrow> string \<Rightarrow> string \<Rightarrow> string" where
  "build_cache_key subject path client_key = ''idem:'' @ subject @ '':'' @ path @ '':'' @ client_key"

definition idem_subject :: "string \<Rightarrow> string" where
  "idem_subject user_id = (if user_id = [] then ''anon'' else user_id)"

section \<open>Lock, conflict, cache\<close>

definition replay_header :: "string \<times> string" where "replay_header = (''Idempotent-Replayed'', ''true'')"

definition replay :: "response \<Rightarrow> response" where
  "replay r = r\<lparr>rs_headers := filter (\<lambda>h. fst h \<noteq> fst replay_header) (rs_headers r) @ [replay_header]\<rparr>"

definition resolve_conflict :: "bool \<Rightarrow> int \<Rightarrow> string \<Rightarrow> string \<Rightarrow> idem_store \<Rightarrow> response option" where
  "resolve_conflict up now k body_hash st =
     (case store_get up now k st of
        None \<Rightarrow> None
      | Some NotJson \<Rightarrow> Some (problem_response in_flight_code 409)
      | Some (InFlight h) \<Rightarrow>
          Some (if h \<noteq> body_hash then problem_response key_reused_code 422
                else problem_response in_flight_code 409)
      | Some (Completed h r) \<Rightarrow>
          Some (if h \<noteq> body_hash then problem_response key_reused_code 422 else replay r))"

text \<open>
  The first phase: \<open>None\<close> when the handler is to run.  The lock is tried at \<open>now1\<close>, the conflicting
  entry is read at \<open>now2\<close>.
\<close>

definition idem_begin ::
    "bool \<Rightarrow> bool \<Rightarrow> int \<Rightarrow> int \<Rightarrow> int \<Rightarrow> string \<Rightarrow> string \<Rightarrow> idem_store \<Rightarrow> response option \<times> idem_store" where
  "idem_begin up1 up2 now1 now2 lock_ttl k body_hash st =
     (case store_set_nx up1 now1 k lock_ttl (InFlight body_hash) st of
        (True, st') \<Rightarrow> (None, st')
      | (False, st') \<Rightarrow> (resolve_conflict up2 now2 k body_hash st', st'))"

definition succeeded :: "response \<Rightarrow> bool" where
  "succeeded r \<longleftrightarrow> 200 \<le> rs_status r \<and> rs_status r < 300"

text \<open>The second phase, on the handler's response: \<open>render\<close> reads the body as JSON and writes it again.\<close>

definition cache_and_return ::
    "(string \<Rightarrow> string) \<Rightarrow> bool \<Rightarrow> int \<Rightarrow> int \<Rightarrow> string \<Rightarrow> string \<Rightarrow> response \<Rightarrow> idem_store \<Rightarrow> response \<times> idem_store" where
  "cache_and_return render up now ttl k body_hash r st =
     (let r' = r\<lparr>rs_body := render (rs_body r)\<rparr>
      in (r', store_setex up now k ttl (Completed body_hash r') st))"

definition idem_end ::
    "(string \<Rightarrow> string) \<Rightarrow> bool \<Rightarrow> int \<Rightarrow> int \<Rightarrow> string \<Rightarrow> string \<Rightarrow> response \<Rightarrow> idem_store \<Rightarrow> response \<times> idem_store" where
  "idem_end render up now ttl k body_hash r st =
     (if succeeded r then cache_and_return render up now ttl k body_hash r st else (r, st))"

section \<open>One request\<close>

record idem_config =
  ic_ttl :: int
  ic_lock_ttl :: int
  ic_sha :: "string \<Rightarrow> string"
  ic_render :: "string \<Rightarrow> string"

record idem_request =
  iq_method :: string
  iq_marked :: bool
  iq_key :: "string option"
  iq_user :: string
  iq_path :: string
  iq_body :: string

text \<open>
  \<open>handler\<close> answers the request and changes the rest of the system; \<open>up1\<close>, \<open>up2\<close>, \<open>up3\<close> and the three
  times belong to the three calls of the store.
\<close>

definition idem_dispatch ::
    "idem_config \<Rightarrow> (bool \<times> bool \<times> bool) \<Rightarrow> (int \<times> int \<times> int) \<Rightarrow> idem_request \<Rightarrow> ('w \<Rightarrow> response \<times> 'w)
      \<Rightarrow> idem_store \<Rightarrow> 'w \<Rightarrow> response \<times> idem_store \<times> 'w" where
  "idem_dispatch C ups clocks q handler st w =
     (case (ups, clocks) of ((up1, up2, up3), (now1, now2, now3)) \<Rightarrow>
      (case idem_gate (iq_method q) (iq_marked q) (iq_key q) of
         PassThrough \<Rightarrow> (case handler w of (r, w') \<Rightarrow> (r, st, w'))
       | Rejected r \<Rightarrow> (r, st, w)
       | ClientKey ck \<Rightarrow>
           (let h = ic_sha C (iq_body q); k = build_cache_key (idem_subject (iq_user q)) (iq_path q) ck
            in (case idem_begin up1 up2 now1 now2 (ic_lock_ttl C) k h st of
                  (Some r, st') \<Rightarrow> (r, st', w)
                | (None, st') \<Rightarrow>
                    (case handler w of (r, w') \<Rightarrow>
                      (case idem_end (ic_render C) up3 now3 (ic_ttl C) k h r st' of
                         (r', st'') \<Rightarrow> (r', st'', w')))))))"

end
