(* ===== verification/IdempotencyTheorems.thy ===== *)
theory IdempotencyTheorems
  imports Idempotency
begin

text \<open>
  Concurrent requests at the idempotency middleware: at most one execution per key at a time, one
  success per key and lifetime of its record, and the same answer for every repetition.
\<close>

section \<open>Keys\<close>

lemma cache_key_subject:
  assumes "CHR '':'' \<notin> set u" "CHR '':'' \<notin> set v" "build_cache_key u p k = build_cache_key v q j"
  shows "u = v"
proof -
  have eq: "u @ '':'' @ p @ '':'' @ k = v @ '':'' @ q @ '':'' @ j" using assms(3) by (simp add: build_cache_key_def)
  have "takeWhile (\<lambda>c. c \<noteq> CHR '':'') (x @ CHR '':'' # t) = x" if "CHR '':'' \<notin> set x" for x t
    using that by (induction x) auto
  from this [OF assms(1)] this [OF assms(2)] eq show ?thesis by (metis append_Cons append_Nil)
qed

section \<open>The system of concurrent requests\<close>

text \<open>
  A running execution is its request number, key, body digest and start; \<open>is_done\<close> lists the
  successes, latest first, with their time and response.
\<close>

record idem_sys =
  is_store :: idem_store
  is_now :: int
  is_running :: "(nat \<times> string \<times> string \<times> int) list"
  is_done :: "(string \<times> string \<times> int \<times> response) list"

text \<open>
  While Redis answers, and no handler runs longer than the lock lives (\<open>wait\<close>).
\<close>

inductive idem_step :: "idem_config \<Rightarrow> idem_sys \<Rightarrow> idem_sys \<Rightarrow> bool" for C where
  wait: "is_now s \<le> t \<Longrightarrow> \<forall>(i, k, h, t0) \<in> set (is_running s). t < t0 + secs (ic_lock_ttl C) \<Longrightarrow>
     idem_step C s (s\<lparr>is_now := t\<rparr>)"
| answer: "idem_begin True True (is_now s) (is_now s) (ic_lock_ttl C) k h (is_store s) = (Some r, st) \<Longrightarrow>
     idem_step C s (s\<lparr>is_store := st\<rparr>)"
| start: "idem_begin True True (is_now s) (is_now s) (ic_lock_ttl C) k h (is_store s) = (None, st) \<Longrightarrow>
     idem_step C s (s\<lparr>is_store := st, is_running := (i, k, h, is_now s) # is_running s\<rparr>)"
| finish: "(i, k, h, t0) \<in> set (is_running s) \<Longrightarrow>
     idem_end (ic_render C) True (is_now s) (ic_ttl C) k h r (is_store s) = (r', st) \<Longrightarrow>
     idem_step C s (s\<lparr>is_store := st, is_running := remove1 (i, k, h, t0) (is_running s),
       is_done := (if succeeded r then [(k, h, is_now s, r')] else []) @ is_done s\<rparr>)"

definition idem_init :: idem_sys where
  "idem_init = \<lparr>is_store = Map.empty, is_now = 0, is_running = [], is_done = []\<rparr>"

text \<open>
  Every running execution holds the lock of its key; the last success of a key is on record until it
  expires, and no execution of the key runs meanwhile.
\<close>

definition idem_inv :: "idem_config \<Rightarrow> idem_sys \<Rightarrow> bool" where
  "idem_inv C s \<longleftrightarrow>
     distinct (map (\<lambda>(i, k, h, t0). k) (is_running s)) \<and>
     (\<forall>(i, k, h, t0) \<in> set (is_running s). is_now s < t0 + secs (ic_lock_ttl C) \<and>
        is_store s k = Some (InFlight h, t0 + secs (ic_lock_ttl C))) \<and>
     (\<forall>(k, h, t1, r) \<in> set (is_done s). t1 \<le> is_now s \<and>
        (is_now s < t1 + secs (ic_ttl C) \<longrightarrow> is_store s k = Some (Completed h r, t1 + secs (ic_ttl C)))) \<and>
     sorted_wrt (\<lambda>(k2, h2, t2, r2) (k1, h1, t1, r1). k1 = k2 \<longrightarrow> t1 + secs (ic_ttl C) \<le> t2) (is_done s)"

lemma idem_begin_None:
  "idem_begin True True now now L k h st = (None, st') \<longleftrightarrow>
     entry_at now st k = None \<and> st' = st(k := Some (InFlight h, now + secs L))"
  by (auto simp: idem_begin_def store_set_nx_def resolve_conflict_def store_get_def
      split: option.splits idem_entry.splits)

lemma idem_begin_Some:
  "idem_begin True True now now L k h st = (Some r, st') \<longleftrightarrow>
     (\<exists>e. entry_at now st k = Some e) \<and> st' = st \<and> resolve_conflict True now k h st = Some r"
  by (auto simp: idem_begin_def store_set_nx_def resolve_conflict_def store_get_def
      split: option.splits idem_entry.splits)

lemma entry_live: "st k = Some (e, x) \<Longrightarrow> now < x \<Longrightarrow> entry_at now st k = Some e"
  by (simp add: entry_at_def)

lemma distinct_map_remove1:
  assumes "distinct (map f xs)" "x \<in> set xs"
  shows "distinct (map f (remove1 x xs))" and "f x \<notin> f ` set (remove1 x xs)"
proof -
  have d: "distinct xs" "inj_on f (set xs)" using assms(1) by (simp_all add: distinct_map)
  have s: "set (remove1 x xs) = set xs - {x}" using d(1) by simp
  show "distinct (map f (remove1 x xs))"
    using d s by (simp add: distinct_map) (meson Diff_subset inj_on_subset)
  show "f x \<notin> f ` set (remove1 x xs)" using d(2) assms(2) s by (auto simp: inj_on_def)
qed

lemma idem_inv_start:
  assumes inv: "idem_inv C s" and b: "idem_begin True True (is_now s) (is_now s) (ic_lock_ttl C) k h (is_store s) = (None, st)"
    and L: "0 < ic_lock_ttl C"
  shows "idem_inv C (s\<lparr>is_store := st, is_running := (i, k, h, is_now s) # is_running s\<rparr>)"
proof -
  have st: "st = (is_store s)(k := Some (InFlight h, is_now s + secs (ic_lock_ttl C)))"
    and free: "entry_at (is_now s) (is_store s) k = None" using b by (simp_all add: idem_begin_None)
  have run: "k' \<noteq> k" if "(i', k', h', t') \<in> set (is_running s)" for i' k' h' t'
    using inv that free entry_live [of "is_store s" k'] by (fastforce simp: idem_inv_def)
  have don: "\<not> is_now s < t1 + secs (ic_ttl C)" if "(k, h1, t1, r1) \<in> set (is_done s)" for h1 t1 r1
    using inv that free entry_live [of "is_store s" k] by (fastforce simp: idem_inv_def)
  have "k \<notin> (\<lambda>(i, k, h, t0). k) ` set (is_running s)" using run by force
  moreover have "0 < secs (ic_lock_ttl C)" using L by (simp add: secs_def)
  ultimately show ?thesis using inv run don unfolding idem_inv_def st by auto
qed

lemma idem_inv_finish:
  assumes inv: "idem_inv C s" and r: "(i, k, h, t0) \<in> set (is_running s)"
    and e: "idem_end (ic_render C) True (is_now s) (ic_ttl C) k h resp (is_store s) = (resp', st)"
  shows "idem_inv C (s\<lparr>is_store := st, is_running := remove1 (i, k, h, t0) (is_running s),
    is_done := (if succeeded resp then [(k, h, is_now s, resp')] else []) @ is_done s\<rparr>)"
proof -
  let ?k = "\<lambda>(i :: nat, k :: string, h :: string, t0 :: int). k"
  let ?rest = "remove1 (i, k, h, t0) (is_running s)"
  have d: "distinct (map ?k (is_running s))" using inv by (simp add: idem_inv_def)
  have rest: "distinct (map ?k ?rest)" by (rule distinct_map_remove1(1) [OF d r])
  have other: "k' \<noteq> k" if "(i', k', h', t') \<in> set ?rest" for i' k' h' t'
    using distinct_map_remove1(2) [OF d r] that by force
  have sub: "x \<in> set (is_running s)" if "x \<in> set ?rest" for x using that set_remove1_subset by fast
  show ?thesis
  proof (cases "succeeded resp")
    case False
    then have "st = is_store s" using e by (simp add: idem_end_def)
    then show ?thesis using inv rest sub False unfolding idem_inv_def by auto
  next
    case True
    then have st: "st = (is_store s)(k := Some (Completed h resp', is_now s + secs (ic_ttl C)))"
      using e by (auto simp: idem_end_def cache_and_return_def store_setex_def Let_def)
    have held: "is_store s k = Some (InFlight h, t0 + secs (ic_lock_ttl C))"
      using inv r by (auto simp: idem_inv_def)
    have old: "t1 + secs (ic_ttl C) \<le> is_now s" if "(k, h1, t1, r1) \<in> set (is_done s)" for h1 t1 r1
      using inv that held by (fastforce simp: idem_inv_def)
    have runs: "\<forall>(i, k, h, t0) \<in> set ?rest. is_now s < t0 + secs (ic_lock_ttl C) \<and>
        st k = Some (InFlight h, t0 + secs (ic_lock_ttl C))"
    proof safe
      fix i' k' h' t' assume x: "(i', k', h', t') \<in> set ?rest"
      from sub [OF x] inv show "is_now s < t' + secs (ic_lock_ttl C)" by (auto simp: idem_inv_def)
      from sub [OF x] inv other [OF x] show "st k' = Some (InFlight h', t' + secs (ic_lock_ttl C))"
        by (auto simp: idem_inv_def st)
    qed
    have dones: "\<forall>(k, h, t1, r) \<in> set (is_done s). t1 \<le> is_now s \<and>
        (is_now s < t1 + secs (ic_ttl C) \<longrightarrow> st k = Some (Completed h r, t1 + secs (ic_ttl C)))"
    proof safe
      fix k' h' t' r' assume x: "(k', h', t', r') \<in> set (is_done s)"
      from x inv show "t' \<le> is_now s" by (auto simp: idem_inv_def)
      assume n: "is_now s < t' + secs (ic_ttl C)"
      with old x have "k' \<noteq> k" by fastforce
      with x inv n show "st k' = Some (Completed h' r', t' + secs (ic_ttl C))" by (auto simp: idem_inv_def st)
    qed
    have new: "st k = Some (Completed h resp', is_now s + secs (ic_ttl C))" by (simp add: st)
    have "sorted_wrt (\<lambda>(k2, h2, t2, r2) (k1, h1, t1, r1). k1 = k2 \<longrightarrow> t1 + secs (ic_ttl C) \<le> t2)
        ((k, h, is_now s, resp') # is_done s)"
      using inv old by (auto simp: idem_inv_def)
    then show ?thesis using rest runs dones new True by (simp add: idem_inv_def)
  qed
qed

lemma idem_inv_step:
  assumes "idem_step C s s'" "idem_inv C s" "0 < ic_lock_ttl C"
  shows "idem_inv C s'"
  using assms(1)
proof cases
  case (wait t)
  with assms(2) show ?thesis unfolding idem_inv_def by (fastforce split: prod.splits)
next
  case (answer k h r st)
  then have "st = is_store s" by (simp add: idem_begin_Some)
  with answer assms(2) show ?thesis by (simp add: idem_inv_def)
next
  case (start k h st i)
  show ?thesis unfolding start(1) by (rule idem_inv_start [OF assms(2) start(2) assms(3)])
next
  case (finish i k h t0 r r' st)
  show ?thesis unfolding finish(1) by (rule idem_inv_finish [OF assms(2) finish(2,3)])
qed

lemma idem_inv_reachable:
  "(idem_step C)\<^sup>*\<^sup>* idem_init s \<Longrightarrow> 0 < ic_lock_ttl C \<Longrightarrow> idem_inv C s"
proof (induction rule: rtranclp_induct)
  case base
  show ?case by (simp add: idem_inv_def idem_init_def)
qed (auto intro: idem_inv_step)


definition demo_idem :: idem_config where
  "demo_idem = \<lparr>ic_ttl = 86400, ic_lock_ttl = 30, ic_sha = id, ic_render = id\<rparr>"

definition demo_created :: response where
  "demo_created = \<lparr>rs_status = 201, rs_body = ''{}'', rs_headers = []\<rparr>"


section \<open>Users do not see each other's entries\<close>

lemma store_ops_other:
  assumes "k \<noteq> j"
  shows "entry_at now (st(j := e)) k = entry_at now st k"
    and "store_set_nx up now k ttl x (st(j := e)) =
      (case store_set_nx up now k ttl x st of (b, st') \<Rightarrow> (b, st'(j := e)))"
    and "store_setex up now k ttl x (st(j := e)) = (store_setex up now k ttl x st)(j := e)"
    and "resolve_conflict up now k h (st(j := e)) = resolve_conflict up now k h st"
proof -
  show 1: "entry_at now (st(j := e)) k = entry_at now st k" using assms by (simp add: entry_at_def)
  show "store_set_nx up now k ttl x (st(j := e)) =
      (case store_set_nx up now k ttl x st of (b, st') \<Rightarrow> (b, st'(j := e)))"
    using assms 1 by (simp add: store_set_nx_def fun_upd_twist)
  show "store_setex up now k ttl x (st(j := e)) = (store_setex up now k ttl x st)(j := e)"
    using assms by (simp add: store_setex_def fun_upd_twist)
  show "resolve_conflict up now k h (st(j := e)) = resolve_conflict up now k h st"
    using 1 by (simp add: resolve_conflict_def store_get_def)
qed

lemma idem_phases_other:
  assumes "k \<noteq> j"
  shows "idem_begin u1 u2 n1 n2 L k h (st(j := e)) =
      (case idem_begin u1 u2 n1 n2 L k h st of (r, st') \<Rightarrow> (r, st'(j := e)))"
    and "idem_end f u3 n3 T k h r (st(j := e)) = (case idem_end f u3 n3 T k h r st of (r', st') \<Rightarrow> (r', st'(j := e)))"
  using store_ops_other [OF assms]
  by (auto simp: idem_begin_def idem_end_def cache_and_return_def Let_def split: prod.splits bool.splits)

text \<open>
  C30 What the store holds for one user has no influence on the requests of another, whatever key and
  path they use, and is left as it is by them.
\<close>

theorem idempotency_separates_users:
  assumes "CHR '':'' \<notin> set (idem_subject u)" "CHR '':'' \<notin> set (idem_subject (iq_user q))"
    and "idem_subject u \<noteq> idem_subject (iq_user q)" "j = build_cache_key (idem_subject u) path ck"
  shows "idem_dispatch C ups clocks q handler (st(j := e)) w =
    (case idem_dispatch C ups clocks q handler st w of (r, st', w') \<Rightarrow> (r, st'(j := e), w'))"
proof -
  obtain u1 u2 u3 n1 n2 n3 where c: "ups = (u1, u2, u3)" "clocks = (n1, n2, n3)" by (metis prod_cases3)
  show ?thesis
  proof (cases "idem_gate (iq_method q) (iq_marked q) (iq_key q)")
    case (ClientKey k)
    let ?k = "build_cache_key (idem_subject (iq_user q)) (iq_path q) k"
    have "?k \<noteq> j" using cache_key_subject [OF assms(1,2), of path ck "iq_path q" k] assms(3) by (auto simp: assms(4))
    note o = idem_phases_other [OF this]
    obtain r st1 where b: "idem_begin u1 u2 n1 n2 (ic_lock_ttl C) ?k (ic_sha C (iq_body q)) st = (r, st1)" by fastforce
    obtain x w1 where h: "handler w = (x, w1)" by fastforce
    obtain x' st2 where f: "idem_end (ic_render C) u3 n3 (ic_ttl C) ?k (ic_sha C (iq_body q)) x st1 = (x', st2)" by fastforce
    show ?thesis
      by (cases r) (simp_all add: idem_dispatch_def c ClientKey Let_def o b h f)
  qed (simp_all add: idem_dispatch_def c split: prod.split)
qed

theorem idempotency_separates_users_witness:
  "fst (idem_dispatch demo_idem (True, True, True) (0, 0, 0)
     \<lparr>iq_method = ''POST'', iq_marked = True, iq_key = Some ''k'', iq_user = ''2'', iq_path = ''/p'', iq_body = ''b''\<rparr>
     (\<lambda>w :: unit. (demo_created, w))
     (Map.empty(build_cache_key (idem_subject ''1'') ''/p'' ''k'' := Some (Completed ''b'' demo_created, 1))) ()) = demo_created"
proof -
  let ?q = "\<lparr>iq_method = ''POST'', iq_marked = True, iq_key = Some ''k'', iq_user = ''2'', iq_path = ''/p'', iq_body = ''b''\<rparr>"
  have "fst (idem_dispatch demo_idem (True, True, True) (0, 0, 0) ?q (\<lambda>w :: unit. (demo_created, w)) Map.empty ()) =
      demo_created"
    by (simp add: idem_dispatch_def idem_gate_def max_idempotency_key_length_def idem_begin_def store_set_nx_def
        entry_at_def idem_end_def demo_created_def succeeded_def cache_and_return_def demo_idem_def Let_def)
  with idempotency_separates_users [of "''1''" ?q _ "''/p''" "''k''" demo_idem "(True, True, True)" "(0, 0, 0)"
      "\<lambda>w :: unit. (demo_created, w)" Map.empty "Some (Completed ''b'' demo_created, 1)" "()", OF _ _ _ refl]
  show ?thesis by (auto simp: idem_subject_def split: prod.splits)
qed

section \<open>The gap between lock and lookup\<close>

text \<open>
  A request that finds the lock taken and reads the entry after it expired takes the store for
  unreachable and runs its handler without the lock; a third request then gets the lock and runs the
  handler at the same time.
\<close>

lemma expired_lock_runs_two_handlers:
  "\<exists>st0 st1 st2. idem_begin True True 0 0 30 ''k'' ''b'' Map.empty = (None, st0) \<and>
     idem_begin True True (secs 30 - 1) (secs 30) 30 ''k'' ''b'' st0 = (None, st1) \<and> st1 = st0 \<and>
     idem_begin True True (secs 30) (secs 30) 30 ''k'' ''b'' st1 = (None, st2)"
  by (simp add: idem_begin_def store_set_nx_def entry_at_def resolve_conflict_def store_get_def secs_def)

end
