(* ===== verification/ErrorMapping.thy ===== *)
theory ErrorMapping
  imports Prelude PyText
begin

text \<open>
  \<^verbatim>\<open>core/errors.py\<close>: how an exception becomes a response.  A driver error is its number, its message
  arguments and its text; a response its status, its \<^verbatim>\<open>type\<close> and its \<^verbatim>\<open>errors\<close>.  Titles, details
  and log records are left out.
\<close>

section \<open>Constraint names and business codes\<close>

type_synonym code_registry = "(string \<times> string) list"

text \<open>\<open>None\<close> is the \<^verbatim>\<open>RuntimeError\<close> of a name registered with another code.\<close>

definition register_unique_constraint :: "string \<Rightarrow> string \<Rightarrow> code_registry \<Rightarrow> code_registry option" where
  "register_unique_constraint name code reg =
     (case map_of reg name of
        None \<Rightarrow> Some (reg @ [(name, code)])
      | Some c \<Rightarrow> if c = code then Some reg else None)"

fun register_all :: "(string \<times> string) list \<Rightarrow> code_registry \<Rightarrow> code_registry option" where
  "register_all [] reg = Some reg"
| "register_all ((n, c) # xs) reg =
     (case register_unique_constraint n c reg of None \<Rightarrow> None | Some reg' \<Rightarrow> register_all xs reg')"

text \<open>The registrations of the domains.\<close>

definition domain_constraints :: "(string \<times> string) list" where
  "domain_constraints =
     [(''uq_configs_key'', ''config.KEY_DUPLICATE''),
      (''uq_depts_code'', ''dept.CODE_DUPLICATE''),
      (''uq_dict_types_type'', ''dict.TYPE_DUPLICATE''),
      (''uq_dict_data_type_value'', ''dict.DATA_DUPLICATE''),
      (''uq_dict_data_one_default_per_type'', ''dict.DEFAULT_DUPLICATE''),
      (''fk_dict_data_type_id'', ''dict.TYPE_HAS_DATA''),
      (''uq_posts_code'', ''post.CODE_DUPLICATE''),
      (''uq_roles_code'', ''role.CODE_DUPLICATE''),
      (''uq_scheduled_tasks_name'', ''scheduled_task.NAME_DUPLICATE''),
      (''uq_users_username'', ''user.USERNAME_DUPLICATE'')]"

section \<open>The name in a driver error\<close>

datatype err_arg = ArgInt int | ArgStr string

record driver_error =
  de_constraint :: "string option"
  de_args :: "err_arg list"
  de_text :: string

definition dbapi_error_code :: "driver_error \<Rightarrow> int option" where
  "dbapi_error_code e = (case de_args e of ArgInt n # _ \<Rightarrow> Some n | _ \<Rightarrow> None)"

fun first_str :: "err_arg list \<Rightarrow> string option" where
  "first_str [] = None"
| "first_str (ArgStr s # as) = Some s"
| "first_str (ArgInt n # as) = first_str as"

definition dbapi_signal_message :: "driver_error \<Rightarrow> string option" where
  "dbapi_signal_message e = first_str (drop 1 (de_args e))"

definition mysql_duplicate_entry :: int where "mysql_duplicate_entry = 1062"
definition mysql_check_violation :: int where "mysql_check_violation = 3819"
definition mysql_signal_exception :: int where "mysql_signal_exception = 1644"

definition self_parent_signals :: "string list" where
  "self_parent_signals = [''ck_depts_not_self_parent'', ''ck_menus_not_self_parent'']"

text \<open>
  The three patterns are a word, an opening quote, one or more characters that are no quote, a
  closing quote.  \<open>cf\<close> is the lower-casing of \<^verbatim>\<open>re.IGNORECASE\<close>, or the identity.
\<close>

definition quoted_here :: "(string \<Rightarrow> string) \<Rightarrow> char set \<Rightarrow> string \<Rightarrow> string \<Rightarrow> string option" where
  "quoted_here cf quotes word s =
     (if cf (take (length word) s) \<noteq> cf word then None
      else (case drop (length word) s of
              [] \<Rightarrow> None
            | q # rest \<Rightarrow>
                (let body = takeWhile (\<lambda>c. c \<notin> quotes) rest
                 in if q \<in> quotes \<and> body \<noteq> [] \<and> dropWhile (\<lambda>c. c \<notin> quotes) rest \<noteq> [] then Some body else None)))"

fun find_quoted :: "(string \<Rightarrow> string) \<Rightarrow> char set \<Rightarrow> string \<Rightarrow> string \<Rightarrow> string option" where
  "find_quoted cf quotes word [] = quoted_here cf quotes word []"
| "find_quoted cf quotes word (c # cs) =
     (case quoted_here cf quotes word (c # cs) of
        Some body \<Rightarrow> Some body | None \<Rightarrow> find_quoted cf quotes word cs)"

definition sq :: char where "sq = CHR 0x27"
definition dq :: char where "dq = CHR 0x22"
definition bq :: char where "bq = CHR 0x60"

definition mysql_key :: "string \<Rightarrow> string option" where
  "mysql_key s = find_quoted py_lower {sq, bq, dq} ''for key '' s"

definition mysql_constraint :: "string \<Rightarrow> string option" where
  "mysql_constraint s = find_quoted id {bq, sq, dq} ''CONSTRAINT '' s"

definition constraint_re :: "string \<Rightarrow> string option" where
  "constraint_re s = find_quoted id {dq} ''constraint '' s"

definition last_segment :: "string \<Rightarrow> string" where
  "last_segment s = last (py_split_on CHR ''.'' s)"

definition extract_constraint_name :: "driver_error \<Rightarrow> string option" where
  "extract_constraint_name e =
     (case (case de_constraint e of Some n \<Rightarrow> if n = [] then None else Some n | None \<Rightarrow> None) of
        Some n \<Rightarrow> Some n
      | None \<Rightarrow>
          (case (if dbapi_error_code e = Some mysql_duplicate_entry then mysql_key (de_text e) else None) of
             Some k \<Rightarrow> Some (last_segment k)
           | None \<Rightarrow>
               (case mysql_constraint (de_text e) of
                  Some k \<Rightarrow> Some k
                | None \<Rightarrow> constraint_re (de_text e))))"

section \<open>Responses\<close>

type_synonym validation_item = "(string \<times> string) list"

datatype error_details = NoDetails | Items "validation_item list" | AppDetails string | Debug string

record problem =
  pr_status :: int
  pr_type :: string
  pr_errors :: error_details

datatype server_exn =
    AppError exn "string option"
  | HttpError int
  | ValidationError "validation_item list"
  | IntegrityError driver_error
  | DataError driver_error
  | OperationalError driver_error
  | OtherError string

definition http_status_codes :: "(int \<times> string) list" where
  "http_status_codes =
     [(400, ''framework.BAD_REQUEST''), (401, ''framework.UNAUTHORIZED''), (403, ''framework.FORBIDDEN''),
      (404, ''framework.NOT_FOUND''), (405, ''framework.METHOD_NOT_ALLOWED''), (406, ''framework.NOT_ACCEPTABLE''),
      (409, ''framework.CONFLICT''), (410, ''framework.GONE''), (413, ''framework.PAYLOAD_TOO_LARGE''),
      (415, ''framework.UNSUPPORTED_MEDIA_TYPE''), (422, ''framework.UNPROCESSABLE_CONTENT''),
      (429, ''framework.TOO_MANY_REQUESTS''), (500, ''framework.INTERNAL_ERROR''), (502, ''framework.BAD_GATEWAY''),
      (503, ''framework.SERVICE_UNAVAILABLE''), (504, ''framework.GATEWAY_TIMEOUT'')]"

definition http_code :: "(int \<Rightarrow> string) \<Rightarrow> int \<Rightarrow> string" where
  "http_code str n = (case map_of http_status_codes n of Some c \<Rightarrow> c | None \<Rightarrow> ''framework.HTTP_'' @ str n)"

definition integrity_response :: "code_registry \<Rightarrow> driver_error \<Rightarrow> problem" where
  "integrity_response reg e =
     \<lparr>pr_status = 409,
      pr_type = (case extract_constraint_name e of
                   None \<Rightarrow> ''framework.CONFLICT''
                 | Some n \<Rightarrow> (case map_of reg n of None \<Rightarrow> ''framework.CONFLICT'' | Some c \<Rightarrow> c)),
      pr_errors = NoDetails\<rparr>"

definition constraint_violation_response :: problem where
  "constraint_violation_response =
     \<lparr>pr_status = 422, pr_type = ''framework.CONSTRAINT_VIOLATION'', pr_errors = NoDetails\<rparr>"

definition internal_error_response :: "bool \<Rightarrow> string \<Rightarrow> problem" where
  "internal_error_response debug txt =
     \<lparr>pr_status = 500, pr_type = ''framework.INTERNAL_ERROR'',
      pr_errors = (if debug then Debug txt else NoDetails)\<rparr>"

definition app_response :: "exn \<Rightarrow> string option \<Rightarrow> problem" where
  "app_response e details =
     \<lparr>pr_status = (case e of AppErr c s \<Rightarrow> s | _ \<Rightarrow> 500), pr_type = (case e of AppErr c s \<Rightarrow> c | _ \<Rightarrow> ''framework.INTERNAL_ERROR''),
      pr_errors = (case details of None \<Rightarrow> NoDetails | Some t \<Rightarrow> AppDetails t)\<rparr>"

definition validation_response :: "validation_item list \<Rightarrow> problem" where
  "validation_response errs =
     \<lparr>pr_status = 422, pr_type = ''framework.VALIDATION_FAILED'',
      pr_errors = Items (map (filter (\<lambda>kv. fst kv \<noteq> ''input'')) errs)\<rparr>"

definition handle_exception ::
    "(int \<Rightarrow> string) \<Rightarrow> bool \<Rightarrow> code_registry \<Rightarrow> server_exn \<Rightarrow> problem" where
  "handle_exception str debug reg x =
     (case x of
        AppError e details \<Rightarrow> app_response e details
      | HttpError n \<Rightarrow> \<lparr>pr_status = n, pr_type = http_code str n, pr_errors = NoDetails\<rparr>
      | ValidationError errs \<Rightarrow> validation_response errs
      | IntegrityError e \<Rightarrow> integrity_response reg e
      | DataError e \<Rightarrow> constraint_violation_response
      | OperationalError e \<Rightarrow>
          if dbapi_error_code e = Some mysql_check_violation then constraint_violation_response
          else if dbapi_error_code e = Some mysql_signal_exception \<and>
              (case dbapi_signal_message e of None \<Rightarrow> False | Some m \<Rightarrow> m \<in> set self_parent_signals)
          then constraint_violation_response
          else internal_error_response debug (de_text e)
      | OtherError t \<Rightarrow> internal_error_response debug t)"

end
