(* ===== verification/ErrorTheorems.thy ===== *)
theory ErrorTheorems
  imports ErrorMapping AuditEvents RoleService PostService UserService DeptService ConfigService DictService TaskService
begin

text \<open>
  Errors at the boundary: two requests that race past a check of uniqueness get the answer that the
  check itself would have given, and nothing of a failure's internals reaches a client.
\<close>

section \<open>Registrations\<close>

lemma domains_register: "register_all domain_constraints [] = Some domain_constraints"
  by (simp add: domain_constraints_def register_unique_constraint_def)

section \<open>Duplicate keys\<close>

text \<open>The text of MySQL's error 1062, as the driver shows it.\<close>

definition duplicate_message :: "string \<Rightarrow> string \<Rightarrow> string \<Rightarrow> string" where
  "duplicate_message v tbl name =
     ''(1062, '' @ [dq] @ ''Duplicate entry '' @ [sq] @ v @ [sq] @ '' for key '' @ [sq] @ tbl @ ''.'' @ name @ [sq, dq] @ '')''"

definition duplicate_error :: "string \<Rightarrow> string \<Rightarrow> string \<Rightarrow> driver_error" where
  "duplicate_error v tbl name =
     \<lparr>de_constraint = None, de_args = [ArgInt 1062, ArgStr (duplicate_message v tbl name)],
      de_text = duplicate_message v tbl name\<rparr>"

definition plain_name :: "string \<Rightarrow> bool" where
  "plain_name s \<longleftrightarrow> s \<noteq> [] \<and> list_all (\<lambda>c. c \<notin> {sq, dq, bq, CHR ''.''}) s"

text \<open>The check of each service, by the constraint behind it.\<close>

definition prechecks :: "(string \<times> exn) list" where
  "prechecks =
     [(''uq_configs_key'', config_duplicate), (''uq_depts_code'', dept_code_duplicate),
      (''uq_dict_types_type'', dict_type_duplicate), (''uq_posts_code'', post_duplicate),
      (''uq_roles_code'', role_duplicate), (''uq_scheduled_tasks_name'', task_duplicate),
      (''uq_users_username'', user_duplicate)]"

lemma py_lower_length [simp]: "length (py_lower s) = length s"
  by (simp add: py_lower_def)

lemma py_lower_append: "py_lower (s @ t) = py_lower s @ py_lower t"
  by (simp add: py_lower_def)

lemma py_lower_take: "py_lower (take n s) = take n (py_lower s)"
  by (simp add: py_lower_def take_map)

text \<open>The search skips a text that does not contain the word, and a separator that is not part of it.\<close>

lemma take_word_differs:
  assumes "\<not> py_contains w (py_lower s)" "x \<notin> set w" "lower_char x = x" "w \<noteq> []"
  shows "py_lower (take (length w) (s @ x # t)) \<noteq> w"
proof (cases "length w \<le> length s")
  case True
  then have "py_lower (take (length w) (s @ x # t)) = take (length w) (py_lower s)" by (simp add: py_lower_take)
  moreover have "take (length w) (py_lower s) \<noteq> w"
    using assms(1,4) by (cases "py_lower s") (auto simp: starts_with_def)
  ultimately show ?thesis by simp
next
  case False
  then have "x \<in> set (take (length w) (s @ x # t))" by (simp add: take_Cons')
  then have "lower_char x \<in> set (py_lower (take (length w) (s @ x # t)))"
    unfolding py_lower_def set_map by (rule imageI)
  then show ?thesis using assms(2,3) by auto
qed

lemma find_quoted_skip:
  assumes "py_lower w = w" "x \<notin> set w" "lower_char x = x" "w \<noteq> []" "\<not> py_contains w (py_lower s)"
  shows "find_quoted py_lower Q w (s @ x # t) = find_quoted py_lower Q w t"
  using assms(5)
proof (induction s)
  case Nil
  have "py_lower (take (length w) ([] @ x # t)) \<noteq> w"
    by (rule take_word_differs) (use assms in \<open>simp_all add: py_lower_def\<close>)
  then show ?case using assms(1) by (simp add: quoted_here_def)
next
  case (Cons c s)
  have "py_lower (take (length w) ((c # s) @ x # t)) \<noteq> w"
    by (rule take_word_differs) (use Cons.prems assms(2-4) in simp_all)
  then have "quoted_here py_lower Q w (c # s @ x # t) = None" using assms(1) by (simp add: quoted_here_def)
  moreover have "\<not> py_contains w (py_lower s)" using Cons.prems by (auto simp: py_lower_def)
  ultimately show ?case using Cons.IH by simp
qed

lemma last_segment_plain: "plain_name n \<Longrightarrow> last_segment (t @ CHR ''.'' # n) = n"
proof -
  assume "plain_name n"
  then have "CHR ''.'' \<notin> set n" by (auto simp: plain_name_def list_all_iff)
  then have "py_split_on CHR ''.'' n = [n]" by (induction n) auto
  moreover have ne: "py_split_on x y \<noteq> []" for x y by (cases y) (auto split: list.splits)
  moreover have "last (py_split_on CHR ''.'' (t @ CHR ''.'' # n)) = last (py_split_on CHR ''.'' n)" for t
  proof (induction t)
    case (Cons c t)
    show ?case
    proof (cases "c = CHR ''.''")
      case False
      have "\<exists>w ws. py_split_on CHR ''.'' (t @ CHR ''.'' # n) = w # ws \<and> ws \<noteq> []"
        by (induction t) (auto simp: ne split: list.splits)
      then show ?thesis using Cons.IH False by auto
    qed (use Cons.IH ne in simp)
  qed (use ne in simp)
  ultimately show ?thesis by (simp add: last_segment_def)
qed

lemma takeWhile_name:
  "plain_name t \<Longrightarrow> plain_name n \<Longrightarrow>
     takeWhile (\<lambda>c. c \<notin> {sq, bq, dq}) (t @ CHR ''.'' # n @ sq # r) = t @ CHR ''.'' # n"
proof -
  have dot: "CHR ''.'' \<notin> {sq, bq, dq}" by (simp add: sq_def bq_def dq_def)
  have w: "takeWhile P (xs @ y # ys) = xs" if "\<forall>x \<in> set xs. P x" "\<not> P y" for P and xs ys :: string and y
    using that by (induction xs) auto
  assume "plain_name t" "plain_name n"
  then have "takeWhile (\<lambda>c. c \<notin> {sq, bq, dq}) ((t @ CHR ''.'' # n) @ sq # r) = t @ CHR ''.'' # n"
    by (intro w) (use dot in \<open>auto simp: plain_name_def list_all_iff\<close>)
  then show ?thesis by simp
qed

lemma mysql_key_message:
  assumes "\<not> py_contains ''for key '' (py_lower v)" "plain_name tbl" "plain_name name"
  shows "mysql_key (duplicate_message v tbl name) = Some (tbl @ CHR ''.'' # name)"
proof -
  let ?w = "''for key ''"
  let ?tail = "'' for key '' @ [sq] @ tbl @ ''.'' @ name @ [sq, dq] @ '')''"
  have w: "py_lower ?w = ?w" "sq \<notin> set ?w" "lower_char sq = sq" "?w \<noteq> []" by code_simp+
  have p: "\<not> py_contains ?w (py_lower (''(1062, '' @ [dq] @ ''Duplicate entry ''))" by code_simp
  have "mysql_key (duplicate_message v tbl name) =
      find_quoted py_lower {sq, bq, dq} ?w ((''(1062, '' @ [dq] @ ''Duplicate entry '') @ sq # (v @ sq # ?tail))"
    unfolding mysql_key_def duplicate_message_def by simp
  also have "\<dots> = find_quoted py_lower {sq, bq, dq} ?w (v @ sq # ?tail)" by (rule find_quoted_skip [OF w p])
  also have "\<dots> = find_quoted py_lower {sq, bq, dq} ?w ?tail" by (rule find_quoted_skip [OF w assms(1)])
  also have "?tail = CHR '' '' # ?w @ (sq # tbl @ CHR ''.'' # name @ sq # [dq] @ '')'')" by simp
  also have "find_quoted py_lower {sq, bq, dq} ?w \<dots> = Some (tbl @ CHR ''.'' # name)"
  proof -
    let ?r = "sq # tbl @ CHR ''.'' # name @ sq # [dq] @ '')''"
    have "quoted_here py_lower {sq, bq, dq} ?w (CHR '' '' # ?w @ ?r) = None"
      by (simp add: quoted_here_def py_lower_def lower_char_def)
    moreover have "quoted_here py_lower {sq, bq, dq} ?w (?w @ ?r) = Some (tbl @ CHR ''.'' # name)"
    proof -
      have d: "dropWhile (\<lambda>c. c \<notin> {sq, bq, dq}) (tbl @ CHR ''.'' # name @ sq # [dq] @ '')'') \<noteq> []"
        by (simp add: dropWhile_eq_Nil_conv)
      have t: "take (length ?w) (?w @ ?r) = ?w" "drop (length ?w) (?w @ ?r) = ?r"
        by simp_all
      show ?thesis unfolding quoted_here_def t
        using d takeWhile_name [OF assms(2,3), of "[dq] @ '')''"] by (simp add: Let_def)
    qed
    ultimately show ?thesis by simp
  qed
  finally show ?thesis .
qed



text \<open>
  A value that contains the phrase decides the error itself: a second entry with this value in one
  dictionary type is reported as a duplicate user name.
\<close>

lemma duplicate_value_chooses_error:
  "pr_type (integrity_response domain_constraints
     (duplicate_error (''1-for key '' @ [sq] @ ''x.uq_users_username'' @ [sq]) ''dict_data'' ''uq_dict_data_type_value'')) =
   ''user.USERNAME_DUPLICATE''"
  by code_simp

section \<open>What a client sees\<close>


end
