(* ===== verification/Permissions.thy ===== *)
theory Permissions
  imports Authz
begin

text \<open>
  \<^verbatim>\<open>authz/permissions.py\<close>: the registry of permission codes, and the registration that
  \<^verbatim>\<open>require_permission\<close> of \<^verbatim>\<open>core/permissions.py\<close> does when a router module is imported.  The
  constant \<^verbatim>\<open>SYSTEM_USER_LIST\<close> is \<open>sys ''user'' ''list''\<close>.
\<close>

definition sys :: "string \<Rightarrow> string \<Rightarrow> string" where
  "sys resource action = ''system:'' @ resource @ '':'' @ action"

definition crud_actions :: "string list" where
  "crud_actions = [''list'', ''query'', ''add'', ''edit'', ''remove'']"

text \<open>The class \<^verbatim>\<open>Permissions\<close>: the actions of every resource, in its order.\<close>

definition permission_table :: "(string \<times> string list) list" where
  "permission_table =
     [(''user'', crud_actions), (''role'', crud_actions), (''menu'', crud_actions),
      (''dept'', crud_actions), (''post'', crud_actions @ [''import'', ''export'']),
      (''operlog'', [''list'', ''query'']), (''logininfor'', [''list'', ''query'']),
      (''dict'', crud_actions), (''config'', crud_actions), (''notice'', crud_actions),
      (''server'', [''list'']), (''cache'', [''list'']), (''online'', [''list'', ''remove'']),
      (''job'', crud_actions @ [''run'']),
      (''file'', [''list'', ''query'', ''upload'', ''download'', ''remove''])]"

definition all_permissions :: "string list" where
  "all_permissions = concat (map (\<lambda>(res, acts). map (sys res) acts) permission_table)"

text \<open>
  \<^verbatim>\<open>require_permission(perm)\<close> at import time: an unregistered code is refused, a registered one is
  recorded as used.
\<close>

definition register_guard :: "string \<Rightarrow> string set \<Rightarrow> exn + string set" where
  "register_guard perm used =
     (if perm \<in> set all_permissions then Inr (insert perm used) else Inl (RuntimeErr ''ValueError''))"

fun register_guards :: "string list \<Rightarrow> string set \<Rightarrow> exn + string set" where
  "register_guards [] used = Inr used"
| "register_guards (p # ps) used = bind_res (register_guard p used) (register_guards ps)"

lemma register_guards_Inr:
  "register_guards ps used = Inr u \<longleftrightarrow> set ps \<subseteq> set all_permissions \<and> u = used \<union> set ps"
  by (induction ps arbitrary: used) (auto simp: register_guard_def)

lemma distinct_all_permissions: "distinct all_permissions"
  by code_simp

end
