(* ===== verification/Seed.thy ===== *)
theory Seed
  imports Permissions MenuService RoleService
begin

text \<open>
  \<^verbatim>\<open>rbac/seed.py\<close>: the manifest of built-in menus and roles and the command that applies it.  The
  manifest is a tree of \<open>seed_menu\<close>; its display names are Chinese text and are an argument, a
  function of the seed key.  \<open>upsert\<close> is the local coroutine of the same name, \<open>prune\<close> the final
  loop.  The whole command is one transaction under a lock, so the tables are read and written
  without interference from another run of the command.
\<close>

section \<open>Manifest\<close>

datatype seed_menu = SeedMenu (sm_key: string) (sm_type: menu_type) (sm_path: string)
  (sm_component: "string option") (sm_perms: "string option") (sm_icon: string) (sm_sort: int)
  (sm_visible: bool) (sm_children: "seed_menu list")

record seed_role =
  sr_code :: string
  sr_name :: string
  sr_scope :: scope_type
  sr_sort :: int

text \<open>A button is identified by its permission.\<close>

definition seed_button :: "string \<Rightarrow> int \<Rightarrow> seed_menu" where
  "seed_button perm n = SeedMenu perm MenuF [] None (Some perm) [] n True []"

text \<open>Buttons numbered from 1.\<close>

definition seed_buttons :: "string \<Rightarrow> string list \<Rightarrow> seed_menu list" where
  "seed_buttons res acts = map (\<lambda>(n, a). seed_button (sys res a) n) (zip [1..int (length acts)] acts)"

definition page_menu ::
    "string \<Rightarrow> string \<Rightarrow> string \<Rightarrow> int \<Rightarrow> seed_menu list \<Rightarrow> seed_menu" where
  "page_menu area res icon n children =
     SeedMenu (area @ '':'' @ res) MenuC res (Some (area @ ''/'' @ res @ ''/index''))
       (Some (sys res ''list'')) icon n True children"

definition resource_menu :: "string \<Rightarrow> int \<Rightarrow> string list \<Rightarrow> seed_menu" where
  "resource_menu res n extra =
     page_menu ''system'' res res n
       (seed_buttons res ([''query'', ''add'', ''edit'', ''remove''] @ extra))"

definition system_menu :: seed_menu where
  "system_menu = SeedMenu ''system'' MenuM ''system'' None None ''system'' 1 True
     [resource_menu ''user'' 1 [], resource_menu ''role'' 2 [], resource_menu ''menu'' 3 [],
      resource_menu ''dept'' 4 [], resource_menu ''post'' 5 [''import'', ''export''],
      resource_menu ''dict'' 6 [], resource_menu ''config'' 7 [], resource_menu ''notice'' 8 [],
      page_menu ''system'' ''file'' ''upload'' 9
        (seed_buttons ''file'' [''query'', ''upload'', ''download'', ''remove''])]"

definition monitor_menu :: seed_menu where
  "monitor_menu = SeedMenu ''monitor'' MenuM ''monitor'' None None ''monitor'' 2 True
     [page_menu ''monitor'' ''operlog'' ''form'' 1 (seed_buttons ''operlog'' [''query'']),
      page_menu ''monitor'' ''logininfor'' ''logininfor'' 2 (seed_buttons ''logininfor'' [''query'']),
      page_menu ''monitor'' ''server'' ''server'' 3 [],
      page_menu ''monitor'' ''cache'' ''redis'' 4 [],
      page_menu ''monitor'' ''online'' ''online'' 5 (seed_buttons ''online'' [''remove'']),
      page_menu ''monitor'' ''job'' ''job'' 6
        (seed_buttons ''job'' [''query'', ''add'', ''edit'', ''remove'', ''run''])]"

definition menu_tree :: "seed_menu list" where
  "menu_tree = [system_menu, monitor_menu]"

definition seed_roles_manifest :: "(string \<Rightarrow> string) \<Rightarrow> seed_role list" where
  "seed_roles_manifest nm =
     [\<lparr>sr_code = ''superadmin'', sr_name = nm ''superadmin'', sr_scope = ScopeSelf, sr_sort = 0\<rparr>]"

section \<open>Roles\<close>

definition new_seed_role :: "seed_role \<Rightarrow> int \<Rightarrow> int \<Rightarrow> role" where
  "new_seed_role sr now i =
     \<lparr>r_id = i, r_name = sr_name sr, r_code = sr_code sr, r_scope = sr_scope sr, r_sort = sr_sort sr,
      r_status = Active, r_created = now\<rparr>"

definition refresh_role :: "seed_role \<Rightarrow> role \<Rightarrow> role" where
  "refresh_role sr r = r\<lparr>r_name := sr_name sr, r_scope := sr_scope sr, r_sort := sr_sort sr\<rparr>"

definition seed_role_row :: "seed_role \<Rightarrow> int \<Rightarrow> db \<Rightarrow> db" where
  "seed_role_row sr now d =
     (case find_role_by_code d (sr_code sr) of
        None \<Rightarrow> d\<lparr>roles := snd (insert_row (new_seed_role sr now) (roles d))\<rparr>
      | Some r \<Rightarrow> d\<lparr>roles := update_where (\<lambda>x. r_id x = r_id r) (refresh_role sr) (roles d)\<rparr>)"

fun seed_role_rows :: "seed_role list \<Rightarrow> int \<Rightarrow> db \<Rightarrow> db" where
  "seed_role_rows [] now d = d"
| "seed_role_rows (sr # srs) now d = seed_role_rows srs now (seed_role_row sr now d)"

section \<open>Menus\<close>

text \<open>\<^verbatim>\<open>existing\<close>: the rows with a seed key, by key.\<close>

definition seeded :: "db \<Rightarrow> (string \<times> menu) list" where
  "seeded d = concat (map (\<lambda>m. case m_seed m of None \<Rightarrow> [] | Some k \<Rightarrow> [(k, m)]) (rows (menus d)))"

definition seeded_id :: "(string \<times> menu) list \<Rightarrow> string \<Rightarrow> int option" where
  "seeded_id existing k = map_option m_id (map_of existing k)"

text \<open>The assignments of \<^verbatim>\<open>upsert\<close>.\<close>

definition planted :: "(string \<Rightarrow> string) \<Rightarrow> seed_menu \<Rightarrow> int option \<Rightarrow> menu \<Rightarrow> menu" where
  "planted nm node parent m = m\<lparr>m_name := nm (sm_key node), m_type := sm_type node,
     m_path := sm_path node, m_component := sm_component node, m_perms := sm_perms node,
     m_icon := sm_icon node, m_sort := sm_sort node, m_visible := sm_visible node,
     m_status := Active, m_parent := parent\<rparr>"

definition new_seed_menu :: "(string \<Rightarrow> string) \<Rightarrow> seed_menu \<Rightarrow> int option \<Rightarrow> int \<Rightarrow> menu" where
  "new_seed_menu nm node parent i =
     planted nm node parent \<lparr>m_id = i, m_parent = None, m_name = [], m_type = MenuF, m_path = [],
       m_component = None, m_perms = None, m_icon = [], m_sort = 0, m_visible = True,
       m_status = Active, m_seed = Some (sm_key node)\<rparr>"

text \<open>One node: the key of its row and the database, or the violation of the unique index.\<close>

definition put_menu ::
    "(string \<Rightarrow> string) \<Rightarrow> (string \<times> menu) list \<Rightarrow> seed_menu \<Rightarrow> int option \<Rightarrow> db \<Rightarrow> exn + int \<times> db" where
  "put_menu nm existing node parent d =
     (case seeded_id existing (sm_key node) of
        Some i \<Rightarrow>
          Inr (i, d\<lparr>menus := update_where (\<lambda>m. m_id m = i) (planted nm node parent) (menus d)\<rparr>)
      | None \<Rightarrow>
          if list_ex (\<lambda>m. m_seed m = Some (sm_key node)) (rows (menus d))
          then Inl (IntegrityErr ''uq_menus_seed_key'')
          else (case insert_row (new_seed_menu nm node parent) (menus d) of
                  (m, t) \<Rightarrow> Inr (m_id m, d\<lparr>menus := t\<rparr>)))"

fun upsert ::
      "(string \<Rightarrow> string) \<Rightarrow> (string \<times> menu) list \<Rightarrow> seed_menu \<Rightarrow> int option \<Rightarrow> db \<Rightarrow> exn + db"
  and upserts ::
      "(string \<Rightarrow> string) \<Rightarrow> (string \<times> menu) list \<Rightarrow> seed_menu list \<Rightarrow> int option \<Rightarrow> db \<Rightarrow> exn + db" where
  "upsert nm existing (SeedMenu k ty path cmp perms icon n vis children) parent d =
     bind_res (put_menu nm existing (SeedMenu k ty path cmp perms icon n vis children) parent d)
       (\<lambda>(i, d1). upserts nm existing children (Some i) d1)"
| "upserts nm existing [] parent d = Inr d"
| "upserts nm existing (node # nodes) parent d =
     bind_res (upsert nm existing node parent d) (upserts nm existing nodes parent)"

text \<open>The keys of the manifest in the order of the traversal (\<^verbatim>\<open>seen\<close>).\<close>

fun seed_keys :: "seed_menu \<Rightarrow> string list" where
  "seed_keys (SeedMenu k ty path cmp perms icon n vis children) = k # concat (map seed_keys children)"

definition manifest_keys :: "seed_menu list \<Rightarrow> string list" where
  "manifest_keys tree = concat (map seed_keys tree)"

section \<open>Pruning\<close>

text \<open>\<^verbatim>\<open>session.delete\<close> of several rows and the flush: the foreign keys of the children restrict.\<close>

fun delete_menus :: "menu list \<Rightarrow> db \<Rightarrow> exn + db" where
  "delete_menus [] d = Inr d"
| "delete_menus (m # ms) d = bind_res (menu_repo_delete (m_id m) d) (\<lambda>(_, d1). delete_menus ms d1)"

definition prune_leaves :: "menu list \<Rightarrow> menu list" where
  "prune_leaves stale = filter (\<lambda>m. \<not> list_ex (\<lambda>x. m_parent x = Some (m_id m)) stale) stale"

function prune :: "menu list \<Rightarrow> db \<Rightarrow> exn + nat \<times> db" where
  "prune stale d =
     (if prune_leaves stale = [] then Inr (0, d)
      else bind_res (delete_menus (prune_leaves stale) d) (\<lambda>d1.
             bind_res (prune (filter (\<lambda>m. m \<notin> set (prune_leaves stale)) stale) d1) (\<lambda>(n, d2).
               Inr (length (prune_leaves stale) + n, d2))))"
  by pat_completeness auto

termination prune
proof (relation "measure (\<lambda>(stale, d). length stale)")
  fix stale :: "menu list" and d d1 :: db
  assume "prune_leaves stale \<noteq> []"
  then obtain m where m: "m \<in> set (prune_leaves stale)" by (cases "prune_leaves stale") auto
  then have "m \<in> set stale" by (auto simp: prune_leaves_def)
  with m have "length (filter (\<lambda>m. m \<notin> set (prune_leaves stale)) stale) < length stale"
    by (intro length_filter_less) auto
  then show "((filter (\<lambda>m. m \<notin> set (prune_leaves stale)) stale, d1), stale, d) \<in>
      measure (\<lambda>(stale, d). length stale)" by simp
qed simp

declare prune.simps [simp del]

section \<open>The command\<close>

record seed_result =
  sd_roles :: nat
  sd_menus :: nat
  sd_pruned :: nat

definition seed_menus ::
    "(string \<Rightarrow> string) \<Rightarrow> seed_menu list \<Rightarrow> db \<Rightarrow> exn + nat \<times> db" where
  "seed_menus nm tree d =
     bind_res (upserts nm (seeded d) tree None d) (\<lambda>d1.
       prune (map snd (filter (\<lambda>(k, m). k \<notin> set (manifest_keys tree)) (seeded d))) d1)"

definition seed_rbac :: "(string \<Rightarrow> string) \<Rightarrow> int \<Rightarrow> db \<Rightarrow> exn + seed_result \<times> db" where
  "seed_rbac nm now d =
     bind_res (seed_menus nm menu_tree (seed_role_rows (seed_roles_manifest nm) now d)) (\<lambda>(n, d1).
       Inr (\<lparr>sd_roles = length (seed_roles_manifest nm), sd_menus = length (manifest_keys menu_tree),
             sd_pruned = n\<rparr>, d1))"

end
