(* ===== verification/SeedGrowth.thy ===== *)
theory SeedGrowth
  imports Seed
begin

text \<open>
  What \<^verbatim>\<open>rbac seed\<close> achieves.  \<open>entries\<close> lists a manifest with the key of each node's parent;
  \<open>entry_ok\<close> says that a row of the menu table is that node, below its parent's row.  \<open>grown\<close> is
  the invariant of the traversal.
\<close>

section \<open>The manifest as a list\<close>

fun entries :: "string option \<Rightarrow> seed_menu \<Rightarrow> (seed_menu \<times> string option) list" where
  "entries pk (SeedMenu k ty path cmp perms icon n vis children) =
     (SeedMenu k ty path cmp perms icon n vis children, pk) # concat (map (entries (Some k)) children)"

definition manifest_entries :: "seed_menu list \<Rightarrow> (seed_menu \<times> string option) list" where
  "manifest_entries tree = concat (map (entries None) tree)"

lemma entries_keys: "map (sm_key \<circ> fst) (entries pk node) = seed_keys node"
proof (induction node arbitrary: pk)
  case (SeedMenu k ty path cmp perms icon n vis children)
  then have "map (\<lambda>c. map (sm_key \<circ> fst) (entries (Some k) c)) children = map seed_keys children"
    by (intro map_cong refl) blast
  then have "concat (map (\<lambda>c. map (sm_key \<circ> fst) (entries (Some k) c)) children) =
      concat (map seed_keys children)" by (simp only:)
  then show ?case by (simp add: map_concat o_def)
qed

lemma manifest_entries_keys: "map (sm_key \<circ> fst) (manifest_entries tree) = manifest_keys tree"
  by (simp add: manifest_entries_def manifest_keys_def map_concat o_def entries_keys [unfolded o_def])

section \<open>Seed keys in the table\<close>

definition seed_unique :: "db \<Rightarrow> bool" where
  "seed_unique d \<longleftrightarrow> table_ok m_id (menus d) \<and>
     (\<forall>x \<in> set (rows (menus d)). \<forall>y \<in> set (rows (menus d)).
        m_seed x \<noteq> None \<longrightarrow> m_seed x = m_seed y \<longrightarrow> x = y)"

definition has_key :: "db \<Rightarrow> string \<Rightarrow> int \<Rightarrow> bool" where
  "has_key d k i \<longleftrightarrow> (\<exists>m \<in> set (rows (menus d)). m_seed m = Some k \<and> m_id m = i)"

definition parent_ok :: "db \<Rightarrow> string option \<Rightarrow> int option \<Rightarrow> bool" where
  "parent_ok d pk parent =
     (case pk of None \<Rightarrow> parent = None | Some k \<Rightarrow> (\<exists>i. parent = Some i \<and> has_key d k i))"

definition entry_ok :: "(string \<Rightarrow> string) \<Rightarrow> db \<Rightarrow> seed_menu \<Rightarrow> string option \<Rightarrow> bool" where
  "entry_ok nm d node pk \<longleftrightarrow>
     (\<exists>m \<in> set (rows (menus d)). \<exists>parent. m_seed m = Some (sm_key node) \<and> parent_ok d pk parent \<and>
        planted nm node parent m = m)"

lemma in_seeded: "(k, m) \<in> set (seeded d) \<longleftrightarrow> m \<in> set (rows (menus d)) \<and> m_seed m = Some k"
  by (auto simp: seeded_def split: option.splits)

lemma seeded_id_iff: "seed_unique d \<Longrightarrow> seeded_id (seeded d) k = Some i \<longleftrightarrow> has_key d k i"
proof
  assume u: "seed_unique d"
  show "has_key d k i" if "seeded_id (seeded d) k = Some i"
    using that by (auto simp: seeded_id_def has_key_def in_seeded dest!: map_of_SomeD)
  assume "has_key d k i"
  then obtain m where m: "m \<in> set (rows (menus d))" "m_seed m = Some k" "m_id m = i"
    by (auto simp: has_key_def)
  then have "(k, m) \<in> set (seeded d)" by (simp add: in_seeded)
  then have "map_of (seeded d) k \<noteq> None" by (metis map_of_eq_None_iff fst_conv image_eqI)
  then obtain x where x: "map_of (seeded d) k = Some x" by auto
  then have "x \<in> set (rows (menus d))" "m_seed x = Some k" by (auto simp: in_seeded dest!: map_of_SomeD)
  with m u have "x = m" unfolding seed_unique_def by (metis option.distinct(1))
  with x m show "seeded_id (seeded d) k = Some i" by (simp add: seeded_id_def)
qed

lemma has_key_unique: "seed_unique d \<Longrightarrow> has_key d k i \<Longrightarrow> has_key d k j \<Longrightarrow> i = j"
  unfolding has_key_def seed_unique_def by (metis option.distinct(1))

lemma parent_ok_unique: "seed_unique d \<Longrightarrow> parent_ok d pk p \<Longrightarrow> parent_ok d pk q \<Longrightarrow> p = q"
  by (auto simp: parent_ok_def dest: has_key_unique split: option.splits)

lemma planted_simps [simp]:
  "m_id (planted nm node parent m) = m_id m" "m_seed (planted nm node parent m) = m_seed m"
  "m_parent (planted nm node parent m) = parent"
  "planted nm node parent (planted nm node parent m) = planted nm node parent m"
  by (simp_all add: planted_def)

lemma new_seed_menu_simps [simp]:
  "m_id (new_seed_menu nm node parent i) = i" "m_seed (new_seed_menu nm node parent i) = Some (sm_key node)"
  "m_parent (new_seed_menu nm node parent i) = parent"
  "planted nm node parent (new_seed_menu nm node parent i) = new_seed_menu nm node parent i"
  by (simp_all add: new_seed_menu_def)

section \<open>The traversal\<close>

definition grown ::
    "(string \<Rightarrow> string) \<Rightarrow> (seed_menu \<times> string option) list \<Rightarrow> db \<Rightarrow> db \<Rightarrow> bool" where
  "grown nm P d d1 \<longleftrightarrow> seed_unique d1 \<and> (\<exists>t. d1 = d\<lparr>menus := t\<rparr>) \<and>
     (\<forall>m. m_seed m \<notin> Some ` (sm_key \<circ> fst) ` set P \<longrightarrow>
        (m \<in> set (rows (menus d1)) \<longleftrightarrow> m \<in> set (rows (menus d)))) \<and>
     (\<forall>m \<in> set (rows (menus d)). \<exists>m' \<in> set (rows (menus d1)). m_id m' = m_id m \<and> m_seed m' = m_seed m) \<and>
     (\<forall>(node, pk) \<in> set P. entry_ok nm d1 node pk)"

text \<open>Rows may be replaced by rows with the same keys, and the entries of other keys stay right.\<close>

lemma entry_ok_mono:
  assumes "entry_ok nm d node pk"
    and "\<And>m. m \<in> set (rows (menus d)) \<Longrightarrow> m_seed m = Some (sm_key node) \<Longrightarrow> m \<in> set (rows (menus d'))"
    and "\<And>k i. pk = Some k \<Longrightarrow> has_key d k i \<Longrightarrow> has_key d' k i"
  shows "entry_ok nm d' node pk"
  using assms unfolding entry_ok_def parent_ok_def by (fastforce split: option.splits)

lemma grown_update:
  assumes g: "grown nm P d d1" and k: "sm_key node \<notin> (sm_key \<circ> fst) ` set P"
    and x: "x \<in> set (rows (menus d1))" "m_seed x = Some (sm_key node)" and p: "parent_ok d1 pk parent"
  shows "grown nm (P @ [(node, pk)]) d
    (d1\<lparr>menus := update_where (\<lambda>m. m_id m = m_id x) (planted nm node parent) (menus d1)\<rparr>)"
    (is "grown nm _ d ?d")
proof -
  note g = g [unfolded grown_def]
  have u: "seed_unique d1" using g by blast
  have only: "m_id m = m_id x \<longleftrightarrow> m = x" if "m \<in> set (rows (menus d1))" for m
    using u x that get_row_inj [of m_id "menus d1" m x] by (auto simp: seed_unique_def)
  define f where "f r = (if r = x then planted nm node parent r else r)" for r
  have "rows (menus ?d) = map f (rows (menus d1))"
    using only by (auto simp: rows_update_where f_def)
  then have mem: "set (rows (menus ?d)) = f ` set (rows (menus d1))" by simp
  have f: "m_id (f r) = m_id r" "m_seed (f r) = m_seed r" for r by (simp_all add: f_def)
  have keys: "has_key ?d k i \<longleftrightarrow> has_key d1 k i" for k i
    unfolding has_key_def mem by (simp add: f)
  have same: "m \<in> set (rows (menus ?d)) \<longleftrightarrow> m \<in> set (rows (menus d1))"
    if "m_seed m \<noteq> Some (sm_key node)" for m
  proof -
    have "f r = m \<longleftrightarrow> r = m" for r using that x(2) by (auto simp: f_def)
    then show ?thesis unfolding mem image_iff by metis
  qed
  have "table_ok m_id (menus ?d)" using u by (auto intro!: table_ok_update simp: seed_unique_def)
  moreover have "f r = f q" if "r \<in> set (rows (menus d1))" "q \<in> set (rows (menus d1))"
      "m_seed (f r) \<noteq> None" "m_seed (f r) = m_seed (f q)" for r q
    using u that unfolding seed_unique_def f by blast
  ultimately have "seed_unique ?d" unfolding seed_unique_def mem by blast
  moreover have "\<exists>t. ?d = d\<lparr>menus := t\<rparr>" using g by auto
  moreover have "m \<in> set (rows (menus ?d)) \<longleftrightarrow> m \<in> set (rows (menus d))"
    if "m_seed m \<notin> Some ` (sm_key \<circ> fst) ` set (P @ [(node, pk)])" for m
  proof -
    have "m_seed m \<noteq> Some (sm_key node)" "m_seed m \<notin> Some ` (sm_key \<circ> fst) ` set P" using that by auto
    with same g show ?thesis by blast
  qed
  moreover have "\<exists>m' \<in> set (rows (menus ?d)). m_id m' = m_id m \<and> m_seed m' = m_seed m"
    if "m \<in> set (rows (menus d))" for m
  proof -
    obtain r where r: "r \<in> set (rows (menus d1))" "m_id r = m_id m" "m_seed r = m_seed m"
      using g \<open>m \<in> set (rows (menus d))\<close> by blast
    have "f r \<in> set (rows (menus ?d))" using r(1) unfolding mem by blast
    then show ?thesis using r(2,3) f by metis
  qed
  moreover have "entry_ok nm ?d n q" if "(n, q) \<in> set (P @ [(node, pk)])" for n q
  proof (cases "(n, q) \<in> set P")
    case True
    then have "sm_key n \<noteq> sm_key node" using k by force
    have "entry_ok nm d1 n q" using g True by blast
    then show ?thesis
    proof (rule entry_ok_mono)
      show "m \<in> set (rows (menus ?d))" if "m \<in> set (rows (menus d1))" "m_seed m = Some (sm_key n)" for m
        using that same [of m] \<open>sm_key n \<noteq> sm_key node\<close> by simp
    qed (simp add: keys)
  next
    case False
    then have n: "n = node" "q = pk" using that by auto
    have "f x \<in> set (rows (menus ?d))" using x(1) unfolding mem by blast
    then have "planted nm node parent x \<in> set (rows (menus ?d))" by (simp add: f_def)
    moreover have "parent_ok ?d pk parent" using p by (simp add: parent_ok_def keys split: option.splits)
    ultimately show ?thesis unfolding entry_ok_def n using x(2)
      by (metis planted_simps(2,4))
  qed
  ultimately show ?thesis unfolding grown_def by blast
qed

lemma grown_insert:
  assumes g: "grown nm P d d1" and k: "sm_key node \<notin> (sm_key \<circ> fst) ` set P"
    and n: "\<forall>m \<in> set (rows (menus d)). m_seed m \<noteq> Some (sm_key node)" and p: "parent_ok d1 pk parent"
    and ins: "insert_row (new_seed_menu nm node parent) (menus d1) = (m, t)"
  shows "grown nm (P @ [(node, pk)]) d (d1\<lparr>menus := t\<rparr>)" (is "grown nm _ d ?d")
proof -
  note g = g [unfolded grown_def]
  have u: "seed_unique d1" using g by blast
  have t: "rows t = rows (menus d1) @ [m]" "m = new_seed_menu nm node parent (seq (menus d1))"
    using rows_insert_row [OF ins] by auto
  have m: "m_seed m = Some (sm_key node)" "planted nm node parent m = m" using t(2) by simp_all
  have mem: "set (rows (menus ?d)) = insert m (set (rows (menus d1)))" using t(1) by simp
  have none: "\<forall>x \<in> set (rows (menus d1)). m_seed x \<noteq> Some (sm_key node)"
  proof (rule ballI, rule notI)
    fix x assume x: "x \<in> set (rows (menus d1))" "m_seed x = Some (sm_key node)"
    then have "m_seed x \<notin> Some ` (sm_key \<circ> fst) ` set P" using k by auto
    with x(1) g have "x \<in> set (rows (menus d))" by blast
    with n x(2) show False by blast
  qed
  have keys: "has_key ?d j i" if "has_key d1 j i" for j i using that unfolding has_key_def mem by blast
  have "table_ok m_id t" using u table_ok_insert [OF _ ins] by (simp add: seed_unique_def)
  then have "seed_unique ?d" using u none m(1) unfolding seed_unique_def mem by auto
  moreover have "\<exists>t. ?d = d\<lparr>menus := t\<rparr>" using g by auto
  moreover have "x \<in> set (rows (menus ?d)) \<longleftrightarrow> x \<in> set (rows (menus d))"
    if "m_seed x \<notin> Some ` (sm_key \<circ> fst) ` set (P @ [(node, pk)])" for x
  proof -
    have "x \<noteq> m" "m_seed x \<notin> Some ` (sm_key \<circ> fst) ` set P" using that m(1) by auto
    with g show ?thesis unfolding mem by blast
  qed
  moreover have "\<forall>x \<in> set (rows (menus d)). \<exists>m' \<in> set (rows (menus ?d)). m_id m' = m_id x \<and> m_seed m' = m_seed x"
    using g unfolding mem by blast
  moreover have "entry_ok nm ?d c q" if "(c, q) \<in> set (P @ [(node, pk)])" for c q
  proof (cases "(c, q) \<in> set P")
    case True
    then have "entry_ok nm d1 c q" using g by blast
    then show ?thesis by (rule entry_ok_mono) (use mem keys in auto)
  next
    case False
    then have c: "c = node" "q = pk" using that by auto
    have "parent_ok ?d pk parent" using p keys by (auto simp: parent_ok_def split: option.splits)
    then show ?thesis unfolding entry_ok_def c mem using m by blast
  qed
  ultimately show ?thesis unfolding grown_def by blast
qed

lemma put_menu_grown:
  assumes g: "grown nm P d d1" and u: "seed_unique d" and k: "sm_key node \<notin> (sm_key \<circ> fst) ` set P"
    and p: "parent_ok d1 pk parent"
  obtains i d2 where "put_menu nm (seeded d) node parent d1 = Inr (i, d2)"
    "grown nm (P @ [(node, pk)]) d d2" "has_key d2 (sm_key node) i"
    "\<And>j l. has_key d1 j l \<Longrightarrow> has_key d2 j l"
proof (cases "seeded_id (seeded d) (sm_key node)")
  case None
  then have n: "\<forall>m \<in> set (rows (menus d)). m_seed m \<noteq> Some (sm_key node)"
    using seeded_id_iff [OF u, of "sm_key node"] by (auto simp: has_key_def)
  obtain m t where ins: "insert_row (new_seed_menu nm node parent) (menus d1) = (m, t)" by fastforce
  have "\<not> list_ex (\<lambda>m. m_seed m = Some (sm_key node)) (rows (menus d1))"
  proof
    assume "list_ex (\<lambda>m. m_seed m = Some (sm_key node)) (rows (menus d1))"
    then obtain x where x: "x \<in> set (rows (menus d1))" "m_seed x = Some (sm_key node)" by (auto simp: list_ex_iff)
    then have "m_seed x \<notin> Some ` (sm_key \<circ> fst) ` set P" using k by auto
    with x(1) g have "x \<in> set (rows (menus d))" unfolding grown_def by blast
    with n x(2) show False by blast
  qed
  then have "put_menu nm (seeded d) node parent d1 = Inr (m_id m, d1\<lparr>menus := t\<rparr>)"
    using None ins by (simp add: put_menu_def)
  moreover have "has_key (d1\<lparr>menus := t\<rparr>) (sm_key node) (m_id m)"
    using rows_insert_row [OF ins] by (auto simp: has_key_def)
  moreover have "has_key (d1\<lparr>menus := t\<rparr>) j l" if "has_key d1 j l" for j l
    using that rows_insert_row [OF ins] by (auto simp: has_key_def)
  ultimately show ?thesis using grown_insert [OF g k n p ins] that by blast
next
  case (Some i)
  then obtain x0 where "x0 \<in> set (rows (menus d))" "m_seed x0 = Some (sm_key node)" "m_id x0 = i"
    using seeded_id_iff [OF u] by (auto simp: has_key_def)
  then obtain x where x: "x \<in> set (rows (menus d1))" "m_seed x = Some (sm_key node)" "m_id x = i"
    using g unfolding grown_def by metis
  let ?d = "d1\<lparr>menus := update_where (\<lambda>m. m_id m = m_id x) (planted nm node parent) (menus d1)\<rparr>"
  have "put_menu nm (seeded d) node parent d1 = Inr (i, ?d)"
    using Some x(3) by (simp add: put_menu_def)
  moreover have keep: "has_key ?d j l" if "has_key d1 j l" for j l
  proof -
    obtain m where m: "m \<in> set (rows (menus d1))" "m_seed m = Some j" "m_id m = l"
      using \<open>has_key d1 j l\<close> by (auto simp: has_key_def)
    let ?f = "\<lambda>r. if m_id r = m_id x then planted nm node parent r else r"
    have "?f m \<in> ?f ` set (rows (menus d1))" using m(1) by (rule imageI)
    then have "?f m \<in> set (rows (menus ?d))"
      by (simp add: rows_update_where del: if_image_distrib)
    then show ?thesis unfolding has_key_def by (rule bexI [rotated]) (use m in simp)
  qed
  moreover have "has_key ?d (sm_key node) i"
    by (rule keep) (use x in \<open>auto simp: has_key_def\<close>)
  ultimately show ?thesis using grown_update [OF g k x(1,2) p] that by blast
qed

lemma parent_ok_mono:
  "parent_ok d1 pk parent \<Longrightarrow> (\<And>j l. has_key d1 j l \<Longrightarrow> has_key d2 j l) \<Longrightarrow> parent_ok d2 pk parent"
  by (auto simp: parent_ok_def split: option.splits)

lemma upsert_grown:
  assumes u: "seed_unique d"
  shows "grown nm P d d1 \<Longrightarrow> parent_ok d1 pk parent \<Longrightarrow> distinct (seed_keys node) \<Longrightarrow>
      set (seed_keys node) \<inter> (sm_key \<circ> fst) ` set P = {} \<Longrightarrow>
      \<exists>d2. upsert nm (seeded d) node parent d1 = Inr d2 \<and> grown nm (P @ entries pk node) d d2 \<and>
        (\<forall>j l. has_key d1 j l \<longrightarrow> has_key d2 j l)"
    and "grown nm P d d1 \<Longrightarrow> parent_ok d1 pk parent \<Longrightarrow> distinct (manifest_keys nodes) \<Longrightarrow>
      set (manifest_keys nodes) \<inter> (sm_key \<circ> fst) ` set P = {} \<Longrightarrow>
      \<exists>d2. upserts nm (seeded d) nodes parent d1 = Inr d2 \<and>
        grown nm (P @ concat (map (entries pk) nodes)) d d2 \<and> (\<forall>j l. has_key d1 j l \<longrightarrow> has_key d2 j l)"
proof (induction nm "seeded d" node parent d1 and nm "seeded d" nodes parent d1
    arbitrary: P pk and P pk rule: upsert_upserts.induct)
  case (1 nm k ty path cmp perms icon n vis children parent d1)
  let ?node = "SeedMenu k ty path cmp perms icon n vis children"
  obtain i d2 where put: "put_menu nm (seeded d) ?node parent d1 = Inr (i, d2)"
    "grown nm (P @ [(?node, pk)]) d d2" "has_key d2 k i" "\<And>j l. has_key d1 j l \<Longrightarrow> has_key d2 j l"
    by (rule put_menu_grown [OF "1.prems"(1) u _ "1.prems"(2), of ?node]) (use "1.prems"(4) in auto)
  have "\<exists>d3. upserts nm (seeded d) children (Some i) d2 = Inr d3 \<and>
      grown nm ((P @ [(?node, pk)]) @ concat (map (entries (Some k)) children)) d d3 \<and>
      (\<forall>j l. has_key d2 j l \<longrightarrow> has_key d3 j l)"
  proof (rule "1.hyps")
    show "parent_ok d2 (Some k) (Some i)" using put(3) by (simp add: parent_ok_def)
    show "distinct (manifest_keys children)" using "1.prems"(3) by (simp add: manifest_keys_def)
    show "set (manifest_keys children) \<inter> (sm_key \<circ> fst) ` set (P @ [(?node, pk)]) = {}"
      using "1.prems"(3,4) by (auto simp: manifest_keys_def)
  qed (use put in auto)
  then show ?case using put(1,4) by auto
next
  case (2 nm parent d1)
  then show ?case by simp
next
  case (3 nm node nodes parent d1)
  have "set (seed_keys node) \<inter> (sm_key \<circ> fst) ` set P = {}" "distinct (seed_keys node)"
    using "3.prems"(3,4) by (auto simp: manifest_keys_def)
  from "3.hyps"(1) [OF "3.prems"(1,2) this(2,1)]
  obtain d2 where d2: "upsert nm (seeded d) node parent d1 = Inr d2" "grown nm (P @ entries pk node) d d2"
    "\<forall>j l. has_key d1 j l \<longrightarrow> has_key d2 j l" by blast
  have keys: "(sm_key \<circ> fst) ` set (entries pk node) = set (seed_keys node)"
    using entries_keys [of pk node] by (metis list.set_map)
  have "\<exists>d3. upserts nm (seeded d) nodes parent d2 = Inr d3 \<and>
      grown nm ((P @ entries pk node) @ concat (map (entries pk) nodes)) d d3 \<and>
      (\<forall>j l. has_key d2 j l \<longrightarrow> has_key d3 j l)"
  proof (rule "3.hyps"(2))
    show "parent_ok d2 pk parent" using "3.prems"(2) d2(3) parent_ok_mono by blast
    show "distinct (manifest_keys nodes)" using "3.prems"(3) by (simp add: manifest_keys_def)
    have "(sm_key \<circ> fst) ` set (P @ entries pk node) = (sm_key \<circ> fst) ` set P \<union> set (seed_keys node)"
      by (simp only: set_append image_Un keys)
    then show "set (manifest_keys nodes) \<inter> (sm_key \<circ> fst) ` set (P @ entries pk node) = {}"
      using "3.prems"(3,4) by (auto simp: manifest_keys_def)
  qed (use d2 in auto)
  then show ?case using d2(1,3) by auto
qed

end
