(* ===== verification/SeedTheorems.thy ===== *)
theory SeedTheorems
  imports SeedGrowth
begin

text \<open>
  The pruning loop of \<^verbatim>\<open>rbac seed\<close> and what the whole command achieves: the built-in menus are the
  manifest, rows of users stay, keys and bindings of surviving rows stay, a second run changes
  nothing, and the command is refused exactly when a row of a user hangs below a menu that left the
  manifest.
\<close>

section \<open>Pruning\<close>

text \<open>The rows with the given keys and their bindings removed.\<close>

definition cut :: "int set \<Rightarrow> db \<Rightarrow> db" where
  "cut ids d = d\<lparr>menus := delete_where (\<lambda>m. m_id m \<in> ids) (menus d),
     role_menus := filter (\<lambda>p. snd p \<notin> ids) (role_menus d)\<rparr>"

lemma rows_cut [simp]: "rows (menus (cut ids d)) = filter (\<lambda>m. m_id m \<notin> ids) (rows (menus d))"
  by (simp add: cut_def rows_delete_where)

lemma cut_cut: "cut A (cut B d) = cut (A \<union> B) d"
  by (simp add: cut_def delete_where_def conj_commute)

lemma cut_empty [simp]: "cut {} d = d"
  by (simp add: cut_def delete_where_def)

lemma get_menu_cut: "get_menu (cut ids d) i = (if i \<in> ids then None else get_menu d i)"
proof -
  have "find (\<lambda>r. m_id r = i) (filter (\<lambda>m. m_id m \<notin> ids) xs) =
      (if i \<in> ids then None else find (\<lambda>r. m_id r = i) xs)" for xs :: "menu list"
    by (induction xs) auto
  then show ?thesis by (simp add: get_menu_def get_row_def)
qed

lemma menu_repo_delete_cut:
  assumes "get_menu d i \<noteq> None" "\<forall>x \<in> set (rows (menus d)). m_parent x \<noteq> Some i"
  shows "menu_repo_delete i d = Inr (True, cut {i} d)"
  using assms by (auto simp: menu_repo_delete_def menu_count_children_def cut_def filter_empty_conv)

lemma delete_menus_cut:
  assumes "distinct (map m_id ms)" "\<forall>m \<in> set ms. get_menu d (m_id m) \<noteq> None"
    and "\<forall>m \<in> set ms. \<forall>x \<in> set (rows (menus d)). m_parent x \<noteq> Some (m_id m)"
  shows "delete_menus ms d = Inr (cut (m_id ` set ms) d)"
  using assms
proof (induction ms arbitrary: d)
  case (Cons m ms)
  then have "menu_repo_delete (m_id m) d = Inr (True, cut {m_id m} d)"
    by (intro menu_repo_delete_cut) auto
  moreover have "delete_menus ms (cut {m_id m} d) = Inr (cut (m_id ` set ms) (cut {m_id m} d))"
  proof (rule Cons.IH)
    have "m_id x \<noteq> m_id m" if "x \<in> set ms" for x using Cons.prems(1) that by (auto simp: image_iff)
    then show "\<forall>x \<in> set ms. get_menu (cut {m_id m} d) (m_id x) \<noteq> None"
      using Cons.prems(2) by (simp add: get_menu_cut)
  qed (use Cons.prems in auto)
  ultimately show ?case by (simp add: cut_cut)
qed simp

lemma delete_menus_blocked:
  assumes "m \<in> set ms" "\<forall>m \<in> set ms. get_menu d (m_id m) \<noteq> None" "distinct (map m_id ms)"
    and "x \<in> set (rows (menus d))" "m_parent x = Some (m_id m)" "m_id x \<notin> m_id ` set ms"
  shows "\<exists>e. delete_menus ms d = Inl e"
  using assms
proof (induction ms arbitrary: d)
  case (Cons y ms)
  show ?case
  proof (cases "\<exists>z \<in> set (rows (menus d)). m_parent z = Some (m_id y)")
    case True
    then have "menu_count_children d (m_id y) > 0"
      by (auto simp: menu_count_children_def filter_empty_conv)
    then have "menu_repo_delete (m_id y) d = Inl (IntegrityErr ''menus.parent_id'')"
      using Cons.prems(2) by (simp add: menu_repo_delete_def)
    then show ?thesis by simp
  next
    case False
    then have "menu_repo_delete (m_id y) d = Inr (True, cut {m_id y} d)"
      using Cons.prems(2) by (intro menu_repo_delete_cut) auto
    moreover have "\<exists>e. delete_menus ms (cut {m_id y} d) = Inl e"
    proof (rule Cons.IH)
      have "m \<noteq> y" using False Cons.prems(4,5) by blast
      then show "m \<in> set ms" using Cons.prems(1) by simp
      have "m_id x \<noteq> m_id y" if "x \<in> set ms" for x using Cons.prems(3) that by (auto simp: image_iff)
      then show "\<forall>x \<in> set ms. get_menu (cut {m_id y} d) (m_id x) \<noteq> None"
        using Cons.prems(2) by (simp add: get_menu_cut)
    qed (use Cons.prems in auto)
    ultimately show ?thesis by auto
  qed
qed simp

text \<open>The parent relation between rows.\<close>

definition row_parent :: "db \<Rightarrow> (menu \<times> menu) set" where
  "row_parent d = {(x, m). x \<in> set (rows (menus d)) \<and> m \<in> set (rows (menus d)) \<and> m_parent x = Some (m_id m)}"

lemma forest_row_parent: "forest (menu_edges d) \<Longrightarrow> wf (row_parent d)"
proof (rule finite_acyclic_wf)
  have "row_parent d \<subseteq> set (rows (menus d)) \<times> set (rows (menus d))" by (auto simp: row_parent_def)
  then show "finite (row_parent d)" by (rule finite_subset) simp
  assume f: "forest (menu_edges d)"
  have "(m_id x, m_id y) \<in> (parent_rel (menu_edges d))\<^sup>+" if "(x, y) \<in> (row_parent d)\<^sup>+" for x y
    using that
  proof (induction rule: trancl.induct)
    case (r_into_trancl a b)
    then have "(m_id a, m_id b) \<in> parent_rel (menu_edges d)"
      by (force simp: row_parent_def parent_rel_def menu_edges_def)
    then show ?case by blast
  next
    case (trancl_into_trancl a b c)
    then have "(m_id b, m_id c) \<in> parent_rel (menu_edges d)"
      by (force simp: row_parent_def parent_rel_def menu_edges_def)
    with trancl_into_trancl.IH show ?case by (rule trancl.trancl_into_trancl)
  qed
  with f show "acyclic (row_parent d)" unfolding forest_def acyclic_def by blast
qed

lemma prune_leaf:
  assumes "wf (row_parent D)" "set stale \<subseteq> set (rows (menus D))" "stale \<noteq> []"
  shows "prune_leaves stale \<noteq> []"
proof -
  obtain m where m: "m \<in> set stale" "\<forall>x. (x, m) \<in> row_parent D \<longrightarrow> x \<notin> set stale"
    using wfE_min [OF assms(1), of _ "set stale"] assms(3) by (metis list.set_intros(1) neq_Nil_conv)
  then have "m_parent x \<noteq> Some (m_id m)" if "x \<in> set stale" for x
    using that assms(2) by (auto simp: row_parent_def)
  with m(1) have "m \<in> set (prune_leaves stale)" by (auto simp: prune_leaves_def list_ex_iff)
  then show ?thesis by auto
qed

lemma in_prune_leaves:
  "m \<in> set (prune_leaves stale) \<longleftrightarrow> m \<in> set stale \<and> (\<forall>x \<in> set stale. m_parent x \<noteq> Some (m_id m))"
  by (auto simp: prune_leaves_def list_ex_iff)

lemma prune_all:
  assumes wf: "wf (row_parent D)"
  shows "set stale \<subseteq> set (rows (menus D)) \<Longrightarrow> distinct (map m_id stale) \<Longrightarrow>
    \<forall>m \<in> set stale. get_menu d (m_id m) \<noteq> None \<Longrightarrow>
    \<forall>x \<in> set (rows (menus d)). \<forall>m \<in> set stale. m_parent x = Some (m_id m) \<longrightarrow> x \<in> set stale \<Longrightarrow>
    prune stale d = Inr (length stale, cut (m_id ` set stale) d)"
proof (induction "length stale" arbitrary: stale d rule: less_induct)
  case less
  show ?case
  proof (cases "stale = []")
    case False
    let ?ls = "prune_leaves stale" and ?rest = "filter (\<lambda>m. m \<notin> set (prune_leaves stale)) stale"
    have ne: "?ls \<noteq> []" by (rule prune_leaf [OF wf less.prems(1) False])
    have sub: "set ?ls \<subseteq> set stale" by (auto simp: in_prune_leaves)
    have split: "set stale = set ?ls \<union> set ?rest" using sub by auto
    have dist: "distinct (map m_id ?ls)"
      using less.prems(2) by (simp add: prune_leaves_def distinct_map_filter)
    have inj: "inj_on m_id (set stale)" using less.prems(2) by (simp add: distinct_map)
    have step: "delete_menus ?ls d = Inr (cut (m_id ` set ?ls) d)"
    proof (rule delete_menus_cut [OF dist])
      show "\<forall>m \<in> set ?ls. get_menu d (m_id m) \<noteq> None" using less.prems(3) sub by blast
      show "\<forall>m \<in> set ?ls. \<forall>x \<in> set (rows (menus d)). m_parent x \<noteq> Some (m_id m)"
        using less.prems(4) by (metis in_prune_leaves)
    qed
    have len: "length ?ls + length ?rest = length stale"
      using sum_length_filter_compl [of "\<lambda>m. m \<in> set ?ls" stale] less.prems(2)
      by (simp add: prune_leaves_def cong: filter_cong)
    have rest: "prune ?rest (cut (m_id ` set ?ls) d) =
        Inr (length ?rest, cut (m_id ` set ?rest) (cut (m_id ` set ?ls) d))"
    proof (rule less.hyps)
      show "length ?rest < length stale" using len ne by (cases ?ls) auto
      show "set ?rest \<subseteq> set (rows (menus D))" using less.prems(1) by auto
      show "distinct (map m_id ?rest)" using less.prems(2) by (simp add: distinct_map_filter)
      have "m_id m \<notin> m_id ` set ?ls" if "m \<in> set ?rest" for m
        using that inj sub by (auto simp: inj_on_def image_iff)
      then show "\<forall>m \<in> set ?rest. get_menu (cut (m_id ` set ?ls) d) (m_id m) \<noteq> None"
        using less.prems(3) by (simp add: get_menu_cut)
      show "\<forall>x \<in> set (rows (menus (cut (m_id ` set ?ls) d))). \<forall>m \<in> set ?rest.
          m_parent x = Some (m_id m) \<longrightarrow> x \<in> set ?rest"
        using less.prems(4) by auto
    qed
    have "cut (m_id ` set ?rest) (cut (m_id ` set ?ls) d) = cut (m_id ` set stale) d"
      unfolding cut_cut by (subst split) (simp add: image_Un Un_commute)
    with rest step len ne show ?thesis by (subst prune.simps) simp
  qed (simp add: prune.simps prune_leaves_def)
qed

lemma prune_blocked:
  assumes wf: "wf (row_parent D)"
  shows "set stale \<subseteq> set (rows (menus D)) \<Longrightarrow> distinct (map m_id stale) \<Longrightarrow> table_ok m_id (menus d) \<Longrightarrow>
    set stale \<subseteq> set (rows (menus d)) \<Longrightarrow> x \<in> set (rows (menus d)) \<Longrightarrow>
    m_id x \<notin> m_id ` set stale \<Longrightarrow> m \<in> set stale \<Longrightarrow> m_parent x = Some (m_id m) \<Longrightarrow>
    \<exists>e. prune stale d = Inl e"
proof (induction "length stale" arbitrary: stale d rule: less_induct)
  case less
  let ?ls = "prune_leaves stale" and ?rest = "filter (\<lambda>m. m \<notin> set (prune_leaves stale)) stale"
  have ne: "?ls \<noteq> []" by (rule prune_leaf [OF wf less.prems(1)]) (use less.prems(7) in auto)
  have sub: "set ?ls \<subseteq> set stale" by (auto simp: in_prune_leaves)
  have dist: "distinct (map m_id ?ls)"
    using less.prems(2) by (simp add: prune_leaves_def distinct_map_filter)
  have inj: "inj_on m_id (set stale)" using less.prems(2) by (simp add: distinct_map)
  have ls: "\<forall>m \<in> set ?ls. get_menu d (m_id m) \<noteq> None"
    unfolding get_menu_def get_row_exists_iff using less.prems(4) sub by blast
  show ?case
  proof (cases "delete_menus ?ls d")
    case (Inl e)
    then show ?thesis using ne by (subst prune.simps) simp
  next
    case (Inr d1)
    have kept: "m_id z \<in> m_id ` set ?ls"
      if "l \<in> set ?ls" "z \<in> set (rows (menus d))" "m_parent z = Some (m_id l)" for l z
      using delete_menus_blocked [OF that(1) ls dist that(2,3)] Inr by auto
    have "m_parent z \<noteq> Some (m_id l)" if l: "l \<in> set ?ls" and z: "z \<in> set (rows (menus d))" for l z
    proof
      assume p: "m_parent z = Some (m_id l)"
      then obtain y where y: "y \<in> set ?ls" "m_id z = m_id y" using kept [OF l z] by auto
      then have "y \<in> set stale" using sub by blast
      then have "z = y" using get_row_inj [OF less.prems(3) z] y(2) less.prems(4) by blast
      with y(1) l p \<open>y \<in> set stale\<close> show False by (auto simp: in_prune_leaves)
    qed
    then have d1: "d1 = cut (m_id ` set ?ls) d" using delete_menus_cut [OF dist ls] Inr by simp
    have m: "m \<notin> set ?ls" using kept [OF _ less.prems(5,8)] less.prems(6) sub by blast
    have "\<exists>e. prune ?rest d1 = Inl e"
    proof (rule less.hyps)
      show "length ?rest < length stale" using ne sub
        by (cases ?ls) (auto intro!: length_filter_less)
      show "table_ok m_id (menus d1)" unfolding d1 cut_def using less.prems(3) by (simp add: table_ok_delete)
      have "m_id r \<notin> m_id ` set ?ls" if "r \<in> set ?rest" for r
        using that inj sub by (auto simp: inj_on_def image_iff)
      then show "set ?rest \<subseteq> set (rows (menus d1))" unfolding d1 using less.prems(4) by auto
      show "x \<in> set (rows (menus d1))" unfolding d1 using less.prems(5,6) sub by auto
      show "m \<in> set ?rest" using less.prems(7) m by simp
      show "distinct (map m_id ?rest)" using less.prems(2) by (simp add: distinct_map_filter)
    qed (use less.prems in auto)
    then show ?thesis using Inr ne by (subst prune.simps) auto
  qed
qed

text \<open>Both outcomes on a table where the rows to prune are still in place.\<close>

lemma prune_cases:
  assumes "wf (row_parent D)" "set stale \<subseteq> set (rows (menus D))" "distinct (map m_id stale)"
    and "table_ok m_id (menus d)" "set stale \<subseteq> set (rows (menus d))"
  shows "prune stale d = Inr (length stale, cut (m_id ` set stale) d) \<and>
      (\<forall>x \<in> set (rows (menus d)). \<forall>m \<in> set stale. m_parent x = Some (m_id m) \<longrightarrow> x \<in> set stale) \<or>
    (\<exists>e. prune stale d = Inl e) \<and>
      (\<exists>x \<in> set (rows (menus d)). \<exists>m \<in> set stale. m_parent x = Some (m_id m) \<and> x \<notin> set stale)"
proof (cases "\<exists>x \<in> set (rows (menus d)). \<exists>m \<in> set stale. m_parent x = Some (m_id m) \<and> x \<notin> set stale")
  case True
  then obtain x m where x: "x \<in> set (rows (menus d))" "m \<in> set stale" "m_parent x = Some (m_id m)"
    "x \<notin> set stale" by blast
  have "m_id x \<notin> m_id ` set stale"
  proof
    assume "m_id x \<in> m_id ` set stale"
    then obtain y where "y \<in> set stale" "m_id x = m_id y" by auto
    then have "x = y" using get_row_inj [OF assms(4) x(1)] assms(5) by blast
    with x(4) \<open>y \<in> set stale\<close> show False by simp
  qed
  with True prune_blocked [OF assms x(1) _ x(2,3)] show ?thesis by blast
next
  case False
  have "\<forall>m \<in> set stale. get_menu d (m_id m) \<noteq> None"
    unfolding get_menu_def get_row_exists_iff using assms(5) by blast
  with False prune_all [OF assms(1-3)] show ?thesis by blast
qed

lemma prune_Nil: "prune [] d = Inr (0, d)"
  by (subst prune.simps) (simp add: prune_leaves_def)

section \<open>Roles\<close>

lemma refresh_role_simps [simp]:
  "r_id (refresh_role sr r) = r_id r" "r_code (refresh_role sr r) = r_code r"
  "refresh_role sr (refresh_role sr r) = refresh_role sr r"
  by (simp_all add: refresh_role_def)

lemma seed_role_row_menus: "menus (seed_role_row sr now d) = menus d"
    "role_menus (seed_role_row sr now d) = role_menus d"
  by (simp_all add: seed_role_row_def split: option.splits)

text \<open>The role is refreshed in place, and a second time nothing changes.\<close>

lemma update_where_id: "(\<And>r. r \<in> set (rows t) \<Longrightarrow> p r \<Longrightarrow> f r = r) \<Longrightarrow> update_where p f t = t"
  by (simp add: update_where_def map_idI)

lemma seed_role_row_again:
  assumes "table_ok r_id (roles d)" "roles d' = roles (seed_role_row sr now d)"
  shows "seed_role_row sr now' d' = d'"
proof (cases "find_role_by_code d (sr_code sr)")
  case None
  let ?r = "new_seed_role sr now (seq (roles d))"
  have rows: "rows (roles d') = rows (roles d) @ [?r]"
    using None assms(2) by (simp add: seed_role_row_def insert_row_def)
  have "\<forall>x \<in> set (rows (roles d)). r_code x \<noteq> sr_code sr"
    using None by (auto simp: find_role_by_code_def find_None_iff)
  then have "find (\<lambda>x. r_code x = sr_code sr) (rows (roles d)) = None" by (auto simp: find_None_iff)
  moreover have "find P (xs @ ys) = find P ys" if "find P xs = None" for P and xs ys :: "role list"
    using that by (induction xs) (auto split: if_splits)
  ultimately have "find_role_by_code d' (sr_code sr) = Some ?r"
    unfolding find_role_by_code_def rows by (simp add: new_seed_role_def)
  moreover have "update_where (\<lambda>x. r_id x = r_id ?r) (refresh_role sr) (roles d') = roles d'"
    using assms(1) by (intro update_where_id) (auto simp: rows table_ok_def new_seed_role_def refresh_role_def)
  ultimately show ?thesis by (simp add: seed_role_row_def)
next
  case (Some r)
  let ?f = "\<lambda>x. if r_id x = r_id r then refresh_role sr x else x"
  have d': "roles d' = update_where (\<lambda>x. r_id x = r_id r) (refresh_role sr) (roles d)"
    using Some assms(2) by (simp add: seed_role_row_def)
  have "find (\<lambda>x. r_code x = c) (map ?f xs) = map_option ?f (find (\<lambda>x. r_code x = c) xs)" for c xs
    by (induction xs) auto
  then have "find_role_by_code d' (sr_code sr) = Some (refresh_role sr r)"
    using Some by (simp add: d' find_role_by_code_def rows_update_where)
  moreover have "update_where (\<lambda>x. r_id x = r_id (refresh_role sr r)) (refresh_role sr) (roles d') = roles d'"
    by (rule update_where_id) (auto simp: d' mem_update_where)
  ultimately show ?thesis by (simp add: seed_role_row_def)
qed

section \<open>A second traversal\<close>

lemma put_menu_again:
  assumes "seed_unique d" "entry_ok nm d node pk" "parent_ok d pk parent"
  obtains i where "put_menu nm (seeded d) node parent d = Inr (i, d)" "has_key d (sm_key node) i"
proof -
  obtain m p where m: "m \<in> set (rows (menus d))" "m_seed m = Some (sm_key node)" "parent_ok d pk p"
    "planted nm node p m = m" using assms(2) by (auto simp: entry_ok_def)
  then have p: "p = parent" using parent_ok_unique assms(1,3) by blast
  have k: "has_key d (sm_key node) (m_id m)" using m(1,2) by (auto simp: has_key_def)
  have "x = m" if "x \<in> set (rows (menus d))" "m_id x = m_id m" for x
    using assms(1) that m(1) get_row_inj [of m_id "menus d" x m] by (auto simp: seed_unique_def)
  then have "update_where (\<lambda>x. m_id x = m_id m) (planted nm node parent) (menus d) = menus d"
    using m(4) p by (intro update_where_id) auto
  moreover have "seeded_id (seeded d) (sm_key node) = Some (m_id m)"
    using k seeded_id_iff [OF assms(1)] by blast
  ultimately have "put_menu nm (seeded d) node parent d = Inr (m_id m, d)" by (simp add: put_menu_def)
  then show ?thesis using that k by blast
qed

lemma upsert_again:
  "seed_unique d \<Longrightarrow> \<forall>(n, q) \<in> set (entries pk node). entry_ok nm d n q \<Longrightarrow> parent_ok d pk parent \<Longrightarrow>
     upsert nm (seeded d) node parent d = Inr d"
  "seed_unique d \<Longrightarrow> \<forall>(n, q) \<in> set (concat (map (entries pk) nodes)). entry_ok nm d n q \<Longrightarrow>
     parent_ok d pk parent \<Longrightarrow> upserts nm (seeded d) nodes parent d = Inr d"
proof (induction nm "seeded d" node parent d and nm "seeded d" nodes parent d
    arbitrary: pk and pk rule: upsert_upserts.induct)
  case (1 nm k ty path cmp perms icon n vis children parent d)
  let ?node = "SeedMenu k ty path cmp perms icon n vis children"
  obtain i where i: "put_menu nm (seeded d) ?node parent d = Inr (i, d)" "has_key d k i"
    by (rule put_menu_again [OF "1.prems"(1) _ "1.prems"(3), of nm ?node]) (use "1.prems"(2) in auto)
  have "upserts nm (seeded d) children (Some i) d = Inr d"
    by (rule "1.hyps" [where pk = "Some k"]) (use "1.prems" i in \<open>auto simp: parent_ok_def\<close>)
  with i show ?case by simp
next
  case (3 nm node nodes parent d)
  have "upsert nm (seeded d) node parent d = Inr d"
    by (rule "3.hyps"(1)) (use "3.prems" in auto)
  moreover have "upserts nm (seeded d) nodes parent d = Inr d"
    by (rule "3.hyps"(2)) (use "3.prems" in auto)
  ultimately show ?case by simp
qed simp

section \<open>The command\<close>

definition stale_menus :: "seed_menu list \<Rightarrow> db \<Rightarrow> menu list" where
  "stale_menus tree d = map snd (filter (\<lambda>(k, m). k \<notin> set (manifest_keys tree)) (seeded d))"

text \<open>A row of a user below a built-in menu that left the manifest.\<close>

definition user_row_below_stale :: "seed_menu list \<Rightarrow> db \<Rightarrow> bool" where
  "user_row_below_stale tree d \<longleftrightarrow> (\<exists>x \<in> set (rows (menus d)). \<exists>m \<in> set (stale_menus tree d).
     m_seed x = None \<and> m_parent x = Some (m_id m))"

lemma in_stale_menus:
  "m \<in> set (stale_menus tree d) \<longleftrightarrow>
     m \<in> set (rows (menus d)) \<and> m_seed m \<noteq> None \<and> m_seed m \<notin> Some ` set (manifest_keys tree)"
  by (auto simp: stale_menus_def in_seeded image_iff)

lemma distinct_stale:
  assumes "table_ok m_id (menus d)" shows "distinct (map m_id (stale_menus tree d))"
proof -
  have eq: "map snd (filter (\<lambda>(k, m). k \<notin> K)
      (concat (map (\<lambda>m. case m_seed m of None \<Rightarrow> [] | Some k \<Rightarrow> [(k, m)]) xs))) =
      filter (\<lambda>m. case m_seed m of None \<Rightarrow> False | Some k \<Rightarrow> k \<notin> K) xs" for K xs
    by (induction xs) (auto split: option.splits)
  show ?thesis using assms
    unfolding stale_menus_def seeded_def eq by (simp add: table_ok_def distinct_map_filter)
qed

text \<open>The parent of a node is in the manifest.\<close>

lemma entries_parent_aux:
  "(n, Some j) \<in> set (entries pk node) \<Longrightarrow> pk = Some j \<or> j \<in> set (seed_keys node)"
proof (induction node arbitrary: pk)
  case (SeedMenu k ty path cmp perms icon s vis children)
  then consider "pk = Some j" | c where "c \<in> set children" "(n, Some j) \<in> set (entries (Some k) c)" by auto
  then show ?case
  proof cases
    case 2
    with SeedMenu.IH [OF 2] show ?thesis by auto
  qed simp
qed

lemma entries_parent: "(n, Some j) \<in> set (manifest_entries tree) \<Longrightarrow> j \<in> set (manifest_keys tree)"
  by (auto simp: manifest_entries_def manifest_keys_def dest!: entries_parent_aux)

text \<open>The command on any manifest: what it needs, and what it does when it is not refused.\<close>

lemma seed_menus_outcome:
  assumes u: "seed_unique d" and f: "forest (menu_edges d)" and k: "distinct (manifest_keys tree)"
  obtains d1 where "grown nm (manifest_entries tree) d d1"
    "\<not> user_row_below_stale tree d \<Longrightarrow> seed_menus nm tree d =
       Inr (length (stale_menus tree d), cut (m_id ` set (stale_menus tree d)) d1)"
    "user_row_below_stale tree d \<Longrightarrow> \<exists>e. seed_menus nm tree d = Inl e"
proof -
  let ?stale = "stale_menus tree d"
  have "grown nm [] d d" using u by (auto simp: grown_def intro: exI [of _ "menus d"])
  from upsert_grown(2) [OF u this, of None None tree] k
  obtain d1 where d1: "upserts nm (seeded d) tree None d = Inr d1" "grown nm (manifest_entries tree) d d1"
    by (auto simp: parent_ok_def manifest_entries_def)
  have keys: "(sm_key \<circ> fst) ` set (manifest_entries tree) = set (manifest_keys tree)"
    using manifest_entries_keys [of tree] by (metis list.set_map)
  have same: "m_seed m \<notin> Some ` set (manifest_keys tree) \<Longrightarrow>
      m \<in> set (rows (menus d1)) \<longleftrightarrow> m \<in> set (rows (menus d))" for m
    using d1(2) keys unfolding grown_def by metis
  have u1: "seed_unique d1" using d1(2) by (simp add: grown_def)
  then have t1: "table_ok m_id (menus d1)" by (simp add: seed_unique_def)
  have sub: "set ?stale \<subseteq> set (rows (menus d))" "set ?stale \<subseteq> set (rows (menus d1))"
    using same by (auto simp: in_stale_menus)
  have child: "m_seed x = None" if x: "x \<in> set (rows (menus d1))" "m \<in> set ?stale" "m_parent x = Some (m_id m)"
      "x \<notin> set ?stale" for x m
  proof (rule ccontr)
    assume "m_seed x \<noteq> None"
    moreover have "m_seed x \<in> Some ` set (manifest_keys tree)"
      using x(1,4) same [of x] \<open>m_seed x \<noteq> None\<close> by (auto simp: in_stale_menus)
    ultimately obtain node pk where n: "(node, pk) \<in> set (manifest_entries tree)" "m_seed x = Some (sm_key node)"
      unfolding keys [symmetric] by auto
    then obtain y parent where y: "y \<in> set (rows (menus d1))" "m_seed y = Some (sm_key node)"
      "parent_ok d1 pk parent" "planted nm node parent y = y"
      using d1(2) unfolding grown_def entry_ok_def by fastforce
    have "y = x" using u1 x(1) y(1,2) n(2) unfolding seed_unique_def by (metis option.distinct(1))
    then have "parent = Some (m_id m)" using x(3) y(4) planted_simps(3) by metis
    then obtain z j where z: "pk = Some j" "z \<in> set (rows (menus d1))" "m_seed z = Some j" "m_id z = m_id m"
      using y(3) by (auto simp: parent_ok_def has_key_def split: option.splits)
    have "z = m" using get_row_inj [OF t1 z(2) _ z(4)] x(2) sub(2) by blast
    moreover have "j \<in> set (manifest_keys tree)" using entries_parent n(1) z(1) by blast
    ultimately show False using x(2) z(3) by (auto simp: in_stale_menus)
  qed
  have iff: "(\<exists>x \<in> set (rows (menus d1)). \<exists>m \<in> set ?stale. m_parent x = Some (m_id m) \<and> x \<notin> set ?stale) \<longleftrightarrow>
      user_row_below_stale tree d"
    unfolding user_row_below_stale_def
    using child same by (auto simp: in_stale_menus) (metis image_iff option.distinct(1))+
  have "seed_menus nm tree d = prune ?stale d1" using d1(1) by (simp add: seed_menus_def stale_menus_def)
  moreover have "wf (row_parent d)" by (rule forest_row_parent [OF f])
  from prune_cases [OF this sub(1) distinct_stale t1 sub(2)] u
  have "prune ?stale d1 = Inr (length ?stale, cut (m_id ` set ?stale) d1) \<and> \<not> user_row_below_stale tree d \<or>
      (\<exists>e. prune ?stale d1 = Inl e) \<and> user_row_below_stale tree d"
    unfolding iff [symmetric] by (auto simp: seed_unique_def)
  ultimately show ?thesis using that [OF d1(2)] by auto
qed

lemma distinct_manifest: "distinct (manifest_keys menu_tree)"
  by code_simp

lemma seed_role_rows_frame:
  "menus (seed_role_rows srs now d) = menus d" "role_menus (seed_role_rows srs now d) = role_menus d"
  by (induction srs arbitrary: d) (simp_all add: seed_role_row_menus)

lemma seed_frame:
  assumes "menus d0 = menus d"
  shows "seed_unique d0 = seed_unique d" "menu_edges d0 = menu_edges d"
    "stale_menus tree d0 = stale_menus tree d" "user_row_below_stale tree d0 = user_row_below_stale tree d"
  using assms by (simp_all add: seed_unique_def menu_edges_def stale_menus_def seeded_def
      user_row_below_stale_def)

lemma seed_rbac_outcome:
  assumes "seed_unique d" "forest (menu_edges d)"
  obtains d1 where "grown nm (manifest_entries menu_tree) (seed_role_rows (seed_roles_manifest nm) now d) d1"
    "\<not> user_row_below_stale menu_tree d \<Longrightarrow> seed_rbac nm now d =
       Inr (\<lparr>sd_roles = 1, sd_menus = length (manifest_keys menu_tree),
              sd_pruned = length (stale_menus menu_tree d)\<rparr>,
            cut (m_id ` set (stale_menus menu_tree d)) d1)"
    "user_row_below_stale menu_tree d \<Longrightarrow> \<exists>e. seed_rbac nm now d = Inl e"
proof -
  let ?d0 = "seed_role_rows (seed_roles_manifest nm) now d"
  have fr: "menus ?d0 = menus d" by (rule seed_role_rows_frame)
  note fr = seed_frame [OF fr]
  obtain d1 where d1: "grown nm (manifest_entries menu_tree) ?d0 d1"
    "\<not> user_row_below_stale menu_tree d \<Longrightarrow> seed_menus nm menu_tree ?d0 =
       Inr (length (stale_menus menu_tree d), cut (m_id ` set (stale_menus menu_tree d)) d1)"
    "user_row_below_stale menu_tree d \<Longrightarrow> \<exists>e. seed_menus nm menu_tree ?d0 = Inl e"
    using seed_menus_outcome [of ?d0 menu_tree nm] assms distinct_manifest unfolding fr by metis
  have one: "length (seed_roles_manifest nm) = 1" by (simp add: seed_roles_manifest_def)
  show ?thesis
  proof (rule that [OF d1(1)])
    show "seed_rbac nm now d =
       Inr (\<lparr>sd_roles = 1, sd_menus = length (manifest_keys menu_tree),
              sd_pruned = length (stale_menus menu_tree d)\<rparr>,
            cut (m_id ` set (stale_menus menu_tree d)) d1)" if "\<not> user_row_below_stale menu_tree d"
      using d1(2) [OF that] one by (simp add: seed_rbac_def)
    show "\<exists>e. seed_rbac nm now d = Inl e" if "user_row_below_stale menu_tree d"
      using d1(3) [OF that] by (auto simp: seed_rbac_def)
  qed
qed

lemma settled_again:
  assumes "seed_unique d" "\<forall>(node, pk) \<in> set (manifest_entries menu_tree). entry_ok nm d node pk"
    and "stale_menus menu_tree d = []" "\<And>sr. sr \<in> set (seed_roles_manifest nm) \<Longrightarrow> seed_role_row sr now d = d"
  shows "seed_rbac nm now d =
    Inr (\<lparr>sd_roles = 1, sd_menus = length (manifest_keys menu_tree), sd_pruned = 0\<rparr>, d)"
proof -
  have "seed_role_rows srs now d = d" if "\<And>sr. sr \<in> set srs \<Longrightarrow> seed_role_row sr now d = d" for srs
    using that by (induction srs) auto
  moreover have "upserts nm (seeded d) menu_tree None d = Inr d"
    using upsert_again(2) [OF assms(1), of None menu_tree nm None] assms(2)
    by (simp add: manifest_entries_def parent_ok_def)
  ultimately show ?thesis
    using assms(3,4) by (simp add: seed_rbac_def seed_menus_def prune_Nil stale_menus_def [symmetric]
        seed_roles_manifest_def)
qed

text \<open>The rows after the command.\<close>

lemma seeded_rows:
  assumes g: "grown nm (manifest_entries menu_tree) d0 d1" and m: "menus d0 = menus d"
    and d': "d' = cut (m_id ` set (stale_menus menu_tree d)) d1"
  shows "seed_unique d'"
    and "x \<in> set (rows (menus d')) \<longleftrightarrow> x \<in> set (rows (menus d1)) \<and> x \<notin> set (stale_menus menu_tree d)"
    and "m_seed x \<notin> Some ` set (manifest_keys menu_tree) \<Longrightarrow>
      x \<in> set (rows (menus d1)) \<longleftrightarrow> x \<in> set (rows (menus d))"
    and "(node, pk) \<in> set (manifest_entries menu_tree) \<Longrightarrow> entry_ok nm d' node pk"
proof -
  have keys: "(sm_key \<circ> fst) ` set (manifest_entries menu_tree) = set (manifest_keys menu_tree)"
    using manifest_entries_keys [of menu_tree] by (metis list.set_map)
  have same: "x \<in> set (rows (menus d1)) \<longleftrightarrow> x \<in> set (rows (menus d))"
    if "m_seed x \<notin> Some ` set (manifest_keys menu_tree)" for x
    using g keys m that unfolding grown_def by metis
  then show "m_seed x \<notin> Some ` set (manifest_keys menu_tree) \<Longrightarrow>
      x \<in> set (rows (menus d1)) \<longleftrightarrow> x \<in> set (rows (menus d))" .
  have u: "seed_unique d1" using g by (simp add: grown_def)
  have "set (stale_menus menu_tree d) \<subseteq> set (rows (menus d1))" using same by (auto simp: in_stale_menus)
  then have "m_id x \<in> m_id ` set (stale_menus menu_tree d) \<longleftrightarrow> x \<in> set (stale_menus menu_tree d)"
    if "x \<in> set (rows (menus d1))" for x
    using get_row_inj [of m_id "menus d1" x] u that by (auto simp: seed_unique_def)
  then have mem: "x \<in> set (rows (menus d')) \<longleftrightarrow> x \<in> set (rows (menus d1)) \<and> x \<notin> set (stale_menus menu_tree d)" for x
    unfolding d' by auto
  then show "x \<in> set (rows (menus d')) \<longleftrightarrow> x \<in> set (rows (menus d1)) \<and> x \<notin> set (stale_menus menu_tree d)" .
  have "table_ok m_id (menus d')" using u unfolding d' cut_def by (simp add: table_ok_delete seed_unique_def)
  then show "seed_unique d'" using u mem unfolding seed_unique_def by blast
  assume n: "(node, pk) \<in> set (manifest_entries menu_tree)"
  have stay: "x \<in> set (rows (menus d'))"
    if "x \<in> set (rows (menus d1))" "m_seed x = Some k" "k \<in> set (manifest_keys menu_tree)" for x k
    using that mem by (auto simp: in_stale_menus)
  have "entry_ok nm d1 node pk" using g n by (auto simp: grown_def)
  then show "entry_ok nm d' node pk"
  proof (rule entry_ok_mono)
    have "sm_key node \<in> set (manifest_keys menu_tree)" using n keys by force
    then show "x \<in> set (rows (menus d'))" if "x \<in> set (rows (menus d1))" "m_seed x = Some (sm_key node)" for x
      using that stay by blast
    show "has_key d' k i" if "pk = Some k" "has_key d1 k i" for k i
      using that n entries_parent stay unfolding has_key_def by blast
  qed
qed

text \<open>
  C34 The seeding command brings the built-in menus to the manifest: every node of the manifest has
  a row with its data below the row of its parent, no other built-in menu is left, menus of users
  are untouched, built-in menus that stay keep their key, so that exactly the bindings of pruned
  menus are lost, and a second run changes nothing.
\<close>

theorem seed_converges:
  assumes inv: "seed_unique d" "forest (menu_edges d)" "table_ok r_id (roles d)"
    and run: "seed_rbac nm now d = Inr (res, d')"
  shows "(\<forall>(node, pk) \<in> set (manifest_entries menu_tree). entry_ok nm d' node pk) \<and>
    (\<forall>m \<in> set (rows (menus d')). m_seed m \<noteq> None \<longrightarrow> m_seed m \<in> Some ` set (manifest_keys menu_tree)) \<and>
    (\<forall>m. m_seed m = None \<longrightarrow> (m \<in> set (rows (menus d')) \<longleftrightarrow> m \<in> set (rows (menus d)))) \<and>
    (\<forall>m \<in> set (rows (menus d)). m_seed m \<in> Some ` set (manifest_keys menu_tree) \<longrightarrow>
       (\<exists>m' \<in> set (rows (menus d')). m_id m' = m_id m \<and> m_seed m' = m_seed m)) \<and>
    role_menus d' = filter (\<lambda>p. snd p \<notin> m_id ` set (stale_menus menu_tree d)) (role_menus d) \<and>
    user_roles d' = user_roles d \<and> users d' = users d \<and>
    seed_rbac nm now' d' = Inr (res\<lparr>sd_pruned := 0\<rparr>, d')"
proof -
  let ?ids = "m_id ` set (stale_menus menu_tree d)" and ?K = "Some ` set (manifest_keys menu_tree)"
  obtain d1 where g: "grown nm (manifest_entries menu_tree) (seed_role_rows (seed_roles_manifest nm) now d) d1"
    and d': "d' = cut ?ids d1" and res: "res = \<lparr>sd_roles = 1, sd_menus = length (manifest_keys menu_tree),
              sd_pruned = length (stale_menus menu_tree d)\<rparr>"
    using seed_rbac_outcome [OF inv(1,2)] run by (metis Inl_Inr_False Pair_inject sum.inject(2))
  let ?d0 = "seed_role_rows (seed_roles_manifest nm) now d"
  have m0: "menus ?d0 = menus d" by (rule seed_role_rows_frame)
  obtain t where t: "d1 = ?d0\<lparr>menus := t\<rparr>" using g by (auto simp: grown_def)
  note row = seeded_rows [OF g m0 d']
  have none: "\<forall>m \<in> set (rows (menus d')). m_seed m \<noteq> None \<longrightarrow> m_seed m \<in> ?K"
    using row(2,3) unfolding in_stale_menus by metis
  have keep: "\<forall>m \<in> set (rows (menus d)). m_seed m \<in> ?K \<longrightarrow>
      (\<exists>m' \<in> set (rows (menus d')). m_id m' = m_id m \<and> m_seed m' = m_seed m)"
  proof (intro ballI impI)
    fix m assume "m \<in> set (rows (menus d))" "m_seed m \<in> ?K"
    moreover from this(1) obtain m' where "m' \<in> set (rows (menus d1))" "m_id m' = m_id m" "m_seed m' = m_seed m"
      using g m0 unfolding grown_def by metis
    ultimately show "\<exists>m' \<in> set (rows (menus d')). m_id m' = m_id m \<and> m_seed m' = m_seed m"
      using row(2) by (intro bexI [of _ m']) (auto simp: in_stale_menus)
  qed
  have rest: "role_menus d' = filter (\<lambda>p. snd p \<notin> ?ids) (role_menus d)" "user_roles d' = user_roles d"
    "users d' = users d" "roles d' = roles ?d0"
    by (simp_all add: d' cut_def t seed_role_rows_frame seed_roles_manifest_def seed_role_row_def
        split: option.splits)
  have "seed_rbac nm now' d' = Inr (\<lparr>sd_roles = 1, sd_menus = length (manifest_keys menu_tree), sd_pruned = 0\<rparr>, d')"
  proof (rule settled_again [OF row(1)])
    have "x \<notin> set (stale_menus menu_tree d')" for x using none by (auto simp: in_stale_menus)
    then show "stale_menus menu_tree d' = []" by (metis list.set_intros(1) neq_Nil_conv)
    show "seed_role_row sr now' d' = d'" if "sr \<in> set (seed_roles_manifest nm)" for sr
      using that rest(4) by (intro seed_role_row_again [OF inv(3)]) (simp add: seed_roles_manifest_def)
  qed (use row(4) in blast)
  then have again: "seed_rbac nm now' d' = Inr (res\<lparr>sd_pruned := 0\<rparr>, d')" using res by simp
  have user: "\<forall>m. m_seed m = None \<longrightarrow> (m \<in> set (rows (menus d')) \<longleftrightarrow> m \<in> set (rows (menus d)))"
  proof (intro allI impI)
    fix m :: menu assume "m_seed m = None"
    then have "m_seed m \<notin> ?K" "m \<notin> set (stale_menus menu_tree d)" by (auto simp: in_stale_menus)
    then show "m \<in> set (rows (menus d')) \<longleftrightarrow> m \<in> set (rows (menus d))" using row(2,3) by metis
  qed
  have all: "\<forall>(node, pk) \<in> set (manifest_entries menu_tree). entry_ok nm d' node pk" using row(4) by blast
  show ?thesis by (intro conjI all none user keep rest(1-3) again)
qed

text \<open>A renamed built-in menu, one that left the manifest, and a menu of a user below the first.\<close>

definition demo_menu :: "int \<Rightarrow> int option \<Rightarrow> string option \<Rightarrow> menu" where
  "demo_menu i parent key = \<lparr>m_id = i, m_parent = parent, m_name = ''old'', m_type = MenuM, m_path = [],
     m_component = None, m_perms = None, m_icon = [], m_sort = 0, m_visible = True, m_status = Active,
     m_seed = key\<rparr>"

definition demo_seeded :: db where
  "demo_seeded = empty_db\<lparr>menus := \<lparr>rows = [demo_menu 1 None (Some ''system''), demo_menu 2 (Some 1) None,
       demo_menu 3 (Some 1) (Some ''legacy'')], seq = 4\<rparr>, role_menus := [(9, 2), (9, 3)]\<rparr>"

lemma demo_seeded_ok: "seed_unique demo_seeded" "forest (menu_edges demo_seeded)"
    "table_ok r_id (roles demo_seeded)" "stale_menus menu_tree demo_seeded = [demo_menu 3 (Some 1) (Some ''legacy'')]"
    "\<not> user_row_below_stale menu_tree demo_seeded"
proof -
  show "seed_unique demo_seeded"
    by (auto simp: demo_seeded_def seed_unique_def demo_menu_def table_ok_def)
  show "forest (menu_edges demo_seeded)"
    by (rule forest_increasing) (auto simp: menu_edges_def demo_seeded_def demo_menu_def)
  show "table_ok r_id (roles demo_seeded)" by (simp add: demo_seeded_def empty_db_def table_ok_empty)
  show st: "stale_menus menu_tree demo_seeded = [demo_menu 3 (Some 1) (Some ''legacy'')]" by code_simp
  show "\<not> user_row_below_stale menu_tree demo_seeded"
    unfolding user_row_below_stale_def st by (auto simp: demo_seeded_def demo_menu_def)
qed

theorem seed_converges_witness:
  "\<exists>res d'. seed_rbac id 0 demo_seeded = Inr (res, d') \<and> sd_pruned res = 1 \<and>
     demo_menu 2 (Some 1) None \<in> set (rows (menus d')) \<and> role_menus d' = [(9, 2)] \<and>
     seed_rbac id 7 d' = Inr (res\<lparr>sd_pruned := 0\<rparr>, d')"
proof -
  obtain d' where "seed_rbac id 0 demo_seeded = Inr (\<lparr>sd_roles = 1,
      sd_menus = length (manifest_keys menu_tree), sd_pruned = length (stale_menus menu_tree demo_seeded)\<rparr>, d')"
    using seed_rbac_outcome [OF demo_seeded_ok(1,2), of id 0] demo_seeded_ok(5) by metis
  then obtain res where r: "seed_rbac id 0 demo_seeded = Inr (res, d')" "sd_pruned res = 1"
    by (simp add: demo_seeded_ok(4))
  have "demo_menu 2 (Some 1) None \<in> set (rows (menus demo_seeded))" "m_seed (demo_menu 2 (Some 1) None) = None"
    "role_menus demo_seeded = [(9, 2), (9, 3)]" "m_id (demo_menu 3 (Some 1) (Some ''legacy'')) = 3"
    by (simp_all add: demo_seeded_def demo_menu_def)
  then show ?thesis
    using r seed_converges [OF demo_seeded_ok(1-3) r(1), of 7] by (auto simp: demo_seeded_ok(4))
qed

end
