(* ===== verification/Monitor.thy ===== *)
theory Monitor
  imports Paging AuditEvents AuthService
begin

text \<open>
  \<^verbatim>\<open>domains/monitor\<close>: the read-only views of the audit and login logs, the online sessions derived
  from the refresh tokens with the forced logout, and the cache panel.  An \<open>audit_log\<close> row is what
  \<^verbatim>\<open>audit/models.py\<close> stores of an event; both log tables are arguments.  Redis is the \<^verbatim>\<open>INFO\<close>
  dictionaries it returns or the exception the client raises; the server panel only copies values of
  \<^verbatim>\<open>psutil\<close> and is not modelled.
\<close>

section \<open>Logs\<close>

record audit_log =
  al_id :: int
  al_event :: audit_event
  al_occurred :: int

definition audit_filtered :: "string option \<Rightarrow> int option \<Rightarrow> string option \<Rightarrow> audit_log \<Rightarrow> bool" where
  "audit_filtered ty uid st r \<longleftrightarrow>
     (ty = None \<or> ty = Some (ev_type (al_event r))) \<and> (uid = None \<or> uid = ev_actor (al_event r)) \<and>
     (st = None \<or> st = Some (ev_status (al_event r)))"

definition audit_log_rows ::
    "audit_log table \<Rightarrow> string option \<Rightarrow> int option \<Rightarrow> string option \<Rightarrow> audit_log list" where
  "audit_log_rows t ty uid st =
     sort_key (\<lambda>r. (- al_occurred r, - al_id r)) (filter (audit_filtered ty uid st) (rows t))"

definition list_audit_events ::
    "audit_log table \<Rightarrow> string option \<Rightarrow> int option \<Rightarrow> string option \<Rightarrow> int \<Rightarrow> int \<Rightarrow> audit_log page_result" where
  "list_audit_events t ty uid st page sz = make_page page sz (audit_log_rows t ty uid st)"

definition audit_event_not_found :: exn where
  "audit_event_not_found = AppErr ''monitor.AUDIT_EVENT_NOT_FOUND'' 404"

definition get_audit_event :: "audit_log table \<Rightarrow> int \<Rightarrow> exn + audit_log" where
  "get_audit_event t i = (case get_row al_id t i of None \<Rightarrow> Inl audit_event_not_found | Some r \<Rightarrow> Inr r)"

definition login_filtered :: "string option \<Rightarrow> string option \<Rightarrow> login_log \<Rightarrow> bool" where
  "login_filtered name st r \<longleftrightarrow>
     (name = None \<or> name = Some (ll_username r)) \<and> (st = None \<or> st = Some (ll_status r))"

definition login_log_rows ::
    "login_log table \<Rightarrow> string option \<Rightarrow> string option \<Rightarrow> login_log list" where
  "login_log_rows t name st = sort_key (\<lambda>r. (- ll_at r, - ll_id r)) (filter (login_filtered name st) (rows t))"

definition list_login_logs ::
    "login_log table \<Rightarrow> string option \<Rightarrow> string option \<Rightarrow> int \<Rightarrow> int \<Rightarrow> login_log page_result" where
  "list_login_logs t name st page sz = make_page page sz (login_log_rows t name st)"

definition login_log_not_found :: exn where
  "login_log_not_found = AppErr ''monitor.LOGIN_LOG_NOT_FOUND'' 404"

definition get_login_log :: "login_log table \<Rightarrow> int \<Rightarrow> exn + login_log" where
  "get_login_log t i = (case get_row ll_id t i of None \<Rightarrow> Inl login_log_not_found | Some r \<Rightarrow> Inr r)"

section \<open>Online sessions\<close>

record online_session =
  os_family :: int
  os_user :: int
  os_name :: string
  os_login :: int
  os_active :: int
  os_expires :: int

definition active_families :: "db \<Rightarrow> int \<Rightarrow> int set" where
  "active_families d now =
     set (map rt_family (filter (\<lambda>r. live r \<and> now < rt_expires_at r) (rows (tokens d))))"

definition last_activity :: "refresh_token \<Rightarrow> int" where
  "last_activity r = (case rt_last_used r of Some t \<Rightarrow> t | None \<Rightarrow> rt_issued_at r)"

text \<open>
  \<^verbatim>\<open>_active_sessions_stmt\<close>: all tokens of the active families joined with their users, one row per
  family and user (the user determines the name), with the aggregates over the group.
\<close>

definition session_of :: "refresh_token list \<Rightarrow> int \<times> int \<times> string \<Rightarrow> online_session" where
  "session_of rs = (\<lambda>(f, uid, name).
     (let g = filter (\<lambda>r. rt_family r = f \<and> rt_user r = uid) rs
      in \<lparr>os_family = f, os_user = uid, os_name = name, os_login = Min (set (map rt_issued_at g)),
          os_active = Max (set (map last_activity g)), os_expires = Max (set (map rt_expires_at g))\<rparr>))"

definition session_keys :: "db \<Rightarrow> int \<Rightarrow> (int \<times> int \<times> string) list" where
  "session_keys d now =
     dedupe (concat (map (\<lambda>r. case get_user d (rt_user r) of
         None \<Rightarrow> [] | Some u \<Rightarrow> [(rt_family r, rt_user r, u_username u)])
       (filter (\<lambda>r. rt_family r \<in> active_families d now) (rows (tokens d)))))"

definition active_sessions :: "db \<Rightarrow> int \<Rightarrow> online_session list" where
  "active_sessions d now = map (session_of (rows (tokens d))) (session_keys d now)"

definition online_order :: "online_session list \<Rightarrow> online_session list" where
  "online_order = sort_key (\<lambda>s. (- os_active s, - os_family s))"

definition count_online_sessions :: "db \<Rightarrow> int \<Rightarrow> int" where
  "count_online_sessions d now = int (card (active_families d now))"

text \<open>The total of the page comes from the separate count.\<close>

definition list_online_sessions :: "db \<Rightarrow> int \<Rightarrow> int \<Rightarrow> int \<Rightarrow> online_session page_result" where
  "list_online_sessions d now page sz =
     \<lparr>pg_items = page_slice page sz (online_order (active_sessions d now)), pg_page = page, pg_size = sz,
      pg_total = count_online_sessions d now,
      pg_pages = compute_total_pages (count_online_sessions d now) sz\<rparr>"

definition get_online_session :: "db \<Rightarrow> int \<Rightarrow> int \<Rightarrow> online_session option" where
  "get_online_session d f now = find (\<lambda>s. os_family s = f) (active_sessions d now)"

definition online_not_found :: exn where
  "online_not_found = AppErr ''monitor.ONLINE_SESSION_NOT_FOUND'' 404"

definition revoke_online_session :: "int \<Rightarrow> string \<Rightarrow> int \<Rightarrow> db \<Rightarrow> nat \<times> db" where
  "revoke_online_session f reason now d =
     (length (filter (\<lambda>r. rt_family r = f \<and> live r) (rows (tokens d))),
      d\<lparr>tokens := update_where (\<lambda>r. rt_family r = f \<and> live r)
         (\<lambda>r. r\<lparr>rt_revoked_at := Some now, rt_revoked_reason := Some reason\<rparr>) (tokens d)\<rparr>)"

text \<open>
  Between the look-up and the lock another transaction of the same user may commit: \<open>d\<close> is the
  database of the look-up, \<open>d1\<close> the one the caller finds once it holds the lock.
\<close>

definition force_logout :: "int \<Rightarrow> int \<Rightarrow> db \<Rightarrow> db \<Rightarrow> exn + string \<times> db" where
  "force_logout f now d d1 =
     (case get_online_session d f now of
        None \<Rightarrow> Inl online_not_found
      | Some s \<Rightarrow> Inr (os_name s, snd (revoke_online_session f ''forced_logout'' now d1)))"

section \<open>The cache panel\<close>

datatype redis_value = RvInt int | RvStr string | RvDict "(string \<times> redis_value) list"

text \<open>\<^verbatim>\<open>int(value)\<close> of a value of the dictionary, \<open>None\<close> when it raises.\<close>

definition as_int :: "redis_value option \<Rightarrow> int option" where
  "as_int v = (case v of Some (RvInt n) \<Rightarrow> Some n | Some (RvStr s) \<Rightarrow> py_int s | _ \<Rightarrow> None)"

definition or_zero :: "int option \<Rightarrow> int" where
  "or_zero v = (case v of None \<Rightarrow> 0 | Some n \<Rightarrow> n)"

record command_stat =
  cs_name :: string
  cs_calls :: int
  cs_usec :: int

fun parse_command_stats :: "(string \<times> redis_value) list \<Rightarrow> command_stat list" where
  "parse_command_stats [] = []"
| "parse_command_stats ((k, RvDict kvs) # rest) =
     \<lparr>cs_name = (if starts_with ''cmdstat_'' k then drop 8 k else k),
      cs_calls = or_zero (as_int (map_of kvs ''calls'')),
      cs_usec = or_zero (as_int (map_of kvs ''usec''))\<rparr> # parse_command_stats rest"
| "parse_command_stats ((k, RvInt n) # rest) = parse_command_stats rest"
| "parse_command_stats ((k, RvStr s) # rest) = parse_command_stats rest"

text \<open>\<open>ratio hits total\<close> is the float \<^verbatim>\<open>round(hits / total, 4)\<close>.\<close>

definition hit_rate :: "(int \<Rightarrow> int \<Rightarrow> 'f) \<Rightarrow> 'f \<Rightarrow> int option \<Rightarrow> int option \<Rightarrow> 'f option" where
  "hit_rate ratio zero hits misses =
     (case (hits, misses) of
        (Some h, Some m) \<Rightarrow> Some (if h + m \<noteq> 0 then ratio h (h + m) else zero)
      | _ \<Rightarrow> None)"

datatype cache_outcome = CacheInfo "(string \<times> redis_value) list" "(string \<times> redis_value) list" int
  | CacheTimeout | CacheRedisError | CacheOSError

record 'f cache_metrics =
  cm_available :: bool
  cm_db_size :: "int option"
  cm_hits :: "int option"
  cm_misses :: "int option"
  cm_hit_rate :: "'f option"
  cm_stats :: "command_stat list"

definition cache_unavailable :: "'f cache_metrics" where
  "cache_unavailable = \<lparr>cm_available = False, cm_db_size = None, cm_hits = None, cm_misses = None,
     cm_hit_rate = None, cm_stats = []\<rparr>"

text \<open>\<open>None\<close>: no Redis client is configured.\<close>

definition get_cache_metrics ::
    "(int \<Rightarrow> int \<Rightarrow> 'f) \<Rightarrow> 'f \<Rightarrow> cache_outcome option \<Rightarrow> 'f cache_metrics" where
  "get_cache_metrics ratio zero outcome =
     (case outcome of
        Some (CacheInfo info cmdstats db_size) \<Rightarrow>
          (let hits = as_int (map_of info ''keyspace_hits''); misses = as_int (map_of info ''keyspace_misses'')
           in \<lparr>cm_available = True, cm_db_size = Some db_size, cm_hits = hits, cm_misses = misses,
               cm_hit_rate = hit_rate ratio zero hits misses, cm_stats = parse_command_stats cmdstats\<rparr>)
      | _ \<Rightarrow> cache_unavailable)"

end
