(* ===== verification/MonitorTheorems.thy ===== *)
theory MonitorTheorems
  imports Monitor TokenTheorems
begin

text \<open>
  The list of online sessions against the refresh tokens it is derived from, and what a forced
  logout does.
\<close>

section \<open>Sessions and families\<close>

text \<open>The foreign key of the tokens.\<close>

definition token_users_ok :: "db \<Rightarrow> bool" where
  "token_users_ok d \<longleftrightarrow> (\<forall>r \<in> set (rows (tokens d)). get_user d (rt_user r) \<noteq> None)"

lemma in_active_families:
  "f \<in> active_families d now \<longleftrightarrow>
     (\<exists>r \<in> set (rows (tokens d)). rt_family r = f \<and> live r \<and> now < rt_expires_at r)"
  by (auto simp: active_families_def)

lemma in_session_keys:
  "(f, uid, name) \<in> set (session_keys d now) \<longleftrightarrow> f \<in> active_families d now \<and>
     (\<exists>r \<in> set (rows (tokens d)). rt_family r = f \<and> rt_user r = uid \<and>
        (\<exists>u. get_user d uid = Some u \<and> u_username u = name))"
  by (auto simp: session_keys_def split: option.splits) metis+

lemma session_of_simps [simp]:
  "os_family (session_of rs (f, uid, name)) = f" "os_user (session_of rs (f, uid, name)) = uid"
  "os_name (session_of rs (f, uid, name)) = name"
  by (simp_all add: session_of_def Let_def)

text \<open>One row per active family.\<close>

lemma session_key_unique:
  assumes "token_inv d" "(f, uid, name) \<in> set (session_keys d now)" "(f, uid', name') \<in> set (session_keys d now)"
  shows "uid = uid' \<and> name = name'"
  using assms by (auto simp: in_session_keys token_inv_def tokens_ok_def dest: same_familyD)

lemma families_of_sessions:
  assumes inv: "token_inv d" "token_users_ok d"
  shows "distinct (map os_family (active_sessions d now))"
    and "set (map os_family (active_sessions d now)) = active_families d now"
proof -
  have eq: "map os_family (active_sessions d now) = map fst (session_keys d now)"
    by (simp add: active_sessions_def) (auto simp: session_of_def Let_def split: prod.splits)
  have "inj_on fst (set (session_keys d now))"
    using session_key_unique [OF inv(1)] by (auto simp: inj_on_def)
  then show "distinct (map os_family (active_sessions d now))"
    unfolding eq by (simp add: distinct_map session_keys_def)
  show "set (map os_family (active_sessions d now)) = active_families d now"
  proof (intro set_eqI iffI)
    fix f assume "f \<in> set (map os_family (active_sessions d now))"
    then show "f \<in> active_families d now" unfolding eq by (auto simp: in_session_keys)
  next
    fix f assume f: "f \<in> active_families d now"
    then obtain r where r: "r \<in> set (rows (tokens d))" "rt_family r = f" by (auto simp: in_active_families)
    then obtain u where "get_user d (rt_user r) = Some u" using inv(2) by (auto simp: token_users_ok_def)
    with r f have "(f, rt_user r, u_username u) \<in> set (session_keys d now)" by (auto simp: in_session_keys)
    then show "f \<in> set (map os_family (active_sessions d now))" unfolding eq by force
  qed
qed

lemma length_sessions:
  assumes "token_inv d" "token_users_ok d"
  shows "int (length (active_sessions d now)) = count_online_sessions d now"
proof -
  have "card (active_families d now) = length (map os_family (active_sessions d now))"
    using families_of_sessions [OF assms] by (metis distinct_card)
  then show ?thesis by (simp add: count_online_sessions_def)
qed

section \<open>Revoking one family\<close>

lemma revoke_online_family: "revoke_online_session f reason now d = revoke_family f reason now d"
  by (simp add: revoke_online_session_def revoke_family_def)

lemma filter_dedupe: "filter P (dedupe xs) = dedupe (filter P xs)"
proof (induction xs rule: dedupe.induct)
  case (2 x xs)
  have "filter P (filter (\<lambda>y. y \<noteq> x) xs) = filter (\<lambda>y. y \<noteq> x) (filter P xs)"
    by (simp add: conj_commute)
  moreover have "filter P (filter (\<lambda>y. y \<noteq> x) xs) = filter P xs" if "\<not> P x"
    unfolding filter_filter using that by (intro filter_cong) auto
  ultimately show ?case using 2 by simp
qed simp

lemma filter_concat_map: "filter P (concat (map g xs)) = concat (map (\<lambda>x. filter P (g x)) xs)"
  by (induction xs) simp_all

lemma map_filter_same:
  "(\<And>r. r \<in> set xs \<Longrightarrow> Q r \<Longrightarrow> h r = r) \<Longrightarrow> (\<And>r. r \<in> set xs \<Longrightarrow> Q (h r) = Q r) \<Longrightarrow>
     filter Q (map h xs) = filter Q xs"
  by (induction xs) auto

lemma token_run_drawn: "token_run S hm s s' \<Longrightarrow> snd s \<subseteq> snd s'"
  by (induction rule: token_run.induct) (auto dest: token_step_drawn)

text \<open>The other sessions stay as they are.\<close>

lemma sessions_after_revoke:
  assumes "d' = snd (revoke_family f reason now d)"
  shows "active_families d' t = active_families d t - {f}"
    and "active_sessions d' t = filter (\<lambda>s. os_family s \<noteq> f) (active_sessions d t)"
proof -
  define h where "h r = (if rt_family r = f \<and> live r
      then r\<lparr>rt_revoked_at := Some now, rt_revoked_reason := Some reason\<rparr> else r)" for r
  have rows: "rows (tokens d') = map h (rows (tokens d))" and users: "get_user d' = get_user d"
    by (simp_all add: assms revoke_family_def rows_update_where h_def get_user_def fun_eq_iff)
  have h: "rt_family (h r) = rt_family r" "rt_family r \<noteq> f \<Longrightarrow> h r = r" "rt_family r = f \<Longrightarrow> \<not> live (h r)" for r
    by (auto simp: h_def live_def)
  show fam: "active_families d' t = active_families d t - {f}"
    by (auto simp: in_active_families rows h(1)) (metis h(1-3))+
  let ?g = "\<lambda>r. case get_user d (rt_user r) of None \<Rightarrow> [] | Some u \<Rightarrow> [(rt_family r, rt_user r, u_username u)]"
  let ?Q = "\<lambda>r. rt_family r \<in> active_families d t - {f}"
  have "filter ?Q (map h (rows (tokens d))) = filter ?Q (rows (tokens d))"
    by (rule map_filter_same) (auto simp: h)
  then have keys': "session_keys d' t = dedupe (concat (map ?g (filter ?Q (rows (tokens d)))))"
    by (simp add: session_keys_def fam rows users)
  have one: "filter (\<lambda>k. fst k \<noteq> f) (?g r) = (if rt_family r = f then [] else ?g r)" for r
    by (auto split: option.splits)
  have "concat (map (\<lambda>r. if rt_family r = f then [] else ?g r) (filter (\<lambda>r. rt_family r \<in> active_families d t) xs)) =
      concat (map ?g (filter ?Q xs))" for xs
    by (induction xs) auto
  from this [of "rows (tokens d)"]
  have "filter (\<lambda>k. fst k \<noteq> f) (session_keys d t) = dedupe (concat (map ?g (filter ?Q (rows (tokens d)))))"
    unfolding session_keys_def filter_dedupe filter_concat_map one by (simp only:)
  then have keys: "session_keys d' t = filter (\<lambda>k. fst k \<noteq> f) (session_keys d t)" by (simp only: keys')
  have "session_of (rows (tokens d')) k = session_of (rows (tokens d)) k" if "fst k \<noteq> f" for k
  proof -
    have "filter (\<lambda>r. rt_family r = fst k \<and> rt_user r = fst (snd k)) (map h (rows (tokens d))) =
        filter (\<lambda>r. rt_family r = fst k \<and> rt_user r = fst (snd k)) (rows (tokens d))"
      by (rule map_filter_same) (use that h in \<open>auto simp: h_def\<close>)
    then show ?thesis by (cases k) (simp only: session_of_def rows Let_def prod.case fst_conv snd_conv)
  qed
  then have "active_sessions d' t = map (session_of (rows (tokens d))) (filter (\<lambda>k. fst k \<noteq> f) (session_keys d t))"
    unfolding active_sessions_def keys by (intro map_cong) auto
  also have "\<dots> = filter (\<lambda>s. os_family s \<noteq> f) (active_sessions d t)"
    unfolding active_sessions_def filter_map
    by (intro arg_cong [where f = "map _"] filter_cong) (auto simp: session_of_def Let_def split: prod.splits)
  finally show "active_sessions d' t = filter (\<lambda>s. os_family s \<noteq> f) (active_sessions d t)" .
qed

lemma demo_users_ok: "token_users_ok demo_session"
  unfolding token_users_ok_def by code_simp

lemma demo_online: "active_sessions demo_session 0 \<noteq> [] \<and> os_family (hd (active_sessions demo_session 0)) = 201"
  by code_simp

section \<open>Properties\<close>

text \<open>
  The pages of the online sessions, put together, are one row for every session with a usable
  refresh token, each once, the most recently active first, and the count query agrees with them.
\<close>

theorem online_sessions_are_active_families:
  assumes "token_reachable S hm (d, U)" "token_users_ok d" "0 < sz"
  shows "concat (map (\<lambda>k. pg_items (list_online_sessions d now (int k + 1) sz))
      [0..<nat (pg_pages (list_online_sessions d now 1 sz))]) = online_order (active_sessions d now) \<and>
    distinct (map os_family (active_sessions d now)) \<and>
    os_family ` set (active_sessions d now) =
      {rt_family r |r. r \<in> set (rows (tokens d)) \<and> live r \<and> now < rt_expires_at r} \<and>
    pg_total (list_online_sessions d now 1 sz) = int (length (active_sessions d now)) \<and>
    sorted (map (\<lambda>s. (- os_active s, - os_family s)) (online_order (active_sessions d now)))"
proof -
  have inv: "token_inv d" using reachable_sys_inv [OF assms(1)] by (simp add: token_sys_inv_def)
  have len: "length (online_order (active_sessions d now)) = length (active_sessions d now)"
    by (simp add: online_order_def)
  have items: "pg_items (list_online_sessions d now p sz) =
      pg_items (make_page p sz (online_order (active_sessions d now)))" for p
    by (simp add: list_online_sessions_def make_page_def)
  have "concat (map (\<lambda>k. pg_items (list_online_sessions d now (int k + 1) sz))
      [0..<nat (pg_pages (list_online_sessions d now 1 sz))]) = online_order (active_sessions d now)"
    using make_page_partition [OF assms(3), of "online_order (active_sessions d now)"]
      length_sessions [OF inv assms(2), of now] len
    by (simp add: items) (simp add: list_online_sessions_def)
  moreover have "os_family ` set (active_sessions d now) =
      {rt_family r |r. r \<in> set (rows (tokens d)) \<and> live r \<and> now < rt_expires_at r}"
    using families_of_sessions(2) [OF inv assms(2), of now] by (auto simp: active_families_def)
  moreover have "pg_total (list_online_sessions d now 1 sz) = int (length (active_sessions d now))"
    using length_sessions [OF inv assms(2), of now] by (simp add: list_online_sessions_def)
  ultimately show ?thesis
    using families_of_sessions(1) [OF inv assms(2)] by (simp add: online_order_def)
qed

theorem online_sessions_are_active_families_witness:
  "concat (map (\<lambda>k. pg_items (list_online_sessions demo_session 0 (int k + 1) 10))
      [0..<nat (pg_pages (list_online_sessions demo_session 0 1 10))]) =
     online_order (active_sessions demo_session 0) \<and> active_sessions demo_session 0 \<noteq> []"
  using online_sessions_are_active_families [OF demo_reachable demo_users_ok, of 10 0] demo_online by auto

text \<open>
  C33 A forced logout succeeds exactly for a listed session, whatever other transactions of the
  token table commit before it gets the lock; then that session, and no other, leaves the list, and
  in every later state no token of it can be refreshed and it is not listed again.
\<close>

theorem force_logout_ends_session:
  assumes "token_reachable S hm (d, U)" "token_users_ok d" "token_run S hm (d, U) (d1, U')"
  shows "((\<exists>r. force_logout f now d d1 = Inr r) \<longleftrightarrow> f \<in> os_family ` set (active_sessions d now)) \<and>
    (\<forall>name d'. force_logout f now d d1 = Inr (name, d') \<longrightarrow>
       active_sessions d' now = filter (\<lambda>s. os_family s \<noteq> f) (active_sessions d1 now) \<and>
       (\<forall>d'' V. token_run S hm (d', U') (d'', V) \<longrightarrow>
          (\<forall>t. f \<notin> os_family ` set (active_sessions d'' t)) \<and>
          (\<forall>dr t raw au res w. rotate_refresh_token S hm t dr raw \<lparr>aw_db = d'', aw_audit = au\<rparr> =
             (Inr res, w) \<longrightarrow> is_family (rr_refresh res) \<noteq> f)))"
proof -
  have sys1: "token_sys_inv (d1, U')" and inv: "token_inv d"
    using reachable_sys_inv [OF assms(1)] token_sys_run [OF assms(3)] by (auto simp: token_sys_inv_def)
  have fam: "set (map os_family (active_sessions d now)) = active_families d now"
    by (rule families_of_sessions(2) [OF inv assms(2)])
  have get: "get_online_session d f now \<noteq> None \<longleftrightarrow> f \<in> os_family ` set (active_sessions d now)"
    by (auto simp: get_online_session_def find_None_iff)
  have known: "f \<in> U'" if "f \<in> active_families d now"
  proof -
    have "f \<in> U" using that reachable_sys_inv [OF assms(1)]
      by (auto simp: token_sys_inv_def drawn_ok_def in_active_families)
    with token_run_drawn [OF assms(3)] show ?thesis by auto
  qed
  show ?thesis
  proof (intro conjI allI impI)
    show "(\<exists>r. force_logout f now d d1 = Inr r) \<longleftrightarrow> f \<in> os_family ` set (active_sessions d now)"
      using get by (auto simp: force_logout_def split: option.splits)
    fix name d' assume ok: "force_logout f now d d1 = Inr (name, d')"
    then have d': "d' = snd (revoke_family f ''forced_logout'' now d1)" and f: "f \<in> active_families d now"
      using get fam by (auto simp: force_logout_def revoke_online_family split: option.splits)
    show "active_sessions d' now = filter (\<lambda>s. os_family s \<noteq> f) (active_sessions d1 now)"
      by (rule sessions_after_revoke(2) [OF d'])
    fix d'' V assume run: "token_run S hm (d', U') (d'', V)"
    have "token_step S hm (d1, U') (d', U')"
      using token_step.revoke [of S hm d1 U' "''forced_logout''" now "[f]"] by (simp add: d' revoke_families_def)
    then have "token_inv d''" using token_sys_step [OF _ sys1] token_sys_run [OF run]
      by (auto simp: token_sys_inv_def)
    moreover have "family_dead f d''"
      using dead_run [OF run] known [OF f] revoke_family_dead by (simp add: d')
    ultimately show "f \<notin> os_family ` set (active_sessions d'' t)"
      and "rotate_refresh_token S hm t dr raw \<lparr>aw_db = d'', aw_audit = au\<rparr> = (Inr res, w) \<Longrightarrow>
        is_family (rr_refresh res) \<noteq> f" for t dr raw au res w
      using rotate_needs_live [of S hm t dr raw "\<lparr>aw_db = d'', aw_audit = au\<rparr>" res w]
      by (auto simp: active_sessions_def in_session_keys in_active_families family_dead_def
          session_of_def Let_def)
  qed
qed

theorem force_logout_ends_session_witness:
  "\<exists>name d'. force_logout 201 0 demo_session demo_session = Inr (name, d') \<and>
     active_sessions d' 0 = filter (\<lambda>s. os_family s \<noteq> 201) (active_sessions demo_session 0)"
proof -
  note main = force_logout_ends_session [OF demo_reachable demo_users_ok token_run.here, of 201 0]
  have "201 \<in> os_family ` set (active_sessions demo_session 0)"
    using demo_online by (metis hd_in_set image_eqI)
  then obtain r where r: "force_logout 201 0 demo_session demo_session = Inr r" using main by blast
  obtain name d' where "r = (name, d')" by (cases r)
  with r main show ?thesis by blast
qed

end
