(* ===== verification/Api.thy ===== *)
theory Api
  imports Permissions Bindings MenuRouting UserService RoleService MenuService DeptService PostService
    ConfigService DictService FileService TaskService Monitor
begin

text \<open>
  The HTTP handlers: \<^verbatim>\<open>domains/*/api.py\<close> and \<^verbatim>\<open>api/v1/rbac.py\<close>.  Every handler but the two of
  \<^verbatim>\<open>rbac.py\<close> has a permission guard (\<^verbatim>\<open>core/permissions.py\<close>) over the tables at the time of the
  request; the writes go through \<^verbatim>\<open>audited_write\<close> of \<^verbatim>\<open>core/rbac_audit.py\<close> or the binding service.  A
  handler \<open>ep_x\<close> models the function \<^verbatim>\<open>x\<close> of the router: its arguments are the parsed path, query and
  body, the user of the token \<open>base\<close>, the clock \<open>now\<close> where the service reads it, and the database.
  Parsing, the bounds of \<^verbatim>\<open>page\<close> and \<^verbatim>\<open>size\<close> and the response schemas are FastAPI's.
\<close>

section \<open>Guarded and audited calls\<close>

text \<open>What escapes the handler, the database after the transaction, the buffered audit events.\<close>

type_synonym 'a reply = "(exn + 'a) \<times> db \<times> audit_event list"

definition guarded_call :: "string \<Rightarrow> current_user \<Rightarrow> db \<Rightarrow> (current_user \<Rightarrow> 'a reply) \<Rightarrow> 'a reply" where
  "guarded_call perm base d h =
     (case require_permission perm (db_load_authz_context d) base of
        (Inl e, evs) \<Rightarrow> (Inl e, d, evs)
      | (Inr u, evs) \<Rightarrow> h u)"

definition api_read :: "string \<Rightarrow> current_user \<Rightarrow> db \<Rightarrow> (current_user \<Rightarrow> exn + 'a) \<Rightarrow> 'a reply" where
  "api_read perm base d h = guarded_call perm base d (\<lambda>u. (h u, d, []))"

text \<open>\<^verbatim>\<open>_actor\<close>: the subject of the token as an integer, which the guard has parsed before.\<close>

definition with_actor :: "current_user \<Rightarrow> db \<Rightarrow> (int \<Rightarrow> 'a reply) \<Rightarrow> 'a reply" where
  "with_actor u d h =
     (case py_int (cu_id u) of None \<Rightarrow> (Inl (RuntimeErr ''ValueError''), d, []) | Some i \<Rightarrow> h i)"

definition api_write ::
    "string \<Rightarrow> string \<Rightarrow> int option \<Rightarrow> ('a \<Rightarrow> int option) \<Rightarrow> ('a \<Rightarrow> string option) \<Rightarrow> int
      \<Rightarrow> current_user \<Rightarrow> db \<Rightarrow> (current_user \<Rightarrow> int \<Rightarrow> db \<Rightarrow> exn + 'a \<times> db) \<Rightarrow> 'a reply" where
  "api_write perm tt target id_of display st base d op =
     guarded_call perm base d (\<lambda>u. with_actor u d (\<lambda>i.
       audited_write i perm tt target id_of display st (op u i) d))"

abbreviation no_id :: "'a \<Rightarrow> int option" where
  "no_id \<equiv> (\<lambda>x. None)"

abbreviation no_display :: "'a \<Rightarrow> string option" where
  "no_display \<equiv> (\<lambda>x. None)"

section \<open>Users\<close>

definition ep_list_users :: "user_query \<Rightarrow> int \<Rightarrow> int \<Rightarrow> current_user \<Rightarrow> db \<Rightarrow> user page_result reply" where
  "ep_list_users q page sz base d =
     api_read (sys ''user'' ''list'') base d (\<lambda>u. user_list d q page sz (cu_scope u))"

definition ep_get_user :: "int \<Rightarrow> current_user \<Rightarrow> db \<Rightarrow> user reply" where
  "ep_get_user uid base d =
     api_read (sys ''user'' ''query'') base d (\<lambda>u. user_get d uid (cu_scope u))"

definition ep_create_user :: "crypto \<Rightarrow> string \<Rightarrow> user_create \<Rightarrow> int \<Rightarrow> current_user \<Rightarrow> db \<Rightarrow> user reply" where
  "ep_create_user C salt c now base d =
     api_write (sys ''user'' ''add'') ''user'' None (Some \<circ> u_id) (Some \<circ> u_username) 201 base d
       (\<lambda>u i. user_create_op C salt c (cu_scope u) now)"

definition ep_update_user :: "crypto \<Rightarrow> string \<Rightarrow> int \<Rightarrow> user_update \<Rightarrow> current_user \<Rightarrow> db \<Rightarrow> user reply" where
  "ep_update_user C salt uid p base d =
     api_write (sys ''user'' ''edit'') ''user'' (Some uid) (Some \<circ> u_id) (Some \<circ> u_username) 200 base d
       (\<lambda>u i. user_update_op C salt uid p (cu_scope u))"

definition ep_delete_user :: "int \<Rightarrow> current_user \<Rightarrow> db \<Rightarrow> unit reply" where
  "ep_delete_user uid base d =
     api_write (sys ''user'' ''remove'') ''user'' (Some uid) no_id no_display 200 base d
       (\<lambda>u i. user_delete_op uid (cu_scope u))"

section \<open>Departments\<close>

definition ep_list_depts :: "int \<Rightarrow> int \<Rightarrow> current_user \<Rightarrow> db \<Rightarrow> dept page_result reply" where
  "ep_list_depts page sz base d =
     api_read (sys ''dept'' ''list'') base d (\<lambda>u. Inr (dept_list d page sz (cu_scope u)))"

definition ep_get_dept :: "int \<Rightarrow> current_user \<Rightarrow> db \<Rightarrow> dept reply" where
  "ep_get_dept k base d =
     api_read (sys ''dept'' ''query'') base d (\<lambda>u. dept_get d k (cu_scope u))"

definition ep_create_dept :: "dept_create \<Rightarrow> current_user \<Rightarrow> db \<Rightarrow> dept reply" where
  "ep_create_dept c base d =
     api_write (sys ''dept'' ''add'') ''dept'' None (Some \<circ> d_id) (Some \<circ> d_code) 201 base d
       (\<lambda>u i. dept_create_op c (cu_scope u))"

definition ep_update_dept :: "int \<Rightarrow> dept_update \<Rightarrow> current_user \<Rightarrow> db \<Rightarrow> dept reply" where
  "ep_update_dept k p base d =
     api_write (sys ''dept'' ''edit'') ''dept'' (Some k) (Some \<circ> d_id) (Some \<circ> d_code) 200 base d
       (\<lambda>u i. dept_update_op k p (cu_scope u))"

definition ep_delete_dept :: "int \<Rightarrow> current_user \<Rightarrow> db \<Rightarrow> unit reply" where
  "ep_delete_dept k base d =
     api_write (sys ''dept'' ''remove'') ''dept'' (Some k) no_id no_display 200 base d
       (\<lambda>u i. dept_delete_op k (cu_scope u))"

section \<open>Roles\<close>

definition ep_list_roles :: "role_query \<Rightarrow> int \<Rightarrow> int \<Rightarrow> current_user \<Rightarrow> db \<Rightarrow> role page_result reply" where
  "ep_list_roles q page sz base d =
     api_read (sys ''role'' ''list'') base d (\<lambda>u. role_list d q page sz)"

definition ep_get_role :: "int \<Rightarrow> current_user \<Rightarrow> db \<Rightarrow> role reply" where
  "ep_get_role k base d =
     api_read (sys ''role'' ''query'') base d (\<lambda>u. role_get d k)"

definition ep_create_role :: "role_create \<Rightarrow> int \<Rightarrow> current_user \<Rightarrow> db \<Rightarrow> role reply" where
  "ep_create_role c now base d =
     api_write (sys ''role'' ''add'') ''role'' None (Some \<circ> r_id) (Some \<circ> r_code) 201 base d
       (\<lambda>u i. role_create_op c (cu_super u) now)"

definition ep_update_role :: "int \<Rightarrow> role_update \<Rightarrow> current_user \<Rightarrow> db \<Rightarrow> role reply" where
  "ep_update_role k p base d =
     api_write (sys ''role'' ''edit'') ''role'' (Some k) (Some \<circ> r_id) (Some \<circ> r_code) 200 base d
       (\<lambda>u i. role_update_op k p (cu_super u))"

definition ep_delete_role :: "int \<Rightarrow> current_user \<Rightarrow> db \<Rightarrow> unit reply" where
  "ep_delete_role k base d =
     api_write (sys ''role'' ''remove'') ''role'' (Some k) no_id no_display 200 base d
       (\<lambda>u i. role_delete_op k)"

section \<open>Menus\<close>

definition ep_list_menus :: "int \<Rightarrow> int \<Rightarrow> current_user \<Rightarrow> db \<Rightarrow> menu page_result reply" where
  "ep_list_menus page sz base d =
     api_read (sys ''menu'' ''list'') base d (\<lambda>u. Inr (menu_list d page sz))"

definition ep_get_menu :: "int \<Rightarrow> current_user \<Rightarrow> db \<Rightarrow> menu reply" where
  "ep_get_menu k base d =
     api_read (sys ''menu'' ''query'') base d (\<lambda>u. menu_get d k)"

definition ep_create_menu :: "menu_create \<Rightarrow> current_user \<Rightarrow> db \<Rightarrow> menu reply" where
  "ep_create_menu c base d =
     api_write (sys ''menu'' ''add'') ''menu'' None (Some \<circ> m_id) (Some \<circ> m_name) 201 base d
       (\<lambda>u i. menu_create_op c (cu_super u))"

definition ep_update_menu :: "int \<Rightarrow> menu_update \<Rightarrow> current_user \<Rightarrow> db \<Rightarrow> menu reply" where
  "ep_update_menu k p base d =
     api_write (sys ''menu'' ''edit'') ''menu'' (Some k) (Some \<circ> m_id) (Some \<circ> m_name) 200 base d
       (\<lambda>u i. menu_update_op k p (cu_super u))"

definition ep_delete_menu :: "int \<Rightarrow> current_user \<Rightarrow> db \<Rightarrow> unit reply" where
  "ep_delete_menu k base d =
     api_write (sys ''menu'' ''remove'') ''menu'' (Some k) no_id no_display 200 base d
       (\<lambda>u i. menu_delete_op k)"

section \<open>Posts\<close>

text \<open>
  \<^verbatim>\<open>_read_within_limit\<close> over the pieces the upload is read in; \<open>open_book\<close> is what \<^verbatim>\<open>openpyxl\<close> makes of
  the bytes, \<open>shown\<close> the text of the audit row.
\<close>

definition excel_too_large :: exn where
  "excel_too_large = AppErr ''post.EXCEL_TOO_LARGE'' 413"

fun read_pieces :: "int \<Rightarrow> int \<Rightarrow> string list \<Rightarrow> exn + string" where
  "read_pieces max_bytes sz [] = Inr []"
| "read_pieces max_bytes sz (piece # rest) =
     (if max_bytes < sz + int (length piece) then Inl excel_too_large
      else map_sum id (\<lambda>bytes. piece @ bytes) (read_pieces max_bytes (sz + int (length piece)) rest))"

definition upload_chunk :: nat where
  "upload_chunk = 64 * 1024"

definition read_within_limit :: "string \<Rightarrow> int \<Rightarrow> exn + string" where
  "read_within_limit upload max_bytes = read_pieces max_bytes 0 (chop upload_chunk upload)"

definition ep_list_posts :: "post_query \<Rightarrow> int \<Rightarrow> int \<Rightarrow> current_user \<Rightarrow> db \<Rightarrow> post page_result reply" where
  "ep_list_posts q page sz base d =
     api_read (sys ''post'' ''list'') base d (\<lambda>u. post_list d q page sz)"

definition ep_import_posts :: "(string \<Rightarrow> excel_file) \<Rightarrow> (string \<Rightarrow> int option) \<Rightarrow> excel_limits \<Rightarrow> int \<Rightarrow> (import_summary \<Rightarrow> string)
      \<Rightarrow> string \<Rightarrow> int \<Rightarrow> current_user \<Rightarrow> db \<Rightarrow> import_summary reply" where
  "ep_import_posts open_book num L max_bytes shown upload now base d =
     guarded_call (sys ''post'' ''import'') base d (\<lambda>u.
       (case read_within_limit upload max_bytes of
          Inl e \<Rightarrow> (Inl e, d, [])
        | Inr bytes \<Rightarrow> with_actor u d (\<lambda>i.
            audited_write i (sys ''post'' ''import'') ''post'' None no_id (Some \<circ> shown) 200
              (import_posts num L now (open_book bytes)) d)))"

text \<open>The workbook is its rows of cells; \<open>shown\<close> is the text with the number of its bytes.\<close>

definition ep_export_posts :: "(string list list \<Rightarrow> string) \<Rightarrow> current_user \<Rightarrow> db \<Rightarrow> string list list reply" where
  "ep_export_posts shown base d =
     api_write (sys ''post'' ''export'') ''post'' None no_id (Some \<circ> shown) 200 base d
       (\<lambda>u i. (\<lambda>d. map_sum id (\<lambda>rows. (rows, d)) (export_posts d)))"

definition ep_get_post :: "int \<Rightarrow> current_user \<Rightarrow> db \<Rightarrow> post reply" where
  "ep_get_post k base d =
     api_read (sys ''post'' ''query'') base d (\<lambda>u. post_get d k)"

definition ep_create_post :: "post_create \<Rightarrow> int \<Rightarrow> current_user \<Rightarrow> db \<Rightarrow> post reply" where
  "ep_create_post c now base d =
     api_write (sys ''post'' ''add'') ''post'' None (Some \<circ> p_id) (Some \<circ> p_code) 201 base d
       (\<lambda>u i. post_create_op c now)"

definition ep_update_post :: "int \<Rightarrow> post_update \<Rightarrow> current_user \<Rightarrow> db \<Rightarrow> post reply" where
  "ep_update_post k p base d =
     api_write (sys ''post'' ''edit'') ''post'' (Some k) (Some \<circ> p_id) (Some \<circ> p_code) 200 base d
       (\<lambda>u i. post_update_op k p)"

definition ep_delete_post :: "int \<Rightarrow> current_user \<Rightarrow> db \<Rightarrow> unit reply" where
  "ep_delete_post k base d =
     api_write (sys ''post'' ''remove'') ''post'' (Some k) no_id no_display 200 base d
       (\<lambda>u i. post_delete_op k)"

section \<open>Files\<close>

text \<open>
  \<^verbatim>\<open>upload.filename or "unnamed"\<close> and the default media type; the stored bytes are the state \<open>s\<close> of the
  backend.  The key of a deleted file is handed to a background task (see \<open>delete_request\<close>).
\<close>

definition or_text :: "string option \<Rightarrow> string \<Rightarrow> string" where
  "or_text v dflt = (case v of None \<Rightarrow> dflt | Some t \<Rightarrow> if t = [] then dflt else t)"

definition ep_list_files :: "int \<Rightarrow> int \<Rightarrow> current_user \<Rightarrow> db \<Rightarrow> file_row page_result reply" where
  "ep_list_files page sz base d =
     api_read (sys ''file'' ''list'') base d (\<lambda>u. Inr (file_list d page sz))"

definition ep_get_file :: "int \<Rightarrow> current_user \<Rightarrow> db \<Rightarrow> file_row reply" where
  "ep_get_file k base d =
     api_read (sys ''file'' ''query'') base d (\<lambda>u. file_get d k)"

definition ep_upload_file :: "'s storage_backend \<Rightarrow> file_config \<Rightarrow> string option \<Rightarrow> string option \<Rightarrow> chunk_event list \<Rightarrow> string
      \<Rightarrow> current_user \<Rightarrow> db \<Rightarrow> 's \<Rightarrow> file_row reply \<times> 's" where
  "ep_upload_file B F name ctype stream key base d s =
     (case require_permission (sys ''file'' ''upload'') (db_load_authz_context d) base of
        (Inl e, evs) \<Rightarrow> ((Inl e, d, evs), s)
      | (Inr u, _) \<Rightarrow>
          (case py_int (cu_id u) of
             None \<Rightarrow> ((Inl (RuntimeErr ''ValueError''), d, []), s)
           | Some i \<Rightarrow>
               (case file_upload B F (or_text name ''unnamed'') (or_text ctype ''application/octet-stream'')
                       stream i key d s of
                  (r, d', s') \<Rightarrow>
                    (audited_write i (sys ''file'' ''upload'') ''file'' None (Some \<circ> f_id) (Some \<circ> f_name) 201
                       (\<lambda>_. map_sum id (\<lambda>row. (row, d')) r) d, s'))))"

definition ep_download_file :: "'s storage_backend \<Rightarrow> 's \<Rightarrow> int \<Rightarrow> current_user \<Rightarrow> db \<Rightarrow> (file_row \<times> (store_exn + string list)) reply" where
  "ep_download_file B s k base d =
     api_read (sys ''file'' ''download'') base d (\<lambda>u. prepare_download B d s k)"

definition ep_delete_file :: "int \<Rightarrow> int \<Rightarrow> current_user \<Rightarrow> db \<Rightarrow> string reply" where
  "ep_delete_file k now base d =
     api_write (sys ''file'' ''remove'') ''file'' (Some k) no_id no_display 200 base d
       (\<lambda>u i. file_delete k now)"

section \<open>Dictionaries\<close>

definition ep_list_dict_types :: "string option \<Rightarrow> int \<Rightarrow> int \<Rightarrow> current_user \<Rightarrow> db \<Rightarrow> dict_type page_result reply" where
  "ep_list_dict_types kw page sz base d =
     api_read (sys ''dict'' ''list'') base d (\<lambda>u. Inr (dict_list_types d kw page sz))"

definition ep_get_dict_type :: "int \<Rightarrow> current_user \<Rightarrow> db \<Rightarrow> dict_type reply" where
  "ep_get_dict_type k base d =
     api_read (sys ''dict'' ''query'') base d (\<lambda>u. dict_get_type d k)"

definition ep_create_dict_type :: "dict_type_create \<Rightarrow> current_user \<Rightarrow> db \<Rightarrow> dict_type reply" where
  "ep_create_dict_type c base d =
     api_write (sys ''dict'' ''add'') ''dict_type'' None (Some \<circ> dt_id) (Some \<circ> dt_type) 201 base d
       (\<lambda>u i. dict_create_type c)"

definition ep_update_dict_type :: "int \<Rightarrow> dict_type_update \<Rightarrow> current_user \<Rightarrow> db \<Rightarrow> dict_type reply" where
  "ep_update_dict_type k p base d =
     api_write (sys ''dict'' ''edit'') ''dict_type'' (Some k) (Some \<circ> dt_id) (Some \<circ> dt_type) 200 base d
       (\<lambda>u i. dict_update_type k p)"

definition ep_delete_dict_type :: "int \<Rightarrow> current_user \<Rightarrow> db \<Rightarrow> unit reply" where
  "ep_delete_dict_type k base d =
     api_write (sys ''dict'' ''remove'') ''dict_type'' (Some k) no_id no_display 200 base d
       (\<lambda>u i. dict_delete_type k)"

definition ep_list_dict_data :: "int option \<Rightarrow> int \<Rightarrow> int \<Rightarrow> current_user \<Rightarrow> db \<Rightarrow> dict_data page_result reply" where
  "ep_list_dict_data k page sz base d =
     api_read (sys ''dict'' ''list'') base d (\<lambda>u. Inr (dict_list_data d k page sz))"

definition ep_list_dict_data_by_type :: "string \<Rightarrow> current_user \<Rightarrow> db \<Rightarrow> dict_data list reply" where
  "ep_list_dict_data_by_type t base d =
     api_read (sys ''dict'' ''query'') base d (\<lambda>u. Inr (list_data_by_type d t))"

definition ep_get_dict_data :: "int \<Rightarrow> current_user \<Rightarrow> db \<Rightarrow> dict_data reply" where
  "ep_get_dict_data k base d =
     api_read (sys ''dict'' ''query'') base d (\<lambda>u. dict_get_data d k)"

definition ep_create_dict_data :: "dict_data_create \<Rightarrow> current_user \<Rightarrow> db \<Rightarrow> dict_data reply" where
  "ep_create_dict_data c base d =
     api_write (sys ''dict'' ''add'') ''dict_data'' None (Some \<circ> dd_id) (Some \<circ> dd_value) 201 base d
       (\<lambda>u i. dict_create_data c)"

definition ep_update_dict_data :: "int \<Rightarrow> dict_data_update \<Rightarrow> current_user \<Rightarrow> db \<Rightarrow> dict_data reply" where
  "ep_update_dict_data k p base d =
     api_write (sys ''dict'' ''edit'') ''dict_data'' (Some k) (Some \<circ> dd_id) (Some \<circ> dd_value) 200 base d
       (\<lambda>u i. dict_update_data k p)"

definition ep_delete_dict_data :: "int \<Rightarrow> current_user \<Rightarrow> db \<Rightarrow> unit reply" where
  "ep_delete_dict_data k base d =
     api_write (sys ''dict'' ''remove'') ''dict_data'' (Some k) no_id no_display 200 base d
       (\<lambda>u i. dict_delete_data k)"

section \<open>Parameters and notices\<close>

definition ep_list_configs :: "string option \<Rightarrow> int \<Rightarrow> int \<Rightarrow> current_user \<Rightarrow> db \<Rightarrow> config page_result reply" where
  "ep_list_configs kw page sz base d =
     api_read (sys ''config'' ''list'') base d (\<lambda>u. Inr (config_list d kw page sz))"

definition ep_get_config_value :: "string \<Rightarrow> current_user \<Rightarrow> db \<Rightarrow> config_value reply" where
  "ep_get_config_value key base d =
     api_read (sys ''config'' ''query'') base d (\<lambda>u. config_get_value d key)"

definition ep_get_config :: "int \<Rightarrow> current_user \<Rightarrow> db \<Rightarrow> config reply" where
  "ep_get_config k base d =
     api_read (sys ''config'' ''query'') base d (\<lambda>u. config_get d k)"

definition ep_create_config :: "config_create \<Rightarrow> current_user \<Rightarrow> db \<Rightarrow> config reply" where
  "ep_create_config c base d =
     api_write (sys ''config'' ''add'') ''config'' None (Some \<circ> cf_id) (Some \<circ> cf_key) 201 base d
       (\<lambda>u i. config_create_op c)"

definition ep_update_config :: "int \<Rightarrow> config_update \<Rightarrow> current_user \<Rightarrow> db \<Rightarrow> config reply" where
  "ep_update_config k p base d =
     api_write (sys ''config'' ''edit'') ''config'' (Some k) (Some \<circ> cf_id) (Some \<circ> cf_key) 200 base d
       (\<lambda>u i. config_update_op k p)"

definition ep_delete_config :: "int \<Rightarrow> current_user \<Rightarrow> db \<Rightarrow> unit reply" where
  "ep_delete_config k base d =
     api_write (sys ''config'' ''remove'') ''config'' (Some k) no_id no_display 200 base d
       (\<lambda>u i. config_delete_op k)"

definition ep_list_notices :: "notice_type option \<Rightarrow> status option \<Rightarrow> int \<Rightarrow> int \<Rightarrow> current_user \<Rightarrow> db \<Rightarrow> notice page_result reply" where
  "ep_list_notices ty st page sz base d =
     api_read (sys ''notice'' ''list'') base d (\<lambda>u. Inr (notice_list d ty st page sz))"

definition ep_get_notice :: "int \<Rightarrow> current_user \<Rightarrow> db \<Rightarrow> notice reply" where
  "ep_get_notice k base d =
     api_read (sys ''notice'' ''query'') base d (\<lambda>u. notice_get d k)"

definition ep_create_notice :: "notice_create \<Rightarrow> current_user \<Rightarrow> db \<Rightarrow> notice reply" where
  "ep_create_notice c base d =
     api_write (sys ''notice'' ''add'') ''notice'' None (Some \<circ> n_id) (Some \<circ> n_title) 201 base d
       (\<lambda>u i. notice_create_op c)"

definition ep_update_notice :: "int \<Rightarrow> notice_update \<Rightarrow> current_user \<Rightarrow> db \<Rightarrow> notice reply" where
  "ep_update_notice k p base d =
     api_write (sys ''notice'' ''edit'') ''notice'' (Some k) (Some \<circ> n_id) (Some \<circ> n_title) 200 base d
       (\<lambda>u i. notice_update_op k p)"

definition ep_delete_notice :: "int \<Rightarrow> current_user \<Rightarrow> db \<Rightarrow> unit reply" where
  "ep_delete_notice k base d =
     api_write (sys ''notice'' ''remove'') ''notice'' (Some k) no_id no_display 200 base d
       (\<lambda>u i. notice_delete_op k)"

section \<open>Monitoring\<close>

text \<open>
  The two log tables are arguments, as in \<open>list_audit_events\<close> and \<open>list_login_logs\<close>, and so are
  the values that \<^verbatim>\<open>psutil\<close> reports.
\<close>

definition ep_list_operlog :: "audit_log table \<Rightarrow> string option \<Rightarrow> int option \<Rightarrow> string option \<Rightarrow> int \<Rightarrow> int \<Rightarrow> current_user \<Rightarrow> db \<Rightarrow> audit_log page_result reply" where
  "ep_list_operlog t ty uid st page sz base d =
     api_read (sys ''operlog'' ''list'') base d (\<lambda>u. Inr (list_audit_events t ty uid st page sz))"

definition ep_get_operlog :: "audit_log table \<Rightarrow> int \<Rightarrow> current_user \<Rightarrow> db \<Rightarrow> audit_log reply" where
  "ep_get_operlog t k base d =
     api_read (sys ''operlog'' ''query'') base d (\<lambda>u. get_audit_event t k)"

definition ep_list_logininfor :: "login_log table \<Rightarrow> string option \<Rightarrow> string option \<Rightarrow> int \<Rightarrow> int \<Rightarrow> current_user \<Rightarrow> db \<Rightarrow> login_log page_result reply" where
  "ep_list_logininfor t name st page sz base d =
     api_read (sys ''logininfor'' ''list'') base d (\<lambda>u. Inr (list_login_logs t name st page sz))"

definition ep_get_logininfor :: "login_log table \<Rightarrow> int \<Rightarrow> current_user \<Rightarrow> db \<Rightarrow> login_log reply" where
  "ep_get_logininfor t k base d =
     api_read (sys ''logininfor'' ''query'') base d (\<lambda>u. get_login_log t k)"

definition ep_get_server_metrics :: "'m \<Rightarrow> current_user \<Rightarrow> db \<Rightarrow> 'm reply" where
  "ep_get_server_metrics metrics base d =
     api_read (sys ''server'' ''list'') base d (\<lambda>u. Inr metrics)"

definition ep_get_cache_metrics :: "(int \<Rightarrow> int \<Rightarrow> 'f) \<Rightarrow> 'f \<Rightarrow> cache_outcome option \<Rightarrow> current_user \<Rightarrow> db \<Rightarrow> 'f cache_metrics reply" where
  "ep_get_cache_metrics ratio zero outcome base d =
     api_read (sys ''cache'' ''list'') base d (\<lambda>u. Inr (get_cache_metrics ratio zero outcome))"

definition ep_list_online_sessions :: "int \<Rightarrow> int \<Rightarrow> int \<Rightarrow> current_user \<Rightarrow> db \<Rightarrow> online_session page_result reply" where
  "ep_list_online_sessions now page sz base d =
     api_read (sys ''online'' ''list'') base d (\<lambda>u. Inr (list_online_sessions d now page sz))"

text \<open>The session is identified by the number of its UUID; \<open>force_logout\<close> reads and writes one state here.\<close>

definition ep_force_logout :: "int \<Rightarrow> int \<Rightarrow> current_user \<Rightarrow> db \<Rightarrow> string reply" where
  "ep_force_logout f now base d =
     api_write (sys ''online'' ''remove'') ''online_session'' (Some f) no_id Some 204 base d
       (\<lambda>u i. (\<lambda>d. force_logout f now d d))"

section \<open>Scheduled tasks\<close>

definition log_status_text :: "log_status \<Rightarrow> string" where
  "log_status_text st =
     (case st of LogWaiting \<Rightarrow> ''waiting'' | LogRunning \<Rightarrow> ''running'' | LogSuccess \<Rightarrow> ''success''
      | LogFailure \<Rightarrow> ''failure'' | LogMisfire \<Rightarrow> ''misfire'' | LogSkipped \<Rightarrow> ''skipped'')"

definition ep_list_handlers :: "registry \<Rightarrow> current_user \<Rightarrow> db \<Rightarrow> handler_info list reply" where
  "ep_list_handlers reg base d =
     api_read (sys ''job'' ''list'') base d (\<lambda>u. Inr (list_handlers reg))"

definition ep_list_task_logs :: "int option \<Rightarrow> log_status option \<Rightarrow> int \<Rightarrow> int \<Rightarrow> current_user \<Rightarrow> db \<Rightarrow> task_log page_result reply" where
  "ep_list_task_logs k st page sz base d =
     api_read (sys ''job'' ''query'') base d (\<lambda>u. Inr (log_list d k st page sz))"

definition ep_list_tasks :: "task_status option \<Rightarrow> string option \<Rightarrow> int \<Rightarrow> int \<Rightarrow> current_user \<Rightarrow> db \<Rightarrow> scheduled_task page_result reply" where
  "ep_list_tasks st h page sz base d =
     api_read (sys ''job'' ''list'') base d (\<lambda>u. Inr (task_list d st h page sz))"

definition ep_get_task :: "'t cron_lib \<Rightarrow> int \<Rightarrow> int \<Rightarrow> current_user \<Rightarrow> db \<Rightarrow> (scheduled_task \<times> int option) reply" where
  "ep_get_task lib now k base d =
     api_read (sys ''job'' ''query'') base d (\<lambda>u. task_get lib now d k)"

definition ep_create_task :: "registry \<Rightarrow> 't cron_lib \<Rightarrow> task_create \<Rightarrow> current_user \<Rightarrow> db \<Rightarrow> scheduled_task reply" where
  "ep_create_task reg lib c base d =
     api_write (sys ''job'' ''add'') ''scheduled_task'' None (Some \<circ> st_id) (Some \<circ> st_name) 201 base d
       (\<lambda>u i. task_create_op reg lib c)"

definition ep_update_task :: "registry \<Rightarrow> 't cron_lib \<Rightarrow> int \<Rightarrow> task_update \<Rightarrow> current_user \<Rightarrow> db \<Rightarrow> scheduled_task reply" where
  "ep_update_task reg lib k p base d =
     api_write (sys ''job'' ''edit'') ''scheduled_task'' (Some k) (Some \<circ> st_id) (Some \<circ> st_name) 200 base d
       (\<lambda>u i. task_update_op reg lib k p)"

definition ep_delete_task :: "int \<Rightarrow> current_user \<Rightarrow> db \<Rightarrow> unit reply" where
  "ep_delete_task k base d =
     api_write (sys ''job'' ''remove'') ''scheduled_task'' (Some k) no_id no_display 204 base d
       (\<lambda>u i. task_delete_op k)"

text \<open>
  The run commits in sessions of its own, so that what it did stays when the handler of the request
  fails afterwards.
\<close>

definition ep_run_task :: "'t exec_env \<Rightarrow> handler_env \<Rightarrow> bool \<Rightarrow> int \<Rightarrow> int \<Rightarrow> int \<Rightarrow> int \<Rightarrow> current_user \<Rightarrow> db \<Rightarrow> task_log reply" where
  "ep_run_task env henv strikes k exec_id now done_at base d =
     guarded_call (sys ''job'' ''run'') base d (\<lambda>u. with_actor u d (\<lambda>i.
       (case manual_run env henv strikes k (Some i) exec_id now done_at d of
          (r, d') \<Rightarrow>
            audited_write i (sys ''job'' ''run'') ''scheduled_task'' (Some k) (Some \<circ> tl_id)
              (Some \<circ> log_status_text \<circ> tl_status) 200 (\<lambda>_. map_sum id (\<lambda>l. (l, d')) r) d')))"

section \<open>Bindings\<close>

definition as_actor :: "int \<Rightarrow> current_user \<Rightarrow> actor" where
  "as_actor i u = \<lparr>ac_user = i, ac_is_super = cu_super u\<rparr>"

definition ep_bind_user_roles :: "int \<Rightarrow> int list \<Rightarrow> current_user \<Rightarrow> db \<Rightarrow> int list reply" where
  "ep_bind_user_roles k ids base d =
     guarded_call (sys ''user'' ''edit'') base d (\<lambda>u. with_actor u d (\<lambda>i.
       set_user_roles k ids (as_actor i u) (cu_scope u) d))"

definition ep_get_user_roles :: "int \<Rightarrow> current_user \<Rightarrow> db \<Rightarrow> int list reply" where
  "ep_get_user_roles k base d =
     api_read (sys ''user'' ''query'') base d (\<lambda>u. get_user_roles d k (cu_scope u))"

definition ep_bind_user_posts :: "int \<Rightarrow> int list \<Rightarrow> current_user \<Rightarrow> db \<Rightarrow> int list reply" where
  "ep_bind_user_posts k ids base d =
     guarded_call (sys ''user'' ''edit'') base d (\<lambda>u. with_actor u d (\<lambda>i.
       set_user_posts k ids (as_actor i u) (cu_scope u) d))"

definition ep_get_user_posts :: "int \<Rightarrow> current_user \<Rightarrow> db \<Rightarrow> int list reply" where
  "ep_get_user_posts k base d =
     api_read (sys ''user'' ''query'') base d (\<lambda>u. get_user_posts d k (cu_scope u))"

definition ep_bind_role_menus :: "int \<Rightarrow> int list \<Rightarrow> current_user \<Rightarrow> db \<Rightarrow> int list reply" where
  "ep_bind_role_menus k ids base d =
     guarded_call (sys ''role'' ''edit'') base d (\<lambda>u. with_actor u d (\<lambda>i.
       set_role_menus k ids (as_actor i u) d))"

definition ep_get_role_menus :: "int \<Rightarrow> current_user \<Rightarrow> db \<Rightarrow> int list reply" where
  "ep_get_role_menus k base d =
     api_read (sys ''role'' ''query'') base d (\<lambda>u. get_role_menus d k)"

definition ep_bind_role_depts :: "int \<Rightarrow> int list \<Rightarrow> current_user \<Rightarrow> db \<Rightarrow> int list reply" where
  "ep_bind_role_depts k ids base d =
     guarded_call (sys ''role'' ''edit'') base d (\<lambda>u. with_actor u d (\<lambda>i.
       set_role_depts k ids (as_actor i u) d))"

definition ep_get_role_depts :: "int \<Rightarrow> current_user \<Rightarrow> db \<Rightarrow> int list reply" where
  "ep_get_role_depts k base d =
     api_read (sys ''role'' ''query'') base d (\<lambda>u. get_role_depts d k (cu_scope u))"

section \<open>The signed-in user\<close>

text \<open>
  \<^verbatim>\<open>api/v1/rbac.py\<close>: any signed-in user may ask for the own account, roles and permissions and for the
  menu tree.  \<open>sorted_texts\<close> is \<^verbatim>\<open>sorted\<close> of a set of strings.
\<close>

definition sorted_texts :: "string set \<Rightarrow> string list" where
  "sorted_texts A =
     map (\<lambda>v. case v of VStr t \<Rightarrow> t | VInt n \<Rightarrow> []) (sorted_list_of_set (VStr ` A))"

record user_info =
  ui_user :: user
  ui_roles :: "string list"
  ui_perms :: "string list"

definition super_admin_role :: string where
  "super_admin_role = ''superadmin''"

definition super_admin_wildcard :: string where
  "super_admin_wildcard = ''*:*:*''"

definition ep_get_info :: "current_user \<Rightarrow> db \<Rightarrow> exn + user_info" where
  "ep_get_info cur d =
     (case py_int (cu_id cur) of
        None \<Rightarrow> Inl (RuntimeErr ''ValueError'')
      | Some uid \<Rightarrow>
          if \<not> db_is_active d uid then Inl account_disabled
          else bind_res (user_get d uid None) (\<lambda>me.
            Inr (if db_is_super_admin d uid
                 then \<lparr>ui_user = me, ui_roles = [super_admin_role], ui_perms = [super_admin_wildcard]\<rparr>
                 else \<lparr>ui_user = me, ui_roles = sorted_texts (db_role_codes d uid),
                       ui_perms = sorted_texts (list_perms_for_user d uid)\<rparr>)))"

definition ep_get_routers :: "current_user \<Rightarrow> db \<Rightarrow> exn + router list" where
  "ep_get_routers cur d =
     (case py_int (cu_id cur) of
        None \<Rightarrow> Inl (RuntimeErr ''ValueError'')
      | Some uid \<Rightarrow> Inr (build_routers (get_user_menu_tree d uid)))"

end
