(* ===== verification/Requests.thy ===== *)
theory Requests
  imports Api
begin

text \<open>
  The writing endpoints as one interface: a \<open>request\<close> is the parsed path and body of one of them (with
  the random values its handler draws), \<open>serve\<close> calls the handler.  For every request the guard, the
  audited action, target type, target and status are listed once.
\<close>

section \<open>Requests\<close>

datatype request =
    CreateUser string user_create | UpdateUser string int user_update | DeleteUser int
  | CreateDept dept_create | UpdateDept int dept_update | DeleteDept int
  | CreateRole role_create | UpdateRole int role_update | DeleteRole int
  | CreateMenu menu_create | UpdateMenu int menu_update | DeleteMenu int
  | ImportPosts string | ExportPosts
  | CreatePost post_create | UpdatePost int post_update | DeletePost int
  | UploadFile "string option" "string option" "chunk_event list" string | DeleteFile int
  | CreateDictType dict_type_create | UpdateDictType int dict_type_update | DeleteDictType int
  | CreateDictData dict_data_create | UpdateDictData int dict_data_update | DeleteDictData int
  | CreateConfig config_create | UpdateConfig int config_update | DeleteConfig int
  | CreateNotice notice_create | UpdateNotice int notice_update | DeleteNotice int
  | ForceLogout int
  | CreateTask task_create | UpdateTask int task_update | DeleteTask int | RunTask bool int int int
  | BindUserRoles int "int list" | BindUserPosts int "int list"
  | BindRoleMenus int "int list" | BindRoleDepts int "int list"

text \<open>The libraries and settings the handlers use; the registry is the one of \<^verbatim>\<open>scheduled_task/deps.py\<close>.\<close>

record ('t, 's) api_env =
  ae_crypto :: crypto
  ae_cron :: "'t cron_lib"
  ae_exec :: "'t exec_env"
  ae_handler :: handler_env
  ae_open :: "string \<Rightarrow> excel_file"
  ae_num :: "string \<Rightarrow> int option"
  ae_limits :: excel_limits
  ae_max_excel :: int
  ae_import_text :: "import_summary \<Rightarrow> string"
  ae_export_text :: "string list list \<Rightarrow> string"
  ae_files :: file_config
  ae_store :: "'s storage_backend"

definition exec_env_of :: "('t, 's) api_env \<Rightarrow> 't exec_env" where
  "exec_env_of E = (ae_exec E)\<lparr>xe_registry := job_registry, xe_cron := ae_cron E\<rparr>"

definition answered :: "'a reply \<Rightarrow> unit reply" where
  "answered r = (map_sum id (\<lambda>x. ()) (fst r), snd r)"

fun serve ::
    "('t, 's) api_env \<Rightarrow> int \<Rightarrow> 's \<Rightarrow> request \<Rightarrow> current_user \<Rightarrow> db \<Rightarrow> unit reply" where
  "serve E now s (CreateUser salt c) base d = answered (ep_create_user (ae_crypto E) salt c now base d)"
| "serve E now s (UpdateUser salt k p) base d = answered (ep_update_user (ae_crypto E) salt k p base d)"
| "serve E now s (DeleteUser k) base d = answered (ep_delete_user k base d)"
| "serve E now s (CreateDept dc) base d = answered (ep_create_dept dc base d)"
| "serve E now s (UpdateDept k dp) base d = answered (ep_update_dept k dp base d)"
| "serve E now s (DeleteDept k) base d = answered (ep_delete_dept k base d)"
| "serve E now s (CreateRole rc) base d = answered (ep_create_role rc now base d)"
| "serve E now s (UpdateRole k rp) base d = answered (ep_update_role k rp base d)"
| "serve E now s (DeleteRole k) base d = answered (ep_delete_role k base d)"
| "serve E now s (CreateMenu mc) base d = answered (ep_create_menu mc base d)"
| "serve E now s (UpdateMenu k mp) base d = answered (ep_update_menu k mp base d)"
| "serve E now s (DeleteMenu k) base d = answered (ep_delete_menu k base d)"
| "serve E now s (ImportPosts up) base d =
     answered (ep_import_posts (ae_open E) (ae_num E) (ae_limits E) (ae_max_excel E) (ae_import_text E) up now base d)"
| "serve E now s ExportPosts base d = answered (ep_export_posts (ae_export_text E) base d)"
| "serve E now s (CreatePost pc) base d = answered (ep_create_post pc now base d)"
| "serve E now s (UpdatePost k pp) base d = answered (ep_update_post k pp base d)"
| "serve E now s (DeletePost k) base d = answered (ep_delete_post k base d)"
| "serve E now s (UploadFile name ctype stream key) base d =
     answered (fst (ep_upload_file (ae_store E) (ae_files E) name ctype stream key base d s))"
| "serve E now s (DeleteFile k) base d = answered (ep_delete_file k now base d)"
| "serve E now s (CreateDictType tc) base d = answered (ep_create_dict_type tc base d)"
| "serve E now s (UpdateDictType k tp) base d = answered (ep_update_dict_type k tp base d)"
| "serve E now s (DeleteDictType k) base d = answered (ep_delete_dict_type k base d)"
| "serve E now s (CreateDictData ddc) base d = answered (ep_create_dict_data ddc base d)"
| "serve E now s (UpdateDictData k ddp) base d = answered (ep_update_dict_data k ddp base d)"
| "serve E now s (DeleteDictData k) base d = answered (ep_delete_dict_data k base d)"
| "serve E now s (CreateConfig cc) base d = answered (ep_create_config cc base d)"
| "serve E now s (UpdateConfig k cp) base d = answered (ep_update_config k cp base d)"
| "serve E now s (DeleteConfig k) base d = answered (ep_delete_config k base d)"
| "serve E now s (CreateNotice nc) base d = answered (ep_create_notice nc base d)"
| "serve E now s (UpdateNotice k np) base d = answered (ep_update_notice k np base d)"
| "serve E now s (DeleteNotice k) base d = answered (ep_delete_notice k base d)"
| "serve E now s (ForceLogout f) base d = answered (ep_force_logout f now base d)"
| "serve E now s (CreateTask kc) base d = answered (ep_create_task job_registry (ae_cron E) kc base d)"
| "serve E now s (UpdateTask k kp) base d = answered (ep_update_task job_registry (ae_cron E) k kp base d)"
| "serve E now s (DeleteTask k) base d = answered (ep_delete_task k base d)"
| "serve E now s (RunTask strikes k exec_id done_at) base d =
     answered (ep_run_task (exec_env_of E) (ae_handler E) strikes k exec_id now done_at base d)"
| "serve E now s (BindUserRoles k ids) base d = answered (ep_bind_user_roles k ids base d)"
| "serve E now s (BindUserPosts k ids) base d = answered (ep_bind_user_posts k ids base d)"
| "serve E now s (BindRoleMenus k ids) base d = answered (ep_bind_role_menus k ids base d)"
| "serve E now s (BindRoleDepts k ids) base d = answered (ep_bind_role_depts k ids base d)"

section \<open>Guard and audit of every request\<close>

text \<open>Resource and action of the guard, audited action, target type, target and success status.\<close>

record write_meta =
  wm_perm :: string
  wm_action :: string
  wm_type :: string
  wm_target :: "int option"
  wm_status :: int

definition crud_meta :: "string \<Rightarrow> string \<Rightarrow> string \<Rightarrow> int option \<Rightarrow> int \<Rightarrow> write_meta" where
  "crud_meta res act tt target st =
     \<lparr>wm_perm = sys res act, wm_action = sys res act, wm_type = tt, wm_target = target, wm_status = st\<rparr>"

definition bind_meta :: "string \<Rightarrow> string \<Rightarrow> int \<Rightarrow> write_meta" where
  "bind_meta res act k =
     \<lparr>wm_perm = sys res ''edit'', wm_action = sys res act, wm_type = res, wm_target = Some k, wm_status = 200\<rparr>"

fun write_meta_of :: "request \<Rightarrow> write_meta" where
  "write_meta_of (CreateUser salt c) = crud_meta ''user'' ''add'' ''user'' None 201"
| "write_meta_of (UpdateUser salt k p) = crud_meta ''user'' ''edit'' ''user'' (Some k) 200"
| "write_meta_of (DeleteUser k) = crud_meta ''user'' ''remove'' ''user'' (Some k) 200"
| "write_meta_of (CreateDept dc) = crud_meta ''dept'' ''add'' ''dept'' None 201"
| "write_meta_of (UpdateDept k dp) = crud_meta ''dept'' ''edit'' ''dept'' (Some k) 200"
| "write_meta_of (DeleteDept k) = crud_meta ''dept'' ''remove'' ''dept'' (Some k) 200"
| "write_meta_of (CreateRole rc) = crud_meta ''role'' ''add'' ''role'' None 201"
| "write_meta_of (UpdateRole k rp) = crud_meta ''role'' ''edit'' ''role'' (Some k) 200"
| "write_meta_of (DeleteRole k) = crud_meta ''role'' ''remove'' ''role'' (Some k) 200"
| "write_meta_of (CreateMenu mc) = crud_meta ''menu'' ''add'' ''menu'' None 201"
| "write_meta_of (UpdateMenu k mp) = crud_meta ''menu'' ''edit'' ''menu'' (Some k) 200"
| "write_meta_of (DeleteMenu k) = crud_meta ''menu'' ''remove'' ''menu'' (Some k) 200"
| "write_meta_of (ImportPosts up) = crud_meta ''post'' ''import'' ''post'' None 200"
| "write_meta_of ExportPosts = crud_meta ''post'' ''export'' ''post'' None 200"
| "write_meta_of (CreatePost pc) = crud_meta ''post'' ''add'' ''post'' None 201"
| "write_meta_of (UpdatePost k pp) = crud_meta ''post'' ''edit'' ''post'' (Some k) 200"
| "write_meta_of (DeletePost k) = crud_meta ''post'' ''remove'' ''post'' (Some k) 200"
| "write_meta_of (UploadFile name ctype stream key) = crud_meta ''file'' ''upload'' ''file'' None 201"
| "write_meta_of (DeleteFile k) = crud_meta ''file'' ''remove'' ''file'' (Some k) 200"
| "write_meta_of (CreateDictType tc) = crud_meta ''dict'' ''add'' ''dict_type'' None 201"
| "write_meta_of (UpdateDictType k tp) = crud_meta ''dict'' ''edit'' ''dict_type'' (Some k) 200"
| "write_meta_of (DeleteDictType k) = crud_meta ''dict'' ''remove'' ''dict_type'' (Some k) 200"
| "write_meta_of (CreateDictData ddc) = crud_meta ''dict'' ''add'' ''dict_data'' None 201"
| "write_meta_of (UpdateDictData k ddp) = crud_meta ''dict'' ''edit'' ''dict_data'' (Some k) 200"
| "write_meta_of (DeleteDictData k) = crud_meta ''dict'' ''remove'' ''dict_data'' (Some k) 200"
| "write_meta_of (CreateConfig cc) = crud_meta ''config'' ''add'' ''config'' None 201"
| "write_meta_of (UpdateConfig k cp) = crud_meta ''config'' ''edit'' ''config'' (Some k) 200"
| "write_meta_of (DeleteConfig k) = crud_meta ''config'' ''remove'' ''config'' (Some k) 200"
| "write_meta_of (CreateNotice nc) = crud_meta ''notice'' ''add'' ''notice'' None 201"
| "write_meta_of (UpdateNotice k np) = crud_meta ''notice'' ''edit'' ''notice'' (Some k) 200"
| "write_meta_of (DeleteNotice k) = crud_meta ''notice'' ''remove'' ''notice'' (Some k) 200"
| "write_meta_of (ForceLogout f) = crud_meta ''online'' ''remove'' ''online_session'' (Some f) 204"
| "write_meta_of (CreateTask kc) = crud_meta ''job'' ''add'' ''scheduled_task'' None 201"
| "write_meta_of (UpdateTask k kp) = crud_meta ''job'' ''edit'' ''scheduled_task'' (Some k) 200"
| "write_meta_of (DeleteTask k) = crud_meta ''job'' ''remove'' ''scheduled_task'' (Some k) 204"
| "write_meta_of (RunTask strikes k exec_id done_at) = crud_meta ''job'' ''run'' ''scheduled_task'' (Some k) 200"
| "write_meta_of (BindUserRoles k ids) = bind_meta ''user'' ''bind_roles'' k"
| "write_meta_of (BindUserPosts k ids) = bind_meta ''user'' ''bind_posts'' k"
| "write_meta_of (BindRoleMenus k ids) = bind_meta ''role'' ''bind_menus'' k"
| "write_meta_of (BindRoleDepts k ids) = bind_meta ''role'' ''bind_depts'' k"

fun is_binding :: "request \<Rightarrow> bool" where
  "is_binding (BindUserRoles k ids) = True"
| "is_binding (BindUserPosts k ids) = True"
| "is_binding (BindRoleMenus k ids) = True"
| "is_binding (BindRoleDepts k ids) = True"
| "is_binding _ = False"

fun is_run :: "request \<Rightarrow> bool" where
  "is_run (RunTask strikes k exec_id done_at) = True"
| "is_run _ = False"

text \<open>An upload above the limit is refused before the audited part of the handler.\<close>

fun oversized :: "('t, 's) api_env \<Rightarrow> request \<Rightarrow> bool" where
  "oversized E (ImportPosts up) \<longleftrightarrow> up \<noteq> [] \<and> ae_max_excel E < int (length up)"
| "oversized E _ \<longleftrightarrow> False"

section \<open>The contract\<close>

text \<open>The caller of a request when the tables allow it, the error and the event otherwise.\<close>

definition allowed_caller :: "db \<Rightarrow> current_user \<Rightarrow> string \<Rightarrow> int option" where
  "allowed_caller d base perm =
     (case py_int (cu_id base) of
        None \<Rightarrow> None
      | Some i \<Rightarrow>
          if db_is_active d i \<and> (db_is_super_admin d i \<or> perm \<in> list_perms_for_user d i) then Some i else None)"

definition refusal :: "db \<Rightarrow> current_user \<Rightarrow> string \<Rightarrow> exn \<times> audit_event list" where
  "refusal d base perm =
     (case py_int (cu_id base) of
        None \<Rightarrow> (RuntimeErr ''ValueError'', [])
      | Some i \<Rightarrow>
          if db_is_active d i then (forbidden_by_role, [denied_event perm i ''auth.FORBIDDEN_BY_ROLE''])
          else (account_disabled, [denied_event perm i ''auth.ACCOUNT_DISABLED'']))"

definition failure_events :: "bool \<Rightarrow> int \<Rightarrow> write_meta \<Rightarrow> exn \<Rightarrow> audit_event list" where
  "failure_events binding i m e =
     (case e of
        AppErr code st \<Rightarrow>
          [rbac_event i (wm_action m) (wm_type m) (wm_target m) None ''failure'' st (Some code)]
      | IntegrityErr c \<Rightarrow>
          if binding then []
          else [rbac_event i (wm_action m) (wm_type m) (wm_target m) None ''failure'' 409
            (Some ''framework.CONFLICT'')]
      | RuntimeErr t \<Rightarrow> [])"

end
