(* ===== verification/ApiEffects.thy ===== *)
theory ApiEffects
  imports Requests UserTheorems AccessTheorems CatalogTheorems TaskTheorems FileTheorems
begin

text \<open>
  What a request does: it is refused by the guard, fails in the service, or makes one change of the
  tables and leaves one audit row.  The changes are the steps of the components.
\<close>

section \<open>Changes of the tables\<close>

text \<open>A change that leaves accounts, roles, menus, departments, their links and the dictionaries alone.\<close>

definition aside :: "db \<Rightarrow> db \<Rightarrow> bool" where
  "aside d e \<longleftrightarrow> users e = users d \<and> depts e = depts d \<and> roles e = roles d \<and> menus e = menus d \<and>
     user_roles e = user_roles d \<and> role_depts e = role_depts d \<and> role_menus e = role_menus d \<and>
     dict_types e = dict_types d \<and> dict_datas e = dict_datas d \<and> audit_rows e = audit_rows d"

text \<open>The flag says whether the caller is a super administrator.\<close>

inductive api_effect :: "bool \<Rightarrow> db \<Rightarrow> db \<Rightarrow> bool" where
  by_users: "user_step d e \<Longrightarrow> api_effect b d e"
| by_depts: "dept_step d e \<Longrightarrow> api_effect b d e"
| role_made: "role_create_op rc b now d = Inr (r, e) \<Longrightarrow> api_effect b d e"
| role_edited: "role_update_op i rp b d = Inr (r, e) \<Longrightarrow> api_effect b d e"
| role_gone: "role_delete_op i d = Inr ((), e) \<Longrightarrow> api_effect b d e"
| menu_made: "menu_create_op mc b d = Inr (m, e) \<Longrightarrow> api_effect b d e"
| menu_edited: "menu_update_op i mp b d = Inr (m, e) \<Longrightarrow> api_effect b d e"
| menu_gone: "menu_delete_op i d = Inr ((), e) \<Longrightarrow> api_effect b d e"
| by_dicts: "dict_step d e \<Longrightarrow> api_effect b d e"
| bound_roles: "set_user_roles_body i ids op scope d = Inr (x, e) \<Longrightarrow> ac_is_super op = b \<Longrightarrow> api_effect b d e"
| bound_menus: "set_role_menus_body i ids op d = Inr (x, e) \<Longrightarrow> ac_is_super op = b \<Longrightarrow> api_effect b d e"
| bound_depts: "set_role_depts_body i ids op d = Inr (x, e) \<Longrightarrow> ac_is_super op = b \<Longrightarrow> api_effect b d e"
| elsewhere: "aside d e \<Longrightarrow> api_effect b d e"

lemma user_step_audit: "user_step d e \<Longrightarrow> audit_rows e = audit_rows d"
  by (induction rule: user_step.induct) (auto dest: user_create_InrD(2) elim!: user_update_InrD user_delete_InrD)

lemma dept_step_audit: "dept_step d e \<Longrightarrow> audit_rows e = audit_rows d"
  by (induction rule: dept_step.induct) (auto dest: dept_create_InrD(2) dept_delete_InrD(4) elim!: dept_update_InrD)

lemma clear_defaults_audit: "audit_rows (clear_other_defaults ty except d) = audit_rows d"
  by (simp add: clear_other_defaults_def)

lemma dict_step_audit: "dict_step d e \<Longrightarrow> audit_rows e = audit_rows d"
  by (induction rule: dict_step.induct)
    (auto dest: dict_create_type_InrD(2) dict_delete_type_InrD(3) elim!: dict_update_type_InrD
      dict_create_data_InrD dict_update_data_InrD
      simp: clear_defaults_audit dict_delete_data_def dict_repo_delete_data_def split: if_splits)

lemma binding_bodies:
  shows "set_user_roles_body i ids op scope d = Inr (x, e) \<Longrightarrow>
      ac_is_super op \<and> get_user d i \<noteq> None \<and> (\<forall>k \<in> set ids. get_role d k \<noteq> None) \<and>
      e = repo_set_user_roles i (dedupe ids) d"
    and "set_role_menus_body i ids op d = Inr (x, e) \<Longrightarrow>
      ac_is_super op \<and> get_role d i \<noteq> None \<and> (\<forall>k \<in> set ids. get_menu d k \<noteq> None) \<and>
      e = repo_set_role_menus i (dedupe ids) d"
    and "set_role_depts_body i ids op d = Inr (x, e) \<Longrightarrow>
      ac_is_super op \<and> get_role d i \<noteq> None \<and> (\<forall>k \<in> set ids. get_dept d k \<noteq> None) \<and>
      e = repo_set_role_depts i (dedupe ids) d"
    and "set_user_posts_body i ids op scope d = Inr (x, e) \<Longrightarrow> e = repo_set_user_posts i (dedupe ids) d"
  by (auto simp: set_user_roles_body_def set_role_menus_body_def set_role_depts_body_def set_user_posts_body_def
      bind_res_Inr_iff require_super_admin_def require_role_def require_ids_exist_Inr_iff existing_ids_iff
      dest!: find_visible_InrD split: option.splits)

lemma api_effect_audit: "api_effect b d e \<Longrightarrow> audit_rows e = audit_rows d"
proof (induction rule: api_effect.induct)
  case (role_edited i rp b d r e)
  then show ?case by (auto elim!: role_update_InrD)
next
  case (menu_edited i mp b d m e)
  then show ?case by (auto elim!: menu_update_InrD)
qed (auto dest: user_step_audit dept_step_audit dict_step_audit role_create_InrD(2) role_delete_InrD(2)
    menu_create_InrD(2) menu_delete_InrD(3) binding_bodies
    simp: aside_def repo_set_user_roles_def repo_set_role_menus_def repo_set_role_depts_def)

section \<open>The guard\<close>

lemma guarded_call_cases:
  fixes h :: "current_user \<Rightarrow> 'a reply"
  obtains (refused) "allowed_caller d base perm = None"
      "guarded_call perm base d h = (Inl (fst (refusal d base perm)), d, snd (refusal d base perm))"
  | (admitted) i u where "allowed_caller d base perm = Some i" "py_int (cu_id u) = Some i"
      "cu_super u = db_is_super_admin d i"
      "require_permission perm (db_load_authz_context d) base = (Inr u, [])" "guarded_call perm base d h = h u"
proof (cases "py_int (cu_id base)")
  case None
  then show thesis
    by (intro refused) (simp_all add: allowed_caller_def refusal_def guarded_call_def require_permission_def)
next
  case (Some i)
  note load = db_provider.load_active [of d i] db_provider.load_super [of d i] db_provider.load_perms [of d i]
  show thesis
  proof (cases "db_is_active d i \<and> (db_is_super_admin d i \<or> perm \<in> list_perms_for_user d i)")
    case False
    then show thesis using load Some
      by (intro refused)
        (auto simp: allowed_caller_def refusal_def guarded_call_def require_permission_def Let_def)
  next
    case True
    define ctx where "ctx = db_load_authz_context d i"
    define u where "u = (if db_is_super_admin d i
      then base\<lparr>cu_super := True, cu_scope := Some (plain_scope ScopeAll i)\<rparr>
      else base\<lparr>cu_super := False, cu_perms := ac_perms ctx, cu_dept := ds_dept (ac_scope ctx),
                cu_scope := Some (ac_scope ctx)\<rparr>)"
    have r: "require_permission perm (db_load_authz_context d) base = (Inr u, [])"
      using load Some True by (auto simp: require_permission_def Let_def u_def ctx_def)
    show thesis
      by (rule admitted [of i u])
        (use Some True r in \<open>simp_all add: allowed_caller_def guarded_call_def u_def\<close>)
  qed
qed

section \<open>Requests that keep the contract\<close>

text \<open>
  The three outcomes of a request with the data \<open>m\<close> of its audit rows.  \<open>loose\<close> marks a request whose
  failure may leave a change behind, \<open>silent\<close> one that is refused before the audited part.
\<close>

inductive served :: "write_meta \<Rightarrow> bool \<Rightarrow> bool \<Rightarrow> bool \<Rightarrow> current_user \<Rightarrow> db \<Rightarrow> unit reply \<Rightarrow> bool"
  for m binding silent loose base d where
  refused: "allowed_caller d base (wm_perm m) = None \<Longrightarrow>
    served m binding silent loose base d
      (Inl (fst (refusal d base (wm_perm m))), d, snd (refusal d base (wm_perm m)))"
| failed: "allowed_caller d base (wm_perm m) = Some i \<Longrightarrow> aside d e \<Longrightarrow> e = d \<or> loose \<Longrightarrow>
    served m binding silent loose base d
      (Inl x, e, if silent then [] else failure_events binding i m x)"
| written: "allowed_caller d base (wm_perm m) = Some i \<Longrightarrow> api_effect (db_is_super_admin d i) d e \<Longrightarrow>
    (wm_target m \<noteq> None \<Longrightarrow> tgt = wm_target m) \<Longrightarrow>
    served m binding silent loose base d
      (Inr (), record_committed (rbac_event i (wm_action m) (wm_type m) tgt dsp ''success'' (wm_status m) None) e, [])"

lemma aside_refl [simp]: "aside d d"
  by (simp add: aside_def)

lemma api_write_served:
  assumes "\<And>u i x e. cu_super u = db_is_super_admin d i \<Longrightarrow> op u i d = Inr (x, e) \<Longrightarrow> api_effect (cu_super u) d e"
  shows "served (crud_meta res act tt target st) False False loose base d
    (answered (api_write (sys res act) tt target id_of dsp st base d op))"
proof (rule guarded_call_cases [of d base "sys res act"
      "\<lambda>u. with_actor u d (\<lambda>i. audited_write i (sys res act) tt target id_of dsp st (op u i) d)"])
  assume "allowed_caller d base (sys res act) = None"
    "guarded_call (sys res act) base d
      (\<lambda>u. with_actor u d (\<lambda>i. audited_write i (sys res act) tt target id_of dsp st (op u i) d)) =
      (Inl (fst (refusal d base (sys res act))), d, snd (refusal d base (sys res act)))"
  then show ?thesis
    using served.refused [of d base "crud_meta res act tt target st" False False loose]
    by (simp add: api_write_def answered_def crud_meta_def)
next
  fix i u
  assume i: "allowed_caller d base (sys res act) = Some i" "py_int (cu_id u) = Some i"
    "cu_super u = db_is_super_admin d i"
    and g: "guarded_call (sys res act) base d
      (\<lambda>u. with_actor u d (\<lambda>i. audited_write i (sys res act) tt target id_of dsp st (op u i) d)) =
      with_actor u d (\<lambda>i. audited_write i (sys res act) tt target id_of dsp st (op u i) d)"
  let ?m = "crud_meta res act tt target st"
  have a: "api_write (sys res act) tt target id_of dsp st base d op =
      audited_write i (sys res act) tt target id_of dsp st (op u i) d"
    using i(2) by (simp only: api_write_def g) (simp add: with_actor_def)
  show ?thesis
  proof (cases "op u i d")
    case (Inl x)
    have "answered (audited_write i (sys res act) tt target id_of dsp st (op u i) d) =
        (Inl x, d, failure_events False i ?m x)"
      by (cases x) (simp_all add: audited_write_def Inl answered_def failure_events_def crud_meta_def)
    then show ?thesis
      using served.failed [of d base ?m i d loose False False x] i(1) by (simp add: a) (simp add: crud_meta_def)
  next
    case (Inr p)
    obtain x e where p: "p = (x, e)" by (cases p)
    have "api_effect (db_is_super_admin d i) d e" using assms [OF i(3)] Inr p i(3) by simp
    moreover have "answered (audited_write i (sys res act) tt target id_of dsp st (op u i) d) =
        (Inr (), record_committed (rbac_event i (wm_action ?m) (wm_type ?m)
           (case target of Some t \<Rightarrow> Some t | None \<Rightarrow> id_of x) (dsp x) ''success'' (wm_status ?m) None) e, [])"
      by (simp add: audited_write_def Inr p answered_def crud_meta_def)
    ultimately show ?thesis
      unfolding a using i(1) by (simp only:) (rule served.written, simp_all add: crud_meta_def split: option.splits)
  qed
qed

text \<open>A binding request; the post bindings need no super administrator.\<close>

lemma as_actor_simps [simp]: "ac_user (as_actor i u) = i" "ac_is_super (as_actor i u) = cu_super u"
  by (simp_all add: as_actor_def)

lemma binding_served:
  assumes "\<And>u i x e. cu_super u = db_is_super_admin d i \<Longrightarrow> body u (as_actor i u) d = Inr (x, e) \<Longrightarrow>
      api_effect (cu_super u) d e"
  shows "served (bind_meta res act k) True False loose base d
    (answered (guarded_call (sys res ''edit'') base d (\<lambda>u. with_actor u d (\<lambda>i.
       audited_binding (as_actor i u) (sys res act) res k (body u (as_actor i u)) d))))"
proof (rule guarded_call_cases [of d base "sys res ''edit''" "\<lambda>u. with_actor u d (\<lambda>i.
       audited_binding (as_actor i u) (sys res act) res k (body u (as_actor i u)) d)"])
  assume "allowed_caller d base (sys res ''edit'') = None"
    and g: "guarded_call (sys res ''edit'') base d (\<lambda>u. with_actor u d (\<lambda>i.
       audited_binding (as_actor i u) (sys res act) res k (body u (as_actor i u)) d)) =
      (Inl (fst (refusal d base (sys res ''edit''))), d, snd (refusal d base (sys res ''edit'')))"
  then show ?thesis
    using served.refused [of d base "bind_meta res act k" True False loose]
    by (simp only: g) (simp add: answered_def bind_meta_def)
next
  fix i u
  assume i: "allowed_caller d base (sys res ''edit'') = Some i" "py_int (cu_id u) = Some i"
    "cu_super u = db_is_super_admin d i"
    and g: "guarded_call (sys res ''edit'') base d (\<lambda>u. with_actor u d (\<lambda>i.
       audited_binding (as_actor i u) (sys res act) res k (body u (as_actor i u)) d)) =
      with_actor u d (\<lambda>i. audited_binding (as_actor i u) (sys res act) res k (body u (as_actor i u)) d)"
  let ?m = "bind_meta res act k"
  have a: "with_actor u d (\<lambda>i. audited_binding (as_actor i u) (sys res act) res k (body u (as_actor i u)) d) =
      audited_binding (as_actor i u) (sys res act) res k (body u (as_actor i u)) d"
    using i(2) by (simp add: with_actor_def)
  show ?thesis
  proof (cases "body u (as_actor i u) d")
    case (Inl x)
    have "answered (audited_binding (as_actor i u) (sys res act) res k (body u (as_actor i u)) d) =
        (Inl x, d, failure_events True i ?m x)"
      by (cases x) (simp_all add: audited_binding_def Inl answered_def failure_events_def bind_meta_def)
    then show ?thesis
      using served.failed [of d base ?m i d loose True False x] i(1) by (simp only: g a) (simp add: bind_meta_def)
  next
    case (Inr p)
    obtain ids name e where p: "p = ((ids, name), e)" by (cases p) auto
    have "api_effect (db_is_super_admin d i) d e" using assms(1) [OF i(3)] Inr p i(3) by simp
    moreover have "answered (audited_binding (as_actor i u) (sys res act) res k (body u (as_actor i u)) d) =
        (Inr (), record_committed (rbac_event i (wm_action ?m) (wm_type ?m) (Some k) (Some name)
           ''success'' (wm_status ?m) None) e, [])"
      by (simp add: audited_binding_def Inr p answered_def bind_meta_def)
    ultimately show ?thesis
      unfolding g a using i(1) by (simp only:) (rule served.written, simp_all add: bind_meta_def)
  qed
qed

lemma import_effect: "import_posts num L now bk d = Inr (x, e) \<Longrightarrow> aside d e"
proof -
  assume "import_posts num L now bk d = Inr (x, e)"
  then consider "e = d" | cs where "bulk_create cs now d = Inr e"
    by (auto simp: import_posts_def Let_def split: option.splits if_splits sum.splits)
  then show "aside d e"
  proof cases
    case 2
    show ?thesis by (subst bulk_create_frame [OF 2]) (simp add: aside_def)
  qed simp
qed

lemma read_pieces_iff:
  "read_pieces mx sz ps = (if ps \<noteq> [] \<and> mx < sz + int (length (concat ps)) then Inl excel_too_large
     else Inr (concat ps))"
proof (induction ps arbitrary: sz)
  case (Cons p ps)
  show ?case
    unfolding read_pieces.simps Cons.IH [of "sz + int (length p)"] by (cases "ps = []") (simp_all add: add_ac)
qed simp

section \<open>Changes beside the access tables\<close>

lemma asideI: "users e = users d \<Longrightarrow> depts e = depts d \<Longrightarrow> roles e = roles d \<Longrightarrow> menus e = menus d \<Longrightarrow>
    user_roles e = user_roles d \<Longrightarrow> role_depts e = role_depts d \<Longrightarrow> role_menus e = role_menus d \<Longrightarrow>
    dict_types e = dict_types d \<Longrightarrow> dict_datas e = dict_datas d \<Longrightarrow> audit_rows e = audit_rows d \<Longrightarrow> aside d e"
  by (simp add: aside_def)

lemma aside_trans: "aside d e \<Longrightarrow> aside e f \<Longrightarrow> aside d f"
  by (simp add: aside_def)

lemma aside_writes:
  shows "post_create_op pc now d = Inr (p, e) \<Longrightarrow> aside d e"
    and "post_update_op i pu d = Inr (p, e) \<Longrightarrow> aside d e"
    and "post_delete_op i d = Inr (u, e) \<Longrightarrow> aside d e"
    and "file_delete i now d = Inr (key, e) \<Longrightarrow> aside d e"
    and "config_create_op cc d = Inr (c, e) \<Longrightarrow> aside d e"
    and "config_update_op i cu d = Inr (c, e) \<Longrightarrow> aside d e"
    and "config_delete_op i d = Inr (u, e) \<Longrightarrow> aside d e"
    and "notice_create_op nc d = Inr (n, e) \<Longrightarrow> aside d e"
    and "notice_update_op i nu d = Inr (n, e) \<Longrightarrow> aside d e"
    and "notice_delete_op i d = Inr (u, e) \<Longrightarrow> aside d e"
    and "force_logout i now d d = Inr (name, e) \<Longrightarrow> aside d e"
    and "task_create_op reg lib kc d = Inr (t, e) \<Longrightarrow> aside d e"
    and "task_update_op reg lib i ku d = Inr (t, e) \<Longrightarrow> aside d e"
    and "task_delete_op i d = Inr (u, e) \<Longrightarrow> aside d e"
    and "set_user_posts_body i ids op scope d = Inr (x, e) \<Longrightarrow> aside d e"
  by (auto simp: aside_def force_logout_def revoke_online_session_def task_delete_op_def task_repo_delete_def
      notice_create_op_def notice_repo_create_def notice_delete_op_def notice_repo_delete_def
      file_delete_def soft_delete_def repo_set_user_posts_def
      dest!: post_create_InrD post_repo_create_InrD(2) post_delete_InrD(2) config_create_InrD(2)
        config_delete_InrD(2) binding_bodies(4)
      elim!: post_update_InrD config_update_InrD notice_update_InrD task_create_InrD task_update_InrD
      split: option.splits prod.splits if_splits)

lemma upload_aside: "file_upload B F name ctype stream i key d s = (Inr x, e, s') \<Longrightarrow> aside d e"
  by (auto simp: file_upload_def clean_up_def Let_def aside_def dest!: file_create_InrD(2)
      split: sum.splits prod.splits if_splits store_exn.splits)

text \<open>The built-in handlers write the table of the refresh tokens at most.\<close>

lemma handler_aside:
  assumes "registry_get job_registry key = Some spec"
  shows "aside d (snd (hs_run spec henv ps d))"
proof -
  have "spec \<in> set job_registry" using registry_get_mem [OF assms] by simp
  then show ?thesis
    by (auto simp: job_registry_def noop_handler_def echo_handler_def cleanup_handler_def aside_def
        delete_expired_def Let_def split: option.splits json.splits prod.splits)
qed

lemma invoke_aside:
  assumes "xe_registry env = job_registry"
  shows "aside d (snd (invoke env henv strikes key ps tmo d))"
  using assms handler_aside [of key _ d henv ps]
  by (auto simp: invoke_def split: option.splits prod.splits bool.splits)

lemma claim_aside: "claim_once env i tr sch a ex now d = Inr (c, e) \<Longrightarrow> aside d e"
  by (rule claim_once_cases) (auto simp: aside_def dest!: create_log_InrD(2))

lemma finish_aside: "aside d (finish env l i out now d)"
  by (simp add: finish_def Let_def mark_task_last_run_def aside_def)

lemma run_aside:
  assumes "xe_registry env = job_registry" "manual_run env henv strikes i a ex now done_at d = (r, e)"
  shows "aside d e"
proof -
  have run: "aside d f" if "run env henv strikes i TrigManual None a ex now done_at d = Inr (out, f)" for out f
  proof -
    from that obtain c d1 where c: "claim_once env i TrigManual None a ex now d = Inr (c, d1)"
      by (auto simp: run_def bind_res_Inr_iff)
    have "aside d1 f"
    proof (cases c)
      case None
      then show ?thesis using that c by (auto simp: run_def)
    next
      case (Some cl)
      obtain o2 d2 where iv: "invoke env henv strikes (cr_handler cl) (cr_params cl)
          (effective_timeout TrigManual (cr_timeout cl)) d1 = (o2, d2)" by fastforce
      from invoke_aside [OF assms(1)] iv have "aside d1 d2" by (metis snd_conv)
      then show ?thesis
        using that c Some iv aside_trans [OF _ finish_aside] by (auto simp: run_def split: if_splits)
    qed
    with claim_aside [OF c] show ?thesis by (rule aside_trans)
  qed
  from assms(2) show ?thesis
    by (auto simp: manual_run_def split: option.splits sum.splits if_splits prod.splits dest: run)
qed

section \<open>All requests\<close>

lemmas served_defs = serve.simps write_meta_of.simps is_binding.simps oversized.simps is_run.simps

lemma map_sum_Inr_iff: "map_sum id f r = Inr y \<longleftrightarrow> (\<exists>x. r = Inr x \<and> y = f x)"
  by (cases r) auto

lemma users_served:
  "served (crud_meta ''user'' ''add'' ''user'' None 201) False False False base d
     (answered (ep_create_user C salt c now base d))"
  "served (crud_meta ''user'' ''edit'' ''user'' (Some k) 200) False False False base d
     (answered (ep_update_user C salt k p base d))"
  "served (crud_meta ''user'' ''remove'' ''user'' (Some k) 200) False False False base d
     (answered (ep_delete_user k base d))"
  unfolding ep_create_user_def ep_update_user_def ep_delete_user_def
  by (rule api_write_served, rule api_effect.by_users, auto intro: user_step.intros)+

lemma depts_served:
  "served (crud_meta ''dept'' ''add'' ''dept'' None 201) False False False base d
     (answered (ep_create_dept c base d))"
  "served (crud_meta ''dept'' ''edit'' ''dept'' (Some k) 200) False False False base d
     (answered (ep_update_dept k p base d))"
  "served (crud_meta ''dept'' ''remove'' ''dept'' (Some k) 200) False False False base d
     (answered (ep_delete_dept k base d))"
  unfolding ep_create_dept_def ep_update_dept_def ep_delete_dept_def
  by (rule api_write_served, rule api_effect.by_depts, auto intro: dept_step.intros)+

lemma roles_served:
  "served (crud_meta ''role'' ''add'' ''role'' None 201) False False False base d
     (answered (ep_create_role c now base d))"
  "served (crud_meta ''role'' ''edit'' ''role'' (Some k) 200) False False False base d
     (answered (ep_update_role k p base d))"
  "served (crud_meta ''role'' ''remove'' ''role'' (Some k) 200) False False False base d
     (answered (ep_delete_role k base d))"
  unfolding ep_create_role_def ep_update_role_def ep_delete_role_def
  by (rule api_write_served, auto intro: api_effect.role_made api_effect.role_edited api_effect.role_gone)+

lemma menus_served:
  "served (crud_meta ''menu'' ''add'' ''menu'' None 201) False False False base d
     (answered (ep_create_menu mc base d))"
  "served (crud_meta ''menu'' ''edit'' ''menu'' (Some k) 200) False False False base d
     (answered (ep_update_menu k mp base d))"
  "served (crud_meta ''menu'' ''remove'' ''menu'' (Some k) 200) False False False base d
     (answered (ep_delete_menu k base d))"
  unfolding ep_create_menu_def ep_update_menu_def ep_delete_menu_def
  by (rule api_write_served, auto intro: api_effect.menu_made api_effect.menu_edited api_effect.menu_gone)+

lemma dicts_served:
  "served (crud_meta ''dict'' ''add'' ''dict_type'' None 201) False False False base d
     (answered (ep_create_dict_type tc base d))"
  "served (crud_meta ''dict'' ''edit'' ''dict_type'' (Some k) 200) False False False base d
     (answered (ep_update_dict_type k tp base d))"
  "served (crud_meta ''dict'' ''remove'' ''dict_type'' (Some k) 200) False False False base d
     (answered (ep_delete_dict_type k base d))"
  "served (crud_meta ''dict'' ''add'' ''dict_data'' None 201) False False False base d
     (answered (ep_create_dict_data dc base d))"
  "served (crud_meta ''dict'' ''edit'' ''dict_data'' (Some k) 200) False False False base d
     (answered (ep_update_dict_data k dp base d))"
  "served (crud_meta ''dict'' ''remove'' ''dict_data'' (Some k) 200) False False False base d
     (answered (ep_delete_dict_data k base d))"
  unfolding ep_create_dict_type_def ep_update_dict_type_def ep_delete_dict_type_def
    ep_create_dict_data_def ep_update_dict_data_def ep_delete_dict_data_def
  by (rule api_write_served, rule api_effect.by_dicts, auto intro: dict_step.intros)+

lemma posts_served:
  "served (crud_meta ''post'' ''export'' ''post'' None 200) False False False base d
     (answered (ep_export_posts txt base d))"
  "served (crud_meta ''post'' ''add'' ''post'' None 201) False False False base d
     (answered (ep_create_post pc now base d))"
  "served (crud_meta ''post'' ''edit'' ''post'' (Some k) 200) False False False base d
     (answered (ep_update_post k pp base d))"
  "served (crud_meta ''post'' ''remove'' ''post'' (Some k) 200) False False False base d
     (answered (ep_delete_post k base d))"
  "served (crud_meta ''file'' ''remove'' ''file'' (Some k) 200) False False False base d
     (answered (ep_delete_file k now base d))"
  "served (crud_meta ''online'' ''remove'' ''online_session'' (Some k) 204) False False False base d
     (answered (ep_force_logout k now base d))"
  unfolding ep_export_posts_def ep_create_post_def ep_update_post_def ep_delete_post_def ep_delete_file_def
    ep_force_logout_def
  by (rule api_write_served, rule api_effect.elsewhere, auto intro: aside_writes simp: map_sum_Inr_iff)+

lemma catalogues_served:
  "served (crud_meta ''config'' ''add'' ''config'' None 201) False False False base d
     (answered (ep_create_config cc base d))"
  "served (crud_meta ''config'' ''edit'' ''config'' (Some k) 200) False False False base d
     (answered (ep_update_config k cp base d))"
  "served (crud_meta ''config'' ''remove'' ''config'' (Some k) 200) False False False base d
     (answered (ep_delete_config k base d))"
  "served (crud_meta ''notice'' ''add'' ''notice'' None 201) False False False base d
     (answered (ep_create_notice nc base d))"
  "served (crud_meta ''notice'' ''edit'' ''notice'' (Some k) 200) False False False base d
     (answered (ep_update_notice k np base d))"
  "served (crud_meta ''notice'' ''remove'' ''notice'' (Some k) 200) False False False base d
     (answered (ep_delete_notice k base d))"
  unfolding ep_create_config_def ep_update_config_def ep_delete_config_def
    ep_create_notice_def ep_update_notice_def ep_delete_notice_def
  by (rule api_write_served, rule api_effect.elsewhere, rule aside_writes, assumption)+

lemma tasks_served:
  "served (crud_meta ''job'' ''add'' ''scheduled_task'' None 201) False False False base d
     (answered (ep_create_task reg lib kc base d))"
  "served (crud_meta ''job'' ''edit'' ''scheduled_task'' (Some k) 200) False False False base d
     (answered (ep_update_task reg lib k kp base d))"
  "served (crud_meta ''job'' ''remove'' ''scheduled_task'' (Some k) 204) False False False base d
     (answered (ep_delete_task k base d))"
  unfolding ep_create_task_def ep_update_task_def ep_delete_task_def
  by (rule api_write_served, rule api_effect.elsewhere, rule aside_writes, assumption)+

lemma bindings_served:
  "served (bind_meta ''user'' ''bind_roles'' k) True False False base d
     (answered (ep_bind_user_roles k ids base d))"
  "served (bind_meta ''user'' ''bind_posts'' k) True False False base d
     (answered (ep_bind_user_posts k ids base d))"
  "served (bind_meta ''role'' ''bind_menus'' k) True False False base d
     (answered (ep_bind_role_menus k ids base d))"
  "served (bind_meta ''role'' ''bind_depts'' k) True False False base d
     (answered (ep_bind_role_depts k ids base d))"
proof -
  have acts: "sys ''user'' ''bind_roles'' = ''system:user:bind_roles''"
    "sys ''user'' ''bind_posts'' = ''system:user:bind_posts''"
    "sys ''role'' ''bind_menus'' = ''system:role:bind_menus''"
    "sys ''role'' ''bind_depts'' = ''system:role:bind_depts''"
    by (simp_all add: sys_def)
  show "served (bind_meta ''user'' ''bind_roles'' k) True False False base d
     (answered (ep_bind_user_roles k ids base d))"
    unfolding ep_bind_user_roles_def set_user_roles_def acts [symmetric]
    by (rule binding_served, erule api_effect.bound_roles) simp
  show "served (bind_meta ''user'' ''bind_posts'' k) True False False base d
     (answered (ep_bind_user_posts k ids base d))"
    unfolding ep_bind_user_posts_def set_user_posts_def acts [symmetric]
    by (rule binding_served, rule api_effect.elsewhere, erule aside_writes)
  show "served (bind_meta ''role'' ''bind_menus'' k) True False False base d
     (answered (ep_bind_role_menus k ids base d))"
    unfolding ep_bind_role_menus_def set_role_menus_def acts [symmetric]
    by (rule binding_served, erule api_effect.bound_menus) simp
  show "served (bind_meta ''role'' ''bind_depts'' k) True False False base d
     (answered (ep_bind_role_depts k ids base d))"
    unfolding ep_bind_role_depts_def set_role_depts_def acts [symmetric]
    by (rule binding_served, erule api_effect.bound_depts) simp
qed

lemma import_served:
  "served (crud_meta ''post'' ''import'' ''post'' None 200) False (up \<noteq> [] \<and> mx < int (length up)) False base d
     (answered (ep_import_posts bk num L mx txt up now base d))"
proof -
  let ?P = "sys ''post'' ''import''"
  let ?m = "crud_meta ''post'' ''import'' ''post'' None 200"
  let ?h = "\<lambda>u. case read_within_limit up mx of Inl e \<Rightarrow> (Inl e, d, [])
      | Inr bytes \<Rightarrow> with_actor u d (\<lambda>i. audited_write i ?P ''post'' None no_id (Some \<circ> txt) 200
          (import_posts num L now (bk bytes)) d)"
  have chop: "chop upload_chunk up \<noteq> [] \<longleftrightarrow> up \<noteq> []" "concat (chop upload_chunk up) = up"
    by (subst chop.simps, simp add: upload_chunk_def) (simp add: chop_concat upload_chunk_def)
  have read: "read_within_limit up mx =
      (if up \<noteq> [] \<and> mx < int (length up) then Inl excel_too_large else Inr up)"
    unfolding read_within_limit_def read_pieces_iff chop by simp
  show ?thesis
  proof (rule guarded_call_cases [of d base ?P ?h])
    assume "allowed_caller d base ?P = None"
      and g: "guarded_call ?P base d ?h = (Inl (fst (refusal d base ?P)), d, snd (refusal d base ?P))"
    then show ?thesis
      using served.refused [of d base ?m False "up \<noteq> [] \<and> mx < int (length up)" False]
      unfolding ep_import_posts_def g by (simp add: answered_def crud_meta_def)
  next
    fix i u
    assume i: "allowed_caller d base ?P = Some i" "py_int (cu_id u) = Some i" and g: "guarded_call ?P base d ?h = ?h u"
    show ?thesis
    proof (cases "up \<noteq> [] \<and> mx < int (length up)")
      case True
      have "answered (?h u) = (Inl excel_too_large, d, [])" by (simp add: read True answered_def)
      with served.failed [of d base ?m i d False False True excel_too_large] i(1) True show ?thesis
        unfolding ep_import_posts_def g by (simp add: crud_meta_def)
    next
      case False
      have h: "?h u = audited_write i ?P ''post'' None no_id (Some \<circ> txt) 200 (import_posts num L now (bk up)) d"
        by (simp only: read False if_False sum.case with_actor_def i(2) option.case)
      show ?thesis
      proof (cases "import_posts num L now (bk up) d")
        case (Inl x)
        have "answered (?h u) = (Inl x, d, failure_events False i ?m x)"
          unfolding h by (cases x) (simp_all add: audited_write_def Inl answered_def failure_events_def crud_meta_def)
        with served.failed [of d base ?m i d False False False x] i(1) show ?thesis
          unfolding ep_import_posts_def g using False by (simp only: if_False) (simp add: crud_meta_def)
      next
        case (Inr p)
        obtain x e where p: "p = (x, e)" by (cases p)
        have eff: "api_effect (db_is_super_admin d i) d e"
          using import_effect Inr p by (intro api_effect.elsewhere) simp
        have "answered (?h u) = (Inr (), record_committed (rbac_event i (wm_action ?m) (wm_type ?m) None
            (Some (txt x)) ''success'' (wm_status ?m) None) e, [])"
          unfolding h by (simp add: audited_write_def Inr p answered_def crud_meta_def)
        with served.written [of d base ?m i e None False "up \<noteq> [] \<and> mx < int (length up)" False "Some (txt x)"] eff i(1)
        show ?thesis unfolding ep_import_posts_def g by (simp add: crud_meta_def)
      qed
    qed
  qed
qed

text \<open>A request whose operation has run already when the audited call begins.\<close>

lemma after_served:
  assumes "\<And>i. aside d (f i) \<and> (f i = d \<or> loose)" and "\<And>i x. r i = Inr x \<Longrightarrow> aside d (e i)"
  shows "served (crud_meta res act tt target st) False False loose base d
    (answered (guarded_call (sys res act) base d (\<lambda>u. with_actor u d (\<lambda>i.
       audited_write i (sys res act) tt target id_of dsp st (\<lambda>_. map_sum id (\<lambda>x. (x, e i)) (r i)) (f i)))))"
    (is "served ?m _ _ _ _ _ (answered (guarded_call ?P base d ?h))")
proof (rule guarded_call_cases [of d base ?P ?h])
  assume "allowed_caller d base ?P = None"
    and g: "guarded_call ?P base d ?h = (Inl (fst (refusal d base ?P)), d, snd (refusal d base ?P))"
  then show "served ?m False False loose base d (answered (guarded_call ?P base d ?h))"
    using served.refused [of d base ?m False False loose] unfolding g by (simp add: answered_def crud_meta_def)
next
  fix i u
  assume i: "allowed_caller d base ?P = Some i" "py_int (cu_id u) = Some i" and g: "guarded_call ?P base d ?h = ?h u"
  let ?aw = "audited_write i ?P tt target id_of dsp st (\<lambda>_. map_sum id (\<lambda>x. (x, e i)) (r i)) (f i)"
  have h: "?h u = ?aw" by (simp add: with_actor_def i(2))
  show "served ?m False False loose base d (answered (guarded_call ?P base d ?h))"
  proof (cases "r i")
    case (Inl x)
    have "answered ?aw = (Inl x, f i, failure_events False i ?m x)"
      by (cases x) (simp_all add: audited_write_def Inl answered_def failure_events_def crud_meta_def)
    then show ?thesis
      unfolding g h using served.failed [of d base ?m i "f i" loose False False x] i(1) assms(1)
      by (simp add: crud_meta_def)
  next
    case (Inr x)
    have "answered ?aw = (Inr (), record_committed (rbac_event i (wm_action ?m) (wm_type ?m)
        (case target of Some t \<Rightarrow> Some t | None \<Rightarrow> id_of x) (dsp x) ''success'' (wm_status ?m) None) (e i), [])"
      by (simp add: audited_write_def Inr answered_def crud_meta_def)
    moreover have "api_effect (db_is_super_admin d i) d (e i)"
      by (rule api_effect.elsewhere, rule assms(2), rule Inr)
    ultimately show ?thesis
      unfolding g h using i(1) by (simp only:) (rule served.written, simp_all add: crud_meta_def split: option.splits)
  qed
qed

lemma upload_served:
  "served (crud_meta ''file'' ''upload'' ''file'' None 201) False False False base d
     (answered (fst (ep_upload_file B F name ctype stream key base d s)))"
proof -
  let ?op = "\<lambda>i. file_upload B F (or_text name ''unnamed'') (or_text ctype ''application/octet-stream'') stream i key d s"
  have ep: "fst (ep_upload_file B F name ctype stream key base d s) =
      guarded_call (sys ''file'' ''upload'') base d (\<lambda>u. with_actor u d (\<lambda>i.
        audited_write i (sys ''file'' ''upload'') ''file'' None (Some \<circ> f_id) (Some \<circ> f_name) 201
          (\<lambda>_. map_sum id (\<lambda>row. (row, fst (snd (?op i)))) (fst (?op i))) d))"
    by (auto simp: ep_upload_file_def guarded_call_def with_actor_def split: prod.splits sum.splits option.splits)
  have "aside d (fst (snd (?op i)))" if "fst (?op i) = Inr row" for i row
    using upload_aside [of B F _ _ stream i key d s row] that by (metis prod.collapse)
  then show ?thesis unfolding ep by (intro after_served) auto
qed

lemma run_served:
  assumes "xe_registry env = job_registry"
  shows "served (crud_meta ''job'' ''run'' ''scheduled_task'' (Some k) 200) False False True base d
     (answered (ep_run_task env henv strikes k exec_id now done_at base d))"
proof -
  let ?op = "\<lambda>i. manual_run env henv strikes k (Some i) exec_id now done_at d"
  have ep: "ep_run_task env henv strikes k exec_id now done_at base d =
      guarded_call (sys ''job'' ''run'') base d (\<lambda>u. with_actor u d (\<lambda>i.
        audited_write i (sys ''job'' ''run'') ''scheduled_task'' (Some k) (Some \<circ> tl_id)
          (Some \<circ> log_status_text \<circ> tl_status) 200
          (\<lambda>_. map_sum id (\<lambda>l. (l, snd (?op i))) (fst (?op i))) (snd (?op i))))"
    by (simp add: ep_run_task_def case_prod_unfold)
  have "aside d (snd (?op i))" for i
    using run_aside [OF assms] by (metis prod.collapse)
  then show ?thesis
    unfolding ep by (intro after_served) auto
qed

theorem serve_served:
  "served (write_meta_of w) (is_binding w) (oversized E w) (is_run w) base d (serve E now s w base d)"
proof (cases w)
  case (RunTask strikes k exec_id done_at)
  have "xe_registry (exec_env_of E) = job_registry" by (simp add: exec_env_of_def)
  then show ?thesis unfolding RunTask served_defs by (rule run_served)
qed (simp only: served_defs,
    rule users_served depts_served roles_served menus_served dicts_served posts_served catalogues_served
      tasks_served bindings_served import_served upload_served)+

end
