(* ===== verification/ApiTheorems.thy ===== *)
theory ApiTheorems
  imports ApiEffects AuthTheorems
begin

text \<open>
  Properties of the whole writing API: who may write and what is audited, the invariant of the tables
  that decide about access, and that callers who are not super administrators grant nothing.
\<close>

section \<open>One invariant for the tables of the API\<close>

definition refs_ok :: "db \<Rightarrow> bool" where
  "refs_ok d \<longleftrightarrow> fst ` set (user_roles d) \<subseteq> u_id ` set (rows (users d)) \<and>
     snd ` set (user_roles d) \<subseteq> r_id ` set (rows (roles d)) \<and>
     fst ` set (role_menus d) \<subseteq> r_id ` set (rows (roles d)) \<and>
     fst ` set (role_depts d) \<subseteq> r_id ` set (rows (roles d))"

definition api_inv :: "int \<Rightarrow> db \<Rightarrow> bool" where
  "api_inv s d \<longleftrightarrow> sole_super d s \<and> dept_inv d \<and> menu_inv d \<and> no_button_parent d \<and>
     coded_ok r_id r_code (roles d) \<and> refs_ok d \<and> dict_ok d"

subsection \<open>Frames\<close>

lemma sole_super_same: "users e = users d \<Longrightarrow> sole_super e s = sole_super d s"
  by (simp add: sole_super_def one_super_def get_user_def)

lemma parent_missing_same: "depts e = depts d \<Longrightarrow> parent_missing e = parent_missing d"
  by (rule ext) (simp only: parent_missing_def get_dept_def)

lemma menu_fk_missing_same: "menus e = menus d \<Longrightarrow> menu_fk_missing e = menu_fk_missing d"
  by (rule ext) (simp only: menu_fk_missing_def get_menu_def)

lemma dept_inv_same:
  assumes "users e = users d" "depts e = depts d" "set (role_depts e) \<subseteq> set (role_depts d)" "dept_inv d"
  shows "dept_inv e"
  using assms(3,4) unfolding dept_inv_def parent_missing_same [OF assms(2)] assms(1,2) get_dept_def by blast

lemma menu_inv_same:
  assumes "menus e = menus d" "set (role_menus e) \<subseteq> set (role_menus d)" "menu_inv d"
  shows "menu_inv e"
  using assms(2,3) unfolding menu_inv_def menu_fk_missing_same [OF assms(1)] assms(1) get_menu_def by blast

lemma no_button_same: "menus e = menus d \<Longrightarrow> no_button_parent e = no_button_parent d"
  by (simp add: no_button_parent_def)

lemma dict_ok_same: "dict_types e = dict_types d \<Longrightarrow> dict_datas e = dict_datas d \<Longrightarrow> dict_ok e = dict_ok d"
  by (simp add: dict_ok_def)

lemma refs_ok_mono:
  assumes "refs_ok d" "u_id ` set (rows (users d)) \<subseteq> u_id ` set (rows (users e))"
    "r_id ` set (rows (roles d)) \<subseteq> r_id ` set (rows (roles e))"
    "set (user_roles e) \<subseteq> set (user_roles d)" "set (role_menus e) \<subseteq> set (role_menus d)"
    "set (role_depts e) \<subseteq> set (role_depts d)"
  shows "refs_ok e"
  using assms unfolding refs_ok_def by (meson image_mono order_trans)

lemma api_inv_same:
  assumes "api_inv s d" "users e = users d" "depts e = depts d" "roles e = roles d" "menus e = menus d"
    "user_roles e = user_roles d" "role_menus e = role_menus d" "role_depts e = role_depts d"
    "dict_types e = dict_types d" "dict_datas e = dict_datas d"
  shows "api_inv s e"
  using assms(1) dept_inv_same [OF assms(2,3), unfolded assms(8)] menu_inv_same [OF assms(5), unfolded assms(7)]
  unfolding api_inv_def sole_super_same [OF assms(2)] no_button_same [OF assms(5)] dict_ok_same [OF assms(9,10)]
    refs_ok_def assms(2,4,6,7,8) by simp

lemma aside_inv: "aside d e \<Longrightarrow> api_inv s d \<Longrightarrow> api_inv s e"
  by (erule api_inv_same) (simp_all add: aside_def)

lemma record_inv: "api_inv s d \<Longrightarrow> api_inv s (record_committed ev d)"
  by (erule api_inv_same) (simp_all add: record_committed_def)

subsection \<open>Users\<close>

text \<open>What a step of the user service leaves alone.\<close>

lemma user_step_frame:
  assumes "user_step d e"
  shows "depts e = depts d" "roles e = roles d" "menus e = menus d" "role_menus e = role_menus d"
    "role_depts e = role_depts d" "dict_types e = dict_types d" "dict_datas e = dict_datas d"
  using assms by (auto elim!: user_step.cases user_update_InrD user_delete_InrD dest!: user_create_InrD(2))

lemma user_step_dept_inv:
  assumes "user_step d e" "dept_inv d" "coded_ok u_id u_username (users d)"
  shows "dept_inv e"
proof -
  have fk: "\<not> parent_missing d (u_dept u)" if "u \<in> set (rows (users e))" for u
    using assms(1)
  proof cases
    case (create C salt c scope now x)
    note r = user_create_InrD [OF create]
    have "u = x \<or> u \<in> set (rows (users d))" using that by (auto simp: r(2))
    with r(4) assms(2) show ?thesis by (auto simp: r(1) new_user_def dept_inv_def)
  next
    case (update C salt i p scope x)
    then show ?thesis
    proof (rule user_update_InrD)
      fix v assume v: "get_user d i = Some v" "x = apply_user_update p (new_password_hash C salt p) v"
        "e = d\<lparr>users := update_where (\<lambda>y. u_id y = i) (apply_user_update p (new_password_hash C salt p)) (users d)\<rparr>"
        "\<not> parent_missing d (u_dept x)"
      have "w = v" if "w \<in> set (rows (users d))" "u_id w = i" for w
        using get_row_Some_iff [of u_id "users d" i w] v(1) that assms(3) by (simp add: coded_ok_def get_user_def)
      then have "u = x \<or> u \<in> set (rows (users d))"
        using \<open>u \<in> set (rows (users e))\<close> v(2) by (auto simp: v(3) mem_update_where split: if_splits)
      with v(4) assms(2) show ?thesis by (auto simp: dept_inv_def)
    qed
  next
    case (delete i scope)
    then have "u \<in> set (rows (users d))"
      by (rule user_delete_InrD) (use that in \<open>simp add: rows_delete_where\<close>)
    with assms(2) show ?thesis by (auto simp: dept_inv_def)
  qed
  from assms(2) fk show ?thesis
    unfolding dept_inv_def parent_missing_same [OF user_step_frame(1) [OF assms(1)]]
    by (simp add: get_dept_def user_step_frame [OF assms(1)])
qed

lemma user_step_refs:
  assumes "user_step d e" "refs_ok d"
  shows "refs_ok e"
  using assms(1)
proof cases
  case (create C salt c scope now x)
  from user_create_InrD(2) [OF this] show ?thesis by (intro refs_ok_mono [OF assms(2)]) auto
next
  case (update C salt i p scope x)
  then show ?thesis
  proof (rule user_update_InrD)
    let ?f = "apply_user_update p (new_password_hash C salt p)"
    assume e: "e = d\<lparr>users := update_where (\<lambda>y. u_id y = i) ?f (users d)\<rparr>"
    have "map u_id (rows (users e)) = map u_id (rows (users d))" by (simp add: e rows_update_where)
    then have "u_id ` set (rows (users e)) = u_id ` set (rows (users d))" by (metis list.set_map)
    then show ?thesis by (intro refs_ok_mono [OF assms(2)]) (simp_all add: e)
  qed
next
  case (delete i scope)
  then show ?thesis
  proof (rule user_delete_InrD)
    assume e: "e = d\<lparr>users := delete_where (\<lambda>y. u_id y = i) (users d),
       user_roles := filter (\<lambda>p. fst p \<noteq> i) (user_roles d),
       user_posts := filter (\<lambda>p. fst p \<noteq> i) (user_posts d),
       tokens := delete_where (\<lambda>t. rt_user t = i) (tokens d)\<rparr>"
    have "u_id ` set (rows (users e)) = u_id ` set (rows (users d)) - {i}" by (auto simp: e rows_delete_where)
    moreover have "fst ` set (user_roles e) = fst ` set (user_roles d) - {i}"
      "snd ` set (user_roles e) \<subseteq> snd ` set (user_roles d)" by (auto simp: e)
    ultimately show ?thesis using assms(2) unfolding refs_ok_def by (auto simp: e)
  qed
qed

lemma user_step_inv:
  assumes "user_step d e" "api_inv s d"
  shows "api_inv s e"
proof -
  note f = user_step_frame [OF assms(1)]
  have "sole_super e s" using sole_super_step [OF assms(1)] assms(2) by (simp add: api_inv_def)
  moreover have "dept_inv e" "refs_ok e"
    using user_step_dept_inv [OF assms(1)] user_step_refs [OF assms(1)] assms(2)
    unfolding api_inv_def sole_super_def by blast+
  moreover have "menu_inv e"
    by (rule menu_inv_same [OF f(3)]) (use assms(2) f(4) in \<open>simp_all add: api_inv_def\<close>)
  ultimately show ?thesis
    using assms(2) unfolding api_inv_def no_button_same [OF f(3)] dict_ok_same [OF f(6,7)] f(2) by blast
qed

subsection \<open>Departments\<close>

lemma dept_step_frame:
  assumes "dept_step d e"
  shows "roles e = roles d" "menus e = menus d" "role_menus e = role_menus d" "user_roles e = user_roles d"
    "set (role_depts e) \<subseteq> set (role_depts d)" "dict_types e = dict_types d" "dict_datas e = dict_datas d"
    and "users e = users d \<or>
      (\<exists>i. users e = update_where (\<lambda>u. u_dept u = Some i) (\<lambda>u. u\<lparr>u_dept := None\<rparr>) (users d))"
  using assms
  by (auto elim!: dept_step.cases dept_update_InrD dest!: dept_create_InrD(2) dept_delete_InrD(4)) blast

lemma sole_super_dept_cleared:
  assumes "sole_super d s"
    "users e = update_where (\<lambda>u. u_dept u = Some i) (\<lambda>u. u\<lparr>u_dept := None\<rparr>) (users d)"
  shows "sole_super e s"
proof -
  define f where "f u = (if u_dept u = Some i then u\<lparr>u_dept := None\<rparr> else u)" for u :: user
  have f: "u_id (f u) = u_id u" "u_username (f u) = u_username u" "u_super (f u) = u_super u"
    "u_status (f u) = u_status u" for u
    by (simp_all add: f_def)
  have rows: "rows (users e) = map f (rows (users d))" by (simp add: assms(2) rows_update_where f_def)
  have comp: "u_id \<circ> f = u_id" "u_username \<circ> f = u_username" "u_super \<circ> f = u_super"
    by (simp_all add: fun_eq_iff f)
  obtain u where u: "get_user d s = Some u" "u_super u" "u_status u = Active"
    and ok: "coded_ok u_id u_username (users d)" "one_super d"
    using assms(1) by (auto simp: sole_super_def)
  have tok: "table_ok u_id (users e)"
    unfolding assms(2) by (rule table_ok_update) (use ok in \<open>simp_all add: coded_ok_def\<close>)
  have "u \<in> set (rows (users d))" "u_id u = s"
    using u(1) get_row_SomeD unfolding get_user_def by metis+
  then have "get_user e s = Some (f u)"
    unfolding get_user_def get_row_Some_iff [OF tok] by (simp add: rows f)
  moreover have "coded_ok u_id u_username (users e)" using tok ok(1) by (simp add: coded_ok_def rows comp)
  moreover have "one_super e" using ok(2) by (simp add: one_super_def rows filter_map comp)
  ultimately show ?thesis using u f by (auto simp: sole_super_def)
qed

lemma dept_step_inv:
  assumes "dept_step d e" "api_inv s d"
  shows "api_inv s e"
proof -
  note f = dept_step_frame [OF assms(1)]
  have d: "sole_super d s" "dept_inv d" "refs_ok d" "menu_inv d" using assms(2) by (simp_all add: api_inv_def)
  have keys: "map u_id (rows (users e)) = map u_id (rows (users d))"
    using f(8) by (auto simp: rows_update_where)
  have "dept_inv e"
    using assms(1) d(2) by cases (auto dest: dept_create_inv dept_update_inv dept_delete_inv)
  moreover have "refs_ok e"
  proof (rule refs_ok_mono [OF d(3)])
    show "u_id ` set (rows (users d)) \<subseteq> u_id ` set (rows (users e))" using keys by (metis list.set_map order_refl)
  qed (use f in auto)
  moreover have "sole_super e s" using f(8) d(1) sole_super_dept_cleared sole_super_same by blast
  moreover have "menu_inv e" by (rule menu_inv_same [OF f(2) _ d(4)]) (simp add: f(3))
  ultimately show ?thesis
    using assms(2) unfolding api_inv_def no_button_same [OF f(2)] dict_ok_same [OF f(6,7)] f(1) by blast
qed

subsection \<open>Roles, menus, dictionaries and links\<close>

lemma role_write_inv:
  assumes "api_inv s d"
  shows "role_create_op rc b now d = Inr (r, e) \<Longrightarrow> api_inv s e"
    and "role_update_op i rp b d = Inr (r, e) \<Longrightarrow> api_inv s e"
    and "role_delete_op i d = Inr ((), e) \<Longrightarrow> api_inv s e"
proof -
  have ok: "coded_ok r_id r_code (roles d)" and refs: "refs_ok d" and dep: "dept_inv d" and men: "menu_inv d"
    using assms by (simp_all add: api_inv_def)
  note w = role_crud.write_ok [OF ok]
  {
    assume c: "role_create_op rc b now d = Inr (r, e)"
    note e = role_create_InrD(2) [OF c]
    have "refs_ok e" by (rule refs_ok_mono [OF refs]) (auto simp: e)
    moreover have "coded_ok r_id r_code (roles e)" using w c by blast
    moreover have "dept_inv e" by (rule dept_inv_same [of e d]) (simp_all add: e dep)
    moreover have "menu_inv e" by (rule menu_inv_same [of e d]) (simp_all add: e men)
    moreover have "sole_super e s = sole_super d s" "no_button_parent e = no_button_parent d" "dict_ok e = dict_ok d"
      by (rule sole_super_same no_button_same dict_ok_same, simp_all add: e)+
    ultimately show "api_inv s e" using assms by (simp add: api_inv_def)
  }
  {
    assume u: "role_update_op i rp b d = Inr (r, e)"
    then have e': "e = d\<lparr>roles := update_where (\<lambda>y. r_id y = i) (apply_role_update rp) (roles d)\<rparr>"
      by (rule role_update_InrD)
    have ids: "map r_id (rows (roles e)) = map r_id (rows (roles d))"
      by (simp add: e' rows_update_where apply_role_update_def)
    have "refs_ok e"
    proof (rule refs_ok_mono [OF refs])
      show "r_id ` set (rows (roles d)) \<subseteq> r_id ` set (rows (roles e))" using ids by (metis list.set_map order_refl)
    qed (simp_all add: e')
    moreover have "coded_ok r_id r_code (roles e)" using w u by blast
    moreover have "dept_inv e" by (rule dept_inv_same [of e d]) (simp_all add: e' dep)
    moreover have "menu_inv e" by (rule menu_inv_same [of e d]) (simp_all add: e' men)
    moreover have "sole_super e s = sole_super d s" "no_button_parent e = no_button_parent d" "dict_ok e = dict_ok d"
      by (rule sole_super_same no_button_same dict_ok_same, simp_all add: e')+
    ultimately show "api_inv s e" using assms by (simp add: api_inv_def)
  }
  assume g: "role_delete_op i d = Inr ((), e)"
  note e = role_delete_InrD(2) [OF g]
  have ids: "r_id ` set (rows (roles e)) = r_id ` set (rows (roles d)) - {i}" by (auto simp: e rows_delete_where)
  have lk: "snd ` set (user_roles e) = snd ` set (user_roles d) - {i}"
    "fst ` set (role_menus e) = fst ` set (role_menus d) - {i}"
    "fst ` set (role_depts e) = fst ` set (role_depts d) - {i}"
    "fst ` set (user_roles e) \<subseteq> fst ` set (user_roles d)" "users e = users d"
    by (auto simp: e)
  have "refs_ok e"
    unfolding refs_ok_def ids lk(1,2,3,5)
    by (intro conjI Diff_mono order_refl order_trans [OF lk(4)]) (use refs in \<open>simp_all add: refs_ok_def\<close>)
  moreover have "coded_ok r_id r_code (roles e)" using w g by blast
  moreover have "dept_inv e" by (rule dept_inv_same [of e d]) (auto simp: e dep)
  moreover have "menu_inv e" by (rule menu_inv_same [of e d]) (auto simp: e men)
  moreover have "sole_super e s = sole_super d s" "no_button_parent e = no_button_parent d" "dict_ok e = dict_ok d"
    by (rule sole_super_same no_button_same dict_ok_same, simp_all add: e)+
  ultimately show "api_inv s e" using assms by (simp add: api_inv_def)
qed

lemma menu_step_frame:
  assumes "menu_step d e"
  shows "users e = users d" "depts e = depts d" "roles e = roles d" "user_roles e = user_roles d"
    "role_depts e = role_depts d" "set (role_menus e) \<subseteq> set (role_menus d)"
    "dict_types e = dict_types d" "dict_datas e = dict_datas d"
  using assms
  by (auto elim!: menu_step.cases menu_update_InrD dest!: menu_create_InrD(2) menu_delete_InrD(3))

lemma menu_step_inv:
  assumes "menu_step d e" "api_inv s d"
  shows "api_inv s e"
proof -
  note f = menu_step_frame [OF assms(1)]
  have d: "menu_inv d" "no_button_parent d" "dept_inv d" "refs_ok d" using assms(2) by (simp_all add: api_inv_def)
  have "menu_inv e \<and> no_button_parent e"
    using menu_tree.steps_ok [of d e] d assms(1) by blast
  moreover have "dept_inv e" by (rule dept_inv_same [OF f(1,2) _ d(3)]) (simp add: f(5))
  moreover have "refs_ok e" by (rule refs_ok_mono [OF d(4)]) (simp_all add: f)
  ultimately show ?thesis
    using assms(2) unfolding api_inv_def sole_super_same [OF f(1)] dict_ok_same [OF f(7,8)] f(3) by blast
qed

lemma dict_step_frame:
  assumes "dict_step d e"
  shows "users e = users d" "depts e = depts d" "roles e = roles d" "menus e = menus d"
    "user_roles e = user_roles d" "role_depts e = role_depts d" "role_menus e = role_menus d"
  using assms
  by (auto elim!: dict_step.cases dict_update_type_InrD dict_create_data_InrD dict_update_data_InrD
      dest!: dict_create_type_InrD(2) dict_delete_type_InrD(3)
      simp: clear_other_defaults_def dict_delete_data_def dict_repo_delete_data_def split: if_splits)

lemma dict_step_inv:
  assumes "dict_step d e" "api_inv s d"
  shows "api_inv s e"
proof -
  note f = dict_step_frame [OF assms(1)]
  have d: "menu_inv d" "dept_inv d" "dict_ok d" using assms(2) by (simp_all add: api_inv_def)
  have "dict_ok e" by (rule dict_step_ok [OF assms(1) d(3)])
  moreover have "dept_inv e" by (rule dept_inv_same [OF f(1,2) _ d(2)]) (simp add: f(6))
  moreover have "menu_inv e" by (rule menu_inv_same [OF f(4) _ d(1)]) (simp add: f(7))
  ultimately show ?thesis
    using assms(2) unfolding api_inv_def sole_super_same [OF f(1)] no_button_same [OF f(4)] refs_ok_def f by blast
qed

lemma replace_links_sets:
  "fst ` set (replace_links a bs ls) \<subseteq> insert a (fst ` set ls)"
  "snd ` set (replace_links a bs ls) \<subseteq> set bs \<union> snd ` set ls"
  by (auto simp: replace_links_def)

lemma more_links:
  "A' \<subseteq> insert i A \<Longrightarrow> i \<in> U \<Longrightarrow> A \<subseteq> U \<Longrightarrow> A' \<subseteq> U" "B' \<subseteq> I \<union> B \<Longrightarrow> I \<subseteq> U \<Longrightarrow> B \<subseteq> U \<Longrightarrow> B' \<subseteq> U"
  by blast+

lemma binding_inv:
  assumes "api_inv s d"
  shows "set_user_roles_body i ids op scope d = Inr (x, e) \<Longrightarrow> api_inv s e"
    and "set_role_menus_body i ids op d = Inr (x, e) \<Longrightarrow> api_inv s e"
    and "set_role_depts_body i ids op d = Inr (x, e) \<Longrightarrow> api_inv s e"
proof -
  have d: "menu_inv d" "dept_inv d" "refs_ok d" using assms by (simp_all add: api_inv_def)
  {
    assume "set_user_roles_body i ids op scope d = Inr (x, e)"
    note b = binding_bodies(1) [OF this]
    then have e: "e = d\<lparr>user_roles := replace_links i (dedupe ids) (user_roles d)\<rparr>"
      by (simp add: repo_set_user_roles_def)
    have "i \<in> u_id ` set (rows (users d))" "set ids \<subseteq> r_id ` set (rows (roles d))"
      using b unfolding get_user_def get_role_def get_row_exists_iff by auto
    moreover have "fst ` set (user_roles e) \<subseteq> insert i (fst ` set (user_roles d))"
      "snd ` set (user_roles e) \<subseteq> set ids \<union> snd ` set (user_roles d)"
      using replace_links_sets [of i "dedupe ids" "user_roles d"] by (simp_all add: e)
    moreover have same: "users e = users d" "roles e = roles d" "role_menus e = role_menus d"
      "role_depts e = role_depts d" by (simp_all add: e)
    ultimately have "refs_ok e"
      using d(3) unfolding refs_ok_def same
      by (elim conjE, intro conjI) (erule (2) more_links(1), erule (2) more_links(2), assumption+)
    moreover have "dept_inv e" by (rule dept_inv_same [of e d]) (simp_all add: e d)
    moreover have "menu_inv e" by (rule menu_inv_same [of e d]) (simp_all add: e d)
    moreover have "sole_super e s = sole_super d s" "no_button_parent e = no_button_parent d" "dict_ok e = dict_ok d"
      by (rule sole_super_same no_button_same dict_ok_same, simp_all add: e)+
    ultimately show "api_inv s e" using assms by (simp add: api_inv_def e)
  }
  {
    assume "set_role_menus_body i ids op d = Inr (x, e)"
    note b = binding_bodies(2) [OF this]
    then have e: "e = d\<lparr>role_menus := replace_links i (dedupe ids) (role_menus d)\<rparr>"
      by (simp add: repo_set_role_menus_def)
    have "i \<in> r_id ` set (rows (roles d))" using b unfolding get_role_def get_row_exists_iff by blast
    moreover have "fst ` set (role_menus e) \<subseteq> insert i (fst ` set (role_menus d))"
      using replace_links_sets(1) [of i "dedupe ids" "role_menus d"] by (simp add: e)
    moreover have refs_same: "users e = users d" "roles e = roles d" "user_roles e = user_roles d"
      "role_depts e = role_depts d" by (simp_all add: e)
    ultimately have "refs_ok e"
      using d(3) unfolding refs_ok_def refs_same
      by (elim conjE, intro conjI) (assumption | erule (2) more_links(1))+
    moreover have "dept_inv e" by (rule dept_inv_same [of e d]) (simp_all add: e d)
    moreover have same: "menus e = menus d" by (simp add: e)
    have "menu_inv e"
      unfolding menu_inv_def menu_fk_missing_same [OF same] same
    proof (intro conjI ballI)
      fix p assume "p \<in> set (role_menus e)"
      then have "snd p \<in> set ids \<or> p \<in> set (role_menus d)" by (auto simp: e replace_links_def)
      then have "get_menu d (snd p) \<noteq> None" using b d(1) by (auto simp: menu_inv_def)
      then show "get_menu e (snd p) \<noteq> None" by (simp add: get_menu_def same)
    qed (use d(1) in \<open>auto simp: menu_inv_def\<close>)
    moreover have "sole_super e s = sole_super d s" "no_button_parent e = no_button_parent d" "dict_ok e = dict_ok d"
      by (rule sole_super_same no_button_same dict_ok_same, simp_all add: e)+
    ultimately show "api_inv s e" using assms by (simp add: api_inv_def e)
  }
  assume "set_role_depts_body i ids op d = Inr (x, e)"
  note b = binding_bodies(3) [OF this]
  then have e: "e = d\<lparr>role_depts := replace_links i (dedupe ids) (role_depts d)\<rparr>"
    by (simp add: repo_set_role_depts_def)
  have "i \<in> r_id ` set (rows (roles d))" using b unfolding get_role_def get_row_exists_iff by blast
  moreover have "fst ` set (role_depts e) \<subseteq> insert i (fst ` set (role_depts d))"
      using replace_links_sets(1) [of i "dedupe ids" "role_depts d"] by (simp add: e)
    moreover have refs_same: "users e = users d" "roles e = roles d" "user_roles e = user_roles d"
      "role_menus e = role_menus d" by (simp_all add: e)
    ultimately have "refs_ok e"
      using d(3) unfolding refs_ok_def refs_same
      by (elim conjE, intro conjI) (assumption | erule (2) more_links(1))+
  moreover have same: "depts e = depts d" "users e = users d" by (simp_all add: e)
  have "dept_inv e"
    unfolding dept_inv_def parent_missing_same [OF same(1)] same
  proof (intro conjI)
    show "\<forall>p \<in> set (role_depts e). get_dept e (snd p) \<noteq> None"
    proof
      fix p assume "p \<in> set (role_depts e)"
      then have "snd p \<in> set ids \<or> p \<in> set (role_depts d)" by (auto simp: e replace_links_def)
      then have "get_dept d (snd p) \<noteq> None" using b d(2) by (auto simp: dept_inv_def)
      then show "get_dept e (snd p) \<noteq> None" by (simp add: get_dept_def same)
    qed
  qed (use d(2) in \<open>auto simp: dept_inv_def\<close>)
  moreover have "menu_inv e" by (rule menu_inv_same [of e d]) (simp_all add: e d)
  moreover have "sole_super e s = sole_super d s" "no_button_parent e = no_button_parent d" "dict_ok e = dict_ok d"
    by (rule sole_super_same no_button_same dict_ok_same, simp_all add: e)+
  ultimately show "api_inv s e" using assms by (simp add: api_inv_def e)
qed

lemma api_effect_inv: "api_effect b d e \<Longrightarrow> api_inv s d \<Longrightarrow> api_inv s e"
  by (induction rule: api_effect.induct)
    (rule user_step_inv dept_step_inv role_write_inv menu_step_inv dict_step_inv binding_inv aside_inv;
      (assumption | rule menu_step.intros, assumption))+

lemma grants_within_record [simp]: "grants_within (record_committed ev e) d = grants_within e d"
  by (simp add: grants_within_def record_committed_def super_ids_def)

lemma effect_grants_nothing:
  assumes "api_effect False d e" "links_ok d"
  shows "grants_within e d"
  using assms(1)
proof cases
  case by_users
  then show ?thesis by cases (auto intro: user_writes_within)
next
  case by_depts
  then show ?thesis by (rule dept_write_within)
next
  case by_dicts
  from dict_step_frame [OF this] show ?thesis by (intro grants_within_same) (simp_all add: super_ids_def)
next
  case elsewhere
  then show ?thesis by (intro grants_within_same) (simp_all add: aside_def super_ids_def)
next
  case (role_made rc now r)
  then show ?thesis by (rule role_writes_within(1) [OF assms(2)])
next
  case (role_edited i rp r)
  then show ?thesis by (rule role_writes_within(2) [OF assms(2)])
next
  case (role_gone i)
  then show ?thesis by (rule role_writes_within(3) [OF assms(2)])
next
  case (menu_made mc m)
  then show ?thesis by (rule menu_writes_within(1) [OF assms(2)])
next
  case (menu_edited i mp m)
  then show ?thesis by (rule menu_writes_within(2) [OF assms(2)])
next
  case (menu_gone i)
  then show ?thesis by (rule menu_writes_within(3) [OF assms(2)])
qed (use binding_bodies in blast)+

lemma api_inv_links: "api_inv s d \<Longrightarrow> links_ok d"
proof -
  assume inv: "api_inv s d"
  then have ok: "table_ok r_id (roles d)" "table_ok m_id (menus d)" and refs: "refs_ok d" and men: "menu_inv d"
    by (simp_all add: api_inv_def coded_ok_def menu_inv_def)
  have "snd p < seq (roles d)" if "p \<in> set (user_roles d)" for p
  proof -
    have "snd p \<in> r_id ` set (rows (roles d))" using refs that unfolding refs_ok_def by blast
    with ok(1) show ?thesis by (auto simp: table_ok_def)
  qed
  moreover have "snd p < seq (menus d)" if "p \<in> set (role_menus d)" for p
    using men that ok(2) get_menu_SomeD by (fastforce simp: menu_inv_def table_ok_def)
  ultimately show "links_ok d" by (simp add: links_ok_def)
qed

section \<open>Properties\<close>

text \<open>
  One request of the writing API by some caller; with \<open>False\<close> the caller is not a super administrator
  at that moment.
\<close>

definition api_step :: "('t, 's) api_env \<Rightarrow> bool \<Rightarrow> db \<Rightarrow> db \<Rightarrow> bool" where
  "api_step E supers d d' \<longleftrightarrow> (\<exists>now s w base r evs. serve E now s w base d = (r, d', evs) \<and>
     (supers \<or> (\<forall>i. py_int (cu_id base) = Some i \<longrightarrow> \<not> db_is_super_admin d i)))"

lemma allowed_caller_id: "allowed_caller d base perm = Some i \<Longrightarrow> py_int (cu_id base) = Some i"
  by (simp add: allowed_caller_def split: option.splits if_splits)

lemma api_step_cases:
  assumes "api_step E supers d d'"
  obtains (nothing) "aside d d'"
  | (something) b ev e where "b \<Longrightarrow> supers" "api_effect b d e" "d' = record_committed ev e"
proof -
  from assms obtain now s w base r evs where sv: "serve E now s w base d = (r, d', evs)"
    and lim: "supers \<or> (\<forall>i. py_int (cu_id base) = Some i \<longrightarrow> \<not> db_is_super_admin d i)"
    by (auto simp: api_step_def)
  from serve_served [of w E base d now s] sv
  have "served (write_meta_of w) (is_binding w) (oversized E w) (is_run w) base d (r, d', evs)" by simp
  then show thesis
  proof cases
    case (written i e tgt dsp)
    then have "db_is_super_admin d i \<Longrightarrow> supers" using lim allowed_caller_id by blast
    with written show thesis by (intro something) auto
  next
    case refused
    then have "aside d d'" by simp
    then show thesis by (rule nothing)
  next
    case failed
    from failed(4) show thesis by (rule nothing)
  qed
qed


lemma api_steps_inv:
  assumes "(api_step E True)\<^sup>*\<^sup>* d d'" and "api_inv s d"
  shows "api_inv s d'"
proof -
  have step: "api_inv s f" if "api_step E True e f" "api_inv s e" for e f
    using that(1)
  proof (rule api_step_cases)
    assume "aside e f"
    then show ?thesis using that(2) by (rule aside_inv)
  next
    fix b ev g assume "api_effect b e g" "f = record_committed ev g"
    with that(2) show ?thesis using api_effect_inv record_inv by blast
  qed
  from assms show ?thesis
    by (induction rule: rtranclp_induct) (auto intro: step)
qed

text \<open>
  Whatever sequence of requests any callers make: the super administrator stays active and alone,
  accounts and codes stay unique, every department, parent, role, menu and user that a row or a link
  names exists, no menu hangs below a button, and the dictionaries stay consistent.
\<close>

theorem api_keeps_tables:
  assumes "(api_step E True)\<^sup>*\<^sup>* d d'" and "api_inv s d"
  shows "api_inv s d' \<and> db_is_super_admin d' s"
  using api_steps_inv [OF assms] by (auto simp: api_inv_def sole_super_def db_is_super_admin_def)

text \<open>
  C2 Whatever sequence of requests callers make who are not super administrators at the time: no user
  has a permission afterwards that the same user did not have before, and nobody has become a super
  administrator.
\<close>

theorem api_grants_nothing_to_delegates:
  assumes "(api_step E False)\<^sup>*\<^sup>* d d'" and "api_inv s d"
  shows "list_perms_for_user d' uid \<subseteq> list_perms_for_user d uid \<and> super_ids d' \<subseteq> super_ids d"
proof -
  have step: "grants_within f e" if "api_step E False e f" "links_ok e" for e f
    using that(1)
  proof (rule api_step_cases)
    assume "aside e f"
    then show ?thesis by (intro grants_within_same) (simp_all add: aside_def super_ids_def)
  next
    fix b ev g assume h: "b \<Longrightarrow> False" "api_effect b e g" "f = record_committed ev g"
    then have "api_effect False e g" by (cases b) auto
    with h(3) that(2) show ?thesis using effect_grants_nothing by simp
  qed
  from assms(1) have "links_ok d' \<and> list_perms_for_user d' uid \<subseteq> list_perms_for_user d uid \<and>
      super_ids d' \<subseteq> super_ids d"
  proof (induction rule: rtranclp_induct)
    case base
    then show ?case using api_inv_links [OF assms(2)] by simp
  next
    case (step e f)
    then have w: "grants_within f e" using \<open>\<And>f e. api_step E False e f \<Longrightarrow> links_ok e \<Longrightarrow> grants_within f e\<close> by blast
    then show ?case
      using grants_within_perms [OF w, of uid] grants_within_links [OF w] step by (auto simp: grants_within_def)
  qed
  then show ?thesis by simp
qed

subsection \<open>A concrete run\<close>

text \<open>User 2 of \<open>demo_staffed\<close>, who may edit users, asks for the account 2 and for a role.\<close>

definition demo_exec :: "unit exec_env" where
  "demo_exec = \<lparr>xe_registry = job_registry,
     xe_cron = \<lparr>tz_ok = (\<lambda>z. True), make_trigger = (\<lambda>xs z. None), fire_after = (\<lambda>t n. None)\<rparr>,
     xe_worker = [], xe_millis = (\<lambda>n. 0), xe_offline_text = (\<lambda>k. []), xe_timeout_text = (\<lambda>n. [])\<rparr>"

definition demo_api :: "(unit, local_fs) api_env" where
  "demo_api = \<lparr>ae_crypto = demo_crypto, ae_cron = xe_cron demo_exec, ae_exec = demo_exec,
     ae_handler = \<lparr>he_now = 0, he_validation_text = []\<rparr>,
     ae_open = (\<lambda>b. \<lparr>xf_zip = None, xf_book = BadWorkbook\<rparr>), ae_num = (\<lambda>t. None),
     ae_limits = \<lparr>xl_rows = 10, xl_bytes = 10, xl_entries = 10, xl_ratio = 10\<rparr>, ae_max_excel = 10,
     ae_import_text = (\<lambda>x. []), ae_export_text = (\<lambda>x. []),
     ae_files = \<lparr>fc_max = 10, fc_allowed = [], fc_backend = ''local''\<rparr>, ae_store = local_storage (\<lambda>x. x) []\<rparr>"

definition demo_helper :: current_user where
  "demo_helper = plain_user ''2''"

lemma demo_update_served:
  obtains d' where "serve demo_api 0 (\<lambda>p. None) (UpdateUser [] 2 demo_patch) demo_helper demo_staffed = (Inr (), d', [])"
proof -
  have "case serve demo_api 0 (\<lambda>p. None) (UpdateUser [] 2 demo_patch) demo_helper demo_staffed of
      (Inr x, d', []) \<Rightarrow> True | _ \<Rightarrow> False"
    by code_simp
  with that show thesis by (auto split: prod.splits sum.splits list.splits)
qed

lemma demo_not_super: "\<not> db_is_super_admin demo_staffed 2" and demo_helper_id: "py_int (cu_id demo_helper) = Some 2"
  by code_simp+

lemma demo_api_step:
  obtains d' where "api_step demo_api b demo_staffed d'"
  using demo_update_served demo_not_super demo_helper_id unfolding api_step_def by (metis option.inject)

lemma demo_staffed_inv: "api_inv 1 demo_staffed"
proof -
  have "dept_inv demo_staffed" "menu_inv demo_staffed" "no_button_parent demo_staffed" "refs_ok demo_staffed"
    "coded_ok r_id r_code (roles demo_staffed)" "dict_ok demo_staffed"
    by (simp_all add: dept_inv_def menu_inv_def no_button_parent_def refs_ok_def dict_ok_def one_default_def
        coded_ok_def table_ok_def demo_staffed_def empty_db_def empty_table_def demo_dept_def demo_staff_def
        demo_root_def demo_role_def demo_menu_def parent_missing_def menu_fk_missing_def get_dept_def
        get_menu_def get_row_def)
  with demo_staffed_sole show ?thesis by (simp add: api_inv_def)
qed


theorem api_keeps_tables_witness:
  "\<exists>d'. api_step demo_api True demo_staffed d' \<and> api_inv 1 d' \<and> db_is_super_admin d' 1"
proof -
  obtain d' where s: "api_step demo_api True demo_staffed d'" by (rule demo_api_step)
  with api_keeps_tables [OF r_into_rtranclp [of "api_step demo_api True"] demo_staffed_inv, OF s] show ?thesis by blast
qed

theorem api_grants_nothing_to_delegates_witness:
  "\<exists>d'. api_step demo_api False demo_staffed d' \<and>
     list_perms_for_user d' 2 \<subseteq> list_perms_for_user demo_staffed 2 \<and> super_ids d' \<subseteq> super_ids demo_staffed"
proof -
  obtain d' where s: "api_step demo_api False demo_staffed d'" by (rule demo_api_step)
  with api_grants_nothing_to_delegates [OF r_into_rtranclp [of "api_step demo_api False"] demo_staffed_inv, OF s, of 2]
  show ?thesis by blast
qed

end
