(* ===== verification/Routes.thy ===== *)
theory Routes
  imports Permissions AuthMiddleware Seed
begin

text \<open>
  The routing table: every endpoint that a router registers, with its path template and its guard, in
  the order in which \<^verbatim>\<open>create_app\<close> of \<^verbatim>\<open>main.py\<close> includes the routers.  A path is the list of its
  segments; FastAPI's dispatch is a parameter, of which the theorems use that the first route whose
  method and template match is taken (\<open>routes_in_order\<close>).
\<close>

datatype http_method = Get | Post | Put | Patch | Delete

datatype segment = Lit string | IntPar | UuidPar | TextPar

datatype access = Open | SignedIn | Guarded string

record endpoint =
  en_name :: string
  en_method :: http_method
  en_path :: "segment list"
  en_access :: access

definition endpoint :: "string \<Rightarrow> http_method \<Rightarrow> segment list \<Rightarrow> access \<Rightarrow> endpoint" where
  "endpoint name meth path acc = \<lparr>en_name = name, en_method = meth, en_path = path, en_access = acc\<rparr>"

definition api :: "segment list \<Rightarrow> segment list" where
  "api path = Lit ''api'' # Lit ''v1'' # path"

section \<open>The routers\<close>

definition health_routes :: "endpoint list" where
  "health_routes =
    [endpoint ''healthz'' Get ([Lit ''healthz'']) (Open),
     endpoint ''startupz'' Get ([Lit ''startupz'']) (Open),
     endpoint ''readyz'' Get ([Lit ''readyz'']) (Open)]"

definition auth_routes :: "endpoint list" where
  "auth_routes =
    [endpoint ''login_endpoint'' Post (api [Lit ''auth'', Lit ''login'']) (Open),
     endpoint ''captcha_endpoint'' Get (api [Lit ''auth'', Lit ''captcha'']) (Open),
     endpoint ''refresh_endpoint'' Post (api [Lit ''auth'', Lit ''refresh'']) (Open),
     endpoint ''logout_endpoint'' Post (api [Lit ''auth'', Lit ''logout'']) (Open),
     endpoint ''change_password_endpoint'' Post (api [Lit ''auth'', Lit ''change-password'']) (SignedIn)]"

definition user_routes :: "endpoint list" where
  "user_routes =
    [endpoint ''list_users'' Get (api [Lit ''users'']) (Guarded (sys ''user'' ''list'')),
     endpoint ''get_user'' Get (api [Lit ''users'', IntPar]) (Guarded (sys ''user'' ''query'')),
     endpoint ''create_user'' Post (api [Lit ''users'']) (Guarded (sys ''user'' ''add'')),
     endpoint ''update_user'' Patch (api [Lit ''users'', IntPar]) (Guarded (sys ''user'' ''edit'')),
     endpoint ''delete_user'' Delete (api [Lit ''users'', IntPar]) (Guarded (sys ''user'' ''remove''))]"

definition dept_routes :: "endpoint list" where
  "dept_routes =
    [endpoint ''list_depts'' Get (api [Lit ''depts'']) (Guarded (sys ''dept'' ''list'')),
     endpoint ''get_dept'' Get (api [Lit ''depts'', IntPar]) (Guarded (sys ''dept'' ''query'')),
     endpoint ''create_dept'' Post (api [Lit ''depts'']) (Guarded (sys ''dept'' ''add'')),
     endpoint ''update_dept'' Patch (api [Lit ''depts'', IntPar]) (Guarded (sys ''dept'' ''edit'')),
     endpoint ''delete_dept'' Delete (api [Lit ''depts'', IntPar]) (Guarded (sys ''dept'' ''remove''))]"

definition role_routes :: "endpoint list" where
  "role_routes =
    [endpoint ''list_roles'' Get (api [Lit ''roles'']) (Guarded (sys ''role'' ''list'')),
     endpoint ''get_role'' Get (api [Lit ''roles'', IntPar]) (Guarded (sys ''role'' ''query'')),
     endpoint ''create_role'' Post (api [Lit ''roles'']) (Guarded (sys ''role'' ''add'')),
     endpoint ''update_role'' Patch (api [Lit ''roles'', IntPar]) (Guarded (sys ''role'' ''edit'')),
     endpoint ''delete_role'' Delete (api [Lit ''roles'', IntPar]) (Guarded (sys ''role'' ''remove''))]"

definition rbac_routes :: "endpoint list" where
  "rbac_routes =
    [endpoint ''get_info'' Get (api [Lit ''auth'', Lit ''user-info'']) (SignedIn),
     endpoint ''get_routers'' Get (api [Lit ''menus'', Lit ''routers'']) (SignedIn)]"

definition menu_routes :: "endpoint list" where
  "menu_routes =
    [endpoint ''list_menus'' Get (api [Lit ''menus'']) (Guarded (sys ''menu'' ''list'')),
     endpoint ''get_menu'' Get (api [Lit ''menus'', IntPar]) (Guarded (sys ''menu'' ''query'')),
     endpoint ''create_menu'' Post (api [Lit ''menus'']) (Guarded (sys ''menu'' ''add'')),
     endpoint ''update_menu'' Patch (api [Lit ''menus'', IntPar]) (Guarded (sys ''menu'' ''edit'')),
     endpoint ''delete_menu'' Delete (api [Lit ''menus'', IntPar]) (Guarded (sys ''menu'' ''remove''))]"

definition post_routes :: "endpoint list" where
  "post_routes =
    [endpoint ''list_posts'' Get (api [Lit ''posts'']) (Guarded (sys ''post'' ''list'')),
     endpoint ''import_posts'' Post (api [Lit ''posts'', Lit ''import'']) (Guarded (sys ''post'' ''import'')),
     endpoint ''export_posts'' Get (api [Lit ''posts'', Lit ''export'']) (Guarded (sys ''post'' ''export'')),
     endpoint ''get_post'' Get (api [Lit ''posts'', IntPar]) (Guarded (sys ''post'' ''query'')),
     endpoint ''create_post'' Post (api [Lit ''posts'']) (Guarded (sys ''post'' ''add'')),
     endpoint ''update_post'' Patch (api [Lit ''posts'', IntPar]) (Guarded (sys ''post'' ''edit'')),
     endpoint ''delete_post'' Delete (api [Lit ''posts'', IntPar]) (Guarded (sys ''post'' ''remove''))]"

definition file_routes :: "endpoint list" where
  "file_routes =
    [endpoint ''list_files'' Get (api [Lit ''files'']) (Guarded (sys ''file'' ''list'')),
     endpoint ''get_file'' Get (api [Lit ''files'', IntPar]) (Guarded (sys ''file'' ''query'')),
     endpoint ''upload_file'' Post (api [Lit ''files'']) (Guarded (sys ''file'' ''upload'')),
     endpoint ''download_file'' Get (api [Lit ''files'', IntPar, Lit ''download'']) (Guarded (sys ''file'' ''download'')),
     endpoint ''delete_file'' Delete (api [Lit ''files'', IntPar]) (Guarded (sys ''file'' ''remove''))]"

definition dict_routes :: "endpoint list" where
  "dict_routes =
    [endpoint ''list_dict_types'' Get (api [Lit ''dict'', Lit ''types'']) (Guarded (sys ''dict'' ''list'')),
     endpoint ''get_dict_type'' Get (api [Lit ''dict'', Lit ''types'', IntPar]) (Guarded (sys ''dict'' ''query'')),
     endpoint ''create_dict_type'' Post (api [Lit ''dict'', Lit ''types'']) (Guarded (sys ''dict'' ''add'')),
     endpoint ''update_dict_type'' Patch (api [Lit ''dict'', Lit ''types'', IntPar]) (Guarded (sys ''dict'' ''edit'')),
     endpoint ''delete_dict_type'' Delete (api [Lit ''dict'', Lit ''types'', IntPar]) (Guarded (sys ''dict'' ''remove'')),
     endpoint ''list_dict_data'' Get (api [Lit ''dict'', Lit ''data'']) (Guarded (sys ''dict'' ''list'')),
     endpoint ''list_dict_data_by_type'' Get (api [Lit ''dict'', Lit ''data'', Lit ''type'', TextPar]) (Guarded (sys ''dict'' ''query'')),
     endpoint ''get_dict_data'' Get (api [Lit ''dict'', Lit ''data'', IntPar]) (Guarded (sys ''dict'' ''query'')),
     endpoint ''create_dict_data'' Post (api [Lit ''dict'', Lit ''data'']) (Guarded (sys ''dict'' ''add'')),
     endpoint ''update_dict_data'' Patch (api [Lit ''dict'', Lit ''data'', IntPar]) (Guarded (sys ''dict'' ''edit'')),
     endpoint ''delete_dict_data'' Delete (api [Lit ''dict'', Lit ''data'', IntPar]) (Guarded (sys ''dict'' ''remove''))]"

definition config_routes :: "endpoint list" where
  "config_routes =
    [endpoint ''list_configs'' Get (api [Lit ''configs'']) (Guarded (sys ''config'' ''list'')),
     endpoint ''get_config_value'' Get (api [Lit ''configs'', Lit ''value'', TextPar]) (Guarded (sys ''config'' ''query'')),
     endpoint ''get_config'' Get (api [Lit ''configs'', IntPar]) (Guarded (sys ''config'' ''query'')),
     endpoint ''create_config'' Post (api [Lit ''configs'']) (Guarded (sys ''config'' ''add'')),
     endpoint ''update_config'' Patch (api [Lit ''configs'', IntPar]) (Guarded (sys ''config'' ''edit'')),
     endpoint ''delete_config'' Delete (api [Lit ''configs'', IntPar]) (Guarded (sys ''config'' ''remove''))]"

definition notice_routes :: "endpoint list" where
  "notice_routes =
    [endpoint ''list_notices'' Get (api [Lit ''notices'']) (Guarded (sys ''notice'' ''list'')),
     endpoint ''get_notice'' Get (api [Lit ''notices'', IntPar]) (Guarded (sys ''notice'' ''query'')),
     endpoint ''create_notice'' Post (api [Lit ''notices'']) (Guarded (sys ''notice'' ''add'')),
     endpoint ''update_notice'' Patch (api [Lit ''notices'', IntPar]) (Guarded (sys ''notice'' ''edit'')),
     endpoint ''delete_notice'' Delete (api [Lit ''notices'', IntPar]) (Guarded (sys ''notice'' ''remove''))]"

definition monitor_routes :: "endpoint list" where
  "monitor_routes =
    [endpoint ''list_operlog'' Get (api [Lit ''monitor'', Lit ''operlog'']) (Guarded (sys ''operlog'' ''list'')),
     endpoint ''get_operlog'' Get (api [Lit ''monitor'', Lit ''operlog'', IntPar]) (Guarded (sys ''operlog'' ''query'')),
     endpoint ''list_logininfor'' Get (api [Lit ''monitor'', Lit ''logininfor'']) (Guarded (sys ''logininfor'' ''list'')),
     endpoint ''get_logininfor'' Get (api [Lit ''monitor'', Lit ''logininfor'', IntPar]) (Guarded (sys ''logininfor'' ''query'')),
     endpoint ''get_server_metrics'' Get (api [Lit ''monitor'', Lit ''server'']) (Guarded (sys ''server'' ''list'')),
     endpoint ''get_cache_metrics'' Get (api [Lit ''monitor'', Lit ''cache'']) (Guarded (sys ''cache'' ''list'')),
     endpoint ''list_online_sessions'' Get (api [Lit ''monitor'', Lit ''online'']) (Guarded (sys ''online'' ''list'')),
     endpoint ''force_logout'' Delete (api [Lit ''monitor'', Lit ''online'', UuidPar]) (Guarded (sys ''online'' ''remove''))]"

definition scheduled_task_routes :: "endpoint list" where
  "scheduled_task_routes =
    [endpoint ''list_handlers'' Get (api [Lit ''monitor'', Lit ''jobs'', Lit ''handlers'']) (Guarded (sys ''job'' ''list'')),
     endpoint ''list_logs'' Get (api [Lit ''monitor'', Lit ''jobs'', Lit ''logs'']) (Guarded (sys ''job'' ''query'')),
     endpoint ''list_tasks'' Get (api [Lit ''monitor'', Lit ''jobs'']) (Guarded (sys ''job'' ''list'')),
     endpoint ''get_task'' Get (api [Lit ''monitor'', Lit ''jobs'', IntPar]) (Guarded (sys ''job'' ''query'')),
     endpoint ''create_task'' Post (api [Lit ''monitor'', Lit ''jobs'']) (Guarded (sys ''job'' ''add'')),
     endpoint ''update_task'' Patch (api [Lit ''monitor'', Lit ''jobs'', IntPar]) (Guarded (sys ''job'' ''edit'')),
     endpoint ''delete_task'' Delete (api [Lit ''monitor'', Lit ''jobs'', IntPar]) (Guarded (sys ''job'' ''remove'')),
     endpoint ''run_task'' Post (api [Lit ''monitor'', Lit ''jobs'', IntPar, Lit ''run'']) (Guarded (sys ''job'' ''run''))]"

definition rbac_binding_routes :: "endpoint list" where
  "rbac_binding_routes =
    [endpoint ''bind_user_roles'' Put (api [Lit ''users'', IntPar, Lit ''roles'']) (Guarded (sys ''user'' ''edit'')),
     endpoint ''get_user_roles'' Get (api [Lit ''users'', IntPar, Lit ''roles'']) (Guarded (sys ''user'' ''query'')),
     endpoint ''bind_user_posts'' Put (api [Lit ''users'', IntPar, Lit ''posts'']) (Guarded (sys ''user'' ''edit'')),
     endpoint ''get_user_posts'' Get (api [Lit ''users'', IntPar, Lit ''posts'']) (Guarded (sys ''user'' ''query'')),
     endpoint ''bind_role_menus'' Put (api [Lit ''roles'', IntPar, Lit ''menus'']) (Guarded (sys ''role'' ''edit'')),
     endpoint ''get_role_menus'' Get (api [Lit ''roles'', IntPar, Lit ''menus'']) (Guarded (sys ''role'' ''query'')),
     endpoint ''bind_role_depts'' Put (api [Lit ''roles'', IntPar, Lit ''depts'']) (Guarded (sys ''role'' ''edit'')),
     endpoint ''get_role_depts'' Get (api [Lit ''roles'', IntPar, Lit ''depts'']) (Guarded (sys ''role'' ''query''))]"
text \<open>\<^verbatim>\<open>create_app\<close>: the order of \<^verbatim>\<open>include_router\<close>.\<close>

definition api_endpoints :: "endpoint list" where
  "api_endpoints =
     health_routes @ auth_routes @ user_routes @ dept_routes @ role_routes @ rbac_routes @ menu_routes @
     post_routes @ file_routes @ dict_routes @ config_routes @ notice_routes @ monitor_routes @
     scheduled_task_routes @ rbac_binding_routes"

section \<open>Matching\<close>

text \<open>
  The route's regular expression takes a parameter for any nonempty segment; whether it is a number or
  a UUID is checked after the route has been chosen.  Its end marker also accepts a final newline, so
  segments with one are left out.
\<close>

definition segment_text :: "string \<Rightarrow> bool" where
  "segment_text s \<longleftrightarrow> s \<noteq> [] \<and> CHR ''/'' \<notin> set s \<and> CHR 0x0A \<notin> set s"

fun template_takes :: "segment list \<Rightarrow> string list \<Rightarrow> bool" where
  "template_takes [] [] = True"
| "template_takes (Lit l # ps) (s # ss) \<longleftrightarrow> s = l \<and> template_takes ps ss"
| "template_takes (p # ps) (s # ss) \<longleftrightarrow> template_takes ps ss"
| "template_takes _ _ = False"

definition path_of :: "string list \<Rightarrow> string" where
  "path_of ss = concat (map (\<lambda>s. ''/'' @ s) ss)"

definition routes_in_order :: "(endpoint list \<Rightarrow> http_method \<Rightarrow> string \<Rightarrow> endpoint option) \<Rightarrow> bool" where
  "routes_in_order disp \<longleftrightarrow> (\<forall>es meth ss. list_all segment_text ss \<longrightarrow>
     disp es meth (path_of ss) = find (\<lambda>e. en_method e = meth \<and> template_takes (en_path e) ss) es)"

text \<open>A path meant for a template: its parameters are of the declared types.\<close>

definition digit_char_of :: "char \<Rightarrow> bool" where
  "digit_char_of c \<longleftrightarrow> c \<in> set ''0123456789''"

definition uuid_char :: "char \<Rightarrow> bool" where
  "uuid_char c \<longleftrightarrow> c \<in> set ''0123456789abcdefABCDEF-''"

fun fills :: "segment \<Rightarrow> string \<Rightarrow> bool" where
  "fills (Lit l) s \<longleftrightarrow> s = l"
| "fills IntPar s \<longleftrightarrow> s \<noteq> [] \<and> list_all digit_char_of s"
| "fills UuidPar s \<longleftrightarrow> length s = 36 \<and> list_all uuid_char s"
| "fills TextPar s \<longleftrightarrow> segment_text s"

section \<open>Templates that exclude each other\<close>

fun parts_clash :: "segment \<Rightarrow> segment \<Rightarrow> bool" where
  "parts_clash (Lit l) (Lit k) \<longleftrightarrow> l \<noteq> k"
| "parts_clash (Lit l) IntPar \<longleftrightarrow> \<not> list_all digit_char_of l"
| "parts_clash (Lit l) UuidPar \<longleftrightarrow> length l \<noteq> 36"
| "parts_clash _ _ = False"

text \<open>The first template takes no path that is meant for the second.\<close>

fun paths_clash :: "segment list \<Rightarrow> segment list \<Rightarrow> bool" where
  "paths_clash [] [] = False"
| "paths_clash (p # ps) (q # qs) \<longleftrightarrow> (if parts_clash p q then True else paths_clash ps qs)"
| "paths_clash _ _ = True"

fun no_shadow :: "endpoint list \<Rightarrow> bool" where
  "no_shadow [] = True"
| "no_shadow (e # es) \<longleftrightarrow>
     list_all (\<lambda>f. if en_method e = en_method f then paths_clash (en_path e) (en_path f) else True) es \<and>
     no_shadow es"

lemma parts_clash_sound: "parts_clash p q \<Longrightarrow> fills q s \<Longrightarrow> \<not> template_takes (p # ps) (s # ss)"
  by (cases "(p, q)" rule: parts_clash.cases) auto

lemma template_takes_tail: "template_takes (p # ps) (s # ss) \<Longrightarrow> template_takes ps ss"
  by (cases p) auto

lemma paths_clash_sound:
  "list_all2 fills qs ss \<Longrightarrow> paths_clash ps qs \<Longrightarrow> \<not> template_takes ps ss"
proof (induction ps qs arbitrary: ss rule: paths_clash.induct)
  case (2 p ps q qs)
  then obtain s ss' where ss: "ss = s # ss'" "fills q s" "list_all2 fills qs ss'" by (auto simp: list_all2_Cons1)
  show ?case
  proof (cases "parts_clash p q")
    case True
    then show ?thesis using parts_clash_sound ss by blast
  next
    case False
    then have "paths_clash ps qs" using "2.prems"(2) by simp
    then have "\<not> template_takes ps ss'" using "2.IH" [OF False] ss(3) by blast
    then show ?thesis using ss(1) template_takes_tail by blast
  qed
qed (auto simp: list_all2_Cons1)

lemma own_template: "list_all2 fills ps ss \<Longrightarrow> template_takes ps ss"
  by (induction ps ss rule: template_takes.induct) auto

lemma found_in_order:
  assumes "no_shadow es" "e \<in> set es" "list_all2 fills (en_path e) ss"
  shows "find (\<lambda>f. en_method f = en_method e \<and> template_takes (en_path f) ss) es = Some e"
  using assms
proof (induction es)
  case (Cons f es)
  show ?case
  proof (cases "e = f")
    case True
    then show ?thesis using own_template [OF assms(3)] by simp
  next
    case False
    with Cons.prems have "e \<in> set es" by simp
    moreover have "\<not> (en_method f = en_method e \<and> template_takes (en_path f) ss)"
      using Cons.prems(1) \<open>e \<in> set es\<close> paths_clash_sound [OF assms(3)] by (auto simp: list_all_iff)
    ultimately show ?thesis using Cons by auto
  qed
qed simp

lemma no_slash: "\<not> digit_char_of CHR ''/''" "\<not> uuid_char CHR ''/''"
  "\<not> digit_char_of CHR 0x0A" "\<not> uuid_char CHR 0x0A"
  by code_simp+

lemma fills_text: "(\<And>l. p = Lit l \<Longrightarrow> segment_text l) \<Longrightarrow> fills p s \<Longrightarrow> segment_text s"
  using no_slash by (cases p) (auto simp: segment_text_def list_all_iff)

lemmas endpoint_table = api_endpoints_def health_routes_def auth_routes_def user_routes_def dept_routes_def
  role_routes_def rbac_routes_def menu_routes_def post_routes_def file_routes_def dict_routes_def config_routes_def
  notice_routes_def monitor_routes_def scheduled_task_routes_def rbac_binding_routes_def endpoint_def api_def

text \<open>Two routers clash when the first segments below the root differ; the others are compared.\<close>

definition crosses :: "endpoint list \<Rightarrow> endpoint list \<Rightarrow> bool" where
  "crosses es fs \<longleftrightarrow> list_all (\<lambda>e. list_all (\<lambda>f. if en_method e = en_method f
     then paths_clash (en_path e) (en_path f) else True) fs) es"

lemma no_shadow_append: "no_shadow (es @ fs) \<longleftrightarrow> no_shadow es \<and> no_shadow fs \<and> crosses es fs"
  by (induction es) (auto simp: crosses_def)

lemma crosses_append: "crosses es (fs @ gs) \<longleftrightarrow> crosses es fs \<and> crosses es gs"
  by (auto simp: crosses_def list_all_iff)

definition under :: "string set \<Rightarrow> endpoint list \<Rightarrow> bool" where
  "under A es \<longleftrightarrow> (\<forall>e \<in> set es. \<exists>l \<in> A. \<exists>ps. en_path e = api (Lit l # ps))"

lemma crosses_under: "under A es \<Longrightarrow> under B fs \<Longrightarrow> A \<inter> B = {} \<Longrightarrow> crosses es fs"
  by (fastforce simp: crosses_def under_def list_all_iff api_def)

lemma crosses_outside:
  "list_all (\<lambda>e. \<exists>l. en_path e = [Lit l] \<and> l \<noteq> ''api'') es \<Longrightarrow> under B fs \<Longrightarrow> crosses es fs"
  by (fastforce simp: crosses_def under_def list_all_iff api_def)

lemma routers_under:
  shows "under {''auth''} auth_routes"
    and "under {''users''} user_routes"
    and "under {''depts''} dept_routes"
    and "under {''roles''} role_routes"
    and "under {''auth'', ''menus''} rbac_routes"
    and "under {''menus''} menu_routes"
    and "under {''posts''} post_routes"
    and "under {''files''} file_routes"
    and "under {''dict''} dict_routes"
    and "under {''configs''} config_routes"
    and "under {''notices''} notice_routes"
    and "under {''monitor''} monitor_routes"
    and "under {''monitor''} scheduled_task_routes"
    and "under {''users'', ''roles''} rbac_binding_routes"
  by (simp_all add: under_def endpoint_table)

lemma health_outside: "list_all (\<lambda>e. \<exists>l. en_path e = [Lit l] \<and> l \<noteq> ''api'') health_routes"
  by (simp add: endpoint_table)

lemma routers_no_shadow:
  shows "no_shadow health_routes"
    and "no_shadow auth_routes"
    and "no_shadow user_routes"
    and "no_shadow dept_routes"
    and "no_shadow role_routes"
    and "no_shadow rbac_routes"
    and "no_shadow menu_routes"
    and "no_shadow post_routes"
    and "no_shadow file_routes"
    and "no_shadow dict_routes"
    and "no_shadow config_routes"
    and "no_shadow notice_routes"
    and "no_shadow monitor_routes"
    and "no_shadow scheduled_task_routes"
    and "no_shadow rbac_binding_routes"
  by (simp_all add: endpoint_table digit_char_of_def)

lemma routers_cross:
  shows "crosses auth_routes rbac_routes"
    and "crosses user_routes rbac_binding_routes"
    and "crosses role_routes rbac_binding_routes"
    and "crosses rbac_routes menu_routes"
    and "crosses monitor_routes scheduled_task_routes"
  by (simp_all add: crosses_def endpoint_table digit_char_of_def)

lemma endpoints_no_shadow: "no_shadow api_endpoints"
  unfolding api_endpoints_def no_shadow_append crosses_append
  by (intro conjI; (rule routers_no_shadow routers_cross | rule crosses_outside [OF health_outside], rule routers_under |
      rule crosses_under, rule routers_under, rule routers_under, simp))

lemma endpoint_literals:
  "list_all (\<lambda>e. list_all (\<lambda>p. case p of Lit l \<Rightarrow> segment_text l | _ \<Rightarrow> True) (en_path e)) api_endpoints"
  by (simp add: endpoint_table segment_text_def)

end
