(* ===== verification/AppConfig.thy ===== *)
theory AppConfig
  imports AuthMiddleware
begin

text \<open>
  \<^verbatim>\<open>core/config.py\<close>: the validation that \<^verbatim>\<open>Settings\<close> goes through when it is built, and what \<^verbatim>\<open>create_app\<close>
  of \<^verbatim>\<open>main.py\<close> derives from it.  The settings that the authentication reads are the record
  \<open>auth_settings\<close>.  Pydantic runs the checks of the single fields first, all of them, and then the
  validators of the whole object, in order and up to the first that raises.
\<close>

datatype environment = Local | Dev | Staging | Production

record app_settings =
  as_environment :: environment
  as_debug :: bool
  as_expose_docs :: bool
  as_cors_origins :: "string list"
  as_cors_credentials :: bool
  as_database_url :: string
  as_redis_url :: string
  as_pool_size :: int
  as_max_overflow :: int
  as_idempotency :: bool
  as_idempotency_ttl :: int
  as_lock_ttl :: int
  as_eager_connect :: bool
  as_auth_enabled :: bool
  as_algorithm :: string
  as_publics :: "string list"
  as_auth :: auth_settings
  as_login_guard :: bool
  as_scheduler :: bool
  as_poll :: int
  as_shutdown_grace :: int
  as_max_upload :: int
  as_max_excel :: int
  as_max_inflated :: int
  as_max_entries :: int
  as_max_ratio :: int

section \<open>Single fields\<close>

definition allowed_db_schemes :: "string list" where
  "allowed_db_schemes = [''mysql+aiomysql://'']"

definition allowed_redis_schemes :: "string list" where
  "allowed_redis_schemes = [''redis://'', ''rediss://'', ''unix://'']"

definition allowed_jwt_algorithms :: "string list" where
  "allowed_jwt_algorithms = [''HS256'', ''HS384'', ''HS512'', ''RS256'', ''RS384'', ''RS512'',
     ''ES256'', ''ES384'', ''ES512'']"

definition has_scheme :: "string list \<Rightarrow> string \<Rightarrow> bool" where
  "has_scheme schemes url \<longleftrightarrow> list_ex (\<lambda>s. starts_with s url) schemes"

definition within :: "int \<Rightarrow> int \<Rightarrow> int \<Rightarrow> bool" where
  "within lo hi n \<longleftrightarrow> lo \<le> n \<and> n \<le> hi"

text \<open>The bounds of the numbers, with the name of the field.\<close>

definition field_checks :: "app_settings \<Rightarrow> (string \<times> bool) list" where
  "field_checks s =
     [(''db_pool_size'', within 1 100 (as_pool_size s)),
      (''db_max_overflow'', within 0 200 (as_max_overflow s)),
      (''idempotency_ttl_seconds'', 60 \<le> as_idempotency_ttl s),
      (''idempotency_lock_ttl_seconds'', within 5 3600 (as_lock_ttl s)),
      (''auth_access_token_ttl_seconds'', 60 \<le> access_ttl (as_auth s)),
      (''auth_refresh_idle_ttl_seconds'', 300 \<le> idle_ttl (as_auth s)),
      (''auth_refresh_absolute_ttl_seconds'', 300 \<le> absolute_ttl (as_auth s)),
      (''auth_refresh_max_sessions_per_user'', 1 \<le> max_sessions (as_auth s)),
      (''auth_captcha_ttl_seconds'', 30 \<le> captcha_ttl (as_auth s)),
      (''auth_login_fail_window_seconds'', 60 \<le> fail_window (as_auth s)),
      (''auth_login_captcha_threshold'', 1 \<le> captcha_threshold (as_auth s)),
      (''auth_login_lock_threshold'', 1 \<le> lock_threshold (as_auth s)),
      (''auth_login_lock_seconds'', 60 \<le> lock_seconds (as_auth s)),
      (''auth_login_ip_limit'', 1 \<le> ip_limit (as_auth s)),
      (''scheduler_poll_seconds'', within 1 3600 (as_poll s)),
      (''scheduler_shutdown_grace_seconds'', within 0 300 (as_shutdown_grace s)),
      (''file_max_upload_size_bytes'', within 1024 5368709120 (as_max_upload s)),
      (''excel_max_upload_size_bytes'', within 1024 104857600 (as_max_excel s)),
      (''excel_max_uncompressed_bytes'', within 1024 1073741824 (as_max_inflated s)),
      (''excel_max_zip_entries'', within 16 65535 (as_max_entries s)),
      (''excel_max_compression_ratio'', within 10 10000 (as_max_ratio s))]"

definition validator_checks :: "app_settings \<Rightarrow> (string \<times> bool) list" where
  "validator_checks s =
     [(''database_url'', has_scheme allowed_db_schemes (as_database_url s)),
      (''redis_url'', has_scheme allowed_redis_schemes (as_redis_url s)),
      (''auth_jwt_algorithm'', as_algorithm s \<in> set allowed_jwt_algorithms)]"

definition bad_fields :: "app_settings \<Rightarrow> string list" where
  "bad_fields s = map fst (filter (\<lambda>c. \<not> snd c) (field_checks s @ validator_checks s))"

section \<open>The whole object\<close>

datatype settings_error = BadFields "string list" | WildcardWithCredentials | SecretEmpty | SecretShort
  | ProductionGate "string list"

definition reject_wildcard_with_credentials :: "app_settings \<Rightarrow> settings_error + unit" where
  "reject_wildcard_with_credentials s =
     (if as_cors_credentials s \<and> ''*'' \<in> set (as_cors_origins s) then Inl WildcardWithCredentials else Inr ())"

definition validate_auth_secret_when_enabled :: "app_settings \<Rightarrow> settings_error + unit" where
  "validate_auth_secret_when_enabled s =
     (if \<not> as_auth_enabled s then Inr ()
      else if jwt_secret (as_auth s) = [] then Inl SecretEmpty
      else if starts_with ''HS'' (as_algorithm s) \<and> length (jwt_secret (as_auth s)) < 32 then Inl SecretShort
      else Inr ())"

definition api_root_prefix :: string where
  "api_root_prefix = ''/api/v1''"

text \<open>\<^verbatim>\<open>p.rstrip("/")\<close>.\<close>

definition rstrip_slash :: "string \<Rightarrow> string" where
  "rstrip_slash p = rev (dropWhile (\<lambda>c. c = CHR ''/'') (rev p))"

definition shadowing :: "string list \<Rightarrow> string list" where
  "shadowing publics = filter (\<lambda>p. starts_with (rstrip_slash p @ ''/'') (api_root_prefix @ ''/'')) publics"

definition enforce_production_safety :: "app_settings \<Rightarrow> settings_error + unit" where
  "enforce_production_safety s =
     (if as_environment s \<noteq> Production then Inr ()
      else (let violations =
              (if as_auth_enabled s then [] else [''auth_enabled'']) @
              (if as_debug s then [''debug''] else []) @
              (if refresh_pepper (as_auth s) = [] then [''auth_refresh_token_pepper''] else []) @
              (if shadowing (as_publics s) = [] then [] else [''auth_public_paths''])
            in if violations \<noteq> [] then Inl (ProductionGate violations) else Inr ()))"

definition build_settings :: "app_settings \<Rightarrow> settings_error + app_settings" where
  "build_settings s =
     (if bad_fields s \<noteq> [] then Inl (BadFields (bad_fields s))
      else (case reject_wildcard_with_credentials s of
              Inl e \<Rightarrow> Inl e
            | Inr _ \<Rightarrow> (case validate_auth_secret_when_enabled s of
                Inl e \<Rightarrow> Inl e
              | Inr _ \<Rightarrow> (case enforce_production_safety s of Inl e \<Rightarrow> Inl e | Inr _ \<Rightarrow> Inr s))))"

section \<open>What the application derives\<close>

definition default_public_paths :: "string list" where
  "default_public_paths = [''/healthz'', ''/startupz'', ''/readyz'', ''/docs'', ''/openapi.json'',
     ''/api/v1/auth/login'', ''/api/v1/auth/refresh'', ''/api/v1/auth/logout'', ''/api/v1/auth/captcha'']"

text \<open>\<^verbatim>\<open>docs_exposed\<close>, the need for a Redis client, and the probe at startup of \<^verbatim>\<open>main.py\<close>.\<close>

definition docs_exposed :: "app_settings \<Rightarrow> bool" where
  "docs_exposed s \<longleftrightarrow> as_environment s \<noteq> Production \<or> as_expose_docs s"

definition needs_redis :: "app_settings \<Rightarrow> bool" where
  "needs_redis s \<longleftrightarrow> as_idempotency s \<or> as_login_guard s"

definition probes_at_startup :: "app_settings \<Rightarrow> bool" where
  "probes_at_startup s \<longleftrightarrow> as_eager_connect s \<or> as_login_guard s \<or> as_scheduler s"

text \<open>The middlewares around the router, the outermost first.\<close>

definition middlewares :: "app_settings \<Rightarrow> string list" where
  "middlewares s =
     [''RequestIDMiddleware''] @
     (if as_cors_origins s \<noteq> [] then [''CORSMiddleware''] else []) @
     (if as_auth_enabled s then [''AuthMiddleware''] else []) @
     (if as_idempotency s then [''IdempotencyMiddleware''] else [])"

text \<open>\<^verbatim>\<open>_custom_openapi\<close>: whether an operation is documented as needing a token.\<close>

definition documented_bearer :: "app_settings \<Rightarrow> string \<Rightarrow> bool" where
  "documented_bearer s path \<longleftrightarrow> \<not> is_public_path path (as_publics s)"

end
