(* ===== verification/WiringTheorems.thy ===== *)
theory WiringTheorems
  imports Routes AppConfig
begin

text \<open>
  Properties of how the application is put together: the routing table, its guards and the registry of
  permissions, the public paths, and what accepted production settings exclude.
\<close>

section \<open>Permissions\<close>

definition guard_codes :: "endpoint list \<Rightarrow> string list" where
  "guard_codes es = concat (map (\<lambda>e. case en_access e of Guarded p \<Rightarrow> [p] | _ \<Rightarrow> []) es)"

text \<open>The permission strings of the seeded menus.\<close>

fun seed_perms :: "seed_menu \<Rightarrow> string list" where
  "seed_perms (SeedMenu k ty path cmp perms icon n vis children) =
     (case perms of None \<Rightarrow> [] | Some p \<Rightarrow> [p]) @ concat (map seed_perms children)"

definition manifest_perms :: "seed_menu list \<Rightarrow> string list" where
  "manifest_perms tree = concat (map seed_perms tree)"

lemma guard_codes_registered: "list_all (\<lambda>p. p \<in> set all_permissions) (guard_codes api_endpoints)"
  by code_simp

lemma permissions_guarded: "list_all (\<lambda>p. p \<in> set (guard_codes api_endpoints)) all_permissions"
  by code_simp

lemma manifest_perms_registered: "list_all (\<lambda>p. p \<in> set all_permissions) (manifest_perms menu_tree)"
  by code_simp

lemma permissions_in_manifest: "list_all (\<lambda>p. p \<in> set (manifest_perms menu_tree)) all_permissions"
  by code_simp


section \<open>Dispatch\<close>

lemma filled_texts:
  "list_all2 fills ps ss \<Longrightarrow> list_all (\<lambda>p. case p of Lit l \<Rightarrow> segment_text l | _ \<Rightarrow> True) ps \<Longrightarrow>
     list_all segment_text ss"
proof (induction rule: list_all2_induct)
  case (Cons p ps s ss)
  have "segment_text s" by (rule fills_text [OF _ Cons.hyps(1)]) (use Cons.prems in simp)
  with Cons show ?case by simp
qed simp

lemma endpoint_texts:
  "e \<in> set api_endpoints \<Longrightarrow> list_all2 fills (en_path e) ss \<Longrightarrow> list_all segment_text ss"
  by (erule filled_texts) (use endpoint_literals in \<open>simp add: list_all_iff\<close>)

text \<open>No public path lies below these resources.\<close>

definition resources :: "string set" where
  "resources = {''users'', ''depts'', ''roles'', ''menus'', ''posts'', ''files'', ''dict'', ''configs'',
     ''notices'', ''monitor''}"

lemma resource_not_public:
  "l \<in> resources \<Longrightarrow> \<not> is_public_path (path_of (''api'' # ''v1'' # l # ss)) default_public_paths"
  by (auto simp: resources_def is_public_path_def default_public_paths_def path_of_def starts_with_def)

lemma under_not_public:
  assumes "under A es" "A \<subseteq> resources" "e \<in> set es" "list_all2 fills (en_path e) ss"
  shows "\<not> is_public_path (path_of ss) default_public_paths"
proof -
  obtain l ps where "l \<in> A" "en_path e = api (Lit l # ps)" using assms(1,3) by (auto simp: under_def)
  with assms(4) obtain qs where "ss = ''api'' # ''v1'' # l # qs" by (auto simp: api_def list_all2_Cons1)
  with resource_not_public [of l qs] \<open>l \<in> A\<close> assms(2) show ?thesis by auto
qed

lemma signed_in_routers:
  assumes "e \<in> set (health_routes @ auth_routes @ rbac_routes)" "list_all2 fills (en_path e) ss"
  shows "is_public_path (path_of ss) default_public_paths \<longleftrightarrow> en_access e = Open"
  using assms
  by (auto simp: endpoint_table list_all2_Cons1 is_public_path_def default_public_paths_def path_of_def starts_with_def)

definition guarded_routes :: "endpoint list" where
  "guarded_routes = user_routes @ dept_routes @ role_routes @ menu_routes @ post_routes @ file_routes @
     dict_routes @ config_routes @ notice_routes @ monitor_routes @ scheduled_task_routes @ rbac_binding_routes"

lemma guarded_under: "under resources guarded_routes"
proof -
  have mono: "under A es \<Longrightarrow> A \<subseteq> resources \<Longrightarrow> under resources es" for A es
    unfolding under_def by blast
  have app: "under resources (es @ fs) \<longleftrightarrow> under resources es \<and> under resources fs" for es fs
    unfolding under_def by auto
  show ?thesis
    unfolding guarded_routes_def app
    by (intro conjI) (rule mono, rule routers_under, simp add: resources_def)+
qed

lemma guarded_not_open: "list_all (\<lambda>e. en_access e \<noteq> Open) guarded_routes"
  by (simp add: guarded_routes_def endpoint_table)

lemma endpoint_routers:
  "set api_endpoints = set (health_routes @ auth_routes @ rbac_routes) \<union> set guarded_routes"
  by (auto simp: api_endpoints_def guarded_routes_def)

lemma public_iff_open:
  assumes "e \<in> set api_endpoints" "list_all2 fills (en_path e) ss"
  shows "is_public_path (path_of ss) default_public_paths \<longleftrightarrow> en_access e = Open"
proof (cases "e \<in> set guarded_routes")
  case True
  then show ?thesis
    using under_not_public [OF guarded_under subset_refl True assms(2)] guarded_not_open by (auto simp: list_all_iff)
next
  case False
  with assms(1) have "e \<in> set (health_routes @ auth_routes @ rbac_routes)" using endpoint_routers by blast
  from signed_in_routers [OF this assms(2)] show ?thesis .
qed

text \<open>
  C36 Every endpoint is reached: with routes tried in the order of their registration, a request whose
  path fits the template of an endpoint, with parameters of the declared types, is dispatched to that
  endpoint and not to an earlier route whose parameter would take the same text; and under the default
  settings the middleware lets a request pass without a token exactly when it goes to an endpoint that
  is meant to be open.
\<close>

theorem endpoints_reached:
  assumes "routes_in_order disp" "e \<in> set api_endpoints" "list_all2 fills (en_path e) ss"
  shows "disp api_endpoints (en_method e) (path_of ss) = Some e \<and>
    (is_public_path (path_of ss) default_public_paths \<longleftrightarrow> en_access e = Open)"
  using assms(1) endpoint_texts [OF assms(2,3)] found_in_order [OF endpoints_no_shadow assms(2,3)]
    public_iff_open [OF assms(2,3)]
  by (simp add: routes_in_order_def)

text \<open>A dispatcher that splits the path and tries the routes in order.\<close>

definition demo_dispatch :: "endpoint list \<Rightarrow> http_method \<Rightarrow> string \<Rightarrow> endpoint option" where
  "demo_dispatch es meth path =
     find (\<lambda>e. en_method e = meth \<and> template_takes (en_path e) (tl (py_split_on CHR ''/'' path))) es"

lemma split_segment:
  "CHR ''/'' \<notin> set s \<Longrightarrow> py_split_on CHR ''/'' (s @ CHR ''/'' # rest) = s # py_split_on CHR ''/'' rest"
  "CHR ''/'' \<notin> set s \<Longrightarrow> py_split_on CHR ''/'' s = [s]"
  by (induction s) auto

lemma split_path: "list_all segment_text ss \<Longrightarrow> py_split_on CHR ''/'' (path_of ss) = [] # ss"
proof (induction ss)
  case (Cons s ss)
  then have s: "CHR ''/'' \<notin> set s" by (simp add: segment_text_def)
  show ?case
  proof (cases ss)
    case Nil
    then show ?thesis using split_segment(2) [OF s] by (simp add: path_of_def)
  next
    case (Cons t ts)
    then have p: "path_of (s # ss) = ''/'' @ s @ CHR ''/'' # t @ path_of ts" "path_of ss = ''/'' @ t @ path_of ts"
      by (simp_all add: path_of_def)
    have "py_split_on CHR ''/'' (path_of ss) = [] # ss" using Cons.IH Cons.prems by simp
    then have "py_split_on CHR ''/'' (t @ path_of ts) = ss" by (simp add: p(2))
    then show ?thesis using split_segment(1) [OF s, of "t @ path_of ts"] by (simp add: p(1))
  qed
qed (simp add: path_of_def)

lemma demo_dispatch_in_order: "routes_in_order demo_dispatch"
  by (simp add: routes_in_order_def demo_dispatch_def split_path)

theorem endpoints_reached_witness:
  "\<exists>e. demo_dispatch api_endpoints Get ''/api/v1/menus/routers'' = Some e \<and> en_name e = ''get_routers'' \<and>
     en_access e = SignedIn"
proof -
  let ?e = "endpoint ''get_routers'' Get (api [Lit ''menus'', Lit ''routers'']) SignedIn"
  have e: "?e \<in> set api_endpoints" by (simp add: endpoint_table)
  have "list_all2 fills (en_path ?e) [''api'', ''v1'', ''menus'', ''routers'']"
    by (simp add: endpoint_def api_def)
  from endpoints_reached [OF demo_dispatch_in_order e this] show ?thesis
    by (intro exI [of _ ?e]) (simp add: endpoint_def path_of_def)
qed

section \<open>Accepted settings\<close>

lemma build_InrD:
  assumes "build_settings raw = Inr s"
  shows "s = raw" "bad_fields s = []" "reject_wildcard_with_credentials s = Inr ()"
    "validate_auth_secret_when_enabled s = Inr ()" "enforce_production_safety s = Inr ()"
  using assms by (auto simp: build_settings_def split: if_splits sum.splits)

lemma accepted_settings_ok:
  assumes "bad_fields s = []"
  shows "settings_ok (as_auth s)"
proof -
  have "\<forall>c \<in> set (field_checks s). snd c"
    using assms unfolding bad_fields_def map_is_Nil_conv filter_empty_conv by simp
  then show ?thesis by (simp add: field_checks_def settings_ok_def)
qed

text \<open>A proper ancestor of the API root ends at a slash of it.\<close>

lemma prefix_of_root:
  assumes "starts_with (p @ [c]) (''/api/v1/'' @ rest)" "length p \<le> 8" "c \<in> {CHR ''/'', CHR ''?''}"
  shows "p \<in> {[], ''/api'', ''/api/v1''} \<or> p = ''/api/v1/''"
proof -
  have e: "p @ [c] = take (Suc (length p)) (''/api/v1/'' @ rest)"
    using assms(1) by (simp add: starts_with_def)
  have "length p = 0 \<or> length p = 1 \<or> length p = 2 \<or> length p = 3 \<or> length p = 4 \<or> length p = 5 \<or>
      length p = 6 \<or> length p = 7 \<or> length p = 8" using assms(2) by arith
  then show ?thesis
    using e assms(3) by (auto simp: numeral_eq_Suc append_eq_Cons_conv Cons_eq_append_conv)
qed

lemma starts_with_split: "starts_with p s \<Longrightarrow> \<exists>t. s = p @ t"
  unfolding starts_with_def by (metis append_take_drop_id)

lemma not_shadowing:
  assumes "p \<in> set publics" "shadowing publics = []"
  shows "p \<notin> {[], ''/api'', ''/api/v1''}" and "p \<noteq> ''/api/v1/''"
  using assms by (auto simp: shadowing_def filter_empty_conv rstrip_slash_def starts_with_def api_root_prefix_def)

text \<open>
  C37 Settings that are accepted for production have authentication on, no debug mode, a pepper and a
  signing secret (of at least 32 characters for HMAC), the bounds that the token and login properties
  assume, and the documentation off unless it is asked for; and no entry of the public paths opens the
  API as a whole: a path below \<open>/api/v1/\<close> passes without a token only because of an entry that
  itself lies properly below that root.
\<close>

theorem production_gate:
  assumes "build_settings raw = Inr s" "as_environment s = Production"
  shows "as_auth_enabled s \<and> ''AuthMiddleware'' \<in> set (middlewares s) \<and> \<not> as_debug s \<and>
    refresh_pepper (as_auth s) \<noteq> [] \<and> jwt_secret (as_auth s) \<noteq> [] \<and>
    (starts_with ''HS'' (as_algorithm s) \<longrightarrow> 32 \<le> length (jwt_secret (as_auth s))) \<and>
    settings_ok (as_auth s) \<and> (docs_exposed s \<longleftrightarrow> as_expose_docs s) \<and>
    (\<forall>rest. is_public_path (''/api/v1/'' @ rest) (as_publics s) \<longrightarrow>
       (\<exists>p \<in> set (as_publics s). starts_with ''/api/v1/'' p \<and> p \<noteq> ''/api/v1/'' \<and>
          is_public_path (''/api/v1/'' @ rest) [p]))"
proof -
  note b = build_InrD [OF assms(1)]
  have g: "as_auth_enabled s" "\<not> as_debug s" "refresh_pepper (as_auth s) \<noteq> []" "shadowing (as_publics s) = []"
    using b(5) assms(2) by (auto simp: enforce_production_safety_def Let_def split: if_splits)
  have sec: "jwt_secret (as_auth s) \<noteq> []"
    "starts_with ''HS'' (as_algorithm s) \<Longrightarrow> 32 \<le> length (jwt_secret (as_auth s))"
    using b(4) g(1) by (auto simp: validate_auth_secret_when_enabled_def split: if_splits)
  have below: "\<exists>p \<in> set (as_publics s). starts_with ''/api/v1/'' p \<and> p \<noteq> ''/api/v1/'' \<and>
      is_public_path (''/api/v1/'' @ rest) [p]"
    if pub: "is_public_path (''/api/v1/'' @ rest) (as_publics s)" for rest
  proof -
    from pub obtain p where p: "p \<in> set (as_publics s)" "''/api/v1/'' @ rest = p \<or>
        (\<exists>c \<in> {CHR ''/'', CHR ''?''}. starts_with (p @ [c]) (''/api/v1/'' @ rest))"
      by (auto simp: is_public_path_def)
    note ns = not_shadowing [OF p(1) g(4)]
    have "starts_with ''/api/v1/'' p"
    proof (cases "''/api/v1/'' @ rest = p")
      case False
      then obtain c where c: "c \<in> {CHR ''/'', CHR ''?''}" "starts_with (p @ [c]) (''/api/v1/'' @ rest)"
        using p(2) by blast
      then have "8 < length p" using prefix_of_root [OF c(2) _ c(1)] ns by (cases "length p \<le> 8") auto
      moreover obtain t where "''/api/v1/'' @ rest = p @ c # t" using c(2) starts_with_split by fastforce
      ultimately obtain u where "p = ''/api/v1/'' @ u" by (auto simp: append_eq_append_conv2 Cons_eq_append_conv)
      then show ?thesis by (simp only: starts_with_append)
    qed (auto simp: starts_with_def)
    with p ns show ?thesis by (auto simp: is_public_path_def)
  qed
  show ?thesis
    using g(1-3) sec accepted_settings_ok [OF b(2)] below assms(2)
    by (auto simp: middlewares_def docs_exposed_def)
qed

definition demo_production :: app_settings where
  "demo_production = \<lparr>as_environment = Production, as_debug = False, as_expose_docs = False, as_cors_origins = [],
     as_cors_credentials = True, as_database_url = ''mysql+aiomysql://db'', as_redis_url = ''redis://r'',
     as_pool_size = 5, as_max_overflow = 10, as_idempotency = True, as_idempotency_ttl = 86400, as_lock_ttl = 30,
     as_eager_connect = True, as_auth_enabled = True, as_algorithm = ''HS256'', as_publics = default_public_paths,
     as_auth = \<lparr>jwt_secret = replicate 32 CHR ''k'', jwt_issuer = [], jwt_audience = [], access_ttl = 1800,
       refresh_pepper = ''p'', idle_ttl = 604800, absolute_ttl = 2592000, max_sessions = 5, captcha_ttl = 120,
       fail_window = 600, captcha_threshold = 3, lock_threshold = 5, lock_seconds = 600, ip_limit = 30\<rparr>,
     as_login_guard = True, as_scheduler = False, as_poll = 30, as_shutdown_grace = 10,
     as_max_upload = 52428800, as_max_excel = 10485760, as_max_inflated = 104857600, as_max_entries = 512,
     as_max_ratio = 100\<rparr>"

theorem production_gate_witness:
  "build_settings demo_production = Inr demo_production \<and> settings_ok (as_auth demo_production) \<and>
     \<not> docs_exposed demo_production \<and> build_settings (demo_production\<lparr>as_publics := [''/api/v1'']\<rparr>) =
       Inl (ProductionGate [''auth_public_paths''])"
proof -
  have b: "build_settings demo_production = Inr demo_production"
  proof -
    have "bad_fields demo_production = []" by code_simp
    moreover have "reject_wildcard_with_credentials demo_production = Inr ()"
      "validate_auth_secret_when_enabled demo_production = Inr ()"
      "enforce_production_safety demo_production = Inr ()" by code_simp+
    ultimately show ?thesis by (simp add: build_settings_def)
  qed
  have e: "as_environment demo_production = Production" "\<not> as_expose_docs demo_production"
    by (simp_all add: demo_production_def)
  have "build_settings (demo_production\<lparr>as_publics := [''/api/v1'']\<rparr>) = Inl (ProductionGate [''auth_public_paths''])"
    by code_simp
  with production_gate [OF b e(1)] b e(2) show ?thesis by blast
qed

end
