(* ===== verification/Scheduler.thy ===== *)
theory Scheduler
  imports TaskService
begin

text \<open>
  \<^verbatim>\<open>domains/scheduled_task/scheduler.py\<close>: the controller that every worker process starts, and the
  election of the one that fires the cron tasks, by a named lock of the MySQL server.  MySQL is the
  record \<open>lock_server\<close>: the sessions that are alive and the holder of the lock with the number of its
  acquisitions; the lock of a session that ends is free.  Each operation sends at most one statement
  about the lock, and \<open>answer\<close> says what the client sees of it.  APScheduler is its job store: one job
  per id, \<^verbatim>\<open>add_job\<close> with \<^verbatim>\<open>replace_existing\<close> overwrites; when a job fires is not modelled, and the
  fired wrapper is the executor's \<open>run\<close>.
\<close>

section \<open>Named locks\<close>

record lock_server =
  ls_alive :: "int list"
  ls_lock :: "(int \<times> nat) option"

text \<open>\<open>Unanswered\<close>: the statement took effect, but the client sees an exception.\<close>

datatype answer = Answered | Refused | Unanswered

definition holds_lock :: "int \<Rightarrow> lock_server \<Rightarrow> bool" where
  "holds_lock c s \<longleftrightarrow> (case ls_lock s of None \<Rightarrow> False | Some (h, n) \<Rightarrow> h = c)"

definition end_session :: "int \<Rightarrow> lock_server \<Rightarrow> lock_server" where
  "end_session c s = s\<lparr>ls_alive := removeAll c (ls_alive s),
     ls_lock := (if holds_lock c s then None else ls_lock s)\<rparr>"

definition open_session :: "int \<Rightarrow> lock_server \<Rightarrow> lock_server" where
  "open_session c s = (if c \<in> set (ls_alive s) then s else s\<lparr>ls_alive := c # ls_alive s\<rparr>)"

text \<open>\<^verbatim>\<open>GET_LOCK(name, 0)\<close>: a session may take a lock again that it has.\<close>

definition get_lock :: "int \<Rightarrow> lock_server \<Rightarrow> bool \<times> lock_server" where
  "get_lock c s =
     (case ls_lock s of
        None \<Rightarrow> (True, s\<lparr>ls_lock := Some (c, 1)\<rparr>)
      | Some (h, n) \<Rightarrow> if h = c then (True, s\<lparr>ls_lock := Some (c, n + 1)\<rparr>) else (False, s))"

text \<open>\<^verbatim>\<open>RELEASE_LOCK(name)\<close>.\<close>

definition release_lock :: "int \<Rightarrow> lock_server \<Rightarrow> lock_server" where
  "release_lock c s =
     (case ls_lock s of
        None \<Rightarrow> s
      | Some (h, n) \<Rightarrow> if h = c then s\<lparr>ls_lock := (if n \<le> 1 then None else Some (h, n - 1))\<rparr> else s)"

text \<open>What the election relies on: \<open>acquire\<close> grants a lock that is free or one's own, \<open>leave\<close> ends a session.\<close>

locale named_lock =
  fixes held :: "'c \<Rightarrow> 's \<Rightarrow> bool" and acquire :: "'c \<Rightarrow> 's \<Rightarrow> bool \<times> 's" and leave :: "'c \<Rightarrow> 's \<Rightarrow> 's"
  assumes one: "held a s \<Longrightarrow> held b s \<Longrightarrow> a = b"
    and granted: "acquire c s = (True, s') \<Longrightarrow> held c s' \<and> (\<forall>d. held d s \<longrightarrow> d = c)"
    and refused: "acquire c s = (False, s') \<Longrightarrow> s' = s \<and> (\<exists>d. held d s)"
    and others_stay: "held d s \<Longrightarrow> d \<noteq> c \<Longrightarrow> held d (leave c s)"
begin

lemma acquire_against: "held d s \<Longrightarrow> d \<noteq> c \<Longrightarrow> acquire c s = (False, s)"
  using granted refused by (metis (full_types) surj_pair)

lemma acquire_free: "\<forall>d. \<not> held d s \<Longrightarrow> fst (acquire c s)"
  using refused by (metis (full_types) fst_conv surj_pair)

lemma acquired_alone: "acquire c s = (True, s') \<Longrightarrow> held d s' \<longleftrightarrow> d = c"
  using granted one by blast

end

interpretation mysql_lock: named_lock holds_lock get_lock end_session
proof
  show "holds_lock a s \<Longrightarrow> holds_lock b s \<Longrightarrow> a = b" for a b s
    by (auto simp: holds_lock_def split: option.splits)
  show "get_lock c s = (True, s') \<Longrightarrow> holds_lock c s' \<and> (\<forall>d. holds_lock d s \<longrightarrow> d = c)" for c s s'
    by (auto simp: get_lock_def holds_lock_def split: option.splits if_splits)
  show "get_lock c s = (False, s') \<Longrightarrow> s' = s \<and> (\<exists>d. holds_lock d s)" for c s s'
    by (auto simp: get_lock_def holds_lock_def split: option.splits if_splits)
  show "holds_lock d s \<Longrightarrow> d \<noteq> c \<Longrightarrow> holds_lock d (end_session c s)" for d c s
    by (auto simp: end_session_def holds_lock_def split: option.splits)
qed

text \<open>
  A statement on session \<open>c\<close>: the result, or \<open>None\<close> for an exception, which a dead session always
  gives.
\<close>

definition ask :: "answer \<Rightarrow> int \<Rightarrow> (lock_server \<Rightarrow> 'a \<times> lock_server) \<Rightarrow> lock_server \<Rightarrow> 'a option \<times> lock_server" where
  "ask an c f s =
     (if c \<notin> set (ls_alive s) then (None, s)
      else (case an of
              Answered \<Rightarrow> (case f s of (x, s') \<Rightarrow> (Some x, s'))
            | Refused \<Rightarrow> (None, s)
            | Unanswered \<Rightarrow> (None, snd (f s))))"

section \<open>The controller\<close>

record 't job =
  jb_task :: int
  jb_trigger :: 't
  jb_grace :: int

text \<open>\<open>ct_jobs\<close> is the job store of the scheduler, \<open>None\<close> when there is no scheduler; \<open>ct_inflight\<close> the
  ids of the tasks whose wrapper is running.\<close>

record 't controller =
  ct_jobs :: "(int \<Rightarrow> 't job option) option"
  ct_conn :: "int option"
  ct_leader :: bool
  ct_loop :: bool
  ct_inflight :: "int list"

definition new_controller :: "'t controller" where
  "new_controller = \<lparr>ct_jobs = None, ct_conn = None, ct_leader = False, ct_loop = False, ct_inflight = []\<rparr>"

record 't sched_env =
  se_cron :: "'t cron_lib"
  se_enabled :: bool
  se_zone :: string

definition scheduler_db_error :: exn where
  "scheduler_db_error = RuntimeErr ''OperationalError''"

text \<open>One pass over \<^verbatim>\<open>desired\<close>: an expression that is rejected leaves the job as it is.\<close>

fun add_jobs :: "'t cron_lib \<Rightarrow> scheduled_task list \<Rightarrow> (int \<Rightarrow> 't job option) \<Rightarrow> int \<Rightarrow> 't job option" where
  "add_jobs lib [] jobs = jobs"
| "add_jobs lib (t # ts) jobs =
     (case build_cron_trigger lib (st_cron t) (st_tz t) of
        None \<Rightarrow> add_jobs lib ts jobs
      | Some tr \<Rightarrow> add_jobs lib ts
          (jobs(st_id t \<mapsto> \<lparr>jb_task = st_id t, jb_trigger = tr, jb_grace = st_grace t\<rparr>)))"

definition remove_jobs :: "int list \<Rightarrow> (int \<Rightarrow> 't job option) \<Rightarrow> int \<Rightarrow> 't job option" where
  "remove_jobs keep jobs = (\<lambda>i. if i \<in> set keep then jobs i else None)"

text \<open>The database is \<open>None\<close> when the transaction that reads the tasks fails.\<close>

definition reconcile :: "'t sched_env \<Rightarrow> db option \<Rightarrow> 't controller \<Rightarrow> (exn + unit) \<times> 't controller" where
  "reconcile E dbo w =
     (case ct_jobs w of
        None \<Rightarrow> (Inr (), w)
      | Some jobs \<Rightarrow>
          (case dbo of
             None \<Rightarrow> (Inl scheduler_db_error, w)
           | Some d \<Rightarrow> (Inr (), w\<lparr>ct_jobs := Some (add_jobs (se_cron E) (list_enabled d)
               (remove_jobs (map st_id (list_enabled d)) jobs))\<rparr>)))"

text \<open>
  \<open>conn\<close> is the connection that the pool hands out, \<open>None\<close> when connecting fails.  A connection that
  is closed goes back to the pool: its session lives on, with the locks it has.  The leader's flag is
  set before the scheduler is built, and building it raises for an unknown time zone.
\<close>

definition try_acquire_leader ::
    "'t sched_env \<Rightarrow> int option \<Rightarrow> answer \<Rightarrow> db option \<Rightarrow> 't controller \<times> lock_server
      \<Rightarrow> (exn + bool) \<times> 't controller \<times> lock_server" where
  "try_acquire_leader E conn an dbo = (\<lambda>(w, s).
     if ct_leader w then (Inr True, w, s)
     else (case conn of
        None \<Rightarrow> (Inl scheduler_db_error, w, s)
      | Some c \<Rightarrow>
          (case ask an c (get_lock c) (open_session c s) of
             (None, s1) \<Rightarrow> (Inl scheduler_db_error, w, s1)
           | (Some got, s1) \<Rightarrow>
               if \<not> got then (Inr False, w, s1)
               else (let w1 = w\<lparr>ct_conn := Some c, ct_leader := True\<rparr>
                     in if \<not> tz_ok (se_cron E) (se_zone E)
                        then (Inl (RuntimeErr ''ZoneInfoNotFoundError''), w1, s1)
                        else (case reconcile E dbo (w1\<lparr>ct_jobs := Some (\<lambda>i. None)\<rparr>) of
                                (Inl e, w2) \<Rightarrow> (Inl e, w2, s1)
                              | (Inr _, w2) \<Rightarrow> (Inr True, w2, s1))))))"

text \<open>\<open>closes\<close>: \<^verbatim>\<open>invalidate\<close> reaches the server; otherwise the session lives on until the server ends it.\<close>

definition demote :: "bool \<Rightarrow> 't controller \<times> lock_server \<Rightarrow> 't controller \<times> lock_server" where
  "demote closes = (\<lambda>(w, s).
     (w\<lparr>ct_jobs := None, ct_conn := None, ct_leader := False\<rparr>,
      (case ct_conn w of Some c \<Rightarrow> if closes then end_session c s else s | None \<Rightarrow> s)))"

definition verify_leadership ::
    "answer \<Rightarrow> bool \<Rightarrow> 't controller \<times> lock_server \<Rightarrow> bool \<times> 't controller \<times> lock_server" where
  "verify_leadership an closes = (\<lambda>(w, s).
     (case ct_conn w of
        None \<Rightarrow> (False, w\<lparr>ct_leader := False\<rparr>, s)
      | Some c \<Rightarrow>
          (case ask an c (\<lambda>s. (holds_lock c s, s)) s of
             (Some True, s1) \<Rightarrow> (True, w, s1)
           | (Some False, s1) \<Rightarrow> (False, demote closes (w, s1))
           | (None, s1) \<Rightarrow> (False, demote closes (w, s1)))))"

text \<open>One period of \<^verbatim>\<open>_loop\<close>; what raises is logged.\<close>

definition loop_period ::
    "'t sched_env \<Rightarrow> int option \<Rightarrow> answer \<Rightarrow> bool \<Rightarrow> db option \<Rightarrow> 't controller \<times> lock_server
      \<Rightarrow> 't controller \<times> lock_server" where
  "loop_period E conn an closes dbo = (\<lambda>(w, s).
     if ct_leader w
     then (case verify_leadership an closes (w, s) of
             (True, w1, s1) \<Rightarrow> (snd (reconcile E dbo w1), s1)
           | (False, w1, s1) \<Rightarrow> (w1, s1))
     else snd (try_acquire_leader E conn an dbo (w, s)))"

definition start_controller ::
    "'t sched_env \<Rightarrow> int option \<Rightarrow> answer \<Rightarrow> db option \<Rightarrow> 't controller \<times> lock_server
      \<Rightarrow> (exn + unit) \<times> 't controller \<times> lock_server" where
  "start_controller E conn an dbo = (\<lambda>(w, s).
     if \<not> se_enabled E then (Inr (), w, s)
     else (case try_acquire_leader E conn an dbo (w, s) of
             (Inl e, ws) \<Rightarrow> (Inl e, ws)
           | (Inr _, w1, s1) \<Rightarrow> (Inr (), w1\<lparr>ct_loop := True\<rparr>, s1)))"

text \<open>The wait for the running wrappers is bounded; afterwards they are forgotten.\<close>

definition stop_controller :: "answer \<Rightarrow> 't controller \<times> lock_server \<Rightarrow> 't controller \<times> lock_server" where
  "stop_controller an = (\<lambda>(w, s).
     (w\<lparr>ct_loop := False, ct_jobs := None, ct_inflight := [], ct_conn := None, ct_leader := False\<rparr>,
      (case ct_conn w of
         None \<Rightarrow> s
       | Some c \<Rightarrow> snd (ask an c (\<lambda>s. ((), release_lock c s)) s))))"

section \<open>Firing\<close>

text \<open>\<^verbatim>\<open>_fire\<close>: the task is in flight while the executor runs it, whatever the executor raises.\<close>

definition begin_fire :: "int \<Rightarrow> 't controller \<Rightarrow> 't controller" where
  "begin_fire i w = w\<lparr>ct_inflight := i # ct_inflight w\<rparr>"

definition end_fire :: "int \<Rightarrow> 't controller \<Rightarrow> 't controller" where
  "end_fire i w = w\<lparr>ct_inflight := remove1 i (ct_inflight w)\<rparr>"

definition fire ::
    "'t exec_env \<Rightarrow> handler_env \<Rightarrow> bool \<Rightarrow> int \<Rightarrow> int \<Rightarrow> int \<Rightarrow> int \<Rightarrow> 't controller \<times> db
      \<Rightarrow> (exn + unit) \<times> 't controller \<times> db" where
  "fire env henv strikes i exec_id now done_at = (\<lambda>(w, d).
     (case run env henv strikes i TrigSchedule None None exec_id now done_at d of
        Inl e \<Rightarrow> (Inl e, end_fire i (begin_fire i w), d)
      | Inr (_, d') \<Rightarrow> (Inr (), end_fire i (begin_fire i w), d')))"

section \<open>Basic facts\<close>

lemma add_jobs_other: "i \<notin> st_id ` set ts \<Longrightarrow> add_jobs lib ts jobs i = jobs i"
  by (induction ts arbitrary: jobs) (auto split: option.splits)

lemma add_jobs_own:
  assumes "distinct (map st_id ts)" "t \<in> set ts"
  shows "add_jobs lib ts jobs (st_id t) =
    (case build_cron_trigger lib (st_cron t) (st_tz t) of
       None \<Rightarrow> jobs (st_id t)
     | Some tr \<Rightarrow> Some \<lparr>jb_task = st_id t, jb_trigger = tr, jb_grace = st_grace t\<rparr>)"
  using assms
proof (induction ts arbitrary: jobs)
  case (Cons x ts)
  show ?case
  proof (cases "t = x")
    case True
    then show ?thesis using Cons.prems add_jobs_other [of "st_id x" ts lib] by (auto split: option.splits)
  next
    case False
    then have "t \<in> set ts" using Cons.prems by simp
    then have "st_id t \<noteq> st_id x" using Cons.prems(1) by (auto simp: image_iff)
    then show ?thesis using Cons by (auto split: option.splits)
  qed
qed simp

lemma ask_None_or: "ask an c f s = (r, s') \<Longrightarrow> s' = s \<or> c \<in> set (ls_alive s) \<and> s' = snd (f s)"
  by (auto simp: ask_def split: if_splits answer.splits prod.splits)

lemma ask_SomeD: "ask an c f s = (Some x, s') \<Longrightarrow> c \<in> set (ls_alive s) \<and> f s = (x, s')"
  by (auto simp: ask_def split: if_splits answer.splits prod.splits)

lemma get_lock_TrueD: "get_lock c s = (True, s') \<Longrightarrow> holds_lock c s' \<and> ls_alive s' = ls_alive s"
  using mysql_lock.granted [of c s s'] by (auto simp: get_lock_def split: option.splits if_splits)

lemma get_lock_alive: "ls_alive (snd (get_lock c s)) = ls_alive s"
  by (auto simp: get_lock_def split: option.splits)

lemma release_lock_alive: "ls_alive (release_lock c s) = ls_alive s"
  by (auto simp: release_lock_def split: option.splits)

end
