(* ===== verification/SchedulerTheorems.thy ===== *)
theory SchedulerTheorems
  imports Scheduler TaskTheorems
begin

text \<open>
  Properties of the scheduler's election: any number of workers, sessions that end at any time,
  statements that fail or take effect unanswered.
\<close>

section \<open>The cluster\<close>

record 't cluster =
  cl_workers :: "nat \<Rightarrow> 't controller"
  cl_server :: lock_server
  cl_db :: db

definition in_use :: "'t cluster \<Rightarrow> int \<Rightarrow> bool" where
  "in_use K c \<longleftrightarrow> (\<exists>i. ct_conn (cl_workers K i) = Some c)"

definition put_worker :: "nat \<Rightarrow> 't controller \<times> lock_server \<Rightarrow> 't cluster \<Rightarrow> 't cluster" where
  "put_worker i ws K = K\<lparr>cl_workers := (cl_workers K)(i := fst ws), cl_server := snd ws\<rparr>"

text \<open>A pool hands out connections that nobody uses.\<close>

definition pool_gives :: "'t cluster \<Rightarrow> int option \<Rightarrow> bool" where
  "pool_gives K conn \<longleftrightarrow> (case conn of None \<Rightarrow> True | Some c \<Rightarrow> \<not> in_use K c)"

inductive cluster_step :: "'t sched_env \<Rightarrow> 't cluster \<Rightarrow> 't cluster \<Rightarrow> bool" for E where
  start: "cl_workers K i = new_controller \<Longrightarrow> pool_gives K conn \<Longrightarrow> dbo \<in> {None, Some (cl_db K)} \<Longrightarrow>
    K' = put_worker i (snd (start_controller E conn an dbo (new_controller, cl_server K))) K \<Longrightarrow> cluster_step E K K'"
| period: "pool_gives K conn \<Longrightarrow> dbo \<in> {None, Some (cl_db K)} \<Longrightarrow>
    K' = put_worker i (loop_period E conn an closes dbo (cl_workers K i, cl_server K)) K \<Longrightarrow> cluster_step E K K'"
| stop: "K' = put_worker i (stop_controller an (cl_workers K i, cl_server K)) K \<Longrightarrow> cluster_step E K K'"
| crash: "K' = put_worker i (new_controller, cl_server K) K \<Longrightarrow> cluster_step E K K'"
| session_ends: "K' = K\<lparr>cl_server := end_session c (cl_server K)\<rparr> \<Longrightarrow> cluster_step E K K'"
| fires: "ct_jobs (cl_workers K i) = Some jobs \<Longrightarrow> jobs t \<noteq> None \<Longrightarrow>
    K' = put_worker i (begin_fire t (cl_workers K i), cl_server K) K \<Longrightarrow> cluster_step E K K'"
| fired: "K' = put_worker i (end_fire t (cl_workers K i), cl_server K) K \<Longrightarrow> cluster_step E K K'"
| database: "sched_step job_registry (se_cron E) (cl_db K) d \<Longrightarrow> K' = K\<lparr>cl_db := d\<rparr> \<Longrightarrow> cluster_step E K K'"

definition fresh_cluster :: "'t cluster \<Rightarrow> bool" where
  "fresh_cluster K \<longleftrightarrow> (\<forall>i. cl_workers K i = new_controller) \<and> ls_lock (cl_server K) = None \<and>
     sched_tasks (cl_db K) = empty_table \<and> task_logs (cl_db K) = empty_table"

section \<open>One controller\<close>

definition controller_ok :: "'t sched_env \<Rightarrow> 't controller \<Rightarrow> bool" where
  "controller_ok E w \<longleftrightarrow> (ct_leader w \<longleftrightarrow> ct_conn w \<noteq> None) \<and> (ct_jobs w \<noteq> None \<longrightarrow> ct_leader w) \<and>
     (tz_ok (se_cron E) (se_zone E) \<longrightarrow> ct_leader w \<longrightarrow> ct_jobs w \<noteq> None)"

text \<open>Who a worker's leadership rests on: the session of its connection has the lock.\<close>

definition owner :: "'t controller \<times> lock_server \<Rightarrow> bool" where
  "owner ws \<longleftrightarrow> (case ct_conn (fst ws) of None \<Rightarrow> False | Some c \<Rightarrow> holds_lock c (snd ws))"

lemma reconcile_keeps:
  "ct_leader (snd (reconcile E dbo w)) = ct_leader w"
  "ct_conn (snd (reconcile E dbo w)) = ct_conn w"
  "ct_jobs (snd (reconcile E dbo w)) = None \<longleftrightarrow> ct_jobs w = None"
  by (simp_all add: reconcile_def split: option.splits)

lemma reconcile_ok: "controller_ok E w \<Longrightarrow> controller_ok E (snd (reconcile E dbo w))"
  by (auto simp: controller_ok_def reconcile_def split: option.splits)

lemma new_controller_ok: "controller_ok E new_controller"
  by (simp add: controller_ok_def new_controller_def)

text \<open>What an attempt to become the leader can end in.\<close>

lemma try_acquire_cases:
  assumes "try_acquire_leader E conn an dbo (w, s) = (r, w', s')" "\<not> ct_leader w"
  obtains (same) "w' = w" "\<forall>h. holds_lock h s' \<longrightarrow> holds_lock h s \<or> Some h = conn"
      "\<not> ct_leader w'" "set (ls_alive s) \<subseteq> set (ls_alive s')" "\<forall>h. holds_lock h s \<longrightarrow> holds_lock h s'"
      "\<forall>h. holds_lock h s' \<longrightarrow> holds_lock h s \<or> h \<in> set (ls_alive s')"
    | (leads) c where "conn = Some c" "ct_conn w' = Some c" "ct_leader w'" "holds_lock c s'"
      "ct_jobs w' \<noteq> None \<longleftrightarrow> ct_jobs w \<noteq> None \<or> tz_ok (se_cron E) (se_zone E)"
      "set (ls_alive s) \<subseteq> set (ls_alive s')" "c \<in> set (ls_alive s')" "\<forall>d. holds_lock d s \<longrightarrow> d = c"
proof (cases conn)
  case None
  with assms that(1) show ?thesis by (auto simp: try_acquire_leader_def)
next
  case (Some c)
  obtain a s1 where a: "ask an c (get_lock c) (open_session c s) = (a, s1)" by fastforce
  have o: "ls_lock (open_session c s) = ls_lock s" "set (ls_alive s) \<subseteq> set (ls_alive (open_session c s))"
    "c \<in> set (ls_alive (open_session c s))"
    by (auto simp: open_session_def)
  have h: "holds_lock h (open_session c s) = holds_lock h s" for h by (simp add: holds_lock_def o)
  show ?thesis
  proof (cases "a = Some True")
    case True
    have g: "get_lock c (open_session c s) = (True, s1)" using ask_SomeD [OF a [unfolded True]] by simp
    have l: "\<forall>d. holds_lock d s \<longrightarrow> d = c" using mysql_lock.granted [OF g] h by blast
    from get_lock_TrueD [OF g] have "holds_lock c s1" "ls_alive s1 = ls_alive (open_session c s)" by auto
    with assms Some a True o l that(2) [OF Some] show ?thesis
      by (auto simp: try_acquire_leader_def Let_def reconcile_def split: if_splits option.splits)
  next
    case False
    then have w: "w' = w" "s' = s1" using assms Some a
      by (auto simp: try_acquire_leader_def split: option.splits)
    have s1: "s1 = open_session c s \<or> s1 = snd (get_lock c (open_session c s))"
      using ask_None_or [OF a] by auto
    have x: "\<forall>x. holds_lock x s1 \<longrightarrow> holds_lock x s \<or> x = c" "\<forall>x. holds_lock x s \<longrightarrow> holds_lock x s1"
      "ls_alive s1 = ls_alive (open_session c s)"
      using s1 get_lock_alive [of c "open_session c s"]
      by (auto simp: get_lock_def holds_lock_def o split: option.splits if_splits)
    show ?thesis by (rule that(1)) (use w x o Some assms(2) in auto)
  qed
qed

lemma try_acquire_leads_already:
  "ct_leader w \<Longrightarrow> try_acquire_leader E conn an dbo (w, s) = (Inr True, w, s)"
  by (simp add: try_acquire_leader_def)

lemma verify_cases:
  assumes "verify_leadership an closes (w, s) = (b, w', s')" "controller_ok E w" "ct_leader w"
  obtains (kept) "b" "w' = w" "s' = s" "owner (w, s)"
    | (demoted) c where "\<not> b" "w' = w\<lparr>ct_jobs := None, ct_conn := None, ct_leader := False\<rparr>"
      "s' = s \<or> s' = end_session c s" "ct_conn w = Some c"
proof -
  from assms(2,3) obtain c where c: "ct_conn w = Some c" by (auto simp: controller_ok_def)
  obtain a s1 where a: "ask an c (\<lambda>s. (holds_lock c s, s)) s = (a, s1)" by fastforce
  from ask_None_or [OF a] have s1: "s1 = s" by auto
  show ?thesis
  proof (cases "a = Some True")
    case True
    with ask_SomeD [of an c _ s True s1] a have "holds_lock c s" by auto
    with True a s1 c assms(1) show ?thesis by (intro kept) (auto simp: verify_leadership_def owner_def)
  next
    case False
    with a s1 c assms(1) show ?thesis
      by (intro demoted [of c]) (auto simp: verify_leadership_def demote_def split: option.splits bool.splits if_splits)
  qed
qed

lemma controller_ok_demoted: "controller_ok E (w\<lparr>ct_jobs := None, ct_conn := None, ct_leader := False\<rparr>)"
  by (simp add: controller_ok_def)

text \<open>The ends of a period: what it does to the worker and to the lock.\<close>

definition server_ok :: "lock_server \<Rightarrow> bool" where
  "server_ok s \<longleftrightarrow> (\<forall>h. holds_lock h s \<longrightarrow> h \<in> set (ls_alive s))"

lemma server_ok_end: "server_ok s \<Longrightarrow> server_ok (end_session c s)"
  by (auto simp: server_ok_def end_session_def holds_lock_def split: option.splits if_splits)

lemma server_ok_release: "server_ok s \<Longrightarrow> server_ok (snd (ask an c (\<lambda>s. ((), release_lock c s)) s))"
  by (auto simp: server_ok_def ask_def release_lock_def holds_lock_def split: option.splits answer.splits prod.splits)

lemma acquire_ok:
  assumes "controller_ok E w" "server_ok s" "try_acquire_leader E conn an dbo (w, s) = (r, w', s')"
  shows "controller_ok E w' \<and> server_ok s' \<and> ct_conn w' \<in> {ct_conn w, conn} \<and> ct_inflight w' = ct_inflight w \<and>
    (ct_leader w' \<longrightarrow> ct_leader w \<or> owner (w', s'))"
proof (cases "ct_leader w")
  case True
  then show ?thesis using assms by (simp add: try_acquire_leads_already)
next
  case False
  have i: "ct_inflight w' = ct_inflight w"
    using assms(3) False by (auto simp: try_acquire_leader_def Let_def reconcile_def split: option.splits prod.splits if_splits)
  show ?thesis
    using assms(3) False
  proof (cases rule: try_acquire_cases)
    case same
    then show ?thesis using assms(1,2) i by (auto simp: server_ok_def)
  next
    case (leads c)
    have "server_ok s'" using leads(4,7) by (auto simp: server_ok_def holds_lock_def split: option.splits)
    then show ?thesis using leads i by (simp add: controller_ok_def owner_def)
  qed
qed

lemma period_ok:
  assumes "controller_ok E w" "server_ok s" "loop_period E conn an closes dbo (w, s) = (w', s')"
  shows "controller_ok E w' \<and> server_ok s' \<and> ct_conn w' \<in> {ct_conn w, conn, None} \<and> (ct_leader w' \<longrightarrow> owner (w', s'))"
proof (cases "ct_leader w")
  case True
  obtain b w1 s1 where v: "verify_leadership an closes (w, s) = (b, w1, s1)" by (metis prod_cases3)
  show ?thesis
    using v assms(1) True
  proof (cases rule: verify_cases)
    case kept
    then have "w' = snd (reconcile E dbo w)" "s' = s" using assms(3) True v by (auto simp: loop_period_def)
    with kept assms(2) reconcile_ok [OF assms(1), of dbo] show ?thesis
      by (simp add: owner_def reconcile_keeps split: option.splits)
  next
    case (demoted c)
    with assms True v server_ok_end show ?thesis
      by (auto simp: loop_period_def controller_ok_demoted)
  qed
next
  case False
  obtain r w1 s1 where t: "try_acquire_leader E conn an dbo (w, s) = (r, w1, s1)" by (metis prod_cases3)
  from acquire_ok [OF assms(1,2) t] False assms(3) t show ?thesis by (auto simp: loop_period_def)
qed

section \<open>The invariant of the cluster\<close>

definition cluster_inv :: "'t sched_env \<Rightarrow> 't cluster \<Rightarrow> bool" where
  "cluster_inv E K \<longleftrightarrow> (\<forall>i. controller_ok E (cl_workers K i)) \<and>
     (\<forall>i j c. ct_conn (cl_workers K i) = Some c \<longrightarrow> ct_conn (cl_workers K j) = Some c \<longrightarrow> i = j) \<and>
     server_ok (cl_server K) \<and> tasks_ok job_registry (se_cron E) (cl_db K)"

lemma cluster_inv_put:
  assumes inv: "cluster_inv E K" and w: "controller_ok E w'" "server_ok s'"
    and conn: "ct_conn w' \<in> {ct_conn (cl_workers K i), conn, None}" "pool_gives K conn"
  shows "cluster_inv E (put_worker i (w', s') K)"
proof -
  have d: "\<forall>j. j \<noteq> i \<longrightarrow> (\<forall>c. ct_conn w' = Some c \<longrightarrow> ct_conn (cl_workers K j) \<noteq> Some c)"
  proof (intro allI impI notI)
    fix j c
    assume j: "j \<noteq> i" and c: "ct_conn w' = Some c" "ct_conn (cl_workers K j) = Some c"
    from conn(1) c(1) consider "ct_conn (cl_workers K i) = Some c" | "conn = Some c" by auto
    then show False
      using inv j c conn(2) by cases (auto simp: cluster_inv_def pool_gives_def in_use_def)
  qed
  have o: "cl_workers (put_worker i (w', s') K) k = (if k = i then w' else cl_workers K k)" for k
    by (simp add: put_worker_def)
  have "a = b" if "ct_conn (cl_workers (put_worker i (w', s') K) a) = Some c"
    "ct_conn (cl_workers (put_worker i (w', s') K) b) = Some c" for a b c
    using that d inv unfolding o cluster_inv_def by (cases "a = i"; cases "b = i") auto
  moreover have "\<forall>k. controller_ok E (cl_workers (put_worker i (w', s') K) k)"
    using inv w(1) by (simp add: o cluster_inv_def)
  moreover have "server_ok (cl_server (put_worker i (w', s') K))"
    "tasks_ok job_registry (se_cron E) (cl_db (put_worker i (w', s') K))"
    using inv w(2) by (simp_all add: put_worker_def cluster_inv_def)
  ultimately show ?thesis unfolding cluster_inv_def by blast
qed

lemma cluster_inv_same: "cluster_inv E K \<Longrightarrow> controller_ok E w' \<Longrightarrow> server_ok s' \<Longrightarrow>
    ct_conn w' \<in> {ct_conn (cl_workers K i), None} \<Longrightarrow> cluster_inv E (put_worker i (w', s') K)"
  by (rule cluster_inv_put [of E K w' s' i None]) (auto simp: pool_gives_def)

lemma cluster_inv_step:
  assumes "cluster_step E K K'" "cluster_inv E K"
  shows "cluster_inv E K'"
  using assms(1)
proof cases
  case (start i conn dbo an)
  have n: "controller_ok E (new_controller :: 'a controller)" by (rule new_controller_ok)
  have s: "server_ok (cl_server K)" using assms(2) by (simp add: cluster_inv_def)
  obtain r w1 s1 where t: "try_acquire_leader E conn an dbo (new_controller, cl_server K) = (r, w1, s1)"
    by (metis prod_cases3)
  from acquire_ok [OF n s t] have ok: "controller_ok E w1" "server_ok s1" "ct_conn w1 \<in> {None, conn}"
    by (auto simp: new_controller_def)
  have l: "controller_ok E (w1\<lparr>ct_loop := True\<rparr>)" using ok(1) by (auto simp: controller_ok_def)
  have "snd (start_controller E conn an dbo (new_controller, cl_server K)) \<in>
      {(new_controller, cl_server K), (w1, s1), (w1\<lparr>ct_loop := True\<rparr>, s1)}"
    by (auto simp: start_controller_def t split: sum.splits)
  then show ?thesis
    unfolding start(4)
    using cluster_inv_put [OF assms(2) n s _ start(2), of i] cluster_inv_put [OF assms(2) ok(1,2) _ start(2), of i]
      cluster_inv_put [OF assms(2) l ok(2) _ start(2), of i] ok(3) by (auto simp: new_controller_def)
next
  case (period conn dbo i an closes)
  obtain w' s' where p: "loop_period E conn an closes dbo (cl_workers K i, cl_server K) = (w', s')" by fastforce
  have "controller_ok E w' \<and> server_ok s' \<and> ct_conn w' \<in> {ct_conn (cl_workers K i), conn, None}"
    using period_ok [OF _ _ p] assms(2) by (simp add: cluster_inv_def)
  with cluster_inv_put [OF assms(2) _ _ _ period(1)] show ?thesis unfolding period(3) p by blast
next
  case (stop i an)
  obtain w' s' where p: "stop_controller an (cl_workers K i, cl_server K) = (w', s')" by fastforce
  have "controller_ok E w'" "ct_conn w' = None" using p by (auto simp: stop_controller_def controller_ok_def)
  moreover have "server_ok s'" using p assms(2) server_ok_release
    by (auto simp: stop_controller_def cluster_inv_def split: option.splits)
  ultimately show ?thesis unfolding stop p by (intro cluster_inv_same [OF assms(2)]) auto
next
  case (crash i)
  show ?thesis unfolding crash
    using assms(2) by (intro cluster_inv_same [OF assms(2)] new_controller_ok) (auto simp: cluster_inv_def new_controller_def)
next
  case (session_ends c)
  then show ?thesis using assms(2) server_ok_end by (auto simp: cluster_inv_def)
next
  case (fires i jobs t)
  have "controller_ok E (cl_workers K i)" "server_ok (cl_server K)" using assms(2) by (simp_all add: cluster_inv_def)
  then show ?thesis unfolding fires(3)
    by (intro cluster_inv_same [OF assms(2)]) (auto simp: controller_ok_def begin_fire_def)
next
  case (fired i t)
  have "controller_ok E (cl_workers K i)" "server_ok (cl_server K)" using assms(2) by (simp_all add: cluster_inv_def)
  then show ?thesis unfolding fired
    by (intro cluster_inv_same [OF assms(2)]) (auto simp: controller_ok_def end_fire_def)
next
  case (database d)
  have "tasks_ok job_registry (se_cron E) d"
    using assms(2) tasks_ok_step [OF database(1)] by (simp add: cluster_inv_def)
  then show ?thesis using assms(2) database(2) by (simp add: cluster_inv_def)
qed

lemma cluster_inv_fresh: "fresh_cluster K \<Longrightarrow> cluster_inv E K"
  by (simp add: fresh_cluster_def cluster_inv_def new_controller_ok server_ok_def holds_lock_def tasks_ok_def
      coded_ok_def table_ok_def empty_table_def) (simp add: new_controller_def)

lemma cluster_inv_steps: "(cluster_step E)\<^sup>*\<^sup>* K0 K \<Longrightarrow> fresh_cluster K0 \<Longrightarrow> cluster_inv E K"
  by (induction rule: rtranclp_induct) (auto intro: cluster_inv_fresh cluster_inv_step)

section \<open>The jobs of a leader\<close>

definition wanted_jobs :: "'t cron_lib \<Rightarrow> db \<Rightarrow> int \<Rightarrow> 't job option" where
  "wanted_jobs lib d i =
     (case get_task d i of
        None \<Rightarrow> None
      | Some t \<Rightarrow> if st_status t \<noteq> TaskEnabled then None
          else map_option (\<lambda>tr. \<lparr>jb_task = i, jb_trigger = tr, jb_grace = st_grace t\<rparr>)
            (build_cron_trigger lib (st_cron t) (st_tz t)))"

lemma reconciled_jobs:
  assumes ok: "tasks_ok job_registry lib d"
  shows "add_jobs lib (list_enabled d) (remove_jobs (map st_id (list_enabled d)) jobs) = wanted_jobs lib d"
proof
  fix i
  have keys: "distinct (map st_id (rows (sched_tasks d)))" "\<forall>t \<in> set (rows (sched_tasks d)). runnable job_registry lib t"
    using ok by (auto simp: tasks_ok_def coded_ok_def table_ok_def)
  then have e: "distinct (map st_id (list_enabled d))" by (simp add: list_enabled_def distinct_map_filter)
  show "add_jobs lib (list_enabled d) (remove_jobs (map st_id (list_enabled d)) jobs) i = wanted_jobs lib d i"
  proof (cases "\<exists>t \<in> set (list_enabled d). st_id t = i")
    case True
    then obtain t where t: "t \<in> set (list_enabled d)" "st_id t = i" by auto
    then have r: "t \<in> set (rows (sched_tasks d))" "st_status t = TaskEnabled" by (auto simp: list_enabled_def)
    then have g: "get_task d i = Some t"
      using ok t(2) get_row_Some_iff [of st_id "sched_tasks d" i t]
      by (simp add: get_task_def tasks_ok_def coded_ok_def)
    from r keys(2) obtain tr where tr: "build_cron_trigger lib (st_cron t) (st_tz t) = Some tr"
      by (auto simp: runnable_def validate_cron_def)
    show ?thesis using add_jobs_own [OF e t(1), of lib] t(2) g tr r(2) by (simp add: wanted_jobs_def)
  next
    case False
    then have "remove_jobs (map st_id (list_enabled d)) jobs i = None" by (auto simp: remove_jobs_def)
    moreover have "wanted_jobs lib d i = None"
      using False get_row_SomeD [of st_id "sched_tasks d" i]
      by (auto simp: wanted_jobs_def get_task_def list_enabled_def split: option.splits)
    moreover have "i \<notin> st_id ` set (list_enabled d)" using False by blast
    ultimately show ?thesis using add_jobs_other [of i "list_enabled d" lib] by simp
  qed
qed

lemma reconcile_wanted:
  assumes "tasks_ok job_registry (se_cron E) d" "ct_jobs w \<noteq> None"
  shows "reconcile E (Some d) w = (Inr (), w\<lparr>ct_jobs := Some (wanted_jobs (se_cron E) d)\<rparr>)"
  using assms(2) reconciled_jobs [OF assms(1)] by (auto simp: reconcile_def)

lemma acquire_wanted:
  assumes "tasks_ok job_registry (se_cron E) d" "tz_ok (se_cron E) (se_zone E)" "\<not> ct_leader w"
    and "try_acquire_leader E conn an (Some d) (w, s) = (r, w', s')" "ct_leader w'"
  shows "ct_jobs w' = Some (wanted_jobs (se_cron E) d)"
  using assms reconciled_jobs [OF assms(1)]
  by (auto simp: try_acquire_leader_def reconcile_def Let_def split: option.splits prod.splits if_splits)

text \<open>Another worker's period while somebody has the lock.\<close>

lemma period_of_other:
  assumes ok: "controller_ok E w" "holds_lock c s" and other: "ct_conn w \<noteq> Some c" "conn \<noteq> Some c"
    and p: "loop_period E conn an closes dbo (w, s) = (w', s')"
  shows "\<not> ct_leader w' \<and> ct_jobs w' = None \<and> holds_lock c s'"
proof (cases "ct_leader w")
  case True
  obtain b w1 s1 where v: "verify_leadership an closes (w, s) = (b, w1, s1)" by (metis prod_cases3)
  show ?thesis
    using v ok(1) True
  proof (cases rule: verify_cases)
    case kept
    then show ?thesis using mysql_lock.one [OF ok(2)] other(1) by (auto simp: owner_def split: option.splits)
  next
    case (demoted h)
    have "holds_lock c (end_session h s)" by (rule mysql_lock.others_stay [OF ok(2)]) (use other(1) demoted(4) in auto)
    with demoted ok(2) p True v show ?thesis by (auto simp: loop_period_def)
  qed
next
  case False
  obtain r w1 s1 where t: "try_acquire_leader E conn an dbo (w, s) = (r, w1, s1)" by (metis prod_cases3)
  then have q: "w' = w1" "s' = s1" using p False by (auto simp: loop_period_def)
  show ?thesis
    using t False
  proof (cases rule: try_acquire_cases)
    case same
    then show ?thesis using ok q False by (auto simp: controller_ok_def)
  next
    case (leads h)
    then show ?thesis using ok(2) other(2) by blast
  qed
qed

lemma period_takes_free_lock:
  assumes "\<not> ct_leader w" "ls_lock s = None" "tz_ok (se_cron E) (se_zone E)"
  shows "ct_leader (fst (loop_period E (Some c) Answered closes dbo (w, s)))"
  using assms
  by (auto simp: loop_period_def try_acquire_leader_def ask_def open_session_def get_lock_def Let_def reconcile_def
      split: option.splits)

lemma period_jobs:
  assumes ok: "controller_ok E w" "tasks_ok job_registry (se_cron E) d" "tz_ok (se_cron E) (se_zone E)"
    and p: "loop_period E conn an closes (Some d) (w, s) = (w', s')" "ct_leader w'"
  shows "ct_jobs w' = Some (wanted_jobs (se_cron E) d)"
proof (cases "ct_leader w")
  case True
  obtain b w1 s1 where v: "verify_leadership an closes (w, s) = (b, w1, s1)" by (metis prod_cases3)
  show ?thesis
    using v ok(1) True
  proof (cases rule: verify_cases)
    case kept
    then have "w' = snd (reconcile E (Some d) w)" using p True v by (auto simp: loop_period_def)
    moreover have "ct_jobs w \<noteq> None" using ok True by (auto simp: controller_ok_def)
    ultimately show ?thesis using reconcile_wanted [OF ok(2)] by simp
  next
    case (demoted h)
    then show ?thesis using p True v by (auto simp: loop_period_def)
  qed
next
  case False
  obtain r w1 s1 where t: "try_acquire_leader E conn an (Some d) (w, s) = (r, w1, s1)" by (metis prod_cases3)
  then show ?thesis using acquire_wanted [OF ok(2,3) False t] p False by (auto simp: loop_period_def)
qed

text \<open>
  C38 Whatever workers start, stop, crash and are polled, whatever sessions end and statements fail:
  at most one worker's session has the lock; a worker that leads after its period of the loop has it,
  and then every other worker's next period ends without leadership and without jobs; the jobs of a
  leader that could read the tasks are exactly the enabled tasks with their current triggers; and a
  free lock is taken by the next worker that is polled and answered.
\<close>

theorem scheduler_follows_lock:
  assumes "fresh_cluster K0" "(cluster_step E)\<^sup>*\<^sup>* K0 K" "pool_gives K conn" "dbo \<in> {None, Some (cl_db K)}"
    and "loop_period E conn an closes dbo (cl_workers K i, cl_server K) = (w', s')"
  shows "(\<forall>a b. owner (cl_workers K a, cl_server K) \<and> owner (cl_workers K b, cl_server K) \<longrightarrow> a = b) \<and>
    (ct_leader w' \<longrightarrow> owner (w', s') \<and>
       (\<forall>j conn2 an2 closes2 dbo2. j \<noteq> i \<and> conn2 \<noteq> ct_conn w' \<longrightarrow>
          (let v = fst (loop_period E conn2 an2 closes2 dbo2 (cl_workers K j, s')) in \<not> ct_leader v \<and> ct_jobs v = None))) \<and>
    (\<not> ct_leader w' \<longrightarrow> ct_jobs w' = None) \<and>
    (tz_ok (se_cron E) (se_zone E) \<longrightarrow>
       (ct_leader w' \<and> dbo = Some (cl_db K) \<longrightarrow> ct_jobs w' = Some (wanted_jobs (se_cron E) (cl_db K))) \<and>
       (ls_lock (cl_server K) = None \<and> conn \<noteq> None \<and> an = Answered \<and> \<not> ct_leader (cl_workers K i) \<longrightarrow> ct_leader w'))"
proof -
  have inv: "cluster_inv E K" by (rule cluster_inv_steps [OF assms(2,1)])
  then have c: "\<And>j. controller_ok E (cl_workers K j)" and s: "server_ok (cl_server K)"
    and t: "tasks_ok job_registry (se_cron E) (cl_db K)" by (simp_all add: cluster_inv_def)
  from period_ok [OF c s assms(5)] have p: "controller_ok E w'" "ct_conn w' \<in> {ct_conn (cl_workers K i), conn, None}"
    "ct_leader w' \<longrightarrow> owner (w', s')" by auto
  have one: "a = b" if "owner (cl_workers K a, cl_server K)" "owner (cl_workers K b, cl_server K)" for a b
    using that inv mysql_lock.one by (fastforce simp: owner_def cluster_inv_def split: option.splits)
  have others: "\<not> ct_leader v \<and> ct_jobs v = None"
    if l: "ct_leader w'" and j: "j \<noteq> i" "conn2 \<noteq> ct_conn w'"
      and v: "v = fst (loop_period E conn2 an2 closes2 dbo2 (cl_workers K j, s'))" for j conn2 an2 closes2 dbo2 v
  proof -
    obtain x where x: "ct_conn w' = Some x" "holds_lock x s'"
      using p(3) l by (auto simp: owner_def split: option.splits)
    have "ct_conn (cl_workers K j) \<noteq> Some x"
    proof
      assume y: "ct_conn (cl_workers K j) = Some x"
      have "ct_conn (cl_workers K i) \<noteq> Some x" using inv y j(1) unfolding cluster_inv_def by blast
      then have "conn = Some x" using p(2) x(1) by auto
      then show False using assms(3) y by (auto simp: pool_gives_def in_use_def)
    qed
    then show ?thesis
      using period_of_other [OF c x(2) _ _ surjective_pairing, of j conn2 an2 closes2 dbo2] j(2) x(1) v by simp
  qed
  have jobs: "ct_jobs w' = Some (wanted_jobs (se_cron E) (cl_db K))"
    if "tz_ok (se_cron E) (se_zone E)" "ct_leader w'" "dbo = Some (cl_db K)"
    using period_jobs [OF c t that(1)] assms(5) that(2,3) by blast
  have takes: "ct_leader w'"
    if "tz_ok (se_cron E) (se_zone E)" "ls_lock (cl_server K) = None" "conn \<noteq> None" "an = Answered"
      "\<not> ct_leader (cl_workers K i)"
    using period_takes_free_lock [OF that(5,2,1)] that(3,4) assms(5) by (metis fst_conv not_None_eq)
  have none: "\<not> ct_leader w' \<longrightarrow> ct_jobs w' = None" using p(1) by (auto simp: controller_ok_def)
  show ?thesis
    unfolding Let_def
    apply (intro conjI allI impI)
    subgoal using one by blast
    subgoal using p(3) by blast
    subgoal using others by blast
    subgoal using others by blast
    subgoal using none by blast
    subgoal using jobs by blast
    subgoal using takes by blast
    done
qed

text \<open>A worker polled after a task has been created.\<close>

definition demo_sched :: "unit sched_env" where
  "demo_sched = \<lparr>se_cron = minute_lib, se_enabled = True, se_zone = ''UTC''\<rparr>"

definition demo_cluster :: "db \<Rightarrow> unit cluster" where
  "demo_cluster d = \<lparr>cl_workers = (\<lambda>i. new_controller), cl_server = \<lparr>ls_alive = [], ls_lock = None\<rparr>, cl_db = d\<rparr>"

lemma demo_cluster_reached: "(cluster_step demo_sched)\<^sup>*\<^sup>* (demo_cluster empty_db) (demo_cluster minute_db)"
proof -
  have "sched_step job_registry minute_lib empty_db minute_db" by (rule sched_step.create [OF minute_created])
  then have "cluster_step demo_sched (demo_cluster empty_db) (demo_cluster minute_db)"
    by (intro cluster_step.database [of demo_sched _ minute_db]) (simp_all add: demo_sched_def demo_cluster_def)
  then show ?thesis by simp
qed

theorem scheduler_follows_lock_witness:
  "\<exists>w' s'. loop_period demo_sched (Some 7) Answered True (Some minute_db) (new_controller, \<lparr>ls_alive = [], ls_lock = None\<rparr>) = (w', s') \<and>
     ct_leader w' \<and> owner (w', s') \<and> ct_jobs w' = Some (wanted_jobs minute_lib minute_db)"
proof -
  obtain w' s' where p: "loop_period demo_sched (Some 7) Answered True (Some minute_db)
      (cl_workers (demo_cluster minute_db) 0, cl_server (demo_cluster minute_db)) = (w', s')" by fastforce
  have f: "fresh_cluster (demo_cluster empty_db)"
    by (simp add: fresh_cluster_def demo_cluster_def empty_db_def)
  have g: "pool_gives (demo_cluster minute_db) (Some 7)"
    by (simp add: pool_gives_def in_use_def demo_cluster_def new_controller_def)
  from scheduler_follows_lock [OF f demo_cluster_reached g _ p]
  have "ct_leader w' \<and> owner (w', s') \<and> ct_jobs w' = Some (wanted_jobs minute_lib minute_db)"
    by (simp add: demo_cluster_def demo_sched_def minute_lib_def new_controller_def)
  with p show ?thesis by (auto simp: demo_cluster_def)
qed

section \<open>A leader without a scheduler\<close>

text \<open>
  The leader's flag is set before the scheduler is built: with a time zone that \<^verbatim>\<open>ZoneInfo\<close> does not
  know, a worker that takes the lock in its loop keeps it and never schedules anything, and no other
  worker can take over as long as the session lives.
\<close>

lemma unknown_zone_blocks_scheduling:
  assumes "\<not> tz_ok (se_cron E) (se_zone E)" "ls_lock s = None" "\<not> ct_leader w" "ct_jobs w = None"
    and "loop_period E (Some c) Answered closes dbo (w, s) = (w', s')"
  shows "ct_leader w' \<and> ct_jobs w' = None \<and> holds_lock c s' \<and>
    loop_period E conn2 Answered closes2 dbo2 (w', s') = (w', s')"
  using assms
  by (auto simp: loop_period_def try_acquire_leader_def ask_def open_session_def get_lock_def Let_def
      holds_lock_def verify_leadership_def reconcile_def split: if_splits)

end
