(* ===== verification/Cli.thy ===== *)
theory Cli
  imports Seed UserService RefreshTokens
begin

text \<open>
  \<^verbatim>\<open>cli.py\<close>: the commands that create the super administrator, apply the built-in menus and delete
  expired refresh tokens.  Parsing the command line is \<^verbatim>\<open>argparse\<close>'s; the environment variable with
  the password is an argument, and a \<^verbatim>\<open>CliError\<close> carries a label for its Chinese message.  Each command is one transaction, so a failure
  leaves the database as it was.
\<close>

section \<open>The super administrator\<close>

datatype cli_error = CliError string

text \<open>\<^verbatim>\<open>str.isprintable\<close> and \<^verbatim>\<open>str.isspace\<close> of a character below 256.\<close>

definition py_printable :: "char \<Rightarrow> bool" where
  "py_printable c \<longleftrightarrow>
     (let n = (of_char c :: nat) in 32 \<le> n \<and> n \<le> 126 \<or> 161 \<le> n \<and> n \<noteq> 173)"

definition validate_username :: "string \<Rightarrow> cli_error + string" where
  "validate_username name =
     (if name \<noteq> py_strip name \<or> name = [] then Inl (CliError ''username empty or padded'')
      else if length name > 64 then Inl (CliError ''username too long'')
      else if \<not> list_all py_printable name \<or> list_ex py_ws name
           then Inl (CliError ''username not printable'')
      else Inr name)"

text \<open>\<^verbatim>\<open>os.environ.get(name, "")\<close>: \<open>None\<close> is an unset variable.\<close>

definition read_password :: "string option \<Rightarrow> string \<Rightarrow> cli_error + string" where
  "read_password env name =
     (let pw = (case env of None \<Rightarrow> [] | Some v \<Rightarrow> v)
      in if pw = [] \<or> pw \<noteq> py_strip pw then Inl (CliError ''password unset or padded'')
         else if length pw < 12 then Inl (CliError ''password too short'')
         else if pw = name then Inl (CliError ''password equals username'')
         else Inr pw)"

definition new_super_admin :: "string \<Rightarrow> string \<Rightarrow> int \<Rightarrow> int \<Rightarrow> user" where
  "new_super_admin name hash now i = \<lparr>u_id = i, u_username = name, u_password_hash = hash, u_nickname = [],
     u_status = Active, u_super = True, u_dept = None, u_created = now\<rparr>"

definition cli_create :: "crypto \<Rightarrow> string \<Rightarrow> int \<Rightarrow> string \<Rightarrow> string \<Rightarrow> db \<Rightarrow> cli_error + int \<times> db" where
  "cli_create C salt now name pw d =
     (if list_ex u_super (rows (users d)) then Inl (CliError ''super administrator exists'')
      else if find_user_by_name d name \<noteq> None then Inl (CliError ''unique constraint'')
      else (case insert_row (new_super_admin name (hash_password C salt pw) now) (users d) of
              (u, t) \<Rightarrow> Inr (u_id u, d\<lparr>users := t\<rparr>)))"

definition create_super_admin ::
    "crypto \<Rightarrow> string \<Rightarrow> int \<Rightarrow> string option \<Rightarrow> string \<Rightarrow> db \<Rightarrow> cli_error + int \<times> db" where
  "create_super_admin C salt now env username d =
     (case validate_username username of
        Inl e \<Rightarrow> Inl e
      | Inr name \<Rightarrow>
          (case read_password env name of
             Inl e \<Rightarrow> Inl e
           | Inr pw \<Rightarrow> cli_create C salt now name pw d))"

section \<open>Commands\<close>

datatype command = CreateSuperAdmin string | RbacSeed | CleanupRefreshTokens

datatype cli_output = Created int string | SeedOk seed_result | Deleted nat | ErrorLine cli_error

text \<open>
  The exit code, what is printed and the database; \<open>Inl\<close> is an exception that ends the process,
  which only the commands without a handler have.
\<close>

definition cli_main ::
    "crypto \<Rightarrow> string \<Rightarrow> int \<Rightarrow> string option \<Rightarrow> (string \<Rightarrow> string) \<Rightarrow> command \<Rightarrow> db \<Rightarrow> exn + int \<times> cli_output \<times> db" where
  "cli_main C salt now env nm cmd d =
     (case cmd of
        CreateSuperAdmin username \<Rightarrow>
          (case create_super_admin C salt now env username d of
             Inl e \<Rightarrow> Inr (1, ErrorLine e, d)
           | Inr (i, d') \<Rightarrow> Inr (0, Created i username, d'))
      | RbacSeed \<Rightarrow>
          (case seed_rbac nm now d of
             Inl e \<Rightarrow> Inl e
           | Inr (res, d') \<Rightarrow> Inr (0, SeedOk res, d'))
      | CleanupRefreshTokens \<Rightarrow>
          (case delete_expired now d of (n, d') \<Rightarrow> Inr (0, Deleted n, d')))"

lemma create_super_admin_InrD:
  assumes "create_super_admin C salt now env name d = Inr (i, d')"
  obtains pw where "d' = d\<lparr>users := appended (new_super_admin name (hash_password C salt pw) now i) (users d)\<rparr>"
    "i = seq (users d)" "\<forall>u \<in> set (rows (users d)). \<not> u_super u \<and> u_username u \<noteq> name"
    "env = Some pw" "12 \<le> length pw" "name \<noteq> []"
proof -
  from assms have v: "validate_username name = Inr name"
    by (auto simp: create_super_admin_def validate_username_def split: sum.splits if_splits)
  with assms obtain pw where r: "read_password env name = Inr pw" and c: "cli_create C salt now name pw d = Inr (i, d')"
    by (auto simp: create_super_admin_def split: sum.splits)
  from r have "env = Some pw" "12 \<le> length pw"
    by (auto simp: read_password_def Let_def split: option.splits if_splits)
  moreover from v have "name \<noteq> []" by (auto simp: validate_username_def split: if_splits)
  moreover from c have "i = seq (users d)"
    "d' = d\<lparr>users := appended (new_super_admin name (hash_password C salt pw) now (seq (users d))) (users d)\<rparr>"
    "\<not> list_ex u_super (rows (users d))" "find_user_by_name d name = None"
    by (auto simp: cli_create_def insert_row_appended new_super_admin_def split: if_splits)
  ultimately show ?thesis using that find_user_by_name_None_iff [of d name] by (auto simp: list_ex_iff)
qed

lemma create_refused:
  assumes "list_ex u_super (rows (users d))"
  shows "\<exists>e. create_super_admin C salt now env name d = Inl (CliError e)"
  using assms
  by (auto simp: create_super_admin_def validate_username_def read_password_def Let_def cli_create_def
      split: sum.splits if_splits option.splits)

end
