(* ===== verification/BootstrapTheorems.thy ===== *)
theory BootstrapTheorems
  imports Cli SeedTheorems ApiTheorems
begin

text \<open>
  From an empty, migrated database through the two commands of \<^verbatim>\<open>cli.py\<close> to a running system: the
  commands establish the invariant that the requests keep, and the trust root is made once.
\<close>

section \<open>The seeded menus\<close>

text \<open>No button of the manifest has children.\<close>

fun childless_buttons :: "seed_menu \<Rightarrow> bool" where
  "childless_buttons (SeedMenu k ty path cmp perms icon n vis children) \<longleftrightarrow>
     (ty = MenuF \<longrightarrow> children = []) \<and> list_all childless_buttons children"

lemma manifest_childless: "list_all childless_buttons menu_tree"
  by (simp add: menu_tree_def system_menu_def monitor_menu_def resource_menu_def page_menu_def seed_buttons_def
      seed_button_def upto.simps)

lemma entries_parent_node:
  "(node, Some k) \<in> set (entries pk t) \<Longrightarrow> pk = Some k \<and> node = t \<or>
     (\<exists>par q. (par, q) \<in> set (entries pk t) \<and> sm_key par = k \<and> sm_children par \<noteq> [])"
proof (induction t arbitrary: pk)
  case (SeedMenu c ty path cmp perms icon n vis children)
  let ?t = "SeedMenu c ty path cmp perms icon n vis children"
  have top: "(?t, pk) \<in> set (entries pk ?t)" by simp
  have below: "e \<in> set (entries pk ?t)" if "x \<in> set children" "e \<in> set (entries (Some c) x)" for e x
    using that by auto
  from SeedMenu.prems consider "node = ?t" "pk = Some k"
    | x where "x \<in> set children" "(node, Some k) \<in> set (entries (Some c) x)" by auto
  then show ?case
  proof cases
    case (2 x)
    from SeedMenu.IH [OF this] show ?thesis
    proof
      assume "Some c = Some k \<and> node = x"
      with 2(1) top show ?thesis by (intro disjI2 exI [of _ ?t] exI [of _ pk]) auto
    next
      assume "\<exists>par q. (par, q) \<in> set (entries (Some c) x) \<and> sm_key par = k \<and> sm_children par \<noteq> []"
      then show ?thesis using below [OF 2(1)] by blast
    qed
  qed simp
qed

lemma entries_childless: "childless_buttons t \<Longrightarrow> (node, q) \<in> set (entries pk t) \<Longrightarrow> childless_buttons node"
proof (induction t arbitrary: pk)
  case (SeedMenu c ty path cmp perms icon n vis children)
  from SeedMenu.prems(2) consider "node = SeedMenu c ty path cmp perms icon n vis children"
    | x where "x \<in> set children" "(node, q) \<in> set (entries (Some c) x)" by auto
  then show ?case
  proof cases
    case (2 x)
    with SeedMenu.prems(1) have "childless_buttons x" by (simp add: list_all_iff)
    with 2 SeedMenu.IH show ?thesis by blast
  qed (use SeedMenu.prems(1) in simp)
qed

lemma button_has_no_child:
  assumes "(node, Some k) \<in> set (manifest_entries menu_tree)" "(b, q) \<in> set (manifest_entries menu_tree)" "sm_key b = k"
  shows "sm_type b \<noteq> MenuF"
proof -
  from assms(1) obtain t where t: "t \<in> set menu_tree" "(node, Some k) \<in> set (entries None t)"
    by (auto simp: manifest_entries_def)
  with entries_parent_node [OF t(2)] obtain par r where par: "(par, r) \<in> set (manifest_entries menu_tree)" "sm_key par = k"
    "sm_children par \<noteq> []" by (auto simp: manifest_entries_def)
  have "distinct (map (sm_key \<circ> fst) (manifest_entries menu_tree))"
    unfolding manifest_entries_keys by (rule distinct_manifest)
  then have "inj_on (sm_key \<circ> fst) (set (manifest_entries menu_tree))" by (simp add: distinct_map)
  from inj_onD [OF this _ assms(2) par(1)] assms(3) par(2) have "b = par" by simp
  moreover have "childless_buttons par"
    using par(1) manifest_childless entries_childless by (auto simp: manifest_entries_def list_all_iff)
  ultimately show ?thesis using par(3) by (cases par) auto
qed

lemma seeded_menus_ok:
  assumes "seed_rbac nm now empty_db = Inr (res, d')"
  shows "menu_inv d' \<and> no_button_parent d' \<and>
    (\<exists>t r. d' = empty_db\<lparr>roles := appended r empty_table, menus := t\<rparr> \<and> r_id r = seq (empty_table :: role table))"
proof -
  have e: "seed_unique empty_db" "forest (menu_edges empty_db)" "stale_menus menu_tree empty_db = []"
    by (simp_all add: seed_unique_def empty_db_def empty_table_def table_ok_def menu_edges_def forest_def
        parent_rel_def acyclic_def stale_menus_def seeded_def)
  obtain d1 where g: "grown nm (manifest_entries menu_tree) (seed_role_rows (seed_roles_manifest nm) now empty_db) d1"
    and d': "d' = cut (m_id ` set (stale_menus menu_tree empty_db)) d1"
    using seed_rbac_outcome [OF e(1,2)] assms by (metis Inl_Inr_False Pair_inject sum.inject(2))
  have m0: "menus (seed_role_rows (seed_roles_manifest nm) now empty_db) = menus empty_db"
    by (rule seed_role_rows_frame)
  note row = seeded_rows [OF g m0 d']
  have uniq: "x = y" if "x \<in> set (rows (menus d'))" "y \<in> set (rows (menus d'))" "m_seed x = Some k" "m_seed y = Some k"
    for x y k
    using row(1) that unfolding seed_unique_def by (metis option.distinct(1))
  have planted_row: "\<exists>node pk. (node, pk) \<in> set (manifest_entries menu_tree) \<and> m_seed x = Some (sm_key node) \<and>
      m_type x = sm_type node \<and> parent_ok d' pk (m_parent x)" if x: "x \<in> set (rows (menus d'))" for x
  proof -
    have "m_seed x \<in> Some ` set (manifest_keys menu_tree)"
      using row(2,3) [of x] x e(3) by (auto simp: empty_db_def empty_table_def)
    then obtain node pk where n: "(node, pk) \<in> set (manifest_entries menu_tree)" "m_seed x = Some (sm_key node)"
      unfolding manifest_entries_keys [symmetric] by auto
    from row(4) [OF n(1)] obtain m parent where m: "m \<in> set (rows (menus d'))" "m_seed m = Some (sm_key node)"
      "parent_ok d' pk parent" "planted nm node parent m = m" by (auto simp: entry_ok_def)
    have "m = x" using uniq m(1,2) x n(2) by blast
    moreover have "m_type m = sm_type node \<and> m_parent m = parent"
      by (subst (1 2) m(4) [symmetric]) (simp add: planted_def)
    ultimately show ?thesis using n m(3) by blast
  qed
  have t: "table_ok m_id (menus d')" using row(1) by (simp add: seed_unique_def)
  obtain s where "d1 = (seed_role_rows (seed_roles_manifest nm) now empty_db)\<lparr>menus := s\<rparr>"
    using g by (auto simp: grown_def)
  then have "d' = empty_db\<lparr>roles := appended (new_seed_role (hd (seed_roles_manifest nm)) now (seq (roles empty_db))) empty_table,
      menus := s\<rparr>"
    using d' e(3) by (simp add: seed_roles_manifest_def seed_role_row_def find_role_by_code_def insert_row_appended)
      (simp add: empty_db_def empty_table_def insert_row_appended)
  then have shape: "\<exists>t r. d' = empty_db\<lparr>roles := appended r empty_table, menus := t\<rparr> \<and> r_id r = seq (empty_table :: role table)"
    by (auto simp: new_seed_role_def empty_db_def)
  then have links: "role_menus d' = []" by (auto simp: empty_db_def)
  have "\<not> menu_fk_missing d' (m_parent x)" if x: "x \<in> set (rows (menus d'))" for x
    using planted_row [OF x] get_menu_None_iff [of d']
    by (auto simp: menu_fk_missing_def parent_ok_def has_key_def split: option.splits)
  moreover have "m_parent y \<noteq> Some (m_id x)"
    if x: "x \<in> set (rows (menus d'))" "m_type x = MenuF" and y: "y \<in> set (rows (menus d'))" for x y
  proof
    assume p: "m_parent y = Some (m_id x)"
    from planted_row [OF y] obtain n2 k where y2: "(n2, Some k) \<in> set (manifest_entries menu_tree)" "has_key d' k (m_id x)"
      using p by (auto simp: parent_ok_def split: option.splits)
    from planted_row [OF x(1)] obtain n1 q where x1: "(n1, q) \<in> set (manifest_entries menu_tree)"
      "m_seed x = Some (sm_key n1)" "m_type x = sm_type n1" by blast
    from y2(2) obtain z where "z \<in> set (rows (menus d'))" "m_seed z = Some k" "m_id z = m_id x" by (auto simp: has_key_def)
    then have "m_seed x = Some k" using get_row_inj [OF t, of z x] x(1) by auto
    with button_has_no_child [OF y2(1) x1(1)] x1 x(2) show False by simp
  qed
  ultimately show ?thesis using t links shape by (auto simp: menu_inv_def no_button_parent_def)
qed

section \<open>From bootstrap to any later state\<close>

lemma bootstrapped_inv:
  assumes "seed_rbac nm now empty_db = Inr (res, d1)"
    and "create_super_admin C salt t env name d1 = Inr (s, d2)"
  shows "api_inv s d2"
proof -
  from seeded_menus_ok [OF assms(1)] obtain m r where d1: "menu_inv d1" "no_button_parent d1"
    "d1 = empty_db\<lparr>roles := appended r empty_table, menus := m\<rparr>" "r_id r = seq (empty_table :: role table)" by blast
  from assms(2) obtain pw where d2:
    "d2 = d1\<lparr>users := appended (new_super_admin name (hash_password C salt pw) t s) (users d1)\<rparr>" "s = seq (users d1)"
    by (rule create_super_admin_InrD)
  let ?u = "new_super_admin name (hash_password C salt pw) t s"
  have u: "users d2 = appended ?u empty_table" "s = seq (empty_table :: user table)"
    using d2 d1(3) by (simp_all add: empty_db_def)
  have s: "sole_super d2 s"
    using u by (simp add: sole_super_def coded_ok_def table_ok_def one_super_def get_user_def get_row_def
        new_super_admin_def empty_table_def)
  have r: "coded_ok r_id r_code (roles d2)"
    using d1(3,4) d2(1) by (simp add: coded_ok_def table_ok_def empty_table_def)
  have m: "menu_inv d2" "no_button_parent d2"
    using d1(1,2) menu_inv_same [of d2 d1] no_button_same [of d2 d1] d2(1) by auto
  have "dept_inv d2" using d1(3) d2(1) u(1)
    by (simp add: dept_inv_def empty_db_def table_ok_empty parent_missing_def new_super_admin_def)
      (simp add: empty_table_def)
  moreover have "refs_ok d2" "dict_ok d2" using d1(3) d2(1)
    by (simp_all add: refs_ok_def dict_ok_def empty_db_def coded_ok_def table_ok_empty one_default_def)
      (simp_all add: empty_table_def)
  ultimately show ?thesis using s r m by (simp add: api_inv_def)
qed

lemma sole_super_ids:
  assumes "sole_super d s"
  shows "super_ids d = {s}" and "list_ex u_super (rows (users d))"
proof -
  from assms obtain u where u: "get_user d s = Some u" "u_super u" by (auto simp: sole_super_def)
  then have r: "u \<in> set (rows (users d))" "u_id u = s"
    using get_row_SomeD [of u_id "users d" s u] by (simp_all add: get_user_def)
  have "length (filter u_super (rows (users d))) \<le> 1" using assms by (simp add: sole_super_def one_super_def)
  moreover have "u \<in> set (filter u_super (rows (users d)))" using r u by simp
  ultimately have "filter u_super (rows (users d)) = [u]"
    by (cases "filter u_super (rows (users d))") auto
  then have "{x \<in> set (rows (users d)). u_super x} = {u}" by (metis list.set(1,2) set_filter)
  then show "super_ids d = {s}" using r by (simp add: super_ids_def)
  show "list_ex u_super (rows (users d))" using r u by (auto simp: list_ex_iff)
qed

text \<open>
  C3 The two bootstrap commands on an empty database establish what the requests keep: in every state
  that requests reach from there, by whatever callers, the created account is the one active super
  administrator, the tables are consistent, and the command refuses to make a second one.
\<close>

theorem bootstrapped_system_consistent:
  assumes "cli_main C salt now env nm RbacSeed empty_db = Inr (0, SeedOk res, d1)"
    and "cli_main C salt' t env' nm (CreateSuperAdmin name) d1 = Inr (0, Created s name, d2)"
    and "(api_step E True)\<^sup>*\<^sup>* d2 d"
  shows "api_inv s d \<and> super_ids d = {s} \<and>
    (\<forall>C' salt'' t' env'' nm' other. \<exists>e.
       cli_main C' salt'' t' env'' nm' (CreateSuperAdmin other) d = Inr (1, ErrorLine e, d))"
proof -
  have "seed_rbac nm now empty_db = Inr (res, d1)" using assms(1) by (auto simp: cli_main_def split: sum.splits)
  moreover have "create_super_admin C salt' t env' name d1 = Inr (s, d2)"
    using assms(2) by (auto simp: cli_main_def split: sum.splits)
  ultimately have inv: "api_inv s d" using bootstrapped_inv api_steps_inv [OF assms(3)] by blast
  then have s: "sole_super d s" by (simp add: api_inv_def)
  note sole_super_ids [OF this]
  moreover have "\<exists>e. cli_main C' salt'' t' env'' nm' (CreateSuperAdmin other) d = Inr (1, ErrorLine e, d)"
    for C' salt'' t' env'' nm' other
    using create_refused [OF sole_super_ids(2) [OF s], of C' salt'' t' env'' other] by (auto simp: cli_main_def)
  ultimately show ?thesis using inv by blast
qed

text \<open>The commands on an empty database, and a request of the new super administrator.\<close>

lemma seed_empty: "\<exists>res d'. seed_rbac nm now empty_db = Inr (res, d')"
proof -
  have e: "seed_unique empty_db" "forest (menu_edges empty_db)" "\<not> user_row_below_stale menu_tree empty_db"
    by (simp_all add: seed_unique_def empty_db_def empty_table_def table_ok_def menu_edges_def forest_def
        parent_rel_def acyclic_def user_row_below_stale_def)
  from seed_rbac_outcome [OF e(1,2), of nm now] e(3) show ?thesis by metis
qed

lemma bootstrap_password: "validate_username ''root'' = Inr ''root''"
  "read_password (Some ''correct horse'') ''root'' = Inr ''correct horse''"
  by code_simp+

theorem bootstrapped_system_consistent_witness:
  "\<forall>C salt. \<exists>res d1 s d2. cli_main C salt 0 None id RbacSeed empty_db = Inr (0, SeedOk res, d1) \<and>
     cli_main C salt 1 (Some ''correct horse'') id (CreateSuperAdmin ''root'') d1 = Inr (0, Created s ''root'', d2) \<and>
     super_ids d2 = {s}"
proof (intro allI)
  fix C salt
  obtain res d1 where d1: "seed_rbac id 0 empty_db = Inr (res, d1)" using seed_empty by blast
  then have c1: "cli_main C salt 0 None id RbacSeed empty_db = Inr (0, SeedOk res, d1)" by (simp add: cli_main_def)
  have "users d1 = empty_table" using seeded_menus_ok [OF d1] by (auto simp: empty_db_def)
  then obtain s d2 where "create_super_admin C salt 1 (Some ''correct horse'') ''root'' d1 = Inr (s, d2)"
    by (simp add: create_super_admin_def bootstrap_password cli_create_def find_user_by_name_def empty_table_def
        insert_row_def)
  then have c2: "cli_main C salt 1 (Some ''correct horse'') id (CreateSuperAdmin ''root'') d1 = Inr (0, Created s ''root'', d2)"
    by (simp add: cli_main_def)
  have "super_ids d2 = {s}"
    using bootstrapped_system_consistent [OF c1 c2, of demo_api d2] by blast
  with c1 c2 show "\<exists>res d1 s d2. cli_main C salt 0 None id RbacSeed empty_db = Inr (0, SeedOk res, d1) \<and>
     cli_main C salt 1 (Some ''correct horse'') id (CreateSuperAdmin ''root'') d1 = Inr (0, Created s ''root'', d2) \<and>
     super_ids d2 = {s}" by blast
qed

end
