(* ===== verification/RequestContext.thy ===== *)
theory RequestContext
  imports AuditEvents
begin

text \<open>
  \<^verbatim>\<open>core/middleware.py\<close> and \<^verbatim>\<open>audit/context.py\<close>: the identifiers of a request and the context that audit
  events take from it.  \<open>draws\<close> are the values of \<^verbatim>\<open>uuid4().hex\<close>, as many as the loop needs; the tracer
  and the access log are not modelled.
\<close>

section \<open>Identifiers\<close>

definition lower_hex :: "char \<Rightarrow> bool" where
  "lower_hex c \<longleftrightarrow> c \<in> set ''0123456789abcdef''"

definition hex_text :: "nat \<Rightarrow> string \<Rightarrow> bool" where
  "hex_text n s \<longleftrightarrow> length s = n \<and> list_all lower_hex s"

text \<open>\<^verbatim>\<open>_REQUEST_ID_PATTERN\<close> and \<^verbatim>\<open>_TRACEPARENT_PATTERN\<close> with its three groups, both by \<^verbatim>\<open>fullmatch\<close>.\<close>

definition request_id_pattern :: "string \<Rightarrow> bool" where
  "request_id_pattern s \<longleftrightarrow> hex_text 32 s"

record trace_context =
  tc_trace :: string
  tc_parent :: string
  tc_flags :: string

definition traceparent_groups :: "string \<Rightarrow> trace_context option" where
  "traceparent_groups s =
     (let version = take 2 s; trace = take 32 (drop 3 s); parent = take 16 (drop 36 s); flags = drop 53 s
      in if hex_text 2 version \<and> hex_text 32 trace \<and> hex_text 16 parent \<and> hex_text 2 flags \<and>
            s = version @ ''-'' @ trace @ ''-'' @ parent @ ''-'' @ flags
         then Some \<lparr>tc_trace = trace, tc_parent = parent, tc_flags = flags\<rparr> else None)"

definition zeros :: "nat \<Rightarrow> string" where
  "zeros n = replicate n CHR ''0''"

fun generate_request_id :: "string list \<Rightarrow> string option" where
  "generate_request_id [] = None"
| "generate_request_id (candidate # draws) =
     (if candidate \<noteq> zeros 32 then Some candidate else generate_request_id draws)"

text \<open>The request id, the trace id and the inbound trace; the headers are \<open>None\<close> when absent.\<close>

definition own_id :: "string option \<Rightarrow> string list \<Rightarrow> (string \<times> string option \<times> trace_context option) option" where
  "own_id candidate draws =
     (case candidate of
        None \<Rightarrow> map_option (\<lambda>r. (r, None, None)) (generate_request_id draws)
      | Some c \<Rightarrow> if request_id_pattern c then Some (c, None, None)
                 else map_option (\<lambda>r. (r, None, None)) (generate_request_id draws))"

definition resolve_ids ::
    "string option \<Rightarrow> string option \<Rightarrow> string list \<Rightarrow> (string \<times> string option \<times> trace_context option) option" where
  "resolve_ids traceparent candidate draws =
     (case Option.bind traceparent traceparent_groups of
        Some t \<Rightarrow>
          if tc_trace t \<noteq> zeros 32 \<and> tc_parent t \<noteq> zeros 16 then Some (tc_trace t, Some (tc_trace t), Some t)
          else own_id candidate draws
      | None \<Rightarrow> own_id candidate draws)"

text \<open>\<^verbatim>\<open>_client_ip\<close>: the first hop of the header only when the deployment trusts it.\<close>

definition client_ip :: "bool \<Rightarrow> string option \<Rightarrow> string option \<Rightarrow> string option" where
  "client_ip trust_xff forwarded peer =
     (if trust_xff \<and> forwarded \<noteq> None \<and> forwarded \<noteq> Some []
      then (let ip = py_strip (takeWhile (\<lambda>c. c \<noteq> CHR '','') (the forwarded)) in if ip = [] then None else Some ip)
      else peer)"

section \<open>The context\<close>

record audit_request =
  ar_request :: "string option"
  ar_trace :: "string option"
  ar_method :: "string option"
  ar_path :: "string option"
  ar_ip :: "string option"
  ar_agent :: "string option"

definition no_request :: audit_request where
  "no_request = \<lparr>ar_request = None, ar_trace = None, ar_method = None, ar_path = None, ar_ip = None, ar_agent = None\<rparr>"

text \<open>\<^verbatim>\<open>current_request_context\<close>: \<open>None\<close> outside a request.\<close>

definition current_request_context :: "audit_request option \<Rightarrow> audit_request" where
  "current_request_context ctx = (case ctx of None \<Rightarrow> no_request | Some r \<Rightarrow> r)"

record http_head =
  hd_method :: string
  hd_path :: string
  hd_traceparent :: "string option"
  hd_request_id :: "string option"
  hd_forwarded :: "string option"
  hd_agent :: "string option"
  hd_peer :: "string option"

text \<open>What the middleware sets before it calls the next one.\<close>

definition request_context :: "bool \<Rightarrow> string list \<Rightarrow> http_head \<Rightarrow> audit_request option" where
  "request_context trust_xff draws h =
     map_option (\<lambda>(rid, tid, ctx).
       \<lparr>ar_request = Some rid, ar_trace = tid, ar_method = Some (hd_method h), ar_path = Some (hd_path h),
        ar_ip = client_ip trust_xff (hd_forwarded h) (hd_peer h), ar_agent = hd_agent h\<rparr>)
       (resolve_ids (hd_traceparent h) (hd_request_id h) draws)"

section \<open>Facts\<close>

lemma generated_from_draws: "generate_request_id draws = Some r \<Longrightarrow> r \<in> set draws \<and> r \<noteq> zeros 32"
  by (induction draws) (auto split: if_splits)

lemma traceparent_hex: "traceparent_groups s = Some t \<Longrightarrow> hex_text 32 (tc_trace t)"
  by (auto simp: traceparent_groups_def Let_def split: if_splits)

lemma own_id_hex: "own_id cand draws = Some (rid, tid, ctx) \<Longrightarrow> list_all (hex_text 32) draws \<Longrightarrow> hex_text 32 rid \<and> tid = None"
  by (auto simp: own_id_def request_id_pattern_def list_all_iff dest!: generated_from_draws split: option.splits if_splits)

lemma resolved_hex:
  assumes "resolve_ids tp cand draws = Some (rid, tid, ctx)" "list_all (hex_text 32) draws"
  shows "hex_text 32 rid \<and> (\<forall>x. tid = Some x \<longrightarrow> x = rid)"
proof (cases "Option.bind tp traceparent_groups")
  case None
  then have "own_id cand draws = Some (rid, tid, ctx)" using assms(1) by (simp add: resolve_ids_def)
  from own_id_hex [OF this assms(2)] show ?thesis by simp
next
  case (Some t)
  then have "hex_text 32 (tc_trace t)" using traceparent_hex by (cases tp) auto
  with Some assms own_id_hex [of cand draws rid tid ctx] show ?thesis by (auto simp: resolve_ids_def split: if_splits)
qed

end
