(* ===== verification/AuditPersistence.thy ===== *)
theory AuditPersistence
  imports RequestContext
begin

text \<open>
  The complete audit envelope: \<^verbatim>\<open>audit/events.py\<close>, its construction and delivery in \<^verbatim>\<open>audit/emit.py\<close>, the
  row of \<^verbatim>\<open>audit/models.py\<close> and the sink of \<^verbatim>\<open>audit/sink.py\<close>.  (The record \<open>audit_event\<close> of the schema
  keeps the fields that the other theories speak of.)  A store is the list of rows of the table; the
  uniqueness of \<^verbatim>\<open>event_id\<close> is its index.  Whether the server can be reached is an argument.
\<close>

section \<open>Envelope\<close>

datatype event_kind = EkPermissionDenied | EkLoginFailed | EkRbacWrite | EkRefreshReused | EkLoginSuccess
  | EkPasswordChange

fun kind_text :: "event_kind \<Rightarrow> string" where
  "kind_text EkPermissionDenied = ''permission_denied''"
| "kind_text EkLoginFailed = ''login_failed''"
| "kind_text EkRbacWrite = ''rbac_write''"
| "kind_text EkRefreshReused = ''refresh_reused''"
| "kind_text EkLoginSuccess = ''login_success''"
| "kind_text EkPasswordChange = ''password_change''"

datatype risk_level = LowRisk | MediumRisk | HighRisk

fun risk_text :: "risk_level \<Rightarrow> string" where
  "risk_text LowRisk = ''low''"
| "risk_text MediumRisk = ''medium''"
| "risk_text HighRisk = ''high''"

datatype result_status = ResSuccess | ResFailure | ResDenied

fun result_text :: "result_status \<Rightarrow> string" where
  "result_text ResSuccess = ''success''"
| "result_text ResFailure = ''failure''"
| "result_text ResDenied = ''denied''"

record audit_actor =
  aa_user :: "int option"
  aa_name :: "string option"
  aa_super :: bool

record audit_target =
  at_type :: "string option"
  at_id :: "string option"
  at_display :: "string option"

record audit_result =
  ax_status :: result_status
  ax_http :: "int option"
  ax_error :: "string option"

record envelope =
  av_id :: string
  av_schema :: string
  av_kind :: event_kind
  av_action :: string
  av_title :: string
  av_occurred :: int
  av_actor :: audit_actor
  av_target :: audit_target
  av_request :: audit_request
  av_result :: audit_result
  av_duration :: "int option"
  av_risk :: risk_level
  av_meta :: "(string \<times> json) list"
  av_redacted :: bool

definition schema_version :: string where
  "schema_version = ''audit_event.v1''"

text \<open>\<^verbatim>\<open>build_audit_event\<close> with the drawn id, the clock and the context of the request.\<close>

definition build_audit_event ::
    "string \<Rightarrow> int \<Rightarrow> audit_request option \<Rightarrow> event_kind \<Rightarrow> string \<Rightarrow> string \<Rightarrow> audit_result \<Rightarrow> audit_actor option
      \<Rightarrow> audit_target option \<Rightarrow> risk_level \<Rightarrow> (string \<times> json) list option \<Rightarrow> envelope" where
  "build_audit_event eid now ctx kind action title res actor target risk meta =
     \<lparr>av_id = eid, av_schema = schema_version, av_kind = kind, av_action = action, av_title = title, av_occurred = now,
      av_actor = (case actor of None \<Rightarrow> \<lparr>aa_user = None, aa_name = None, aa_super = False\<rparr> | Some a \<Rightarrow> a),
      av_target = (case target of None \<Rightarrow> \<lparr>at_type = None, at_id = None, at_display = None\<rparr> | Some t \<Rightarrow> t),
      av_request = current_request_context ctx, av_result = res, av_duration = None, av_risk = risk,
      av_meta = fst (redact_metadata meta), av_redacted = snd (redact_metadata meta)\<rparr>"

section \<open>Row\<close>

record event_row =
  er_id :: string
  er_schema :: string
  er_kind :: string
  er_action :: string
  er_title :: string
  er_occurred :: int
  er_user :: "int option"
  er_name :: "string option"
  er_super :: bool
  er_ttype :: "string option"
  er_tid :: "string option"
  er_display :: "string option"
  er_request :: "string option"
  er_trace :: "string option"
  er_method :: "string option"
  er_path :: "string option"
  er_ip :: "string option"
  er_agent :: "string option"
  er_status :: string
  er_http :: "int option"
  er_error :: "string option"
  er_duration :: "int option"
  er_risk :: string
  er_meta :: "(string \<times> json) list"
  er_redacted :: bool
  er_payload :: envelope

definition trunc :: "string option \<Rightarrow> nat \<Rightarrow> string option" where
  "trunc v n = map_option (take n) v"

definition from_envelope :: "envelope \<Rightarrow> event_row" where
  "from_envelope e =
     \<lparr>er_id = av_id e, er_schema = av_schema e, er_kind = kind_text (av_kind e), er_action = take 128 (av_action e),
      er_title = take 256 (av_title e), er_occurred = av_occurred e, er_user = aa_user (av_actor e),
      er_name = trunc (aa_name (av_actor e)) 64, er_super = aa_super (av_actor e),
      er_ttype = trunc (at_type (av_target e)) 64, er_tid = trunc (at_id (av_target e)) 128,
      er_display = trunc (at_display (av_target e)) 255, er_request = trunc (ar_request (av_request e)) 64,
      er_trace = trunc (ar_trace (av_request e)) 64, er_method = trunc (ar_method (av_request e)) 16,
      er_path = trunc (ar_path (av_request e)) 512, er_ip = trunc (ar_ip (av_request e)) 64,
      er_agent = trunc (ar_agent (av_request e)) 512, er_status = result_text (ax_status (av_result e)),
      er_http = ax_http (av_result e), er_error = trunc (ax_error (av_result e)) 128,
      er_duration = av_duration e, er_risk = risk_text (av_risk e), er_meta = av_meta e,
      er_redacted = av_redacted e, er_payload = e\<rparr>"

text \<open>The declared widths of the columns.\<close>

definition text_fits :: "string option \<Rightarrow> nat \<Rightarrow> bool" where
  "text_fits v n \<longleftrightarrow> (case v of None \<Rightarrow> True | Some s \<Rightarrow> length s \<le> n)"

definition row_fits :: "event_row \<Rightarrow> bool" where
  "row_fits r \<longleftrightarrow> length (er_id r) \<le> 64 \<and> length (er_schema r) \<le> 32 \<and> length (er_kind r) \<le> 32 \<and>
     length (er_action r) \<le> 128 \<and> length (er_title r) \<le> 256 \<and> text_fits (er_name r) 64 \<and>
     text_fits (er_ttype r) 64 \<and> text_fits (er_tid r) 128 \<and> text_fits (er_display r) 255 \<and>
     text_fits (er_request r) 64 \<and> text_fits (er_trace r) 64 \<and> text_fits (er_method r) 16 \<and>
     text_fits (er_path r) 512 \<and> text_fits (er_ip r) 64 \<and> text_fits (er_agent r) 512 \<and>
     length (er_status r) \<le> 16 \<and> text_fits (er_error r) 128 \<and> length (er_risk r) \<le> 16"

section \<open>Delivery\<close>

text \<open>
  Within a request: the rows of the business transaction, the buffer of the middleware (\<open>None\<close> outside a
  request) and the log.
\<close>

record audit_state =
  au_rows :: "event_row list"
  au_buffer :: "envelope list option"
  au_log :: "envelope list"

text \<open>An insert of a batch, which the unique index refuses as a whole.\<close>

definition insert_events :: "envelope list \<Rightarrow> event_row list \<Rightarrow> event_row list option" where
  "insert_events es rs =
     (if distinct (map av_id es) \<and> (\<forall>e \<in> set es. av_id e \<notin> er_id ` set rs)
      then Some (rs @ map from_envelope es) else None)"

definition emit_event :: "envelope \<Rightarrow> audit_state \<Rightarrow> audit_state" where
  "emit_event e a = a\<lparr>au_log := au_log a @ [e], au_buffer := map_option (\<lambda>b. b @ [e]) (au_buffer a)\<rparr>"

text \<open>\<^verbatim>\<open>persist_audit_in_session\<close>: pending changes of the operation that violate a constraint raise first;
  a failure of the audit row itself is rolled back to the savepoint and forgotten.\<close>

definition persist_in_session :: "exn option \<Rightarrow> bool \<Rightarrow> envelope \<Rightarrow> audit_state \<Rightarrow> exn + audit_state" where
  "persist_in_session pending works e a =
     (case pending of
        Some x \<Rightarrow> Inl x
      | None \<Rightarrow> Inr (a\<lparr>au_rows := (case insert_events [e] (au_rows a) of
                                 Some rs \<Rightarrow> if works then rs else au_rows a | None \<Rightarrow> au_rows a)\<rparr>))"

definition record_audit_committed :: "bool \<Rightarrow> exn option \<Rightarrow> bool \<Rightarrow> envelope \<Rightarrow> audit_state \<Rightarrow> exn + audit_state" where
  "record_audit_committed in_request pending works e a =
     (if in_request
      then (case persist_in_session pending works e a of
              Inl x \<Rightarrow> Inl x | Inr b \<Rightarrow> Inr (b\<lparr>au_log := au_log b @ [e]\<rparr>))
      else Inr (emit_event e a))"

text \<open>\<^verbatim>\<open>flush_audit_events\<close>: the batch in a transaction of its own, errors are logged only.\<close>

definition flush_audit_events :: "bool \<Rightarrow> bool \<Rightarrow> envelope list \<Rightarrow> event_row list \<Rightarrow> event_row list" where
  "flush_audit_events sink works es rs =
     (if \<not> sink \<or> es = [] \<or> \<not> works then rs
      else (case insert_events es rs of Some rs' \<Rightarrow> rs' | None \<Rightarrow> rs))"

text \<open>
  A request: \<open>emits\<close> are its events in order, \<open>True\<close> for those of successful writes; \<open>commits\<close> is the
  outcome of its transaction, of which the rows are a part; then the middleware flushes.  \<open>stores\<close> and
  \<open>reaches\<close> say whether the inserts of the transaction and of the flush work.
\<close>

fun emit_all :: "bool \<Rightarrow> (bool \<times> envelope) list \<Rightarrow> audit_state \<Rightarrow> exn + audit_state" where
  "emit_all works [] a = Inr a"
| "emit_all works ((ok, e) # es) a =
     (if ok then (case record_audit_committed True None works e a of Inl x \<Rightarrow> Inl x | Inr b \<Rightarrow> emit_all works es b)
      else emit_all works es (emit_event e a))"

definition request_rows ::
    "bool \<Rightarrow> bool \<Rightarrow> bool \<Rightarrow> bool \<Rightarrow> (bool \<times> envelope) list \<Rightarrow> event_row list \<Rightarrow> event_row list" where
  "request_rows sink stores reaches commits emits rs =
     (case emit_all stores emits \<lparr>au_rows = rs, au_buffer = Some [], au_log = []\<rparr> of
        Inl x \<Rightarrow> rs
      | Inr a \<Rightarrow> flush_audit_events sink reaches (the (au_buffer a)) (if commits then au_rows a else rs))"

end
