(* ===== verification/AuditTheorems.thy ===== *)
theory AuditTheorems
  imports AuditPersistence
begin

text \<open>Properties of the audit trail of a request: what its rows hold and which of them are stored.\<close>

section \<open>Rows\<close>

lemma text_fits_trunc: "m \<le> n \<Longrightarrow> text_fits (trunc v m) n"
  by (cases v) (auto simp: text_fits_def trunc_def)

lemma trunc_short: "text_fits v n \<Longrightarrow> trunc v n = v"
  by (cases v) (auto simp: text_fits_def trunc_def)

lemma event_row_fits: "length (av_id e) \<le> 64 \<Longrightarrow> av_schema e = schema_version \<Longrightarrow> row_fits (from_envelope e)"
  by (cases "av_kind e"; cases "ax_status (av_result e)"; cases "av_risk e")
    (simp_all add: row_fits_def from_envelope_def text_fits_trunc schema_version_def)

text \<open>
  C40 An event that is built in a request gives a row whose texts fit their columns, whatever the client
  sends as path, address, agent or trace headers; the row keeps the complete event, carries the request's
  id, 32 lower-case hexadecimal digits, uncut, and its metadata has no denied key at any depth.
\<close>

theorem audit_row_faithful:
  assumes "request_context trust_xff draws h = Some ctx" "list_all (hex_text 32) draws" "length eid = 36"
    and "e = build_audit_event eid now (Some ctx) kind action title res actor target risk meta"
  shows "row_fits (from_envelope e) \<and> er_payload (from_envelope e) = e \<and>
    (\<exists>rid. hex_text 32 rid \<and> er_request (from_envelope e) = Some rid \<and>
       (\<forall>t. er_trace (from_envelope e) = Some t \<longrightarrow> t = rid)) \<and>
    (\<forall>k \<in> set (dict_keys (er_meta (from_envelope e))). \<not> denied_key k)"
proof -
  from assms(1) obtain rid tid c where r: "resolve_ids (hd_traceparent h) (hd_request_id h) draws = Some (rid, tid, c)"
    "ar_request ctx = Some rid" "ar_trace ctx = tid" by (auto simp: request_context_def)
  from resolved_hex [OF r(1) assms(2)] have x: "hex_text 32 rid" "\<forall>y. tid = Some y \<longrightarrow> y = rid" by auto
  then have "trunc (Some rid) 64 = Some rid" "trunc tid 64 = tid"
    by (cases tid; simp add: trunc_def hex_text_def)+
  moreover have "row_fits (from_envelope e)"
    by (rule event_row_fits) (simp_all add: assms(3,4) build_audit_event_def)
  moreover have "\<forall>k \<in> set (dict_keys (av_meta e)). \<not> denied_key k"
    using redact_clean(2) by (auto simp: assms(4) build_audit_event_def redact_metadata_def split: option.splits)
  ultimately show ?thesis using x r(2,3) by (simp add: from_envelope_def assms(4) build_audit_event_def current_request_context_def)
qed

theorem audit_row_faithful_witness:
  "\<exists>e. av_request e = \<lparr>ar_request = Some (replicate 32 CHR ''b''), ar_trace = None, ar_method = Some ''POST'',
       ar_path = Some (replicate 600 CHR ''x''), ar_ip = Some ''10.0.0.1'', ar_agent = None\<rparr> \<and>
     av_meta e = [(''n'', JNum 1)] \<and> row_fits (from_envelope e)"
proof -
  let ?h = "\<lparr>hd_method = ''POST'', hd_path = replicate 600 CHR ''x'', hd_traceparent = Some ''00-zz'',
    hd_request_id = None, hd_forwarded = Some ''1.2.3.4'', hd_agent = None, hd_peer = Some ''10.0.0.1''\<rparr>"
  let ?id = "replicate 32 CHR ''b''"
  let ?ctx = "\<lparr>ar_request = Some ?id, ar_trace = None, ar_method = Some ''POST'',
       ar_path = Some (replicate 600 CHR ''x''), ar_ip = Some ''10.0.0.1'', ar_agent = None\<rparr>"
  have "traceparent_groups ''00-zz'' = None" by code_simp
  moreover have z: "?id \<noteq> zeros 32" by code_simp
  ultimately have c: "request_context False [?id] ?h = Some ?ctx"
    by (simp add: request_context_def resolve_ids_def own_id_def client_ip_def)
  have d: "list_all (hex_text 32) [?id]" by code_simp
  let ?e = "build_audit_event (replicate 36 CHR ''0'') 5 (Some ?ctx) EkRbacWrite ''a'' ''t''
    \<lparr>ax_status = ResSuccess, ax_http = Some 200, ax_error = None\<rparr> None None LowRisk
    (Some [(''Password'', JStr ''x''), (''n'', JNum 1)])"
  have "av_meta ?e = fst (redact_metadata (Some [(''Password'', JStr ''x''), (''n'', JNum 1)]))"
    by (simp add: build_audit_event_def)
  also have "\<dots> = [(''n'', JNum 1)]" by code_simp
  finally have m: "av_meta ?e = [(''n'', JNum 1)]" .
  have "row_fits (from_envelope ?e)" using audit_row_faithful [OF c d _ refl] by simp
  with m show ?thesis by (intro exI [of _ ?e]) (simp add: build_audit_event_def current_request_context_def)
qed

section \<open>Delivery\<close>

definition failure_envelopes :: "(bool \<times> envelope) list \<Rightarrow> envelope list" where
  "failure_envelopes emits = map snd (filter (\<lambda>x. \<not> fst x) emits)"

definition success_envelopes :: "(bool \<times> envelope) list \<Rightarrow> envelope list" where
  "success_envelopes emits = map snd (filter fst emits)"

lemma emit_all_ends:
  assumes "distinct (map av_id (map snd emits))" "\<forall>x \<in> set emits. av_id (snd x) \<notin> er_id ` set (au_rows a)"
    and "au_buffer a = Some b"
  shows "\<exists>l. emit_all works emits a = Inr \<lparr>au_rows = au_rows a @ (if works then map from_envelope (success_envelopes emits) else []),
      au_buffer = Some (b @ failure_envelopes emits), au_log = l\<rparr>"
  using assms
proof (induction emits arbitrary: a b)
  case Nil
  then show ?case by (cases a) (simp add: success_envelopes_def failure_envelopes_def)
next
  case (Cons x emits)
  obtain ok e where x: "x = (ok, e)" by fastforce
  let ?a = "if ok then a\<lparr>au_rows := au_rows a @ (if works then [from_envelope e] else []), au_log := au_log a @ [e]\<rparr>
    else emit_event e a"
  have s: "emit_all works (x # emits) a = emit_all works emits ?a"
    using Cons.prems(2) by (auto simp: x record_audit_committed_def persist_in_session_def insert_events_def)
  have "av_id (snd y) \<noteq> av_id e" if "y \<in> set emits" for y
    using Cons.prems(1) that by (auto simp: x image_iff)
  then have f: "\<forall>y \<in> set emits. av_id (snd y) \<notin> er_id ` set (au_rows ?a)"
    using Cons.prems(2) by (auto simp: emit_event_def from_envelope_def)
  have b: "au_buffer ?a = Some (b @ (if ok then [] else [e]))"
    using Cons.prems(3) by (simp add: emit_event_def)
  have "distinct (map av_id (map snd emits))" using Cons.prems(1) by simp
  from Cons.IH [OF this f b] show ?case
    unfolding s by (auto simp: x success_envelopes_def failure_envelopes_def emit_event_def)
qed

text \<open>
  C39 The audit trail of a request tells the truth about its transaction: a success row is stored exactly
  when the writes it reports are committed, and the failure events are stored although the transaction
  is rolled back; a sink that cannot be reached loses only audit rows, and rows of other requests stay.
\<close>

theorem request_audit_trail:
  assumes "distinct (map av_id (map snd emits))" "\<forall>x \<in> set emits. av_id (snd x) \<notin> er_id ` set rs"
  shows "request_rows sink stores reaches commits emits rs =
    rs @ (if stores \<and> commits then map from_envelope (success_envelopes emits) else []) @
      (if sink \<and> reaches then map from_envelope (failure_envelopes emits) else [])"
proof -
  obtain l where l: "emit_all stores emits \<lparr>au_rows = rs, au_buffer = Some [], au_log = []\<rparr> =
      Inr \<lparr>au_rows = rs @ (if stores then map from_envelope (success_envelopes emits) else []),
        au_buffer = Some (failure_envelopes emits), au_log = l\<rparr>"
    using emit_all_ends [OF assms(1), of "\<lparr>au_rows = rs, au_buffer = Some [], au_log = []\<rparr>" "[]" stores] assms(2) by auto
  have d: "distinct (map av_id (failure_envelopes emits))"
    using assms(1) by (auto simp: failure_envelopes_def distinct_map_filter)
  have sep: "av_id e \<noteq> av_id f" if "e \<in> set (failure_envelopes emits)" "f \<in> set (success_envelopes emits)" for e f
  proof
    assume i: "av_id e = av_id f"
    from that have "(False, e) \<in> set emits" "(True, f) \<in> set emits" by (auto simp: failure_envelopes_def success_envelopes_def)
    moreover have "inj_on (\<lambda>x. av_id (snd x)) (set emits)" using assms(1) by (simp add: distinct_map o_def)
    ultimately have "(False, e) = (True, f)" using i by (metis (no_types, lifting) inj_onD snd_conv)
    then show False by simp
  qed
  have fresh: "\<forall>e \<in> set (failure_envelopes emits). av_id e \<notin> er_id ` set rs"
    using assms(2) by (auto simp: failure_envelopes_def)
  have ids: "er_id ` set (map from_envelope es) = av_id ` set es" for es by (force simp: from_envelope_def)
  have ins: "insert_events (failure_envelopes emits) (rs @ (if c then map from_envelope (success_envelopes emits) else [])) =
      Some ((rs @ (if c then map from_envelope (success_envelopes emits) else [])) @ map from_envelope (failure_envelopes emits))" for c
    using d fresh sep by (auto simp: insert_events_def ids image_Un) (auto simp: from_envelope_def)
  then show ?thesis
    unfolding request_rows_def l using ins [of True] ins [of False]
    by (auto simp: flush_audit_events_def)
qed

theorem request_audit_trail_witness:
  "\<exists>e f. request_rows True True True False [(True, e), (False, f)] [] = [from_envelope f] \<and>
     request_rows False True True True [(True, e), (False, f)] [] = [from_envelope e]"
proof -
  let ?e = "\<lambda>n. build_audit_event n 5 None EkRbacWrite ''a'' ''t''
    \<lparr>ax_status = ResSuccess, ax_http = Some 200, ax_error = None\<rparr> None None LowRisk None"
  have d: "distinct (map av_id (map snd [(True, ?e ''1''), (False, ?e ''2'')]))"
    "\<forall>x \<in> set [(True, ?e ''1''), (False, ?e ''2'')]. av_id (snd x) \<notin> er_id ` set []"
    by (simp_all add: build_audit_event_def)
  show ?thesis
    using request_audit_trail [OF d, of True True True False] request_audit_trail [OF d, of False True True True]
    by (intro exI [of _ "?e ''1''"] exI [of _ "?e ''2''"]) (simp add: success_envelopes_def failure_envelopes_def)
qed

end
