(* ===== verification/AuthApi.thy ===== *)
theory AuthApi
  imports AuthService AuthMiddleware
begin

text \<open>
  The endpoints of \<^verbatim>\<open>api/v1/auth.py\<close> and the probes of \<^verbatim>\<open>api/v1/health.py\<close>.  The bodies have passed their
  schemas; \<open>guard_on\<close> is the setting of the login guard, \<open>app_redis\<close> the client of the application state,
  \<open>peer\<close> the address of the connection.
\<close>

section \<open>Authentication endpoints\<close>

definition login_guard_redis :: "bool \<Rightarrow> redis option \<Rightarrow> redis option" where
  "login_guard_redis guard_on app_redis = (if \<not> guard_on then None else app_redis)"

definition login_endpoint ::
    "crypto \<Rightarrow> auth_settings \<Rightarrow> int \<Rightarrow> draw \<Rightarrow> bool \<Rightarrow> string option \<Rightarrow> login_request \<Rightarrow> login_world
      \<Rightarrow> (exn + login_response) \<times> login_world" where
  "login_endpoint C S now dr guard_on peer payload w =
     (case login C S now dr (payload\<lparr>lq_client_ip := peer\<rparr>)
             (w\<lparr>lw_redis := login_guard_redis guard_on (lw_redis w)\<rparr>) of
        (r, w') \<Rightarrow> (r, if guard_on then w' else w'\<lparr>lw_redis := lw_redis w\<rparr>))"

definition captcha_unavailable :: exn where
  "captcha_unavailable = AppErr ''framework.SERVICE_UNAVAILABLE'' 503"

record captcha_response =
  cp_id :: string
  cp_question :: string
  cp_expires_in :: int

definition issue_captcha ::
    "auth_settings \<Rightarrow> int \<Rightarrow> string \<Rightarrow> int \<Rightarrow> int \<Rightarrow> redis \<Rightarrow> (exn + captcha_response) \<times> redis" where
  "issue_captcha S now i a b r =
     (case generate_captcha S now i a b r of
        (Inl e, r') \<Rightarrow> (Inl e, r')
      | (Inr (cid, question), r') \<Rightarrow>
          (Inr \<lparr>cp_id = cid, cp_question = question, cp_expires_in = captcha_ttl S\<rparr>, r'))"

definition captcha_endpoint ::
    "auth_settings \<Rightarrow> int \<Rightarrow> bool \<Rightarrow> string \<Rightarrow> int \<Rightarrow> int \<Rightarrow> redis option \<Rightarrow> (exn + captcha_response) \<times> redis option" where
  "captcha_endpoint S now guard_on i a b app_redis =
     (case login_guard_redis guard_on app_redis of
        None \<Rightarrow> (Inl captcha_unavailable, app_redis)
      | Some r \<Rightarrow> (case issue_captcha S now i a b r of (x, r') \<Rightarrow> (x, Some r')))"

definition refresh_endpoint ::
    "crypto \<Rightarrow> auth_settings \<Rightarrow> int \<Rightarrow> draw \<Rightarrow> string \<Rightarrow> auth_world \<Rightarrow> (exn + login_response) \<times> auth_world" where
  "refresh_endpoint C S now dr raw w = refresh C S now dr raw w"

definition logout_endpoint :: "crypto \<Rightarrow> auth_settings \<Rightarrow> int \<Rightarrow> string \<Rightarrow> auth_world \<Rightarrow> (exn + unit) \<times> auth_world" where
  "logout_endpoint C S now raw w = logout C S now raw w"

text \<open>\<open>st\<close> is the user that the middleware has put into the request.\<close>

definition change_password_endpoint ::
    "crypto \<Rightarrow> auth_settings \<Rightarrow> int \<Rightarrow> draw \<Rightarrow> string \<Rightarrow> string option \<Rightarrow> string \<Rightarrow> string \<Rightarrow> auth_world
      \<Rightarrow> (exn + login_response) \<times> auth_world" where
  "change_password_endpoint C S now dr salt st old new w =
     (case require_current_user st of
        Inl e \<Rightarrow> (Inl e, w)
      | Inr u \<Rightarrow>
          (case py_int (cu_id u) of
             None \<Rightarrow> (Inl (RuntimeErr ''ValueError''), w)
           | Some uid \<Rightarrow> change_password C S now dr salt uid old new w))"

section \<open>Probes\<close>

text \<open>A ping: the name of the exception's type when it raises.\<close>

datatype ping = PingOk | PingRaises string

definition not_ready :: exn where
  "not_ready = AppErr ''framework.NOT_READY'' 503"

text \<open>With a failure, the \<^verbatim>\<open>errors\<close> of the response, shown in debug mode only.\<close>

definition readyz :: "bool \<Rightarrow> bool \<Rightarrow> ping \<Rightarrow> ping option \<Rightarrow> (exn \<times> string option) + string" where
  "readyz debug idempotency db_ping redis_ping =
     (let fail = (\<lambda>t. Inl (not_ready, if debug then Some t else None))
      in case db_ping of
           PingRaises t \<Rightarrow> fail t
         | PingOk \<Rightarrow>
             (case (if idempotency then redis_ping else None) of
                Some (PingRaises t) \<Rightarrow> fail t
              | _ \<Rightarrow> Inr ''ready''))"

definition healthz :: string where "healthz = ''ok''"
definition startupz :: string where "startupz = ''started''"

end
