(* ===== verification/AppLock.thy ===== *)
theory AppLock
  imports Schema PyText
begin

text \<open>
  \<^verbatim>\<open>db/locks.py\<close>: a lock that lasts until the end of a transaction, by the row lock on a sentinel row of
  \<^verbatim>\<open>app_locks\<close>.  \<open>ak_rows\<close> are the sentinel rows, \<open>ak_owner\<close> the transaction that has the row lock of a name,
  \<open>ak_known\<close> the cache of the process, which other activity may have left wrong in both directions.  What
  others do between two statements is an argument (\<open>env\<close>); a statement that meets the row lock of another
  transaction waits until it is free, so \<open>env\<close> has then freed it.
\<close>

record lock_world =
  ak_rows :: "string list"
  ak_owner :: "string \<Rightarrow> int option"
  ak_known :: "string list"

definition lock_name_max :: nat where "lock_name_max = 191"

definition app_lock_name :: "string \<Rightarrow> string list \<Rightarrow> string" where
  "app_lock_name namespace parts =
     (let suffix = concat (case parts of [] \<Rightarrow> [] | p # ps \<Rightarrow> p # map (\<lambda>q. '':'' @ q) ps)
      in if suffix \<noteq> [] then namespace @ '':'' @ suffix else namespace)"

definition value_error :: exn where "value_error = RuntimeErr ''ValueError''"

definition validate_lock_name :: "string \<Rightarrow> exn + unit" where
  "validate_lock_name name =
     (if name = [] then Inl value_error
      else if length name > lock_name_max then Inl value_error else Inr ())"

definition know :: "string \<Rightarrow> lock_world \<Rightarrow> lock_world" where
  "know name w = w\<lparr>ak_known := List.insert name (ak_known w)\<rparr>"

definition forget :: "string \<Rightarrow> lock_world \<Rightarrow> lock_world" where
  "forget name w = w\<lparr>ak_known := removeAll name (ak_known w)\<rparr>"

text \<open>\<^verbatim>\<open>INSERT IGNORE\<close>.\<close>

definition insert_ignore :: "string \<Rightarrow> lock_world \<Rightarrow> lock_world" where
  "insert_ignore name w = w\<lparr>ak_rows := List.insert name (ak_rows w)\<rparr>"

text \<open>
  \<^verbatim>\<open>_ensure_lock_row\<close>: a short transaction of its own, tried again after a deadlock; \<open>faults\<close> are the
  error codes of its attempts, \<open>None\<close> for one that works.
\<close>

definition lock_retry_limit :: nat where "lock_retry_limit = 3"
definition mysql_deadlock :: int where "mysql_deadlock = 1213"

fun ensure_attempts :: "nat \<Rightarrow> int option list \<Rightarrow> string \<Rightarrow> lock_world \<Rightarrow> exn + lock_world" where
  "ensure_attempts attempt [] name w = Inr (know name (insert_ignore name w))"
| "ensure_attempts attempt (None # faults) name w = Inr (know name (insert_ignore name w))"
| "ensure_attempts attempt (Some code # faults) name w =
     (if code \<noteq> mysql_deadlock \<or> attempt = lock_retry_limit - 1 then Inl (RuntimeErr ''DBAPIError'')
      else ensure_attempts (attempt + 1) faults name w)"

definition ensure_lock_row :: "int option list \<Rightarrow> string \<Rightarrow> lock_world \<Rightarrow> exn + lock_world" where
  "ensure_lock_row faults name w = ensure_attempts 0 faults name w"

definition ensure_transaction_lock_row :: "int option list \<Rightarrow> string \<Rightarrow> lock_world \<Rightarrow> exn + lock_world" where
  "ensure_transaction_lock_row faults name w =
     bind_res (validate_lock_name name) (\<lambda>_. ensure_lock_row faults name w)"

definition ensure_in_transaction :: "string \<Rightarrow> lock_world \<Rightarrow> lock_world" where
  "ensure_in_transaction name w =
     (if name \<notin> set (ak_known w) then know name (insert_ignore name w) else w)"

text \<open>\<^verbatim>\<open>SELECT ... FOR UPDATE\<close>: whether the row is there; then the transaction has its lock.\<close>

definition select_for_update :: "int \<Rightarrow> string \<Rightarrow> lock_world \<Rightarrow> bool \<times> lock_world" where
  "select_for_update t name w =
     (if name \<in> set (ak_rows w) then (True, w\<lparr>ak_owner := (ak_owner w)(name := Some t)\<rparr>) else (False, w))"

text \<open>The loop of two rounds; \<open>envs\<close> are the activities of others before each of its statements.\<close>

fun lock_rounds :: "nat \<Rightarrow> (nat \<Rightarrow> lock_world \<Rightarrow> lock_world) \<Rightarrow> int \<Rightarrow> string \<Rightarrow> lock_world \<Rightarrow> exn + lock_world" where
  "lock_rounds 0 env t name w = Inl (RuntimeErr ''RuntimeError'')"
| "lock_rounds (Suc n) env t name w =
     (case select_for_update t name (env n w) of
        (True, w1) \<Rightarrow> Inr (know name w1)
      | (False, w1) \<Rightarrow> lock_rounds n env t name (ensure_in_transaction name (forget name w1)))"

definition acquire_transaction_lock ::
    "bool \<Rightarrow> int option list \<Rightarrow> (nat \<Rightarrow> lock_world \<Rightarrow> lock_world) \<Rightarrow> int \<Rightarrow> string \<Rightarrow> lock_world \<Rightarrow> exn + lock_world" where
  "acquire_transaction_lock checked_out faults env t name w =
     bind_res (validate_lock_name name) (\<lambda>_.
       bind_res
         (if name \<in> set (ak_known w) then Inr w
          else if checked_out then Inr (ensure_in_transaction name w)
          else ensure_lock_row faults name w)
         (lock_rounds 2 env t name))"

text \<open>The end of a transaction frees its row locks.\<close>

definition end_transaction :: "int \<Rightarrow> lock_world \<Rightarrow> lock_world" where
  "end_transaction t w = w\<lparr>ak_owner := (\<lambda>n. if ak_owner w n = Some t then None else ak_owner w n)\<rparr>"

section \<open>Facts\<close>

text \<open>Others may insert rows, change the cache and take free locks, but keep the rows that exist.\<close>

definition keeps_rows :: "(nat \<Rightarrow> lock_world \<Rightarrow> lock_world) \<Rightarrow> bool" where
  "keeps_rows env \<longleftrightarrow> (\<forall>n w. set (ak_rows w) \<subseteq> set (ak_rows (env n w)))"

lemma lock_rounds_held:
  "lock_rounds n env t name w = Inr w' \<Longrightarrow> ak_owner w' name = Some t \<and> name \<in> set (ak_rows w')"
proof (induction n arbitrary: w)
  case (Suc n)
  then show ?case
    by (cases "name \<in> set (ak_rows (env n w))") (auto simp: select_for_update_def know_def)
qed simp

text \<open>Whoever gets the lock has it, however wrong the cache was and whatever others did.\<close>

lemma acquired_means_held:
  "acquire_transaction_lock co faults env t name w = Inr w' \<Longrightarrow> ak_owner w' name = Some t \<and> name \<in> set (ak_rows w')"
  by (auto simp: acquire_transaction_lock_def bind_res_Inr_iff dest: lock_rounds_held)

lemma lock_rounds_return:
  assumes "keeps_rows env"
  shows "\<exists>w'. lock_rounds 2 env t name w = Inr w'"
proof (cases "name \<in> set (ak_rows (env 1 w))")
  case True
  then show ?thesis by (simp add: numeral_2_eq_2 select_for_update_def)
next
  case False
  let ?w = "ensure_in_transaction name (forget name (env 1 w))"
  have "name \<in> set (ak_rows ?w)" by (simp add: ensure_in_transaction_def forget_def know_def insert_ignore_def)
  then have "name \<in> set (ak_rows (env 0 ?w))" using assms unfolding keeps_rows_def by blast
  with False show ?thesis by (simp add: numeral_2_eq_2 select_for_update_def)
qed

lemma ensure_attempts_return:
  "list_all (\<lambda>f. f \<in> {None, Some mysql_deadlock}) faults \<Longrightarrow> length (takeWhile (\<lambda>f. f \<noteq> None) faults) + attempt < lock_retry_limit
     \<Longrightarrow> \<exists>w'. ensure_attempts attempt faults name w = Inr w'"
  by (induction attempt faults name w rule: ensure_attempts.induct) (auto simp: lock_retry_limit_def)

end
