(* ===== verification/MySqlChecks.thy ===== *)
theory MySqlChecks
  imports Schema Decimal AppLock
begin

text \<open>
  \<^verbatim>\<open>db/mysql_capabilities.py\<close>: the checks of the MySQL server before and after a migration.  What the
  information schema answers is a value: \<open>mysql_server\<close> for the server, \<open>lock_table\<close> for the table
  \<^verbatim>\<open>app_locks\<close>.  Every refusal is a \<^verbatim>\<open>RuntimeError\<close>; its message is not modelled.
\<close>

definition check_failed :: exn where "check_failed = RuntimeErr ''RuntimeError''"

definition min_mysql_check_version :: "int \<times> int \<times> int" where "min_mysql_check_version = (8, 0, 16)"
definition required_mysql_collation :: string where "required_mysql_collation = ''utf8mb4_0900_bin''"
definition required_mysql_engine :: string where "required_mysql_engine = ''InnoDB''"
definition app_lock_name_length :: int where "app_lock_name_length = 191"

definition py_upper :: "string \<Rightarrow> string" where "py_upper s = map upper_char s"

definition parse_mysql_version :: "string \<Rightarrow> exn + int \<times> int \<times> int" where
  "parse_mysql_version version =
     (case py_split_on CHR ''.'' (takeWhile (\<lambda>c. c \<noteq> CHR ''-'') version) of
        a # b # c # _ \<Rightarrow>
          (case (py_int a, py_int b, py_int c) of
             (Some x, Some y, Some z) \<Rightarrow> Inr (x, y, z)
           | _ \<Rightarrow> Inl check_failed)
      | _ \<Rightarrow> Inl check_failed)"

definition validate_mysql_capability_values ::
    "string \<Rightarrow> string option \<Rightarrow> string \<Rightarrow> bool \<Rightarrow> bool \<Rightarrow> exn + unit" where
  "validate_mysql_capability_values version collation default_storage_engine log_bin_enabled trust_function_creators =
     bind_res (parse_mysql_version version) (\<lambda>parsed.
       if parsed < min_mysql_check_version then Inl check_failed
       else if collation \<noteq> Some required_mysql_collation then Inl check_failed
       else if py_upper default_storage_engine \<noteq> py_upper required_mysql_engine then Inl check_failed
       else if log_bin_enabled \<and> \<not> trust_function_creators then Inl check_failed
       else Inr ())"

record mysql_server =
  ms_version :: string
  ms_collation :: "string option"
  ms_engine :: string
  ms_log_bin :: int
  ms_trust :: int

definition assert_mysql_database_capabilities :: "string \<Rightarrow> mysql_server \<Rightarrow> exn + unit" where
  "assert_mysql_database_capabilities dialect m =
     (if dialect \<noteq> ''mysql'' then Inr ()
      else validate_mysql_capability_values (ms_version m) (ms_collation m) (ms_engine m)
             (ms_log_bin m \<noteq> 0) (ms_trust m \<noteq> 0))"

record name_column =
  nc_type :: "string option"
  nc_length :: "int option"
  nc_nullable :: "string option"
  nc_collation :: "string option"

record lock_table =
  lt_engine :: "string option"
  lt_collation :: "string option"
  lt_key :: "string list"
  lt_name :: "name_column option"

definition or_empty :: "string option \<Rightarrow> string" where
  "or_empty s = (case s of None \<Rightarrow> [] | Some t \<Rightarrow> t)"

definition name_column_healthy :: "name_column option \<Rightarrow> exn + unit" where
  "name_column_healthy column =
     (case column of
        None \<Rightarrow> Inl check_failed
      | Some c \<Rightarrow>
          (let max_length = (case nc_length c of None \<Rightarrow> 0 | Some n \<Rightarrow> n) in
           if py_lower (or_empty (nc_type c)) \<noteq> ''varchar'' \<or> max_length < app_lock_name_length then Inl check_failed
           else if py_upper (or_empty (nc_nullable c)) \<noteq> ''NO'' then Inl check_failed
           else if or_empty (nc_collation c) \<noteq> required_mysql_collation then Inl check_failed
           else Inr ()))"

definition assert_app_locks_table_healthy :: "string \<Rightarrow> lock_table option \<Rightarrow> exn + unit" where
  "assert_app_locks_table_healthy dialect t =
     (if dialect \<noteq> ''mysql'' then Inr ()
      else (case t of
              None \<Rightarrow> Inr ()
            | Some r \<Rightarrow>
                if py_upper (or_empty (lt_engine r)) \<noteq> ''INNODB'' then Inl check_failed
                else if or_empty (lt_collation r) \<noteq> required_mysql_collation then Inl check_failed
                else if lt_key r \<noteq> [''name''] then Inl check_failed
                else name_column_healthy (lt_name r)))"

section \<open>Facts\<close>

text \<open>A version is the three numbers that a server prints, whatever follows a hyphen.\<close>

lemma split_on_no_sep: "c \<notin> set a \<Longrightarrow> py_split_on c a = [a]"
  by (induction a) auto

lemma split_on_append: "c \<notin> set a \<Longrightarrow> py_split_on c (a @ c # r) = a # py_split_on c r"
  by (induction a) auto

lemma nat_str_no_mark:
  shows "CHR ''.'' \<notin> set (nat_str n)" and "CHR ''-'' \<notin> set (nat_str n)"
  by (auto dest!: nat_str_digits simp: is_digit_def digit_val_def)

lemma parse_printed_version:
  assumes "suffix = [] \<or> hd suffix = CHR ''-''"
  shows "parse_mysql_version (nat_str a @ ''.'' @ nat_str b @ ''.'' @ nat_str c @ suffix) = Inr (int a, int b, int c)"
proof -
  let ?v = "nat_str a @ ''.'' @ nat_str b @ ''.'' @ nat_str c"
  have h: "\<forall>x \<in> set ?v. x \<noteq> CHR ''-''" using nat_str_no_mark (2) by (auto; metis)
  have "takeWhile (\<lambda>x. x \<noteq> CHR ''-'') suffix = []" using assms by (cases suffix) auto
  then have "takeWhile (\<lambda>x. x \<noteq> CHR ''-'') (?v @ suffix) = ?v"
    using h by (subst takeWhile_append2) auto
  moreover have "py_split_on CHR ''.'' ?v = [nat_str a, nat_str b, nat_str c]"
    using nat_str_no_mark (1) by (simp add: split_on_append split_on_no_sep)
  ultimately show ?thesis by (simp add: parse_mysql_version_def)
qed

lemma server_accepted_iff:
  "validate_mysql_capability_values v c e l t = Inr () \<longleftrightarrow>
     (\<exists>p. parse_mysql_version v = Inr p \<and> min_mysql_check_version \<le> p) \<and> c = Some required_mysql_collation
     \<and> py_upper e = py_upper required_mysql_engine \<and> (l \<longrightarrow> t)"
  by (auto simp: validate_mysql_capability_values_def bind_res_Inr_iff not_less split: if_splits)

text \<open>
  In a table that passes, every name that the locks accept fits its column, and the sentinel row of a name is
  unique: the premises under which \<open>AppLock\<close> takes the table as one row for each name.
\<close>

lemma healthy_table_holds_names:
  assumes "assert_app_locks_table_healthy ''mysql'' (Some r) = Inr ()" and "validate_lock_name name = Inr ()"
  shows "\<exists>c n. lt_name r = Some c \<and> nc_length c = Some n \<and> int (length name) \<le> n \<and> lt_key r = [''name'']
     \<and> lt_collation r = Some required_mysql_collation \<and> nc_collation c = Some required_mysql_collation"
  using assms
  by (auto simp: assert_app_locks_table_healthy_def name_column_healthy_def validate_lock_name_def lock_name_max_def
      app_lock_name_length_def Let_def or_empty_def required_mysql_collation_def split: if_splits option.splits)

end
