(* ===== verification/Download.thy ===== *)
theory Download
  imports FileService
begin

text \<open>
  The headers of a download (\<^verbatim>\<open>domains/file/api.py\<close>): the name that the uploader chose goes back to the
  browser in \<^verbatim>\<open>Content-Disposition\<close>, an ASCII fallback in a quoted string and the name in UTF-8 with percent
  escapes.  \<open>read_disposition\<close> is how a client reads it (RFC 6266): the property of the header is what that
  reader gets.
\<close>

definition without_newlines :: "string \<Rightarrow> string" where
  "without_newlines filename = filter (\<lambda>c. c \<noteq> CHR 0x0D \<and> c \<noteq> CHR 0x0A) filename"

definition ascii_char :: "char \<Rightarrow> bool" where
  "ascii_char c \<longleftrightarrow> (of_char c :: nat) < 128"

definition ascii_fallback :: "string \<Rightarrow> string" where
  "ascii_fallback sanitized =
     (let t = py_strip (filter (\<lambda>c. c \<noteq> CHR '';'') (filter (\<lambda>c. c \<noteq> CHR 0x22) (filter ascii_char sanitized)))
      in if t = [] then ''download'' else t)"

text \<open>\<^verbatim>\<open>urllib.parse.quote\<close>: UTF-8, then an escape for each byte that is not unreserved or a slash.\<close>

definition utf8_char :: "char \<Rightarrow> string" where
  "utf8_char c =
     (let n = (of_char c :: nat) in if n < 128 then [c] else [char_of (192 + n div 64), char_of (128 + n mod 64)])"

definition unreserved :: "char \<Rightarrow> bool" where
  "unreserved c \<longleftrightarrow>
     (let n = (of_char c :: nat) in
      48 \<le> n \<and> n \<le> 57 \<or> 65 \<le> n \<and> n \<le> 90 \<or> 97 \<le> n \<and> n \<le> 122) \<or> c \<in> {CHR ''_'', CHR ''.'', CHR ''-'', CHR ''~'', CHR ''/''}"

definition hex_upper :: "nat \<Rightarrow> char" where
  "hex_upper d = char_of (if d < 10 then d + 48 else d + 55)"

definition quote_byte :: "char \<Rightarrow> string" where
  "quote_byte c =
     (if unreserved c then [c]
      else [CHR ''%'', hex_upper ((of_char c :: nat) div 16), hex_upper ((of_char c :: nat) mod 16)])"

definition quote :: "string \<Rightarrow> string" where
  "quote s = concat (map quote_byte (concat (map utf8_char s)))"

definition content_disposition :: "string \<Rightarrow> string" where
  "content_disposition filename =
     (let sanitized = without_newlines filename in
      ''attachment; filename='' @ [CHR 0x22] @ ascii_fallback sanitized @ [CHR 0x22] @ ''; filename*=UTF-8''
        @ [CHR 0x27, CHR 0x27] @ quote sanitized)"

definition download_headers :: "file_row \<Rightarrow> (string \<times> string) list" where
  "download_headers meta =
     [(''Content-Disposition'', content_disposition (f_name meta)), (''X-Content-Type-Options'', ''nosniff'')]"

section \<open>The reader\<close>

fun percent_decode :: "string \<Rightarrow> string" where
  "percent_decode (c # a # b # cs) =
     (if c = CHR ''%'' then char_of (nat (16 * the (hex_val a) + the (hex_val b))) # percent_decode cs
      else c # percent_decode (a # b # cs))"
| "percent_decode cs = cs"

fun utf8_decode :: "string \<Rightarrow> string" where
  "utf8_decode (a # b # cs) =
     (if ascii_char a then a # utf8_decode (b # cs)
      else char_of (((of_char a :: nat) mod 32) * 64 + (of_char b :: nat) mod 64) # utf8_decode cs)"
| "utf8_decode cs = cs"

fun read_quoted :: "string \<Rightarrow> string \<Rightarrow> (string \<times> string) option" where
  "read_quoted acc [] = None"
| "read_quoted acc (c # cs) =
     (if c = CHR 0x22 then Some (rev acc, cs)
      else if c = CHR 0x5C then (case cs of [] \<Rightarrow> None | d # ds \<Rightarrow> read_quoted (d # acc) ds)
      else read_quoted (c # acc) cs)"

definition after_prefix :: "string \<Rightarrow> string \<Rightarrow> string option" where
  "after_prefix p s = (if take (length p) s = p then Some (drop (length p) s) else None)"

definition read_disposition :: "string \<Rightarrow> (string \<times> string) option" where
  "read_disposition h =
     Option.bind (after_prefix (''attachment; filename='' @ [CHR 0x22]) h) (\<lambda>r.
       Option.bind (read_quoted [] r) (\<lambda>(fallback, rest).
         map_option (\<lambda>q. (fallback, utf8_decode (percent_decode q)))
           (after_prefix (''; filename*=UTF-8'' @ [CHR 0x27, CHR 0x27]) rest)))"

section \<open>Facts\<close>

lemma of_char_less_256: "(of_char c :: nat) < 256"
  using of_char_mod_256 [where 'a = nat, of c] mod_less_divisor [of 256 "of_char c :: nat"] by simp

lemma of_char_halves: "(of_char c :: nat) div 16 < 16" "(of_char c :: nat) mod 16 < 16"
  using of_char_less_256 [of c] by (simp_all add: less_mult_imp_div_less)

lemma after_prefix_append [simp]: "after_prefix p (p @ s) = Some s"
  by (simp add: after_prefix_def)

lemma percent_decode_other: "c \<noteq> CHR ''%'' \<Longrightarrow> percent_decode (c # cs) = c # percent_decode cs"
  by (cases cs; cases "tl cs") auto

lemma hex_val_upper: "d < 16 \<Longrightarrow> hex_val (hex_upper d) = Some (int d)"
  by (auto simp: hex_val_def hex_upper_def Let_def)

lemma hex_pair:
  assumes "n < 256"
  shows "nat (16 * the (hex_val (hex_upper (n div 16))) + the (hex_val (hex_upper (n mod 16)))) = n"
proof -
  have "n div 16 < 16" using assms by (simp add: less_mult_imp_div_less)
  then have "hex_val (hex_upper (n div 16)) = Some (int (n div 16))" "hex_val (hex_upper (n mod 16)) = Some (int (n mod 16))"
    by (simp_all add: hex_val_upper)
  moreover have "16 * int (n div 16) + int (n mod 16) = int n" by (simp add: zdiv_int zmod_int)
  ultimately show ?thesis by simp
qed

lemma percent_decode_byte: "percent_decode (quote_byte c @ s) = c # percent_decode s"
proof (cases "unreserved c")
  case True
  then have "c \<noteq> CHR ''%''" by (auto simp: unreserved_def Let_def)
  with True show ?thesis by (simp add: quote_byte_def percent_decode_other)
next
  case False
  then have "quote_byte c = [CHR ''%'', hex_upper (of_char c div 16), hex_upper (of_char c mod 16)]"
    by (simp add: quote_byte_def)
  then show ?thesis using hex_pair [OF of_char_less_256 [of c]] by simp
qed

lemma percent_decode_bytes: "percent_decode (concat (map quote_byte bs)) = bs"
  by (induction bs) (simp_all add: percent_decode_byte)

lemma utf8_decode_ascii: "ascii_char c \<Longrightarrow> utf8_decode (c # cs) = c # utf8_decode cs"
  by (cases cs) auto

lemma utf8_pair:
  fixes n :: nat
  assumes "128 \<le> n" and "n < 256"
  shows "192 + n div 64 < 256" and "(192 + n div 64) mod 32 * 64 + (128 + n mod 64) mod 64 = n"
proof -
  have "n div 64 < 4" using assms (2) by (simp add: less_mult_imp_div_less)
  moreover have "2 \<le> n div 64" using div_le_mono [OF assms (1), of 64] by simp
  ultimately have "n div 64 = 2 \<or> n div 64 = 3" by linarith
  then have q: "192 + n div 64 < 256" "(192 + n div 64) mod 32 = n div 64" by (elim disjE; simp)+
  have r: "(128 + n mod 64) mod 64 = n mod 64" using mod_mult_self3 [of 2 64 "n mod 64"] by simp
  show "192 + n div 64 < 256" by (rule q)
  show "(192 + n div 64) mod 32 * 64 + (128 + n mod 64) mod 64 = n" unfolding q r by (rule div_mult_mod_eq)
qed

lemma of_char_of_small: "n < 256 \<Longrightarrow> (of_char (char_of n) :: nat) = n"
  by simp

lemma utf8_decode_char: "utf8_decode (utf8_char c @ s) = c # utf8_decode s"
proof (cases "ascii_char c")
  case True
  then show ?thesis by (simp add: utf8_char_def ascii_char_def utf8_decode_ascii)
next
  case False
  define n :: nat where "n = of_char c"
  have n: "128 \<le> n" "n < 256" using False of_char_less_256 [of c] by (auto simp: ascii_char_def n_def)
  have c: "c = char_of n" by (simp add: n_def)
  have u: "utf8_char c = [char_of (192 + n div 64), char_of (128 + n mod 64)]"
    using n by (simp add: utf8_char_def Let_def flip: n_def)
  have a: "of_char (char_of (192 + n div 64)) = 192 + n div 64" by (rule of_char_of_small) (use utf8_pair [OF n] in simp)
  have b: "of_char (char_of (128 + n mod 64)) = 128 + n mod 64"
    by (rule of_char_of_small) (use mod_less_divisor [of 64 n] in linarith)
  have "\<not> ascii_char (char_of (192 + n div 64))" unfolding ascii_char_def a by simp
  then show ?thesis unfolding u by (simp only: append.simps utf8_decode.simps if_False a b utf8_pair (2) [OF n] c)
qed

lemma utf8_roundtrip: "utf8_decode (concat (map utf8_char s)) = s"
  by (induction s) (simp_all add: utf8_decode_char)

lemma quote_roundtrip: "utf8_decode (percent_decode (quote s)) = s"
  by (simp add: quote_def percent_decode_bytes utf8_roundtrip)

lemma read_quoted_plain:
  "CHR 0x22 \<notin> set s \<Longrightarrow> CHR 0x5C \<notin> set s \<Longrightarrow> read_quoted acc (s @ r) = read_quoted (rev s @ acc) r"
  by (induction s arbitrary: acc) auto

lemma read_quoted_open: "CHR 0x22 \<notin> set s \<Longrightarrow> read_quoted acc s = None"
  by (induction acc s rule: read_quoted.induct) (auto split: list.splits)

lemma set_strip: "set (py_strip s) \<subseteq> set s"
  unfolding py_strip_def strip_by_def by (auto dest!: set_dropWhileD)

lemma set_ascii_fallback:
  "set (ascii_fallback s) \<subseteq> {c \<in> set s. ascii_char c \<and> c \<noteq> CHR 0x22 \<and> c \<noteq> CHR '';''} \<union> set ''download''"
proof -
  let ?t = "filter (\<lambda>c. c \<noteq> CHR '';'') (filter (\<lambda>c. c \<noteq> CHR 0x22) (filter ascii_char s))"
  have "set (py_strip ?t) \<subseteq> {c \<in> set s. ascii_char c \<and> c \<noteq> CHR 0x22 \<and> c \<noteq> CHR '';''}"
    using set_strip [of ?t] by auto
  moreover have "ascii_fallback s = py_strip ?t \<or> ascii_fallback s = ''download''"
    by (simp add: ascii_fallback_def Let_def del: filter_filter)
  ultimately show ?thesis by (elim disjE) (simp only:, blast)+
qed

lemma unreserved_hex: "d < 16 \<Longrightarrow> unreserved (hex_upper d)"
  by (cases "d < 10") (simp_all add: unreserved_def hex_upper_def Let_def)

lemma set_quote: "set (quote s) \<subseteq> {c. unreserved c \<or> c = CHR ''%''}"
proof -
  have "set (quote_byte c) \<subseteq> {c. unreserved c \<or> c = CHR ''%''}" for c
    using unreserved_hex [OF of_char_halves (1) [of c]] unreserved_hex [OF of_char_halves (2) [of c]]
    by (simp add: quote_byte_def)
  then show ?thesis unfolding quote_def by (simp only: set_concat set_map) blast
qed

text \<open>No name breaks out of the header line, and without a backslash a client reads both names back.\<close>

theorem content_disposition_one_line:
  "c \<in> set (content_disposition name) \<Longrightarrow> ascii_char c \<and> c \<noteq> CHR 0x0D \<and> c \<noteq> CHR 0x0A"
  using set_ascii_fallback [of "without_newlines name"] set_quote [of "without_newlines name"]
  by (auto simp: content_disposition_def Let_def without_newlines_def ascii_char_def unreserved_def)

theorem content_disposition_read_back:
  assumes "CHR 0x5C \<notin> set name"
  shows "read_disposition (content_disposition name)
     = Some (ascii_fallback (without_newlines name), without_newlines name)"
proof -
  let ?s = "without_newlines name"
  have b: "CHR 0x22 \<notin> set (ascii_fallback ?s)" "CHR 0x5C \<notin> set (ascii_fallback ?s)"
    using assms set_ascii_fallback [of ?s] by (auto simp: without_newlines_def)
  have "content_disposition name = (''attachment; filename='' @ [CHR 0x22])
      @ ascii_fallback ?s @ CHR 0x22 # (''; filename*=UTF-8'' @ [CHR 0x27, CHR 0x27]) @ quote ?s"
    by (simp add: content_disposition_def Let_def)
  then show ?thesis
    by (simp add: read_disposition_def read_quoted_plain [OF b] quote_roundtrip del: append.simps append_Cons append_assoc)
qed

text \<open>
  The extension is checked before the name is cut to 255 characters, so a stored name can end in a backslash;
  it then escapes the closing quote, and a client that follows the grammar finds no end of the quoted string.
\<close>

definition cut_name :: string where
  "cut_name = replicate 254 CHR ''a'' @ [CHR 0x5C] @ ''.png''"

theorem cut_name_unreadable:
  "extract_ext cut_name = ''png''" "read_disposition (content_disposition (take 255 cut_name)) = None"
proof -
  show "extract_ext cut_name = ''png''" by code_simp
  let ?a = "replicate 254 CHR ''a''"
  let ?s = "?a @ [CHR 0x5C]"
  have t: "take 255 cut_name = ?s" by (simp add: cut_name_def)
  have w: "without_newlines ?s = ?s" by (simp add: without_newlines_def)
  have f: "ascii_fallback ?s = ?s" by code_simp
  have q: "CHR 0x22 \<notin> set (''; filename*=UTF-8'' @ [CHR 0x27, CHR 0x27] @ quote ?s)"
    using set_quote [of ?s] by (auto simp: unreserved_def)
  have "content_disposition ?s = (''attachment; filename='' @ [CHR 0x22])
      @ ?a @ [CHR 0x5C, CHR 0x22] @ (''; filename*=UTF-8'' @ [CHR 0x27, CHR 0x27] @ quote ?s)"
    by (simp add: content_disposition_def Let_def w f)
  moreover have "read_quoted [] (?a @ [CHR 0x5C, CHR 0x22] @ r) = read_quoted (CHR 0x22 # rev ?a) r" for r
    by (subst read_quoted_plain) auto
  ultimately show "read_disposition (content_disposition (take 255 cut_name)) = None"
    unfolding t by (simp add: read_disposition_def read_quoted_open [OF q] del: append.simps append_Cons append_assoc)
qed

end
