(* ===== verification/Lifespan.thy ===== *)
theory Lifespan
  imports Scheduler AppConfig
begin

text \<open>
  Start and end of a worker process: \<^verbatim>\<open>lifespan\<close> of \<^verbatim>\<open>main.py\<close> with the tracer provider of
  \<^verbatim>\<open>core/observability.py\<close> and the cached engine of \<^verbatim>\<open>db/engine.py\<close>.  What is acquired is registered with an
  exit stack before the step that may fail, so it is released on every path.
\<close>

section \<open>The tracer provider\<close>

text \<open>
  Providers are numbers.  \<open>ot_global\<close> is the provider that the OpenTelemetry API has installed, once for the
  process, by whomever; \<open>ot_exporting\<close> are our providers whose export thread runs.
\<close>

record otel =
  ot_provider :: "int option"
  ot_owns :: bool
  ot_global :: "int option"
  ot_exporting :: "int list"
  ot_flushed :: "int list"

text \<open>Building the exporter and the provider raises, before or after the export thread has started, or works.\<close>

datatype otel_build = Breaks bool | Builds

text \<open>
  The library's \<^verbatim>\<open>set_tracer_provider\<close> is the argument \<open>install\<close>; the code relies on its documentation, that
  the first provider stays.
\<close>

type_synonym installer = "int option \<Rightarrow> int \<Rightarrow> int option"

definition keeps_first :: "installer \<Rightarrow> bool" where
  "keeps_first install \<longleftrightarrow> (\<forall>p q. install (Some q) p = Some q)"

definition set_tracer_provider :: "installer \<Rightarrow> int \<Rightarrow> otel \<Rightarrow> otel" where
  "set_tracer_provider install p st = st\<lparr>ot_global := install (ot_global st) p\<rparr>"

definition init_observability :: "installer \<Rightarrow> bool \<Rightarrow> otel_build \<Rightarrow> int \<Rightarrow> bool \<Rightarrow> otel \<Rightarrow> otel" where
  "init_observability install enabled b new cleans st =
     (if \<not> enabled then st
      else if ot_provider st \<noteq> None then st
      else (case b of
              Breaks running \<Rightarrow> if running then st\<lparr>ot_exporting := new # ot_exporting st\<rparr> else st
            | Builds \<Rightarrow>
                (let st1 = set_tracer_provider install new (st\<lparr>ot_exporting := new # ot_exporting st\<rparr>) in
                 if ot_global st1 = Some new then st1\<lparr>ot_provider := Some new, ot_owns := True\<rparr>
                 else if cleans then st1\<lparr>ot_exporting := removeAll new (ot_exporting st1)\<rparr> else st1)))"

definition shutdown_observability :: "bool \<Rightarrow> bool \<Rightarrow> otel \<Rightarrow> otel" where
  "shutdown_observability enabled flushes st =
     (if \<not> enabled then st
      else (case ot_provider st of
              None \<Rightarrow> st
            | Some p \<Rightarrow> if ot_owns st \<and> flushes then st\<lparr>ot_flushed := p # ot_flushed st\<rparr> else st))"

section \<open>The exit stack\<close>

text \<open>Resources of the process.  \<open>pr_engine\<close>: the engine is cached, and its pool may hold connections.\<close>

record 't process =
  pr_engine :: bool
  pr_redis :: bool
  pr_sink :: bool
  pr_otel :: otel
  pr_sched :: "'t controller \<times> lock_server"

type_synonym 't cleanup = "'t process \<Rightarrow> exn option \<times> 't process"

text \<open>\<^verbatim>\<open>AsyncExitStack\<close>: the callbacks run from the last to the first, each whatever the others raised.\<close>

fun unwind :: "'t cleanup list \<Rightarrow> exn option \<Rightarrow> 't process \<Rightarrow> exn option \<times> 't process" where
  "unwind [] e p = (e, p)"
| "unwind (c # cs) e p =
     (case c p of (None, p1) \<Rightarrow> unwind cs e p1 | (Some e1, p1) \<Rightarrow> unwind cs (Some e1) p1)"

record life_faults =
  lf_dispose :: "exn option"
  lf_close :: "exn option"
  lf_flushes :: bool
  lf_release :: answer

definition dispose_engine :: "exn option \<Rightarrow> 't cleanup" where
  "dispose_engine fault p =
     (if pr_engine p
      then (case fault of Some e \<Rightarrow> (Some e, p) | None \<Rightarrow> (None, p\<lparr>pr_engine := False\<rparr>))
      else (None, p))"

definition close_redis :: "exn option \<Rightarrow> 't cleanup" where
  "close_redis fault p = (case fault of Some e \<Rightarrow> (Some e, p) | None \<Rightarrow> (None, p\<lparr>pr_redis := False\<rparr>))"

definition sink_off :: "'t cleanup" where
  "sink_off p = (None, p\<lparr>pr_sink := False\<rparr>)"

definition flush_spans :: "bool \<Rightarrow> bool \<Rightarrow> 't cleanup" where
  "flush_spans enabled flushes p = (None, p\<lparr>pr_otel := shutdown_observability enabled flushes (pr_otel p)\<rparr>)"

definition stop_scheduler :: "answer \<Rightarrow> 't cleanup" where
  "stop_scheduler an p = (None, p\<lparr>pr_sched := stop_controller an (pr_sched p)\<rparr>)"

text \<open>\<^verbatim>\<open>_eager_probe_dependencies\<close>: the database, then Redis; the engine is created by the first use.\<close>

definition eager_probe :: "exn option \<Rightarrow> exn option \<Rightarrow> 't process \<Rightarrow> exn option \<times> 't process" where
  "eager_probe db_fault redis_fault p =
     (let p1 = p\<lparr>pr_engine := True\<rparr> in
      (case db_fault of
         Some e \<Rightarrow> (Some e, p1)
       | None \<Rightarrow> ((if pr_redis p1 then redis_fault else None), p1)))"

section \<open>The lifespan\<close>

record 't life_env =
  le_install :: installer
  le_otel :: bool
  le_build :: otel_build
  le_new :: int
  le_cleans :: bool
  le_persist :: bool
  le_db :: "exn option"
  le_ping :: "exn option"
  le_sched :: "'t sched_env"
  le_conn :: "int option"
  le_answer :: answer
  le_tasks :: "db option"

text \<open>\<open>serve\<close> is everything between start and end of the worker.\<close>

definition start_and_serve ::
    "'t life_env \<Rightarrow> life_faults \<Rightarrow> ('t process \<Rightarrow> 't process) \<Rightarrow> 't cleanup list \<Rightarrow> 't process \<Rightarrow> exn option \<times> 't process" where
  "start_and_serve E F serve stack p =
     (let p1 = p\<lparr>pr_sched := (new_controller, snd (pr_sched p)), pr_engine := (pr_engine p \<or> se_enabled (le_sched E))\<rparr>;
          full = stop_scheduler (lf_release F) # stack
      in (case start_controller (le_sched E) (le_conn E) (le_answer E) (le_tasks E) (pr_sched p1) of
            (Inl e, ws) \<Rightarrow> unwind full (Some e) (p1\<lparr>pr_sched := ws\<rparr>)
          | (Inr _, ws) \<Rightarrow> unwind full None (serve (p1\<lparr>pr_sched := ws\<rparr>))))"

definition lifespan ::
    "app_settings \<Rightarrow> 't life_env \<Rightarrow> life_faults \<Rightarrow> ('t process \<Rightarrow> 't process) \<Rightarrow> 't process \<Rightarrow> exn option \<times> 't process" where
  "lifespan S E F serve p0 =
     (let p1 = p0\<lparr>pr_otel := init_observability (le_install E) (le_otel E) (le_build E) (le_new E) (le_cleans E) (pr_otel p0)\<rparr>;
          p2 = p1\<lparr>pr_sink := le_persist E\<rparr>;
          base = [dispose_engine (lf_dispose F), sink_off, flush_spans (le_otel E) (lf_flushes F)];
          stack = (if pr_redis p2 then close_redis (lf_close F) # base else base)
      in (case (if probes_at_startup S then eager_probe (le_db E) (le_ping E) p2 else (None, p2)) of
            (Some e, p3) \<Rightarrow> unwind stack (Some e) p3
          | (None, p3) \<Rightarrow> start_and_serve E F serve stack p3))"

section \<open>Facts\<close>

text \<open>Whatever other code installs, at most one provider of ours exports, the installed one that is flushed.\<close>

inductive otel_step :: "installer \<Rightarrow> otel \<Rightarrow> otel \<Rightarrow> bool" for install where
  initialised: "new \<notin> set_option (ot_global st) \<union> set (ot_exporting st) \<Longrightarrow> b \<noteq> Breaks True
     \<Longrightarrow> otel_step install st (init_observability install enabled b new True st)"
| shut_down: "otel_step install st (shutdown_observability enabled flushes st)"
| elsewhere: "otel_step install st (set_tracer_provider install other st)"

definition otel_ok :: "otel \<Rightarrow> bool" where
  "otel_ok st \<longleftrightarrow> set (ot_exporting st) = set_option (ot_provider st) \<and> (ot_owns st \<longleftrightarrow> ot_provider st \<noteq> None)
     \<and> (\<forall>p. ot_provider st = Some p \<longrightarrow> ot_global st = Some p) \<and> set (ot_flushed st) \<subseteq> set_option (ot_provider st)"

lemma otel_step_ok: "otel_step install st st' \<Longrightarrow> keeps_first install \<Longrightarrow> otel_ok st \<Longrightarrow> otel_ok st'"
proof (induction rule: otel_step.induct)
  case (initialised new st b enabled)
  show ?case
  proof (cases "enabled \<and> ot_provider st = None \<and> b = Builds")
    case True
    with initialised show ?thesis
      by (auto simp: otel_ok_def init_observability_def set_tracer_provider_def Let_def)
  next
    case False
    then have "init_observability install enabled b new True st = st"
      using initialised (2) by (cases b) (auto simp: init_observability_def)
    with initialised show ?thesis by simp
  qed
qed (auto simp: otel_ok_def shutdown_observability_def set_tracer_provider_def keeps_first_def split: option.splits)

lemma otel_reachable_ok: "(otel_step install)\<^sup>*\<^sup>* st st' \<Longrightarrow> keeps_first install \<Longrightarrow> otel_ok st \<Longrightarrow> otel_ok st'"
  by (induction rule: rtranclp_induct) (auto intro: otel_step_ok)

text \<open>The exception that ends the process is the last one that was raised.\<close>

lemma unwind_append: "unwind (cs @ ds) e p = (case unwind cs e p of (e1, p1) \<Rightarrow> unwind ds e1 p1)"
  by (induction cs e p rule: unwind.induct) (auto split: prod.splits option.splits)

definition idle :: "'t controller \<Rightarrow> bool" where
  "idle w \<longleftrightarrow> ct_conn w = None \<and> \<not> ct_leader w \<and> ct_jobs w = None \<and> \<not> ct_loop w"

lemma idle_stopped: "idle (fst (stop_controller an ws))"
  by (cases ws) (simp add: stop_controller_def idle_def)

definition released :: "life_faults \<Rightarrow> 't process \<Rightarrow> bool" where
  "released F p \<longleftrightarrow> \<not> pr_sink p \<and> (lf_dispose F = None \<longrightarrow> \<not> pr_engine p) \<and> (lf_close F = None \<longrightarrow> \<not> pr_redis p)"

lemma base_stack:
  assumes "unwind [dispose_engine (lf_dispose F), sink_off, flush_spans en fl] e p = (e', p')"
  shows "\<not> pr_sink p' \<and> (lf_dispose F = None \<longrightarrow> \<not> pr_engine p') \<and> pr_redis p' = pr_redis p
     \<and> pr_sched p' = pr_sched p \<and> (e \<noteq> None \<longrightarrow> e' \<noteq> None)"
  using assms
  by (cases "lf_dispose F"; cases "pr_engine p")
    (auto simp: dispose_engine_def sink_off_def flush_spans_def dest!: sym [of "Some _"])

lemma stack_releases:
  assumes u: "unwind (if r then close_redis (lf_close F) # base else base) e p = (e', p')"
    and b: "base = [dispose_engine (lf_dispose F), sink_off, flush_spans en fl]" and r: "pr_redis p \<longrightarrow> r"
  shows "released F p' \<and> pr_sched p' = pr_sched p \<and> (e \<noteq> None \<longrightarrow> e' \<noteq> None)"
proof (cases r)
  case False
  with u r have "unwind base e p = (e', p')" "\<not> pr_redis p" by auto
  with base_stack [of F en fl e p e' p'] show ?thesis unfolding b released_def by auto
next
  case True
  define q where "q = close_redis (lf_close F) p"
  obtain e1 p1 where q1: "q = (e1, p1)" by (cases q)
  have q2: "pr_sched p1 = pr_sched p" "lf_close F = None \<longrightarrow> \<not> pr_redis p1"
    using q1 unfolding q_def close_redis_def by (auto split: option.splits)
  from u True q1 obtain e2 where "unwind base e2 p1 = (e', p')" "e \<noteq> None \<longrightarrow> e2 \<noteq> None"
    unfolding q_def by (cases e1) auto
  with base_stack [of F en fl e2 p1 e' p'] q2 show ?thesis unfolding b released_def by auto
qed

lemma start_and_serve_releases:
  assumes l: "start_and_serve E F serve stack p = (e, p')"
    and stack: "\<And>e0 q e1 q'. unwind stack e0 q = (e1, q') \<Longrightarrow> pr_redis q \<longrightarrow> pr_redis p
       \<Longrightarrow> released F q' \<and> pr_sched q' = pr_sched q"
    and serve: "\<And>q. pr_redis (serve q) \<Longrightarrow> pr_redis q"
  shows "released F p' \<and> idle (fst (pr_sched p'))"
proof -
  have run: "released F p' \<and> idle (fst (pr_sched p'))"
    if "unwind (stop_scheduler (lf_release F) # stack) e0 q = (e, p')" and "pr_redis q \<longrightarrow> pr_redis p" for e0 q
  proof -
    have "unwind stack e0 (q\<lparr>pr_sched := stop_controller (lf_release F) (pr_sched q)\<rparr>) = (e, p')"
      using that (1) by (simp add: stop_scheduler_def)
    from stack [OF this] that (2) idle_stopped [of "lf_release F" "pr_sched q"] show ?thesis by simp
  qed
  let ?p = "p\<lparr>pr_sched := (new_controller, snd (pr_sched p)), pr_engine := (pr_engine p \<or> se_enabled (le_sched E))\<rparr>"
  obtain g ws where g: "start_controller (le_sched E) (le_conn E) (le_answer E) (le_tasks E) (pr_sched ?p) = (g, ws)"
    by (cases "start_controller (le_sched E) (le_conn E) (le_answer E) (le_tasks E) (pr_sched ?p)")
  show ?thesis
  proof (cases g)
    case (Inl x)
    with l g have "unwind (stop_scheduler (lf_release F) # stack) (Some x) (?p\<lparr>pr_sched := ws\<rparr>) = (e, p')"
      by (simp add: start_and_serve_def Let_def del: unwind.simps)
    from run [OF this] show ?thesis by simp
  next
    case (Inr y)
    with l g have "unwind (stop_scheduler (lf_release F) # stack) None (serve (?p\<lparr>pr_sched := ws\<rparr>)) = (e, p')"
      by (simp add: start_and_serve_def Let_def del: unwind.simps)
    from run [OF this] serve [of "?p\<lparr>pr_sched := ws\<rparr>"] show ?thesis by auto
  qed
qed

text \<open>
  Whether the probe fails, the scheduler cannot start or the worker ends after serving, and whatever the
  callbacks raise: the sink is reset, the engine and the Redis client are closed unless closing them itself
  raises, the controller is stopped, and a failed probe is reported.
\<close>

theorem lifespan_releases:
  assumes l: "lifespan S E F serve p0 = (e, p)" and idle: "idle (fst (pr_sched p0))"
    and serve: "\<And>q. pr_redis (serve q) \<Longrightarrow> pr_redis q"
  shows "released F p \<and> idle (fst (pr_sched p)) \<and>
    (probes_at_startup S \<and> (le_db E \<noteq> None \<or> pr_redis p0 \<and> le_ping E \<noteq> None) \<longrightarrow> e \<noteq> None)"
proof -
  define p2 where "p2 = p0\<lparr>pr_otel := init_observability (le_install E) (le_otel E) (le_build E) (le_new E) (le_cleans E) (pr_otel p0),
      pr_sink := le_persist E\<rparr>"
  define base where "base = [dispose_engine (lf_dispose F), sink_off, flush_spans (le_otel E) (lf_flushes F) :: 'a cleanup]"
  define stack where "stack = (if pr_redis p2 then close_redis (lf_close F) # base else base)"
  define probe where "probe = (if probes_at_startup S then eager_probe (le_db E) (le_ping E) p2 else (None, p2))"
  obtain f p3 where pr: "probe = (f, p3)" by (cases probe)
  have keep: "pr_redis p3 = pr_redis p2" "pr_sched p3 = pr_sched p0" "pr_redis p2 = pr_redis p0"
    using pr unfolding probe_def eager_probe_def by (auto simp: p2_def Let_def split: if_splits option.splits)
  have f: "probes_at_startup S \<and> (le_db E \<noteq> None \<or> pr_redis p0 \<and> le_ping E \<noteq> None) \<longrightarrow> f \<noteq> None"
    using pr keep unfolding probe_def eager_probe_def by (cases "le_db E") (auto simp: Let_def split: if_splits dest!: sym [of "Some _"])
  have rel: "released F q' \<and> pr_sched q' = pr_sched q \<and> (e0 \<noteq> None \<longrightarrow> e1 \<noteq> None)"
    if "unwind stack e0 q = (e1, q')" and "pr_redis q \<longrightarrow> pr_redis p2" for e0 q e1 q'
    using stack_releases [OF that (1) [unfolded stack_def] base_def that (2)] .
  have run: "lifespan S E F serve p0 = (case probe of
      (Some e, p3) \<Rightarrow> unwind stack (Some e) p3 | (None, p3) \<Rightarrow> start_and_serve E F serve stack p3)"
    unfolding lifespan_def Let_def probe_def stack_def base_def p2_def by simp
  show ?thesis
  proof (cases f)
    case (Some x)
    with l run pr have "unwind stack (Some x) p3 = (e, p)" by simp
    from rel [OF this] keep idle show ?thesis by auto
  next
    case None
    with l run pr have "start_and_serve E F serve stack p3 = (e, p)" by simp
    from start_and_serve_releases [OF this _ serve] rel keep f None show ?thesis by auto
  qed
qed

end
