(* ===== verification/Spec2Isabelle.thy ===== *)
theory Spec2Isabelle
  imports TokenTheorems GuardTheorems SessionTheorems AuthzTheorems DeptTheorems RoutingTheorems PostTheorems
    AccessTheorems UserTheorems BindingTheorems CatalogTheorems TaskTheorems
    FileTheorems IdempotencyTheorems ErrorTheorems SeedTheorems MonitorTheorems ApiTheorems
    WiringTheorems SchedulerTheorems BootstrapTheorems AuditTheorems AuthApi AppLock
    MySqlChecks Download Lifespan
begin

text \<open>
  Verification of the admin platform backend (\<^verbatim>\<open>src/admin_platform\<close>, FastAPI over MySQL and Redis).

  \<^bold>\<open>The program and its model.\<close>  A request passes the request-id middleware, the bearer-token middleware and
  the idempotency middleware, is routed to a handler, passes the handler's permission guard, and runs a
  service over repositories in one database transaction; success audit rows join that transaction,
  failure events go into a buffer that is flushed after the response.  Beside the requests, a scheduler in
  every worker process fires cron tasks, and a command line creates the super administrator, applies the
  built-in menus and deletes expired tokens.  The theories follow these parts.

  \<^item> \<^bold>\<open>Foundations.\<close>  \<open>Prelude\<close> (errors as sums, tables with generated keys, transactions, the collections
    of simplification rules), \<open>Schema\<close> (one record per ORM model of \<^verbatim>\<open>domains/*/models.py\<close>, the record \<open>db\<close>
    of all tables), \<open>Decimal\<close>, \<open>PyText\<close>, \<open>Regex\<close> (what the code uses of Python's \<^verbatim>\<open>int\<close>, \<^verbatim>\<open>str\<close> and \<^verbatim>\<open>re\<close>),
    \<open>AdjTree\<close> (trees by parent id and the recursive queries), \<open>Paging\<close> (\<^verbatim>\<open>core/pagination.py\<close>), \<open>RedisStore\<close>
    (Redis commands, each of which may fail).
  \<^item> \<^bold>\<open>Contracts.\<close>  Locales for what clients assume of providers: \<open>Crud\<close> (services over a table with a unique
    code) and \<open>TreeService\<close> (services over a tree), interpreted by the services that keep them; the storage
    backend of \<open>FileService\<close>, interpreted on the local file system; the named lock of \<open>Scheduler\<close>,
    interpreted on the MySQL lock.
  \<^item> \<^bold>\<open>Sessions.\<close>  \<open>Security\<close> and \<open>RefreshTokens\<close> (\<^verbatim>\<open>core/security.py\<close>, \<^verbatim>\<open>domains/auth/repository.py\<close>,
    \<^verbatim>\<open>refresh_service.py\<close>) with \<open>RefreshTokenFacts\<close>, \<open>RefreshTokenProps\<close>, \<open>TokenTheorems\<close>: rotation replaces the
    one live token, reuse and logout end a session for good, the session limit, the table invariant over
    all reachable states.  \<open>LoginGuard\<close>, \<open>AuthService\<close>, \<open>AuthApi\<close> (\<^verbatim>\<open>login_guard.py\<close>, \<^verbatim>\<open>captcha.py\<close>, \<^verbatim>\<open>service.py\<close>,
    \<^verbatim>\<open>api/v1/auth.py\<close>, \<^verbatim>\<open>api/v1/health.py\<close>) with \<open>GuardTheorems\<close>, \<open>AuthTheorems\<close>, \<open>SessionTheorems\<close>: what a
    login needs, lock-out, refusals that must commit, change of password.
  \<^item> \<^bold>\<open>Authorization.\<close>  \<open>DataScope\<close>, \<open>Authz\<close>, \<open>Permissions\<close> and \<open>AuthMiddleware\<close> (\<^verbatim>\<open>authz/*\<close>,
    \<^verbatim>\<open>domains/role/provider.py\<close>, \<^verbatim>\<open>core/permissions.py\<close>, \<^verbatim>\<open>core/auth.py\<close>) with \<open>AuthzTheorems\<close>: scopes as unions
    over roles, the guard, tokens that carry no rights.
  \<^item> \<^bold>\<open>Administration.\<close>  \<open>DeptService\<close>, \<open>MenuService\<close>, \<open>MenuRouting\<close>, \<open>RoleService\<close>, \<open>UserService\<close>,
    \<open>PostService\<close> with \<open>Excel\<close>, \<open>ConfigService\<close>, \<open>DictService\<close>, \<open>Bindings\<close>, \<open>AuditEvents\<close> (\<^verbatim>\<open>domains/*\<close>, \<^verbatim>\<open>excel/*\<close>,
    \<^verbatim>\<open>core/rbac_audit.py\<close>) with the theories \<open>DeptTheorems\<close>, \<open>MenuTheorems\<close>, \<open>RoutingTheorems\<close>, \<open>UserTheorems\<close>,
    \<open>PostTheorems\<close>, \<open>CatalogTheorems\<close>, \<open>BindingTheorems\<close>, \<open>AccessTheorems\<close>: invariants of the trees, confinement
    of writes to the caller's scope, completeness of lists and menus, import and export, escalation.
  \<^item> \<^bold>\<open>Files and retries.\<close>  \<open>FileService\<close>, \<open>FileTheorems\<close>: uploads against a specification on the whole
    content, listed files stay downloadable.  \<open>Download\<close>: what a client reads from the header of a
    download.  \<open>Idempotency\<close>, \<open>IdempotencyTheorems\<close>: one execution per key.
  \<^item> \<^bold>\<open>Scheduled tasks.\<close>  \<open>Cron\<close>, \<open>TaskRegistry\<close>, \<open>Executor\<close>, \<open>TaskService\<close>, \<open>TaskTheorems\<close>: the tick of a claim,
    at most one run per tick under any interleaving, no overlap, runs that end, stored tasks that can
    run.  \<open>Scheduler\<close>, \<open>SchedulerTheorems\<close> (\<^verbatim>\<open>scheduler.py\<close>): leadership and jobs follow a named MySQL lock.
  \<^item> \<^bold>\<open>Monitoring.\<close>  \<open>Monitor\<close>, \<open>MonitorTheorems\<close>: log views, online sessions, forced logout, cache panel.
  \<^item> \<^bold>\<open>The whole API.\<close>  \<open>Api\<close> (every handler, \<open>ep_\<close> and its name), \<open>Requests\<close> (the writing endpoints as one
    interface), \<open>ApiEffects\<close> and \<open>ApiTheorems\<close>: every write is authorised by the tables at its time and leaves one
    audit record, no sequence of requests of callers without super rights extends rights, the tables stay
    consistent.  \<open>Seed\<close>, \<open>SeedGrowth\<close>, \<open>SeedTheorems\<close>, \<open>Cli\<close>, \<open>BootstrapTheorems\<close> (\<^verbatim>\<open>rbac/seed.py\<close>, \<^verbatim>\<open>cli.py\<close>): the
    commands that set up a system establish that invariant.
  \<^item> \<^bold>\<open>Wiring.\<close>  \<open>Routes\<close>, \<open>AppConfig\<close>, \<open>WiringTheorems\<close> (routers, \<^verbatim>\<open>main.py\<close>, \<^verbatim>\<open>core/config.py\<close>): guards, registry
    and manifest agree, every endpoint is reached, the production gate.  \<open>ErrorMapping\<close>, \<open>ErrorTheorems\<close>
    (\<^verbatim>\<open>core/errors.py\<close>): races give the answers of the checks, failures hide internals.  \<open>RequestContext\<close>,
    \<open>AuditPersistence\<close>, \<open>AuditTheorems\<close> (\<^verbatim>\<open>core/middleware.py\<close>, \<^verbatim>\<open>audit/*\<close>): what an audit row holds and which rows
    survive a rollback.  \<open>AppLock\<close>, \<open>MySqlChecks\<close> (\<^verbatim>\<open>db/locks.py\<close>, \<^verbatim>\<open>db/mysql_capabilities.py\<close>): whoever gets a transaction
    lock holds it, and a table that passes the checks can hold every lock.  \<open>Lifespan\<close> (\<^verbatim>\<open>main.py\<close>,
    \<^verbatim>\<open>core/observability.py\<close>): a worker releases what it acquired on every path out.

  \<^bold>\<open>Conventions.\<close>  An operation is a function of the state that returns an exception (\<open>Inl\<close>) or a result with
  the new state (\<open>Inr\<close>); an exception leaves the state as the enclosing transaction does.  Exceptions are
  \<open>AppErr code status\<close>, \<open>IntegrityErr constraint\<close> (what the database refuses) and \<open>RuntimeErr name\<close>.  A table is
  its rows in order of insertion and the next key.  Instants are integers, UTC microseconds, and exact but for
  \<open>column_time\<close> of \<open>Executor\<close>, where the code compares a stored DATETIME (whole seconds) with the clock; an
  operation that reads the clock several times within one transaction has one reading.  Strings are lists of
  characters below 256, compared exactly, as the collation \<^verbatim>\<open>utf8mb4_0900_bin\<close> does; display names and
  messages in Chinese are arguments or labels.  Random values (UUIDs, salts, secrets) are arguments.

  \<^bold>\<open>Transactions.\<close>  Each transaction is one step.  Where the code runs several (login, task runs, uploads), or
  where another may commit between a look-up and a lock (forced logout, claims), the steps are separate and
  the properties quantify over what happens between them.

  \<^bold>\<open>Parameters.\<close>  Argon2, HMAC and JWT are fields of \<open>crypto\<close> and \<open>jwt_decoder\<close> with their laws as hypotheses
  (\<open>jwt_laws\<close>); APScheduler's cron trigger and the zone database are \<open>cron_lib\<close>, of which \<open>fires_at\<close> states that it
  yields the next fire time; openpyxl and zipfile are functions on file contents; FastAPI's dispatch tries
  routes in order (\<open>routes_in_order\<close>); \<^verbatim>\<open>psutil\<close> and the operating system are values.  Every hypothesis has a
  witness with a concrete instance.

  \<^bold>\<open>Bounds and fuel.\<close>  The recursive queries stop at depth 64, as in the code, and the properties say what
  this costs.  The menu forest is built with fuel one more than the number of menus, which \<open>RoutingTheorems\<close>
  proves enough on acyclic tables; the search for a cron tick has fuel for one step per microsecond of its
  window (\<open>tick_fuel\<close>), which \<open>cron_tick_is_last_fire\<close> needs; other loops are structural or have a measure.

  \<^bold>\<open>Not modelled.\<close>  Logging (\<^verbatim>\<open>core/logging.py\<close>) and the spans themselves have no effect on the state; the
  options of the engine and its pool (\<^verbatim>\<open>db/engine.py\<close>) and the time-zone conversion of columns (\<^verbatim>\<open>db/base.py\<close>) are
  SQLAlchemy's; pydantic schemas without checks of their own and the OpenAPI document are
  the framework's; the server panel copies values of \<^verbatim>\<open>psutil\<close>.  Alembic migrations, the module generator and
  the MySQL scripts under \<^verbatim>\<open>scripts\<close> are development tools.  The retries after a deadlock of a claim repeat a
  step that has had no effect.  The order in which the framework commits, sends the response and runs
  background tasks is not fixed by this code; the properties that depend on it say so.
\<close>

end
